(* ===== verification/Ace_Prelude.thy ===== *)
theory Ace_Prelude
  imports Main "HOL-Library.Word" "HOL-Library.Multiset"
begin

text \<open>
  The vocabulary shared by all components of the ACE security monitor model.

  \<^item> \<open>usize\<close> is a 64-bit word; the monitor is built with \<^verbatim>\<open>overflow-checks = true\<close>
    (\<^verbatim>\<open>security-monitor/Cargo.toml\<close>), so \<open>+\<close>, \<open>-\<close> and \<open>*\<close> on \<open>usize\<close> panic on overflow:
    \<open>add_usize\<close>, \<open>sub_usize\<close>, \<open>mul_usize\<close>.
  \<^item> \<open>result\<close> is Rust's \<^verbatim>\<open>Result\<close> extended by the outcome \<open>Panic\<close> (a failed assertion, an
    \<^verbatim>\<open>unwrap\<close> of an error, an overflow). \<open>and_then\<close> is the \<^verbatim>\<open>?\<close> operator.
  \<^item> \<open>st\<close> threads a state through fallible operations. The state is returned with an
    error as well, since what a Rust function changed before it returned an error stays changed.
\<close>

named_theorems res_simps \<open>inversion of successful computations\<close>
named_theorems page_simps \<open>facts on page sizes and page tokens\<close>

section \<open>Results, errors and panics\<close>

type_synonym usize = "64 word"

datatype ('e, 'a) result = Ok 'a | Err 'e | Panic

primrec and_then :: "('e, 'a) result \<Rightarrow> ('a \<Rightarrow> ('e, 'b) result) \<Rightarrow> ('e, 'b) result" where
  "and_then (Ok a) f = f a"
| "and_then (Err e) f = Err e"
| "and_then Panic f = Panic"

primrec map_err :: "('e \<Rightarrow> 'f) \<Rightarrow> ('e, 'a) result \<Rightarrow> ('f, 'a) result" where
  "map_err g (Ok a) = Ok a"
| "map_err g (Err e) = Err (g e)"
| "map_err g Panic = Panic"

primrec unwrap :: "('e, 'a) result \<Rightarrow> ('f, 'a) result" where
  "unwrap (Ok a) = Ok a"
| "unwrap (Err e) = Panic"
| "unwrap Panic = Panic"

definition unwrap_option :: "'a option \<Rightarrow> ('e, 'a) result" where
  "unwrap_option x = (case x of None \<Rightarrow> Panic | Some a \<Rightarrow> Ok a)"

definition ok_or :: "'a option \<Rightarrow> 'e \<Rightarrow> ('e, 'a) result" where
  "ok_or x e = (case x of None \<Rightarrow> Err e | Some a \<Rightarrow> Ok a)"

definition assure :: "bool \<Rightarrow> 'e \<Rightarrow> ('e, unit) result" where
  "assure c e = (if c then Ok () else Err e)"

definition assure_not :: "bool \<Rightarrow> 'e \<Rightarrow> ('e, unit) result" where
  "assure_not c e = (if c then Err e else Ok ())"

definition assert_that :: "bool \<Rightarrow> ('e, unit) result" where
  "assert_that c = (if c then Ok () else Panic)"

primrec is_ok :: "('e, 'a) result \<Rightarrow> bool" where
  "is_ok (Ok a) = True"
| "is_ok (Err e) = False"
| "is_ok Panic = False"

lemma and_then_eq_Ok [res_simps]:
  "and_then m f = Ok b \<longleftrightarrow> (\<exists>a. m = Ok a \<and> f a = Ok b)"
  by (cases m) auto

lemma map_err_eq_Ok [res_simps]: "map_err g m = Ok a \<longleftrightarrow> m = Ok a"
  by (cases m) auto

lemma unwrap_eq_Ok [res_simps]: "unwrap m = Ok a \<longleftrightarrow> m = Ok a"
  by (cases m) auto

lemma unwrap_option_eq_Ok [res_simps]: "unwrap_option x = Ok a \<longleftrightarrow> x = Some a"
  by (auto simp: unwrap_option_def split: option.splits)

lemma ok_or_eq_Ok [res_simps]: "ok_or x e = Ok a \<longleftrightarrow> x = Some a"
  by (auto simp: ok_or_def split: option.splits)

lemma assure_eq_Ok [res_simps]: "assure c e = Ok u \<longleftrightarrow> c"
  by (auto simp: assure_def)

lemma assure_not_eq_Ok [res_simps]: "assure_not c e = Ok u \<longleftrightarrow> \<not> c"
  by (auto simp: assure_not_def)

lemma assert_that_eq_Ok [res_simps]: "assert_that c = Ok u \<longleftrightarrow> c"
  by (auto simp: assert_that_def)

lemma assert_that_simps [simp]: "assert_that True = Ok ()" "assert_that False = Panic"
  by (simp_all add: assert_that_def)

lemma assure_simps [simp]: "assure True e = Ok ()" "assure False e = Err e"
  by (simp_all add: assure_def)

lemma assure_not_simps [simp]: "assure_not True e = Err e" "assure_not False e = Ok ()"
  by (simp_all add: assure_not_def)

lemma option_lift_simps [simp]:
  "unwrap_option (Some a) = Ok a" "unwrap_option None = Panic"
  "ok_or (Some a) e = Ok a" "ok_or None e = Err e"
  by (simp_all add: unwrap_option_def ok_or_def)

lemma is_ok_iff: "is_ok m \<longleftrightarrow> (\<exists>a. m = Ok a)"
  by (cases m) auto

section \<open>Stateful computations\<close>

type_synonym ('s, 'e, 'a) st = "'s \<Rightarrow> ('e, 'a) result \<times> 's"

definition ret :: "'a \<Rightarrow> ('s, 'e, 'a) st" where
  "ret a s = (Ok a, s)"

definition lift :: "('e, 'a) result \<Rightarrow> ('s, 'e, 'a) st" where
  "lift r s = (r, s)"

definition sbind :: "('s, 'e, 'a) st \<Rightarrow> ('a \<Rightarrow> ('s, 'e, 'b) st) \<Rightarrow> ('s, 'e, 'b) st" where
  "sbind m f s = (case m s of (r, t) \<Rightarrow>
     (case r of Ok a \<Rightarrow> f a t | Err e \<Rightarrow> (Err e, t) | Panic \<Rightarrow> (Panic, t)))"

primrec traverse :: "('a \<Rightarrow> ('s, 'e, 'b) st) \<Rightarrow> 'a list \<Rightarrow> ('s, 'e, 'b list) st" where
  "traverse f [] = ret []"
| "traverse f (x # xs) = sbind (f x) (\<lambda>y. sbind (traverse f xs) (\<lambda>ys. ret (y # ys)))"

primrec for_each :: "('a \<Rightarrow> ('s, 'e, unit) st) \<Rightarrow> 'a list \<Rightarrow> ('s, 'e, unit) st" where
  "for_each f [] = ret ()"
| "for_each f (x # xs) = sbind (f x) (\<lambda>_. for_each f xs)"

definition sunwrap :: "('s, 'e, 'a) st \<Rightarrow> ('s, 'f, 'a) st" where
  "sunwrap m s = (case m s of (r, t) \<Rightarrow> (unwrap r, t))"

definition smap_err :: "('e \<Rightarrow> 'f) \<Rightarrow> ('s, 'e, 'a) st \<Rightarrow> ('s, 'f, 'a) st" where
  "smap_err g m s = (case m s of (r, t) \<Rightarrow> (map_err g r, t))"

text \<open>Clean-up that runs when a function returns early with an error (Rust drops the values that
  are then in scope).\<close>

definition on_error :: "('s, 'e, 'a) st \<Rightarrow> ('s, 'e, unit) st \<Rightarrow> ('s, 'e, 'a) st" where
  "on_error m cleanup s = (case m s of
      (Err e, t) \<Rightarrow> (case cleanup t of (Panic, u) \<Rightarrow> (Panic, u) | (_, u) \<Rightarrow> (Err e, u))
    | (Ok a, t) \<Rightarrow> (Ok a, t)
    | (Panic, t) \<Rightarrow> (Panic, t))"

lemma ret_eq [res_simps]: "ret a s = (Ok b, t) \<longleftrightarrow> a = b \<and> s = t"
  by (auto simp: ret_def)

lemma lift_eq [res_simps]: "lift r s = (q, t) \<longleftrightarrow> r = q \<and> s = t"
  by (auto simp: lift_def)

lemma sbind_eq_Ok [res_simps]:
  "sbind m f s = (Ok b, t) \<longleftrightarrow> (\<exists>a u. m s = (Ok a, u) \<and> f a u = (Ok b, t))"
  by (auto simp: sbind_def split: prod.splits result.splits)

lemma sunwrap_eq_Ok [res_simps]: "sunwrap m s = (Ok a, t) \<longleftrightarrow> m s = (Ok a, t)"
  by (auto simp: sunwrap_def res_simps split: prod.splits)

lemma smap_err_eq_Ok [res_simps]: "smap_err g m s = (Ok a, t) \<longleftrightarrow> m s = (Ok a, t)"
  by (auto simp: smap_err_def res_simps split: prod.splits)

lemma for_each_append:
  "for_each f (xs @ ys) = sbind (for_each f xs) (\<lambda>_. for_each f ys)"
proof
  fix s
  show "for_each f (xs @ ys) s = sbind (for_each f xs) (\<lambda>_. for_each f ys) s"
    by (induction xs arbitrary: s)
       (auto simp: sbind_def ret_def fun_eq_iff split: prod.splits result.splits)
qed

lemma sbind_Ok: "m s = (Ok a, t) \<Longrightarrow> sbind m f s = f a t"
  by (simp add: sbind_def)

lemma sbind_run: "m s = (r, t) \<Longrightarrow> sbind m f s =
    (case r of Ok a \<Rightarrow> f a t | Err e \<Rightarrow> (Err e, t) | Panic \<Rightarrow> (Panic, t))"
  by (simp add: sbind_def)

lemma on_error_run: "m s = (r, t) \<Longrightarrow> on_error m h s =
    (case r of Ok a \<Rightarrow> (Ok a, t) | Panic \<Rightarrow> (Panic, t)
     | Err e \<Rightarrow> (case h t of (Panic, u) \<Rightarrow> (Panic, u) | (_, u) \<Rightarrow> (Err e, u)))"
  by (simp add: on_error_def split: result.splits)

lemma sbind_Err: "m s = (Err e, t) \<Longrightarrow> sbind m f s = (Err e, t)"
  by (simp add: sbind_def)

lemma sbind_lift: "sbind (lift r) f s =
    (case r of Ok a \<Rightarrow> f a s | Err e \<Rightarrow> (Err e, s) | Panic \<Rightarrow> (Panic, s))"
  by (simp add: sbind_def lift_def)

text \<open>An invariant that every step keeps is kept by a whole sequence of steps, whether the
  sequence succeeds, returns early with an error, or panics.\<close>

lemma sbind_inv:
  assumes "P (snd (m s))" and "\<And>a t. m s = (Ok a, t) \<Longrightarrow> P t \<Longrightarrow> P (snd (f a t))"
  shows "P (snd (sbind m f s))"
  using assms by (auto simp: sbind_def split: prod.splits result.splits)

lemma for_each_inv:
  assumes "P s" and "\<And>x t. x \<in> set xs \<Longrightarrow> P t \<Longrightarrow> P (snd (f x t))"
  shows "P (snd (for_each f xs s))"
  using assms
proof (induction xs arbitrary: s)
  case Nil
  then show ?case by (simp add: ret_def)
next
  case (Cons x xs)
  show ?case unfolding for_each.simps
  proof (rule sbind_inv)
    show "P (snd (f x s))" using Cons.prems by simp
    show "P (snd (for_each f xs t))" if "f x s = (Ok a, t)" "P t" for a t
      using Cons.IH [OF that(2)] Cons.prems(2) by simp
  qed
qed

primrec try_map :: "('a \<Rightarrow> ('e, 'b) result) \<Rightarrow> 'a list \<Rightarrow> ('e, 'b list) result" where
  "try_map f [] = Ok []"
| "try_map f (x # xs) = and_then (f x) (\<lambda>y. and_then (try_map f xs) (\<lambda>ys. Ok (y # ys)))"

lemma try_map_total:
  "(\<And>x. x \<in> set xs \<Longrightarrow> f x = Ok (g x)) \<Longrightarrow> try_map f xs = Ok (map g xs)"
  by (induction xs) auto

section \<open>Checked arithmetic\<close>

definition add_usize :: "usize \<Rightarrow> usize \<Rightarrow> ('e, usize) result" where
  "add_usize a b = (if unat a + unat b < 2 ^ 64 then Ok (a + b) else Panic)"

definition sub_usize :: "usize \<Rightarrow> usize \<Rightarrow> ('e, usize) result" where
  "sub_usize a b = (if b \<le> a then Ok (a - b) else Panic)"

definition mul_usize :: "usize \<Rightarrow> usize \<Rightarrow> ('e, usize) result" where
  "mul_usize a b = (if unat a * unat b < 2 ^ 64 then Ok (a * b) else Panic)"

lemma add_usize_eq_Ok [res_simps]:
  "add_usize a b = Ok c \<longleftrightarrow> unat a + unat b < 2 ^ 64 \<and> c = a + b"
  by (auto simp: add_usize_def)

lemma mul_usize_eq_Ok [res_simps]:
  "mul_usize a b = Ok c \<longleftrightarrow> unat a * unat b < 2 ^ 64 \<and> c = a * b"
  by (auto simp: mul_usize_def)

lemma unat_add_usize: "unat (a :: usize) + unat b < 2 ^ 64 \<Longrightarrow> unat (a + b) = unat a + unat b"
  by (simp add: unat_word_ariths)

lemma unat_mul_usize: "unat (a :: usize) * unat b < 2 ^ 64 \<Longrightarrow> unat (a * b) = unat a * unat b"
  by (simp add: unat_word_ariths)

lemma unat_lt_usize [simp]: "unat (a :: usize) < 18446744073709551616"
  using unsigned_less [of a] by simp

lemma unat_add_usize_wrap:
  "2 ^ 64 \<le> unat (a :: usize) + unat b \<Longrightarrow> unat (a + b) = unat a + unat b - 2 ^ 64"
  using unat_lt_usize [of a] unat_lt_usize [of b]
  by (simp add: unat_word_ariths mod_if [of "unat a + unat b"] del: unat_lt_usize)

lemma usize_add_greater:
  assumes "0 < (b :: usize)"
  shows "\<not> a + b \<le> a \<longleftrightarrow> unat a + unat b < 2 ^ 64"
proof (cases "unat a + unat b < 2 ^ 64")
  case True
  with assms show ?thesis
    by (simp add: word_le_nat_alt word_less_nat_alt unat_add_usize)
next
  case False
  then have "unat (a + b) \<le> unat a"
    using unat_add_usize_wrap [of a b] unat_lt_usize [of b] by (simp del: unat_lt_usize)
  with False show ?thesis by (simp add: word_le_nat_alt)
qed

section \<open>Searching a range with a fallible predicate\<close>

text \<open>\<^verbatim>\<open>Iterator::all\<close> and \<^verbatim>\<open>Iterator::find\<close> over a range, with a closure that may panic.\<close>

primrec try_all :: "('a \<Rightarrow> ('e, bool) result) \<Rightarrow> 'a list \<Rightarrow> ('e, bool) result" where
  "try_all f [] = Ok True"
| "try_all f (x # xs) = and_then (f x) (\<lambda>b. if b then try_all f xs else Ok False)"

primrec try_find :: "('a \<Rightarrow> ('e, bool) result) \<Rightarrow> 'a list \<Rightarrow> ('e, 'a option) result" where
  "try_find f [] = Ok None"
| "try_find f (x # xs) = and_then (f x) (\<lambda>b. if b then Ok (Some x) else try_find f xs)"

lemma try_all_total:
  "(\<And>x. x \<in> set xs \<Longrightarrow> f x = Ok (p x)) \<Longrightarrow> try_all f xs = Ok (list_all p xs)"
  by (induction xs) auto

lemma try_find_total:
  "(\<And>x. x \<in> set xs \<Longrightarrow> f x = Ok (p x)) \<Longrightarrow> try_find f xs = Ok (List.find p xs)"
  by (induction xs) auto

lemma try_find_Some: "try_find f xs = Ok (Some x) \<Longrightarrow> x \<in> set xs \<and> f x = Ok True"
  by (induction xs) (auto simp: res_simps split: if_splits)

lemma try_all_True: "try_all f xs = Ok True \<longleftrightarrow> (\<forall>x \<in> set xs. f x = Ok True)"
  by (induction xs) (auto simp: res_simps split: if_splits)

end
