(* ===== verification/Errors.thy ===== *)
theory Errors
  imports Ace_Prelude
begin

text \<open>
  The error types of the monitor: \<^verbatim>\<open>security-monitor/src/error.rs\<close> and the errors of the two
  helper crates it wraps. \<open>DevTreeError\<close> belongs to the third-party crate \<^verbatim>\<open>fdt_rs\<close>; its
  content is never inspected, so \<open>FdtErrorParsing\<close> carries none.
\<close>

datatype pointer_error = Overflow

datatype fdt_error = FdtPointerNotAligned | FdtErrorParsing | NoMemoryNode

datatype init_type = NotEnoughMemory | MemoryBoundary

datatype hardware_features = InvalidCpuArch | NoCpuExtension char | NotEnoughPmps

datatype error =
    Init init_type
  | Reinitialization
  | NotSupportedHardware hardware_features
  | FdtParsing
  | SbiArgument
  | OutOfMemory
  | OutOfPages
  | PageTableConfigurationError
  | AddressTranslationFailed
  | PageTableCorrupted
  | TooManyConfidentialVms
  | UnsupportedPagingMode
  | MemoryAccessAuthorization
  | PendingRequestError
  | InvalidHartId
  | ReachedMaxNumberOfHartsPerVm
  | InvalidConfidentialVmId
  | HartAlreadyRunning
  | HartNotExecutable
  | InvalidRiscvInstruction usize
  | InvalidCall usize
  | PointerError pointer_error
  | ReachedMaxNumberOfRemoteHartRequests
  | InterruptSendingError
  | CannotStartNotStoppedHart
  | CannotStopNotStartedHart
  | CannotSuspedNotStartedHart
  | CannotStartNotSuspendedHart
  | DeviceTreeError fdt_error

type_synonym 'a res = "(error, 'a) result"

end
