(* ===== verification/Registers.thy ===== *)
theory Registers
  imports Errors "HOL-Library.Word"
begin

unbundle bit_operations_syntax

text \<open>
  The register state of a hart: \<^verbatim>\<open>core/architecture/riscv/mod.rs\<close> (bit helpers),
  \<^verbatim>\<open>general_purpose_registers.rs\<close>, \<^verbatim>\<open>floating_point_registers.rs\<close>,
  \<^verbatim>\<open>control_status_registers.rs\<close> (the CSR file), \<^verbatim>\<open>fence.rs\<close> and
  \<^verbatim>\<open>hart_architectural_state.rs\<close>.

  \<^item> The array \<^verbatim>\<open>[usize; 32]\<close> behind \<^verbatim>\<open>GeneralPurposeRegisters\<close> is indexed by the enumeration
    \<open>general_purpose_register\<close>; \<open>index\<close> and \<open>from_index\<close> are the conversions of the code, and
    \<open>from_index_index\<close>, \<open>index_from_index\<close> show that they are inverse bijections with \<open>{0..<32}\<close>.
  \<^item> The CSRs of the executing hart are one 64-bit cell for each register the code names;
    \<open>csrr\<close>, \<open>csrw\<close>, \<open>csrrs\<close> and \<open>csrrc\<close> are \<open>read_csr\<close>, \<open>set_csr\<close>, \<open>read_and_set_bits\<close> and
    \<open>read_and_clear_bits\<close>. Registers that the hardware overlays on each other (\<open>sstatus\<close> on
    \<open>mstatus\<close>, \<open>sie\<close> on \<open>mie\<close>, \<open>hvip\<close> and \<open>vsip\<close> on \<open>mip\<close>) and read-only fields are not
    modelled as such: each name is a cell of its own.
  \<^item> The fields of \<^verbatim>\<open>HartArchitecturalState\<close> that hold the dump of a CSR are the cells of
    \<open>dump\<close>, named by the CSR.
\<close>

section \<open>Bits of a register\<close>

definition enable_bits :: "usize \<Rightarrow> usize \<Rightarrow> usize" where
  "enable_bits register_value bit_mask = register_value OR bit_mask"

definition enable_bit :: "usize \<Rightarrow> nat \<Rightarrow> usize" where
  "enable_bit register_value bit_index = enable_bits register_value (push_bit bit_index 1)"

definition disable_bits :: "usize \<Rightarrow> usize \<Rightarrow> usize" where
  "disable_bits register_value bit_mask = register_value AND NOT bit_mask"

definition disable_bit :: "usize \<Rightarrow> nat \<Rightarrow> usize" where
  "disable_bit register_value bit_index = disable_bits register_value (push_bit bit_index 1)"

definition are_bits_enabled :: "usize \<Rightarrow> usize \<Rightarrow> bool" where
  "are_bits_enabled register_value bit_mask \<longleftrightarrow> register_value AND bit_mask > 0"

definition is_bit_enabled :: "usize \<Rightarrow> nat \<Rightarrow> bool" where
  "is_bit_enabled register_value bit_index = are_bits_enabled register_value (push_bit bit_index 1)"

lemma and_push_bit_one: "(w :: usize) AND push_bit n 1 = (if bit w n then push_bit n 1 else 0)"
  by (rule bit_eqI) (auto simp: bit_simps)

lemma push_bit_one_positive: "n < 64 \<Longrightarrow> 0 < push_bit n (1 :: usize)"
proof -
  assume "n < 64"
  then have "bit (push_bit n (1 :: usize)) n" by (simp add: bit_simps)
  then have "push_bit n (1 :: usize) \<noteq> 0" by (metis bit_0_eq bot_apply bot_bool_def)
  then show "0 < push_bit n (1 :: usize)" by (simp only: word_neq_0_conv)
qed

lemma is_bit_enabled_iff [simp]: "is_bit_enabled w n \<longleftrightarrow> bit w n"
  unfolding is_bit_enabled_def are_bits_enabled_def and_push_bit_one
  using push_bit_one_positive bit_imp_le_length [of w n]
  by (cases "bit w n") (simp_all add: less_eq_word_def del: push_bit_of_1)

lemma bit_enable_bit [simp]: "bit (enable_bit w n) m \<longleftrightarrow> bit w m \<or> m = n \<and> n < 64"
  by (auto simp: enable_bit_def enable_bits_def bit_simps)

lemma bit_disable_bit [simp]: "bit (disable_bit w n) m \<longleftrightarrow> bit w m \<and> m \<noteq> n"
  by (auto simp: disable_bit_def disable_bits_def bit_simps dest: bit_imp_le_length)

section \<open>A register file\<close>

text \<open>The contract that every client of a set of registers relies on: a write changes the written
  register only.\<close>

locale register_file =
  fixes get :: "'s \<Rightarrow> 'r \<Rightarrow> 'v" and put :: "'s \<Rightarrow> 'r \<Rightarrow> 'v \<Rightarrow> 's"
  assumes get_put: "get (put s r v) q = (if q = r then v else get s q)"
begin

definition put_all :: "'r list \<Rightarrow> ('r \<Rightarrow> 'v) \<Rightarrow> 's \<Rightarrow> 's" where
  "put_all rs f s = foldl (\<lambda>s r. put s r (f r)) s rs"

lemma put_all_simps [simp]:
  "put_all [] f s = s" "put_all (r # rs) f s = put_all rs f (put s r (f r))"
  by (simp_all add: put_all_def)

lemma get_put_all: "get (put_all rs f s) q = (if q \<in> set rs then f q else get s q)"
  by (induction rs arbitrary: s) (auto simp: get_put)

lemma put_all_restores:
  assumes "set rs \<subseteq> set saved"
  shows "get (put_all rs (\<lambda>r. if r \<in> set saved then get s r else d r) t) q =
    (if q \<in> set rs then get s q else get t q)"
  using assms by (auto simp: get_put_all)

end

section \<open>General purpose registers\<close>

datatype general_purpose_register =
    gpr_zero | gpr_ra | gpr_sp | gpr_gp | gpr_tp | gpr_t0 | gpr_t1 | gpr_t2 | gpr_s0 | gpr_s1
    | gpr_a0 | gpr_a1 | gpr_a2 | gpr_a3 | gpr_a4 | gpr_a5 | gpr_a6 | gpr_a7 | gpr_s2 | gpr_s3
    | gpr_s4 | gpr_s5 | gpr_s6 | gpr_s7 | gpr_s8 | gpr_s9 | gpr_s10 | gpr_s11 | gpr_t3 | gpr_t4
    | gpr_t5 | gpr_t6

primrec index :: "general_purpose_register \<Rightarrow> usize" where
  "index gpr_zero = 0"
| "index gpr_ra = 1"
| "index gpr_sp = 2"
| "index gpr_gp = 3"
| "index gpr_tp = 4"
| "index gpr_t0 = 5"
| "index gpr_t1 = 6"
| "index gpr_t2 = 7"
| "index gpr_s0 = 8"
| "index gpr_s1 = 9"
| "index gpr_a0 = 10"
| "index gpr_a1 = 11"
| "index gpr_a2 = 12"
| "index gpr_a3 = 13"
| "index gpr_a4 = 14"
| "index gpr_a5 = 15"
| "index gpr_a6 = 16"
| "index gpr_a7 = 17"
| "index gpr_s2 = 18"
| "index gpr_s3 = 19"
| "index gpr_s4 = 20"
| "index gpr_s5 = 21"
| "index gpr_s6 = 22"
| "index gpr_s7 = 23"
| "index gpr_s8 = 24"
| "index gpr_s9 = 25"
| "index gpr_s10 = 26"
| "index gpr_s11 = 27"
| "index gpr_t3 = 28"
| "index gpr_t4 = 29"
| "index gpr_t5 = 30"
| "index gpr_t6 = 31"

definition gpr_table :: "general_purpose_register list" where
  "gpr_table = [gpr_zero, gpr_ra, gpr_sp, gpr_gp, gpr_tp, gpr_t0, gpr_t1, gpr_t2, gpr_s0, gpr_s1, gpr_a0
     , gpr_a1, gpr_a2, gpr_a3, gpr_a4, gpr_a5, gpr_a6, gpr_a7, gpr_s2, gpr_s3, gpr_s4, gpr_s5
     , gpr_s6, gpr_s7, gpr_s8, gpr_s9, gpr_s10, gpr_s11, gpr_t3, gpr_t4, gpr_t5, gpr_t6]"

text \<open>\<^verbatim>\<open>from_index\<close> is a \<^verbatim>\<open>match\<close> from 0 to 31, in the order of the enumeration.\<close>

definition from_index :: "usize \<Rightarrow> general_purpose_register option" where
  "from_index i = (if i < 32 then Some (gpr_table ! unat i) else None)"

type_synonym general_purpose_registers = "general_purpose_register \<Rightarrow> usize"

definition GeneralPurposeRegisters_empty :: general_purpose_registers where
  "GeneralPurposeRegisters_empty = (\<lambda>_. 0)"

definition GeneralPurposeRegisters_clone :: "general_purpose_registers \<Rightarrow> general_purpose_registers" where
  "GeneralPurposeRegisters_clone regs = (\<lambda>x. regs x)"

definition GeneralPurposeRegisters_set ::
    "general_purpose_registers \<Rightarrow> general_purpose_register \<Rightarrow> usize \<Rightarrow> general_purpose_registers" where
  "GeneralPurposeRegisters_set regs register v = regs(register := v)"

definition GeneralPurposeRegisters_get ::
    "general_purpose_registers \<Rightarrow> general_purpose_register \<Rightarrow> usize" where
  "GeneralPurposeRegisters_get regs register = regs register"

interpretation gpr_file: register_file GeneralPurposeRegisters_get GeneralPurposeRegisters_set
  by unfold_locales (simp add: GeneralPurposeRegisters_get_def GeneralPurposeRegisters_set_def)

lemma gpr_table_index: "gpr_table ! unat (index r) = r"
  by (cases r) (simp_all add: gpr_table_def)

lemma from_index_index: "from_index (index r) = Some r"
  by (cases r) (simp_all add: from_index_def gpr_table_def)

lemma index_gpr_table: "n < 32 \<Longrightarrow> index (gpr_table ! n) = of_nat n"
proof -
  have "list_all (\<lambda>n. index (gpr_table ! n) = of_nat n) [0..<32]"
    by (simp add: gpr_table_def upt_rec)
  then show "n < 32 \<Longrightarrow> index (gpr_table ! n) = of_nat n" by (simp add: list_all_iff)
qed

lemma index_from_index: "from_index i = Some r \<Longrightarrow> index r = i"
  using index_gpr_table [of "unat i"]
  by (auto simp: from_index_def word_less_nat_alt split: if_splits)

text \<open>\<^verbatim>\<open>FloatingPointRegisters\<close>: the array is copied and cleared as a whole, never accessed by
  register.\<close>

type_synonym floating_point_registers = "usize list"

definition FloatingPointRegisters_empty :: floating_point_registers where
  "FloatingPointRegisters_empty = replicate 32 0"

definition FloatingPointRegisters_clone :: "floating_point_registers \<Rightarrow> floating_point_registers" where
  "FloatingPointRegisters_clone regs = (if length regs = 32 then map (\<lambda>x. regs ! x) [0..<32] else replicate 32 0)"

lemma FloatingPointRegisters_clone_id:
  "length regs = 32 \<Longrightarrow> FloatingPointRegisters_clone regs = regs"
  by (simp add: FloatingPointRegisters_clone_def list_eq_iff_nth_eq)

section \<open>Control and status registers\<close>

text \<open>The registers of \<^verbatim>\<open>struct ControlStatusRegister\<close>, named by the constant that is their type
  argument.\<close>

datatype csr =
    CSR_MEPC | CSR_MCAUSE | CSR_MEDELEG | CSR_MIDELEG | CSR_MIE | CSR_MIP | CSR_MSTATUS
    | CSR_MTINST | CSR_MTVAL | CSR_MTVAL2 | CSR_MTVEC | CSR_MSCRATCH | CSR_MHARTID | CSR_SSTATUS
    | CSR_SEPC | CSR_SCOUNTEREN | CSR_SIP | CSR_SIE | CSR_SCAUSE | CSR_STVEC | CSR_STVAL
    | CSR_SSCRATCH | CSR_STIMECMP | CSR_HSTATUS | CSR_HEDELEG | CSR_HIDELEG | CSR_HTINST
    | CSR_HTVAL | CSR_HVIP | CSR_HGEIP | CSR_HIE | CSR_HIP | CSR_HGATP | CSR_VSSTATUS | CSR_VSIE
    | CSR_VSIP | CSR_VSTVEC | CSR_VSSCRATCH | CSR_VSEPC | CSR_VSCAUSE | CSR_VSTVAL | CSR_VSATP
    | CSR_VSTIMECMP | CSR_HTIMEDELTA | CSR_FCSR | CSR_PMPCFG0 | CSR_PMPADDR0 | CSR_PMPADDR1

primrec csr_number :: "csr \<Rightarrow> 16 word" where
  "csr_number CSR_MEPC = 0x341"
| "csr_number CSR_MCAUSE = 0x342"
| "csr_number CSR_MEDELEG = 0x302"
| "csr_number CSR_MIDELEG = 0x303"
| "csr_number CSR_MIE = 0x304"
| "csr_number CSR_MIP = 0x344"
| "csr_number CSR_MSTATUS = 0x300"
| "csr_number CSR_MTINST = 0x34a"
| "csr_number CSR_MTVAL = 0x343"
| "csr_number CSR_MTVAL2 = 0x34b"
| "csr_number CSR_MTVEC = 0x305"
| "csr_number CSR_MSCRATCH = 0x340"
| "csr_number CSR_MHARTID = 0xf14"
| "csr_number CSR_SSTATUS = 0x100"
| "csr_number CSR_SEPC = 0x141"
| "csr_number CSR_SCOUNTEREN = 0x106"
| "csr_number CSR_SIP = 0x144"
| "csr_number CSR_SIE = 0x104"
| "csr_number CSR_SCAUSE = 0x142"
| "csr_number CSR_STVEC = 0x105"
| "csr_number CSR_STVAL = 0x143"
| "csr_number CSR_SSCRATCH = 0x140"
| "csr_number CSR_STIMECMP = 0x14d"
| "csr_number CSR_HSTATUS = 0x600"
| "csr_number CSR_HEDELEG = 0x602"
| "csr_number CSR_HIDELEG = 0x603"
| "csr_number CSR_HTINST = 0x64a"
| "csr_number CSR_HTVAL = 0x643"
| "csr_number CSR_HVIP = 0x645"
| "csr_number CSR_HGEIP = 0xe12"
| "csr_number CSR_HIE = 0x604"
| "csr_number CSR_HIP = 0x644"
| "csr_number CSR_HGATP = 0x680"
| "csr_number CSR_VSSTATUS = 0x200"
| "csr_number CSR_VSIE = 0x204"
| "csr_number CSR_VSIP = 0x244"
| "csr_number CSR_VSTVEC = 0x205"
| "csr_number CSR_VSSCRATCH = 0x240"
| "csr_number CSR_VSEPC = 0x241"
| "csr_number CSR_VSCAUSE = 0x242"
| "csr_number CSR_VSTVAL = 0x243"
| "csr_number CSR_VSATP = 0x280"
| "csr_number CSR_VSTIMECMP = 0x24d"
| "csr_number CSR_HTIMEDELTA = 0x605"
| "csr_number CSR_FCSR = 0x3"
| "csr_number CSR_PMPCFG0 = 0x3a0"
| "csr_number CSR_PMPADDR0 = 0x3b0"
| "csr_number CSR_PMPADDR1 = 0x3b1"

definition all_csrs :: "csr list" where
  "all_csrs = [CSR_MEPC, CSR_MCAUSE, CSR_MEDELEG, CSR_MIDELEG, CSR_MIE, CSR_MIP, CSR_MSTATUS, CSR_MTINST
   , CSR_MTVAL, CSR_MTVAL2, CSR_MTVEC, CSR_MSCRATCH, CSR_MHARTID, CSR_SSTATUS, CSR_SEPC
   , CSR_SCOUNTEREN, CSR_SIP, CSR_SIE, CSR_SCAUSE, CSR_STVEC, CSR_STVAL, CSR_SSCRATCH
   , CSR_STIMECMP, CSR_HSTATUS, CSR_HEDELEG, CSR_HIDELEG, CSR_HTINST, CSR_HTVAL, CSR_HVIP
   , CSR_HGEIP, CSR_HIE, CSR_HIP, CSR_HGATP, CSR_VSSTATUS, CSR_VSIE, CSR_VSIP, CSR_VSTVEC
   , CSR_VSSCRATCH, CSR_VSEPC, CSR_VSCAUSE, CSR_VSTVAL, CSR_VSATP, CSR_VSTIMECMP, CSR_HTIMEDELTA
   , CSR_FCSR, CSR_PMPCFG0, CSR_PMPADDR0, CSR_PMPADDR1]"

type_synonym csr_file = "csr \<Rightarrow> usize"

definition read_csr :: "csr_file \<Rightarrow> csr \<Rightarrow> usize" where
  "read_csr f r = f r"

definition set_csr :: "csr_file \<Rightarrow> csr \<Rightarrow> usize \<Rightarrow> csr_file" where
  "set_csr f r v = f(r := v)"

definition read_and_set_bits :: "csr_file \<Rightarrow> csr \<Rightarrow> usize \<Rightarrow> usize \<times> csr_file" where
  "read_and_set_bits f r bitmask = (f r, f(r := f r OR bitmask))"

definition read_and_set_bit :: "csr_file \<Rightarrow> csr \<Rightarrow> nat \<Rightarrow> usize \<times> csr_file" where
  "read_and_set_bit f r b = read_and_set_bits f r (push_bit b 1)"

definition read_and_clear_bits :: "csr_file \<Rightarrow> csr \<Rightarrow> usize \<Rightarrow> usize \<times> csr_file" where
  "read_and_clear_bits f r bitmask = (f r, f(r := f r AND NOT bitmask))"

definition read_and_clear_bit :: "csr_file \<Rightarrow> csr \<Rightarrow> nat \<Rightarrow> usize \<times> csr_file" where
  "read_and_clear_bit f r b = read_and_clear_bits f r (push_bit b 1)"

interpretation csr_file: register_file read_csr set_csr
  by unfold_locales (simp add: read_csr_def set_csr_def)

lemma set_all_csrs: "r \<in> set all_csrs"
  by (cases r) (simp_all add: all_csrs_def)

lemma csr_number_distinct: "distinct (map csr_number all_csrs)"
  by (simp add: all_csrs_def)

lemma inj_csr_number: "inj csr_number"
  using csr_number_distinct set_all_csrs by (auto simp: distinct_map inj_on_def)

datatype fence = FENCE_WO | HFENCE_GVMA | HFENCE_VVMA | SFENCE_VMA | FENCE_I

section \<open>The dumped state of a hart\<close>

record hart_architectural_state =
  gprs :: general_purpose_registers
  hart_id :: usize
  dump :: "csr \<Rightarrow> usize"
  fprs :: floating_point_registers

text \<open>The CSRs that have a field in \<^verbatim>\<open>HartArchitecturalState\<close>, the ones
  \<^verbatim>\<open>store_control_status_registers_in_main_memory\<close> reads and the ones
  \<^verbatim>\<open>load_control_status_registers_from_main_memory\<close> writes, in the order of the code.\<close>

definition dumped_csrs :: "csr list" where
  "dumped_csrs = [CSR_MEPC, CSR_MEDELEG, CSR_MIDELEG, CSR_MIE, CSR_MIP, CSR_MSTATUS, CSR_MTINST, CSR_MTVAL
   , CSR_MTVAL2, CSR_MTVEC, CSR_SSTATUS, CSR_SEPC, CSR_SCOUNTEREN, CSR_SIP, CSR_SIE, CSR_SCAUSE
   , CSR_STVEC, CSR_STVAL, CSR_SSCRATCH, CSR_HSTATUS, CSR_HEDELEG, CSR_HIDELEG, CSR_HTINST
   , CSR_HTVAL, CSR_HVIP, CSR_HGEIP, CSR_HIE, CSR_HIP, CSR_HGATP, CSR_VSSTATUS, CSR_VSIE
   , CSR_VSIP, CSR_VSTVEC, CSR_VSSCRATCH, CSR_VSEPC, CSR_VSCAUSE, CSR_VSTVAL, CSR_VSATP
   , CSR_VSTIMECMP, CSR_HTIMEDELTA, CSR_FCSR]"

definition stored_csrs :: "csr list" where
  "stored_csrs = [CSR_MEPC, CSR_MSTATUS, CSR_MIDELEG, CSR_MEDELEG, CSR_MTVEC, CSR_MIE, CSR_SSTATUS, CSR_SEPC
   , CSR_SCOUNTEREN, CSR_SIP, CSR_SIE, CSR_SCAUSE, CSR_STVEC, CSR_STVAL, CSR_SSCRATCH
   , CSR_HSTATUS, CSR_HEDELEG, CSR_HIDELEG, CSR_HTINST, CSR_HTVAL, CSR_HVIP, CSR_HGEIP, CSR_HIE
   , CSR_HIP, CSR_HGATP, CSR_VSSTATUS, CSR_VSIE, CSR_VSIP, CSR_VSTVEC, CSR_VSSCRATCH, CSR_VSEPC
   , CSR_VSCAUSE, CSR_VSTVAL, CSR_VSATP, CSR_VSTIMECMP, CSR_HTIMEDELTA, CSR_FCSR]"

definition loaded_csrs :: "csr list" where
  "loaded_csrs = [CSR_MEPC, CSR_MSTATUS, CSR_MIDELEG, CSR_MEDELEG, CSR_MTVEC, CSR_MIE, CSR_SSTATUS, CSR_SEPC
   , CSR_SCOUNTEREN, CSR_SIP, CSR_SIE, CSR_SCAUSE, CSR_STVEC, CSR_STVAL, CSR_SSCRATCH
   , CSR_HSTATUS, CSR_HEDELEG, CSR_HIDELEG, CSR_HTINST, CSR_HTVAL, CSR_HIE, CSR_HGATP
   , CSR_VSSTATUS, CSR_VSIE, CSR_VSIP, CSR_VSTVEC, CSR_VSSCRATCH, CSR_VSEPC, CSR_VSCAUSE
   , CSR_VSTVAL, CSR_VSATP, CSR_VSTIMECMP, CSR_HTIMEDELTA, CSR_FCSR]"

definition from_existing :: "csr_file \<Rightarrow> usize \<Rightarrow> hart_architectural_state \<Rightarrow> hart_architectural_state" where
  "from_existing f i existing =
     \<lparr>gprs = GeneralPurposeRegisters_clone (gprs existing), hart_id = i,
      dump = (\<lambda>r. if r \<in> set dumped_csrs then read_csr f r else 0),
      fprs = FloatingPointRegisters_clone (fprs existing)\<rparr>"

definition HartArchitecturalState_empty :: "usize \<Rightarrow> hart_architectural_state" where
  "HartArchitecturalState_empty i =
     \<lparr>gprs = GeneralPurposeRegisters_empty, hart_id = i,
      dump = (\<lambda>_. 0)(CSR_VSTIMECMP := - 1 - 1),
      fprs = FloatingPointRegisters_empty\<rparr>"

definition dump_csrs :: "csr list \<Rightarrow> csr_file \<Rightarrow> hart_architectural_state \<Rightarrow> hart_architectural_state" where
  "dump_csrs rs f h = h\<lparr>dump := foldl (\<lambda>d r. d(r := read_csr f r)) (dump h) rs\<rparr>"

definition store_control_status_registers :: "csr_file \<Rightarrow> hart_architectural_state \<Rightarrow> hart_architectural_state" where
  "store_control_status_registers f h = dump_csrs stored_csrs f h"

definition load_control_status_registers :: "hart_architectural_state \<Rightarrow> csr_file \<Rightarrow> csr_file" where
  "load_control_status_registers h f = foldl (\<lambda>f r. set_csr f r (dump h r)) f loaded_csrs"

definition gpr :: "hart_architectural_state \<Rightarrow> general_purpose_register \<Rightarrow> usize" where
  "gpr h register = GeneralPurposeRegisters_get (gprs h) register"

definition set_gpr ::
    "general_purpose_register \<Rightarrow> usize \<Rightarrow> hart_architectural_state \<Rightarrow> hart_architectural_state" where
  "set_gpr register v h = h\<lparr>gprs := GeneralPurposeRegisters_set (gprs h) register v\<rparr>"

definition set_dump :: "csr \<Rightarrow> usize \<Rightarrow> hart_architectural_state \<Rightarrow> hart_architectural_state" where
  "set_dump r v h = h\<lparr>dump := (dump h)(r := v)\<rparr>"

subsection \<open>Laws of the dumped state\<close>

interpretation dump_file: register_file "\<lambda>h r. dump h r" "\<lambda>h r v. set_dump r v h"
  by unfold_locales (simp add: set_dump_def)

lemma set_gpr_simps [simp]:
  "gpr (set_gpr r v h) q = (if q = r then v else gpr h q)"
  "gpr (set_dump c v h) q = gpr h q"
  "dump (set_gpr r v h) = dump h" "dump (set_dump c v h) = (dump h)(c := v)"
  "hart_id (set_gpr r v h) = hart_id h" "hart_id (set_dump c v h) = hart_id h"
  "fprs (set_gpr r v h) = fprs h" "fprs (set_dump c v h) = fprs h"
  "gprs (set_dump c v h) = gprs h"
  by (simp_all add: gpr_def set_gpr_def set_dump_def gpr_file.get_put)

lemma dump_csrs_put_all: "dump_csrs rs f h = dump_file.put_all rs (read_csr f) h"
proof (induction rs arbitrary: h)
  case (Cons r rs)
  have "dump_csrs (r # rs) f h = dump_csrs rs f (set_dump r (read_csr f r) h)"
    by (simp add: dump_csrs_def set_dump_def)
  then show ?case by (simp add: Cons.IH)
qed (simp add: dump_csrs_def)

lemma load_control_status_registers_put_all:
  "load_control_status_registers h f = csr_file.put_all loaded_csrs (dump h) f"
  by (simp add: load_control_status_registers_def csr_file.put_all_def)

lemma dump_csrs_simps [simp]:
  "gprs (dump_csrs rs f h) = gprs h" "hart_id (dump_csrs rs f h) = hart_id h"
  "fprs (dump_csrs rs f h) = fprs h"
  by (simp_all add: dump_csrs_def)

lemma dump_store: "dump (store_control_status_registers f h) r =
    (if r \<in> set stored_csrs then f r else dump h r)"
  using dump_file.get_put_all [of stored_csrs "read_csr f" h r]
  by (simp add: store_control_status_registers_def dump_csrs_put_all read_csr_def)

lemma store_simps [simp]:
  "gprs (store_control_status_registers f h) = gprs h"
  "hart_id (store_control_status_registers f h) = hart_id h"
  "fprs (store_control_status_registers f h) = fprs h"
  by (simp_all add: store_control_status_registers_def)

lemma csr_after_load: "load_control_status_registers h f r = (if r \<in> set loaded_csrs then dump h r else f r)"
  using csr_file.get_put_all [of loaded_csrs "dump h" f r]
  by (simp add: load_control_status_registers_put_all read_csr_def)

lemma loaded_subset_stored: "set loaded_csrs \<subseteq> set stored_csrs"
  by (simp add: loaded_csrs_def stored_csrs_def)

lemma stored_not_loaded: "set stored_csrs - set loaded_csrs = {CSR_HVIP, CSR_HGEIP, CSR_HIP}"
  by (simp add: loaded_csrs_def stored_csrs_def) blast

lemma stored_subset_dumped: "set stored_csrs \<subseteq> set dumped_csrs"
  by (simp add: dumped_csrs_def stored_csrs_def)

end
