(* ===== verification/Sbi.thy ===== *)
theory Sbi
  imports Registers
begin

text \<open>
  \<^verbatim>\<open>core/architecture/riscv/specification.rs\<close>, \<^verbatim>\<open>supervisor_binary_interface.rs\<close>,
  \<^verbatim>\<open>trap_cause.rs\<close>, \<^verbatim>\<open>hart_lifecycle_state.rs\<close> and \<^verbatim>\<open>compressed_instructions.rs\<close>: what a trap
  means, the decoding of an SBI call and of the register a faulting load or store uses.

  The crate \<^verbatim>\<open>riscv_decode\<close> is third-party code. Its function \<^verbatim>\<open>decode\<close> is the argument
  \<open>riscv_decode\<close> of \<open>decode_result_register\<close>; \<open>instruction\<close> has the constructors of
  \<^verbatim>\<open>riscv_decode::Instruction\<close> that the code matches, each with the register field
  (\<^verbatim>\<open>rs2()\<close> of a store, \<^verbatim>\<open>rd()\<close> of a load) that the code reads from it.
\<close>

section \<open>Constants of the specification\<close>

definition ECALL_INSTRUCTION_LENGTH :: usize where "ECALL_INSTRUCTION_LENGTH = 4"
definition CAUSE_INTERRUPT_BIT :: nat where "CAUSE_INTERRUPT_BIT = 63"
definition STVEC_MODE_VECTORED :: usize where "STVEC_MODE_VECTORED = 0b11"

definition CAUSE_MISALIGNED_FETCH :: "8 word" where "CAUSE_MISALIGNED_FETCH = 0x0"
definition CAUSE_FETCH_ACCESS :: "8 word" where "CAUSE_FETCH_ACCESS = 0x1"
definition CAUSE_ILLEGAL_INSTRUCTION :: "8 word" where "CAUSE_ILLEGAL_INSTRUCTION = 0x2"
definition CAUSE_BREAKPOINT :: "8 word" where "CAUSE_BREAKPOINT = 0x3"
definition CAUSE_MISALIGNED_LOAD :: "8 word" where "CAUSE_MISALIGNED_LOAD = 0x4"
definition CAUSE_LOAD_ACCESS :: "8 word" where "CAUSE_LOAD_ACCESS = 0x5"
definition CAUSE_MISALIGNED_STORE :: "8 word" where "CAUSE_MISALIGNED_STORE = 0x6"
definition CAUSE_STORE_ACCESS :: "8 word" where "CAUSE_STORE_ACCESS = 0x7"
definition CAUSE_USER_ECALL :: "8 word" where "CAUSE_USER_ECALL = 0x8"
definition CAUSE_SUPERVISOR_ECALL :: "8 word" where "CAUSE_SUPERVISOR_ECALL = 0x9"
definition CAUSE_VIRTUAL_SUPERVISOR_ECALL :: "8 word" where "CAUSE_VIRTUAL_SUPERVISOR_ECALL = 0xa"
definition CAUSE_MACHINE_ECALL :: "8 word" where "CAUSE_MACHINE_ECALL = 0xb"
definition CAUSE_FETCH_PAGE_FAULT :: "8 word" where "CAUSE_FETCH_PAGE_FAULT = 0xc"
definition CAUSE_LOAD_PAGE_FAULT :: "8 word" where "CAUSE_LOAD_PAGE_FAULT = 0xd"
definition CAUSE_STORE_PAGE_FAULT :: "8 word" where "CAUSE_STORE_PAGE_FAULT = 0xf"
definition CAUSE_FETCH_GUEST_PAGE_FAULT :: "8 word" where "CAUSE_FETCH_GUEST_PAGE_FAULT = 0x14"
definition CAUSE_LOAD_GUEST_PAGE_FAULT :: "8 word" where "CAUSE_LOAD_GUEST_PAGE_FAULT = 0x15"
definition CAUSE_VIRTUAL_INSTRUCTION :: "8 word" where "CAUSE_VIRTUAL_INSTRUCTION = 0x16"
definition CAUSE_STORE_GUEST_PAGE_FAULT :: "8 word" where "CAUSE_STORE_GUEST_PAGE_FAULT = 0x17"

definition CSR_HSTATUS_SPV :: nat where "CSR_HSTATUS_SPV = 7"
definition CSR_HSTATUS_GVA :: nat where "CSR_HSTATUS_GVA = 6"
definition CSR_MSTATUS_SIE :: nat where "CSR_MSTATUS_SIE = 1"
definition CSR_MSTATUS_SPIE :: nat where "CSR_MSTATUS_SPIE = 5"
definition CSR_MSTATUS_MPIE :: nat where "CSR_MSTATUS_MPIE = 7"
definition CSR_MSTATUS_SPP :: nat where "CSR_MSTATUS_SPP = 8"
definition CSR_MSTATUS_MPP :: nat where "CSR_MSTATUS_MPP = 11"
definition CSR_MSTATUS_MPV :: nat where "CSR_MSTATUS_MPV = 39"
definition CSR_HSTATUS_SPVP :: nat where "CSR_HSTATUS_SPVP = 8"
definition CSR_HSTATUS_VTW :: nat where "CSR_HSTATUS_VTW = 21"
definition CSR_HSTATUS_UXL :: nat where "CSR_HSTATUS_UXL = 33"
definition CSR_SSTATUS_SPP :: nat where "CSR_SSTATUS_SPP = 8"
definition CSR_SSTATUS_SPIE :: nat where "CSR_SSTATUS_SPIE = 5"
definition CSR_SSTATUS_UXL :: nat where "CSR_SSTATUS_UXL = 33"
definition CSR_SSTATUS_FS :: nat where "CSR_SSTATUS_FS = 13"
definition SCAUSE_INTERRUPT_MASK :: usize where "SCAUSE_INTERRUPT_MASK = push_bit 63 1"

definition MIE_SSIP :: nat where "MIE_SSIP = 1"
definition MIE_SSIP_MASK :: usize where "MIE_SSIP_MASK = push_bit MIE_SSIP 1"
definition MIE_VSSIP :: nat where "MIE_VSSIP = 2"
definition MIE_VSSIP_MASK :: usize where "MIE_VSSIP_MASK = push_bit MIE_VSSIP 1"
definition MIE_STIP :: nat where "MIE_STIP = 5"
definition MIE_STIP_MASK :: usize where "MIE_STIP_MASK = push_bit MIE_STIP 1"
definition MIE_VSTIP :: nat where "MIE_VSTIP = 6"
definition MIE_VSTIP_MASK :: usize where "MIE_VSTIP_MASK = push_bit MIE_VSTIP 1"
definition MIE_MTIP :: nat where "MIE_MTIP = 7"
definition MIE_MTIP_MASK :: usize where "MIE_MTIP_MASK = push_bit MIE_MTIP 1"
definition MIE_VSEIP :: nat where "MIE_VSEIP = 10"
definition MIE_VSEIP_MASK :: usize where "MIE_VSEIP_MASK = push_bit MIE_VSEIP 1"

definition PMP_OFF_MASK :: usize where "PMP_OFF_MASK = 0b0"
definition PMP_TOR_MASK :: usize where "PMP_TOR_MASK = 0b01000"
definition PMP_PERMISSION_RWX_MASK :: usize where "PMP_PERMISSION_RWX_MASK = 0b111"
definition PMP_CONFIG_SHIFT :: nat where "PMP_CONFIG_SHIFT = 8"
definition PMP_ADDRESS_SHIFT :: nat where "PMP_ADDRESS_SHIFT = 2"
definition MTVEC_BASE_SHIFT :: nat where "MTVEC_BASE_SHIFT = 2"
definition CSR_STATUS_SIE :: nat where "CSR_STATUS_SIE = 1"

lemmas cause_defs =
  CAUSE_MISALIGNED_FETCH_def CAUSE_FETCH_ACCESS_def CAUSE_ILLEGAL_INSTRUCTION_def
  CAUSE_BREAKPOINT_def CAUSE_MISALIGNED_LOAD_def CAUSE_LOAD_ACCESS_def CAUSE_MISALIGNED_STORE_def
  CAUSE_STORE_ACCESS_def CAUSE_USER_ECALL_def CAUSE_SUPERVISOR_ECALL_def
  CAUSE_VIRTUAL_SUPERVISOR_ECALL_def CAUSE_MACHINE_ECALL_def CAUSE_FETCH_PAGE_FAULT_def
  CAUSE_LOAD_PAGE_FAULT_def CAUSE_STORE_PAGE_FAULT_def CAUSE_FETCH_GUEST_PAGE_FAULT_def
  CAUSE_LOAD_GUEST_PAGE_FAULT_def CAUSE_VIRTUAL_INSTRUCTION_def CAUSE_STORE_GUEST_PAGE_FAULT_def

section \<open>SBI extensions\<close>

datatype ace_extension =
    SharePageWithHypervisor | StopSharingPageWithHypervisor | PromoteToConfidentialVm
  | ResumeConfidentialHart | TerminateConfidentialVm | PrintDebugInfo | AceUnknown usize usize

definition AceExtension_EXTID :: usize where "AceExtension_EXTID = 0x510000"

definition AceExtension_from_function_id :: "usize \<Rightarrow> ace_extension" where
  "AceExtension_from_function_id function_id =
     (if function_id = 1000 then PromoteToConfidentialVm
      else if function_id = 1010 then ResumeConfidentialHart
      else if function_id = 2000 then SharePageWithHypervisor
      else if function_id = 2001 then StopSharingPageWithHypervisor
      else if function_id = 3001 then TerminateConfidentialVm
      else if function_id = 9000 then PrintDebugInfo
      else AceUnknown AceExtension_EXTID function_id)"

datatype base_extension =
    GetSpecVersion | GetImplId | GetImplVersion | ProbeExtension | GetMvendorId | GetMarchid
  | GetMimpid | BaseUnknown usize usize

definition BaseExtension_EXTID :: usize where "BaseExtension_EXTID = 0x10"

definition BaseExtension_from_function_id :: "usize \<Rightarrow> base_extension" where
  "BaseExtension_from_function_id function_id =
     (if function_id = 0 then GetSpecVersion
      else if function_id = 1 then GetImplId
      else if function_id = 2 then GetImplVersion
      else if function_id = 3 then ProbeExtension
      else if function_id = 4 then GetMvendorId
      else if function_id = 5 then GetMarchid
      else if function_id = 6 then GetMimpid
      else BaseUnknown BaseExtension_EXTID function_id)"

datatype ipi_extension = SendIpi | IpiUnknown usize usize

definition IpiExtension_EXTID :: usize where "IpiExtension_EXTID = 0x735049"

definition IpiExtension_from_function_id :: "usize \<Rightarrow> ipi_extension" where
  "IpiExtension_from_function_id function_id =
     (if function_id = 0 then SendIpi else IpiUnknown IpiExtension_EXTID function_id)"

datatype rfence_extension =
    RemoteFenceI | RemoteSfenceVma | RemoteSfenceVmaAsid | RemoteHfenceGvmaVmid
  | RemoteHfenceGvma | RemoteHfenceVvmaAsid | RemoteHfenceVvma | RfenceUnknown usize usize

definition RfenceExtension_EXTID :: usize where "RfenceExtension_EXTID = 0x52464E43"

definition RfenceExtension_from_function_id :: "usize \<Rightarrow> rfence_extension" where
  "RfenceExtension_from_function_id function_id =
     (if function_id = 0 then RemoteFenceI
      else if function_id = 1 then RemoteSfenceVma
      else if function_id = 2 then RemoteSfenceVmaAsid
      else if function_id = 3 then RemoteHfenceGvmaVmid
      else if function_id = 4 then RemoteHfenceGvma
      else if function_id = 5 then RemoteHfenceVvmaAsid
      else if function_id = 6 then RemoteHfenceVvma
      else RfenceUnknown RfenceExtension_EXTID function_id)"

datatype hsm_extension = HartStart | HartStop | HartGetStatus | HartSuspend | HsmUnknown usize usize

definition HsmExtension_EXTID :: usize where "HsmExtension_EXTID = 0x48534D"
definition HART_START_FID :: usize where "HART_START_FID = 0x0"
definition HART_STOP_FID :: usize where "HART_STOP_FID = 0x1"
definition HART_STATUS_FID :: usize where "HART_STATUS_FID = 0x2"
definition HART_SUSPEND_FID :: usize where "HART_SUSPEND_FID = 0x3"

definition HsmExtension_from_function_id :: "usize \<Rightarrow> hsm_extension" where
  "HsmExtension_from_function_id function_id =
     (if function_id = HART_START_FID then HartStart
      else if function_id = HART_STOP_FID then HartStop
      else if function_id = HART_STATUS_FID then HartGetStatus
      else if function_id = HART_SUSPEND_FID then HartSuspend
      else HsmUnknown HsmExtension_EXTID function_id)"

datatype srst_extension = SystemReset | SrstUnknown usize usize

definition SrstExtension_EXTID :: usize where "SrstExtension_EXTID = 0x53525354"
definition SYSTEM_RESET_FID :: usize where "SYSTEM_RESET_FID = 0x0"

definition SrstExtension_from_function_id :: "usize \<Rightarrow> srst_extension" where
  "SrstExtension_from_function_id function_id =
     (if function_id = SYSTEM_RESET_FID then SystemReset
      else SrstUnknown SrstExtension_EXTID function_id)"

datatype sbi_extension =
    Ace ace_extension | Base base_extension | Ipi ipi_extension | Rfence rfence_extension
  | Hsm hsm_extension | Srst srst_extension | SbiUnknown usize usize

definition SbiExtension_decode :: "usize \<Rightarrow> usize \<Rightarrow> sbi_extension" where
  "SbiExtension_decode a7 a6 =
     (if a7 = AceExtension_EXTID then Ace (AceExtension_from_function_id a6)
      else if a7 = BaseExtension_EXTID then Base (BaseExtension_from_function_id a6)
      else if a7 = IpiExtension_EXTID then Ipi (IpiExtension_from_function_id a6)
      else if a7 = RfenceExtension_EXTID then Rfence (RfenceExtension_from_function_id a6)
      else if a7 = HsmExtension_EXTID then Hsm (HsmExtension_from_function_id a6)
      else if a7 = SrstExtension_EXTID then Srst (SrstExtension_from_function_id a6)
      else SbiUnknown a7 a6)"

lemmas extid_defs = AceExtension_EXTID_def BaseExtension_EXTID_def IpiExtension_EXTID_def
  RfenceExtension_EXTID_def HsmExtension_EXTID_def SrstExtension_EXTID_def

lemmas fid_defs = AceExtension_from_function_id_def BaseExtension_from_function_id_def
  IpiExtension_from_function_id_def RfenceExtension_from_function_id_def
  HsmExtension_from_function_id_def SrstExtension_from_function_id_def
  HART_START_FID_def HART_STOP_FID_def HART_STATUS_FID_def HART_SUSPEND_FID_def SYSTEM_RESET_FID_def

section \<open>Causes of a trap\<close>

datatype trap_cause =
    Interrupt | IllegalInstruction | LoadAddressMisaligned | LoadAccessFault
  | StoreAddressMisaligned | StoreAccessFault | VsEcall sbi_extension | HsEcall sbi_extension
  | MachineEcall | GuestInstructionPageFault | GuestLoadPageFault | VirtualInstruction
  | GuestStorePageFault | UnknownTrap "8 word"

definition TrapCause_from :: "usize \<Rightarrow> usize \<Rightarrow> usize \<Rightarrow> trap_cause" where
  "TrapCause_from cause extension_id function_id =
     (if is_bit_enabled cause CAUSE_INTERRUPT_BIT then Interrupt
      else let c = (ucast cause :: 8 word) in
        if c = CAUSE_ILLEGAL_INSTRUCTION then IllegalInstruction
        else if c = CAUSE_MISALIGNED_LOAD then LoadAddressMisaligned
        else if c = CAUSE_LOAD_ACCESS then LoadAccessFault
        else if c = CAUSE_MISALIGNED_STORE then StoreAddressMisaligned
        else if c = CAUSE_STORE_ACCESS then StoreAccessFault
        else if c = CAUSE_SUPERVISOR_ECALL then HsEcall (SbiExtension_decode extension_id function_id)
        else if c = CAUSE_VIRTUAL_SUPERVISOR_ECALL
          then VsEcall (SbiExtension_decode extension_id function_id)
        else if c = CAUSE_MACHINE_ECALL then MachineEcall
        else if c = CAUSE_FETCH_GUEST_PAGE_FAULT then GuestInstructionPageFault
        else if c = CAUSE_LOAD_GUEST_PAGE_FAULT then GuestLoadPageFault
        else if c = CAUSE_VIRTUAL_INSTRUCTION then VirtualInstruction
        else if c = CAUSE_STORE_GUEST_PAGE_FAULT then GuestStorePageFault
        else UnknownTrap c)"

section \<open>The lifecycle of a hart\<close>

datatype hart_lifecycle_state = Started | Stopped | StartPending | Suspended | Shutdown

primrec sbi_code :: "hart_lifecycle_state \<Rightarrow> usize" where
  "sbi_code Started = 0"
| "sbi_code Stopped = 1"
| "sbi_code StartPending = 2"
| "sbi_code Suspended = 4"
| "sbi_code Shutdown = 1"

section \<open>The result register of a load or store\<close>

datatype instruction =
    Sb "32 word" | Sh "32 word" | Sw "32 word" | Sd "32 word" | Lb "32 word" | Lbu "32 word"
  | Lhu "32 word" | Lwu "32 word" | Lh "32 word" | Lw "32 word" | Ld "32 word" | OtherInstruction

definition rv_x :: "usize \<Rightarrow> nat \<Rightarrow> nat \<Rightarrow> usize" where
  "rv_x x s n = drop_bit s x AND (push_bit n 1 - 1)"

definition reg_mask :: usize where
  "reg_mask = push_bit (5 + 3) 1 - push_bit 3 1"

definition shift_right :: "usize \<Rightarrow> int \<Rightarrow> usize" where
  "shift_right x y = (if y < 0 then push_bit (nat (- y)) x else drop_bit (nat y) x)"

text \<open>The branch for compressed instructions. \<open>log_regbytes\<close> is 3 and \<open>SH_RS2C\<close> is 2.\<close>

definition compressed_register :: "usize \<Rightarrow> (32 word) res" where
  "compressed_register mtinst =
     (if mtinst AND 0xe003 = 0x4000 then Ok (ucast (8 + rv_x mtinst 2 3))
      else if mtinst AND 0xe003 = 0x6000 then Ok (ucast (8 + rv_x mtinst 2 3))
      else if mtinst AND 0xe003 = 0xc000 then
        let tmp_inst = 8 + rv_x mtinst 2 3; i = shift_right tmp_inst (0 - 3) AND reg_mask
        in Ok (ucast (i div 8))
      else if mtinst AND 0xe003 = 0xe000 then
        let tmp_inst = 8 + rv_x mtinst 2 3; i = shift_right tmp_inst (0 - 3) AND reg_mask
        in Ok (ucast (i div 8))
      else if mtinst AND 0xe003 = 0x4002 then Ok 0
      else if mtinst AND 0xe003 = 0xc002 then
        let i = shift_right mtinst (2 - 3) AND reg_mask in Ok (ucast (i div 8))
      else if mtinst AND 0xe003 = 0x6002 then Ok 0
      else if mtinst AND 0xe003 = 0xe002 then
        let i = shift_right mtinst (2 - 3) AND reg_mask in Ok (ucast (i div 8))
      else Err (InvalidRiscvInstruction mtinst))"

definition decode_result_register ::
    "(32 word \<Rightarrow> instruction option) \<Rightarrow> usize \<Rightarrow> general_purpose_register res" where
  "decode_result_register riscv_decode mtinst =
     and_then
       (case riscv_decode (ucast mtinst) of
          Some (Sb rs2) \<Rightarrow> Ok rs2 | Some (Sh rs2) \<Rightarrow> Ok rs2
        | Some (Sw rs2) \<Rightarrow> Ok rs2 | Some (Sd rs2) \<Rightarrow> Ok rs2
        | Some (Lb rd) \<Rightarrow> Ok rd | Some (Lbu rd) \<Rightarrow> Ok rd | Some (Lhu rd) \<Rightarrow> Ok rd
        | Some (Lwu rd) \<Rightarrow> Ok rd | Some (Lh rd) \<Rightarrow> Ok rd | Some (Lw rd) \<Rightarrow> Ok rd
        | Some (Ld rd) \<Rightarrow> Ok rd
        | _ \<Rightarrow> compressed_register mtinst)
       (\<lambda>register_index.
          ok_or (from_index (ucast register_index)) (InvalidRiscvInstruction mtinst))"

subsection \<open>The branch for compressed instructions is dead\<close>

text \<open>The trap handlers set the two lowest bits of the instruction before they decode it, and no
  pattern of the compressed branch has both bits set.\<close>

lemma compressed_pattern: "(x OR 3) AND 0xe003 = (p :: usize) \<Longrightarrow> p AND 3 = 3"
proof -
  have absorb: "(x OR y) AND y = y" for y :: usize by (rule bit_eqI) (auto simp: bit_simps)
  have "((x OR 3) AND 0xe003) AND 3 = (x OR 3) AND ((0xe003 AND 3) :: usize)"
    by (simp only: and.assoc)
  then have "((x OR 3) AND 0xe003) AND 3 = (3 :: usize)" by (simp add: absorb)
  then show "(x OR 3) AND 0xe003 = p \<Longrightarrow> p AND 3 = 3" by simp
qed

lemma compressed_register_dead:
  "compressed_register (x OR 3) = Err (InvalidRiscvInstruction (x OR 3))"
  using compressed_pattern [of x] by (auto simp: compressed_register_def)

primrec load_store_register :: "instruction \<Rightarrow> (32 word) option" where
  "load_store_register (Sb r) = Some r"
| "load_store_register (Sh r) = Some r"
| "load_store_register (Sw r) = Some r"
| "load_store_register (Sd r) = Some r"
| "load_store_register (Lb r) = Some r"
| "load_store_register (Lbu r) = Some r"
| "load_store_register (Lhu r) = Some r"
| "load_store_register (Lwu r) = Some r"
| "load_store_register (Lh r) = Some r"
| "load_store_register (Lw r) = Some r"
| "load_store_register (Ld r) = Some r"
| "load_store_register OtherInstruction = None"

lemma decode_trapped_instruction:
  "decode_result_register d (x OR 3) =
     ok_or (Option.bind (Option.bind (d (ucast (x OR 3))) load_store_register)
              (\<lambda>r. from_index (ucast r)))
       (InvalidRiscvInstruction (x OR 3))"
  by (simp add: decode_result_register_def compressed_register_dead split: option.splits instruction.splits)

end
