(* ===== verification/Pointers.thy ===== *)
theory Pointers
  imports Errors
begin

text \<open>
  The crate \<^verbatim>\<open>pointers_utility\<close> (\<^verbatim>\<open>security-monitor/rust-crates/pointers_utility/src/lib.rs\<close>):
  pointer arithmetic that never leaves a region. A \<^verbatim>\<open>*mut usize\<close> is its address. \<open>isize\<close> is an
  \<open>int\<close> whose range is checked, because the build checks signed overflow too.

  \<open>align_offset\<close> models \<^verbatim>\<open>core::ptr::align_offset\<close> on \<^verbatim>\<open>*mut usize\<close>: the number of 8-byte
  elements to the next aligned address, \<^verbatim>\<open>usize::MAX\<close> when no such number exists, and a panic when
  the alignment is not a power of two.
\<close>

unbundle bit_operations_syntax

definition size_of_usize :: usize where
  "size_of_usize = 8"

definition is_power_of_two :: "usize \<Rightarrow> bool" where
  "is_power_of_two a \<longleftrightarrow> a \<noteq> 0 \<and> a AND (a - 1) = 0"

definition is_aligned_to :: "usize \<Rightarrow> usize \<Rightarrow> bool" where
  "is_aligned_to p a \<longleftrightarrow> unat p mod unat a = 0"

definition align_offset :: "usize \<Rightarrow> usize \<Rightarrow> ('e, usize) result" where
  "align_offset p a =
     (if \<not> is_power_of_two a then Panic
      else let gap = (unat a - unat p mod unat a) mod unat a
           in Ok (if gap mod 8 = 0 then of_nat (gap div 8) else - 1))"

definition ptr_byte_offset :: "usize \<Rightarrow> usize \<Rightarrow> ('e, int) result" where
  "ptr_byte_offset pointer1 pointer2 =
     (let d = sint pointer1 - sint pointer2
      in if - (2 ^ 63) \<le> d \<and> d < 2 ^ 63 then Ok d else Panic)"

definition ptr_byte_add_mut :: "usize \<Rightarrow> usize \<Rightarrow> usize \<Rightarrow> (pointer_error, usize) result" where
  "ptr_byte_add_mut pointer offset_in_bytes owned_region_end =
     (let incremented_pointer = pointer + offset_in_bytes
      in if owned_region_end \<le> incremented_pointer then Err Overflow
         else if 0 < offset_in_bytes \<and> incremented_pointer \<le> pointer then Err Overflow
         else Ok incremented_pointer)"

definition ptr_byte_add :: "usize \<Rightarrow> usize \<Rightarrow> usize \<Rightarrow> (pointer_error, usize) result" where
  "ptr_byte_add pointer offset_in_bytes owned_region_end =
     ptr_byte_add_mut pointer offset_in_bytes owned_region_end"

definition ptr_align :: "usize \<Rightarrow> usize \<Rightarrow> usize \<Rightarrow> (pointer_error, usize) result" where
  "ptr_align pointer align_in_bytes owned_region_end =
     and_then (align_offset pointer align_in_bytes) (\<lambda>offset.
     and_then (mul_usize offset size_of_usize) (\<lambda>offset_to_align.
     ptr_byte_add_mut pointer offset_to_align owned_region_end))"

section \<open>Exact behaviour\<close>

lemma ptr_byte_add_mut_iff:
  "ptr_byte_add_mut p off e = Ok q \<longleftrightarrow> unat p + unat off < unat e \<and> q = p + off"
proof -
  have fit: "unat p + unat off < 2 ^ 64 \<longleftrightarrow> off = 0 \<or> \<not> p + off \<le> p"
    using usize_add_greater [of off p] by (cases "off = 0") (auto simp: word_neq_0_conv)
  show ?thesis
  proof (cases "unat p + unat off < 2 ^ 64")
    case True
    then have "unat (p + off) = unat p + unat off" by (rule unat_add_usize)
    with True fit show ?thesis
      by (auto simp: ptr_byte_add_mut_def Let_def word_le_nat_alt word_neq_0_conv [symmetric])
  next
    case False
    with fit show ?thesis
      using unat_lt_usize [of e] unfolding ptr_byte_add_mut_def Let_def
      by (auto simp: word_neq_0_conv simp del: unat_lt_usize)
  qed
qed

lemma ptr_byte_add_mut_not_Panic: "ptr_byte_add_mut p off e \<noteq> Panic"
  by (simp add: ptr_byte_add_mut_def Let_def)

lemma ptr_byte_add_mut_cases:
  "ptr_byte_add_mut p off e =
     (if unat p + unat off < unat e then Ok (p + off) else Err Overflow)"
proof (cases "ptr_byte_add_mut p off e")
  case (Ok q)
  then show ?thesis using ptr_byte_add_mut_iff [of p off e q] by simp
next
  case (Err x)
  then show ?thesis
    using ptr_byte_add_mut_iff [of p off e "p + off"] by (cases x) auto
next
  case Panic
  then show ?thesis by (simp add: ptr_byte_add_mut_not_Panic)
qed

lemma gap_to_alignment: "0 < a \<Longrightarrow> (x + (a - x mod a) mod a) mod a = (0 :: nat)"
  by (metis add.commute le_add_diff_inverse2 mod_add_left_eq mod_add_right_eq mod_self
      nat_less_le mod_less_divisor)

lemma align_offset_scaled:
  assumes "align_offset p a = Ok n" and "mul_usize n size_of_usize = Ok m"
  shows "unat m = (unat a - unat p mod unat a) mod unat a" and "0 < unat a"
proof -
  let ?gap = "(unat a - unat p mod unat a) mod unat a"
  from assms(1) have a: "0 < unat a"
    by (auto simp: align_offset_def is_power_of_two_def unat_gt_0 split: if_splits)
  then show "0 < unat a" .
  have "?gap < unat a" using a by simp
  then have small: "?gap < 2 ^ 64"
    by (rule less_trans) (use unsigned_less [of a] in simp)
  show "unat m = ?gap"
  proof (cases "?gap mod 8 = 0")
    case True
    then have n: "unat n = ?gap div 8"
      using assms(1) small
      by (auto simp: align_offset_def Let_def unat_of_nat split: if_splits)
    from assms(2) have "unat m = unat n * unat size_of_usize"
      using unat_mul_usize [of n size_of_usize] by (simp add: res_simps)
    with n True show ?thesis
      using div_mult_mod_eq [of ?gap 8] by (simp add: size_of_usize_def)
  next
    case False
    then have "n = - 1"
      using assms(1) by (auto simp: align_offset_def Let_def split: if_splits)
    with assms(2) show ?thesis 
      by (simp add: mul_usize_def size_of_usize_def unsigned_minus_1_eq_mask mask_eq_exp_minus_1
          split: if_splits)
  qed
qed

lemma ptr_align_Ok:
  assumes "ptr_align p a e = Ok q"
  shows "unat q mod unat a = 0" and "p \<le> q" and "q < e" and "unat q < unat p + unat a"
proof -
  from assms obtain n m where n: "align_offset p a = (Ok n :: (pointer_error, usize) result)"
    and m: "mul_usize n size_of_usize = (Ok m :: (pointer_error, usize) result)"
    and q: "ptr_byte_add_mut p m e = Ok q"
    by (auto simp: ptr_align_def res_simps)
  note gap = align_offset_scaled [OF n m]
  from q have lt: "unat p + unat m < unat e" and "q = p + m"
    by (auto simp: ptr_byte_add_mut_iff)
  then have uq: "unat q = unat p + unat m"
    using unat_lt_usize [of e] unat_add_usize [of p m] by (simp del: unat_lt_usize)
  show "unat q mod unat a = 0" using gap_to_alignment [OF gap(2)] uq gap(1) by simp
  show "p \<le> q" "q < e" using uq lt by (simp_all add: word_le_nat_alt word_less_nat_alt)
  show "unat q < unat p + unat a" using uq gap by simp
qed

end
