(* ===== verification/Page_Sizes.thy ===== *)
theory Page_Sizes
  imports Pointers
begin

text \<open>
  \<^verbatim>\<open>PageSize\<close> of \<^verbatim>\<open>core/memory_protector/mmu/page_size.rs\<close>: the five page sizes, their sizes in
  bytes, and the chain of neighbours. \<^verbatim>\<open>Ord\<close> is derived from the order of the constructors; the
  \<open>linorder\<close> instance is that order, and \<open>in_bytes_strict_mono\<close> is the comment's promise
  that it follows the increasing sizes.
\<close>

datatype page_size = Size4KiB | Size2MiB | Size1GiB | Size512GiB | Size128TiB

definition in_bytes :: "page_size \<Rightarrow> usize" where
  "in_bytes sz = (case sz of
      Size128TiB \<Rightarrow> 8 * 512 * 512 * 512 * 512 * 256
    | Size512GiB \<Rightarrow> 8 * 512 * 512 * 512 * 512
    | Size1GiB \<Rightarrow> 8 * 512 * 512 * 512
    | Size2MiB \<Rightarrow> 8 * 512 * 512
    | Size4KiB \<Rightarrow> 8 * 512)"

fun smaller :: "page_size \<Rightarrow> page_size option" where
  "smaller Size128TiB = Some Size512GiB"
| "smaller Size512GiB = Some Size1GiB"
| "smaller Size1GiB = Some Size2MiB"
| "smaller Size2MiB = Some Size4KiB"
| "smaller Size4KiB = None"

fun larger :: "page_size \<Rightarrow> page_size option" where
  "larger Size128TiB = None"
| "larger Size512GiB = Some Size128TiB"
| "larger Size1GiB = Some Size512GiB"
| "larger Size2MiB = Some Size1GiB"
| "larger Size4KiB = Some Size2MiB"

definition smallest :: page_size where
  "smallest = Size4KiB"

definition all_from_largest_to_smallest :: "page_size list" where
  "all_from_largest_to_smallest = [Size128TiB, Size512GiB, Size1GiB, Size2MiB, Size4KiB]"

section \<open>The derived order\<close>

primrec rank :: "page_size \<Rightarrow> nat" where
  "rank Size4KiB = 0"
| "rank Size2MiB = 1"
| "rank Size1GiB = 2"
| "rank Size512GiB = 3"
| "rank Size128TiB = 4"

instantiation page_size :: linorder
begin

definition less_eq_page_size :: "page_size \<Rightarrow> page_size \<Rightarrow> bool" where
  "less_eq_page_size a b \<longleftrightarrow> rank a \<le> rank b"

definition less_page_size :: "page_size \<Rightarrow> page_size \<Rightarrow> bool" where
  "less_page_size a b \<longleftrightarrow> rank a < rank b"

instance
proof
  fix x y z :: page_size
  show "(x < y) = (x \<le> y \<and> \<not> y \<le> x)"
    by (auto simp: less_eq_page_size_def less_page_size_def)
  show "x \<le> x" by (simp add: less_eq_page_size_def)
  show "x \<le> z" if "x \<le> y" "y \<le> z" using that by (simp add: less_eq_page_size_def)
  show "x = y" if "x \<le> y" "y \<le> x"
    using that by (cases x; cases y) (simp_all add: less_eq_page_size_def)
  show "x \<le> y \<or> y \<le> x" by (auto simp: less_eq_page_size_def)
qed

end

section \<open>Arithmetic of page sizes\<close>

definition bytes :: "page_size \<Rightarrow> nat" where
  "bytes sz = unat (in_bytes sz)"

lemma bytes_simps [simp]:
  "bytes Size4KiB = 4096"
  "bytes Size2MiB = 2097152"
  "bytes Size1GiB = 1073741824"
  "bytes Size512GiB = 549755813888"
  "bytes Size128TiB = 140737488355328"
  by (simp_all add: bytes_def in_bytes_def)

lemma unat_in_bytes [page_simps]: "unat (in_bytes sz) = bytes sz"
  by (simp add: bytes_def)

lemma bytes_pos [simp, page_simps]: "0 < bytes sz"
  by (cases sz) simp_all

lemma bytes_lower: "4096 \<le> bytes sz"
  by (cases sz) simp_all

lemma bytes_upper: "bytes sz \<le> 140737488355328"
  by (cases sz) simp_all

lemma bytes_dvd_mono: "a \<le> b \<Longrightarrow> bytes a dvd bytes b"
  by (cases a; cases b) (simp_all add: less_eq_page_size_def)

lemma smallest_dvd_bytes: "4096 dvd bytes sz"
  using bytes_dvd_mono [of Size4KiB sz] by (simp add: less_eq_page_size_def)

lemma eight_dvd_bytes: "8 dvd bytes sz"
  using smallest_dvd_bytes [of sz] by (rule dvd_trans [rotated]) simp

lemma smaller_Some: "smaller a = Some b \<Longrightarrow> b < a"
  by (cases a) (auto simp: less_page_size_def)

lemma larger_Some: "larger a = Some b \<Longrightarrow> a < b"
  by (cases a) (auto simp: less_page_size_def)

lemma smaller_larger_iff: "smaller a = Some b \<longleftrightarrow> larger b = Some a"
  by (cases a; cases b) simp_all

lemma rank_smaller: "smaller a = Some b \<Longrightarrow> rank a = Suc (rank b)"
  by (cases a) auto

lemma rank_larger: "larger a = Some b \<Longrightarrow> rank b = Suc (rank a)"
  by (cases a) auto

lemma rank_le_4: "rank a \<le> 4"
  by (cases a) auto

lemma bytes_smaller: "smaller a = Some b \<Longrightarrow> bytes b dvd bytes a \<and> 2 * bytes b \<le> bytes a"
  by (cases a) auto

text \<open>The derived order on page sizes is the order of their sizes in bytes, \<open>smaller\<close> and
  \<open>larger\<close> are the neighbours in that order, and the size of one page is a multiple of another
  exactly when it is not smaller.\<close>

lemma page_size_order:
  "(a < b \<longleftrightarrow> in_bytes a < in_bytes b)
   \<and> (smaller a = Some b \<longleftrightarrow> larger b = Some a)
   \<and> (larger a = Some b \<longleftrightarrow> a < b \<and> \<not> (\<exists>c. a < c \<and> c < b))
   \<and> (unat (in_bytes b) mod unat (in_bytes a) = 0 \<longleftrightarrow> a \<le> b)"
proof (intro conjI)
  show "a < b \<longleftrightarrow> in_bytes a < in_bytes b"
    by (cases a; cases b) (simp_all add: less_page_size_def in_bytes_def)
  show "smaller a = Some b \<longleftrightarrow> larger b = Some a" by (rule smaller_larger_iff)
  show "larger a = Some b \<longleftrightarrow> a < b \<and> \<not> (\<exists>c. a < c \<and> c < b)"
  proof
    assume "larger a = Some b"
    then show "a < b \<and> \<not> (\<exists>c. a < c \<and> c < b)"
      by (auto simp: less_page_size_def dest: rank_larger)
  next
    assume *: "a < b \<and> \<not> (\<exists>c. a < c \<and> c < b)"
    then obtain c where c: "larger a = Some c"
      by (cases a; cases b) (auto simp: less_page_size_def)
    then have "a < c" and "rank c = Suc (rank a)" by (auto dest: larger_Some rank_larger)
    with * have "c = b"
      by (metis antisym_conv3 less_page_size_def not_less_eq)
    with c show "larger a = Some b" by simp
  qed
  show "unat (in_bytes b) mod unat (in_bytes a) = 0 \<longleftrightarrow> a \<le> b"
    by (cases a; cases b) (simp_all add: unat_in_bytes less_eq_page_size_def)
qed

end
