(* ===== verification/Memory_Layout.thy ===== *)
theory Memory_Layout
  imports Page_Sizes
begin

text \<open>
  \<^verbatim>\<open>core/memory_layout\<close>: the split of physical memory into a non-confidential and a confidential
  region, and the address types that are confined to one of them. The two address types are
  transparent wrappers of a raw pointer in the source; here they are names for \<open>usize\<close>.

  \<^verbatim>\<open>MEMORY_LAYOUT\<close> is a \<^verbatim>\<open>Once\<close> cell: \<open>MemoryLayout_init\<close> takes its content and returns
  it set, and an already set cell keeps its value. Everything that runs after boot reads the cell
  through \<^verbatim>\<open>MemoryLayout::read()\<close>; those definitions take the layout as an argument.
\<close>

type_synonym confidential_memory_address = usize
type_synonym non_confidential_memory_address = usize
type_synonym confidential_vm_physical_address = usize

record memory_layout =
  non_confidential_memory_start :: usize
  non_confidential_memory_end :: usize
  confidential_memory_start :: usize
  confidential_memory_end :: usize

definition ConfidentialMemoryAddress_add ::
    "confidential_memory_address \<Rightarrow> usize \<Rightarrow> usize \<Rightarrow> confidential_memory_address res" where
  "ConfidentialMemoryAddress_add address offset_in_bytes upper_bound =
     map_err (\<lambda>_. MemoryAccessAuthorization) (ptr_byte_add_mut address offset_in_bytes upper_bound)"

definition ConfidentialMemoryAddress_offset_from ::
    "confidential_memory_address \<Rightarrow> usize \<Rightarrow> int res" where
  "ConfidentialMemoryAddress_offset_from address pointer = ptr_byte_offset pointer address"

definition NonConfidentialMemoryAddress_add ::
    "non_confidential_memory_address \<Rightarrow> usize \<Rightarrow> usize \<Rightarrow> non_confidential_memory_address res" where
  "NonConfidentialMemoryAddress_add address offset_in_bytes upper_bound =
     map_err (\<lambda>_. MemoryAccessAuthorization) (ptr_byte_add_mut address offset_in_bytes upper_bound)"

definition is_in_non_confidential_range :: "memory_layout \<Rightarrow> usize \<Rightarrow> bool" where
  "is_in_non_confidential_range l address \<longleftrightarrow>
     non_confidential_memory_start l \<le> address \<and> address < non_confidential_memory_end l"

definition NonConfidentialMemoryAddress_new ::
    "memory_layout \<Rightarrow> usize \<Rightarrow> non_confidential_memory_address res" where
  "NonConfidentialMemoryAddress_new l address =
     (if is_in_non_confidential_range l address then Ok address else Err MemoryAccessAuthorization)"

definition confidential_address_at_offset ::
    "memory_layout \<Rightarrow> confidential_memory_address \<Rightarrow> usize \<Rightarrow> confidential_memory_address res" where
  "confidential_address_at_offset l address offset_in_bytes =
     map_err (\<lambda>_. MemoryAccessAuthorization)
       (ConfidentialMemoryAddress_add address offset_in_bytes (confidential_memory_end l))"

definition confidential_address_at_offset_bounded ::
    "memory_layout \<Rightarrow> confidential_memory_address \<Rightarrow> usize \<Rightarrow> usize \<Rightarrow> confidential_memory_address res" where
  "confidential_address_at_offset_bounded l address offset_in_bytes upper_bound =
     and_then (assure (upper_bound \<le> confidential_memory_end l) MemoryAccessAuthorization) (\<lambda>_.
     confidential_address_at_offset l address offset_in_bytes)"

definition non_confidential_address_at_offset ::
    "memory_layout \<Rightarrow> non_confidential_memory_address \<Rightarrow> usize \<Rightarrow> non_confidential_memory_address res" where
  "non_confidential_address_at_offset l address offset_in_bytes =
     map_err (\<lambda>_. MemoryAccessAuthorization)
       (NonConfidentialMemoryAddress_add address offset_in_bytes (non_confidential_memory_end l))"

definition confidential_memory_boundary :: "memory_layout \<Rightarrow> usize \<times> usize" where
  "confidential_memory_boundary l = (confidential_memory_start l, confidential_memory_end l)"

definition usize_try_from :: "int \<Rightarrow> usize option" where
  "usize_try_from i = (if 0 \<le> i then Some (word_of_int i) else None)"

definition call_once :: "'a option \<Rightarrow> 'a \<Rightarrow> 'a option" where
  "call_once cell v = (case cell of None \<Rightarrow> Some v | Some w \<Rightarrow> Some w)"

definition MemoryLayout_init ::
    "usize \<Rightarrow> usize \<Rightarrow> usize \<Rightarrow> usize \<Rightarrow> memory_layout option
     \<Rightarrow> (confidential_memory_address \<times> usize) res \<times> memory_layout option" where
  "MemoryLayout_init nc_start nc_end c_start c_end =
     sbind (lift (assert_that (nc_start < nc_end))) (\<lambda>_.
     sbind (lift (assert_that (nc_end \<le> c_start))) (\<lambda>_.
     sbind (lift (assert_that (c_start < c_end))) (\<lambda>_.
     let smallest_page_size_in_bytes = in_bytes smallest in
     sbind (lift (map_err (\<lambda>_. Init NotEnoughMemory)
              (ptr_align c_start smallest_page_size_in_bytes c_end))) (\<lambda>c_start.
     sbind (lift (ptr_byte_offset c_end c_start)) (\<lambda>offset.
     sbind (lift (ok_or (usize_try_from offset) (Init NotEnoughMemory))) (\<lambda>memory_size.
     let number_of_pages = memory_size div smallest_page_size_in_bytes in
     sbind (lift (mul_usize number_of_pages smallest_page_size_in_bytes)) (\<lambda>memory_size_in_bytes.
     sbind (lift (if memory_size > memory_size_in_bytes
                  then map_err PointerError (ptr_byte_add_mut c_start memory_size_in_bytes c_end)
                  else Ok c_end)) (\<lambda>c_end cell.
     (Ok (c_start, c_end),
      call_once cell \<lparr>non_confidential_memory_start = nc_start, non_confidential_memory_end = nc_end,
                      confidential_memory_start = c_start, confidential_memory_end = c_end\<rparr>)))))))))"

section \<open>Exact behaviour of the offset functions\<close>

lemma ConfidentialMemoryAddress_add_cases:
  "ConfidentialMemoryAddress_add a off ub =
     (if unat a + unat off < unat ub then Ok (a + off) else Err MemoryAccessAuthorization)"
  by (simp add: ConfidentialMemoryAddress_add_def ptr_byte_add_mut_cases)

lemma confidential_address_at_offset_cases:
  "confidential_address_at_offset l a off =
     (if unat a + unat off < unat (confidential_memory_end l)
      then Ok (a + off) else Err MemoryAccessAuthorization)"
  by (simp add: confidential_address_at_offset_def ConfidentialMemoryAddress_add_cases)

lemma confidential_address_at_offset_bounded_cases:
  "confidential_address_at_offset_bounded l a off ub =
     (if ub \<le> confidential_memory_end l \<and> unat a + unat off < unat (confidential_memory_end l)
      then Ok (a + off) else Err MemoryAccessAuthorization)"
  by (simp add: confidential_address_at_offset_bounded_def confidential_address_at_offset_cases
      assure_def)

lemma non_confidential_address_at_offset_cases:
  "non_confidential_address_at_offset l a off =
     (if unat a + unat off < unat (non_confidential_memory_end l)
      then Ok (a + off) else Err MemoryAccessAuthorization)"
  by (simp add: non_confidential_address_at_offset_def NonConfidentialMemoryAddress_add_def
      ptr_byte_add_mut_cases)

text \<open>A sum below some word does not wrap.\<close>

lemma unat_add_below:
  "unat (a :: usize) + unat off < unat (e :: usize) \<Longrightarrow> unat (a + off) = unat a + unat off"
  using unat_lt_usize [of e] by (intro unat_add_usize) (simp del: unat_lt_usize)

lemma offset_below_iff:
  assumes "lo \<le> (x :: usize)"
  shows "(if unat x + unat off < unat e then Ok (x + off) else Err err) = Ok b \<longleftrightarrow>
    unat b = unat x + unat off \<and> lo \<le> b \<and> b < e"
proof
  assume "(if unat x + unat off < unat e then Ok (x + off) else Err err) = Ok b"
  then show "unat b = unat x + unat off \<and> lo \<le> b \<and> b < e"
    using assms by (auto simp: word_le_nat_alt word_less_nat_alt unat_add_below split: if_splits)
next
  assume b: "unat b = unat x + unat off \<and> lo \<le> b \<and> b < e"
  then have "x + off = b"
    using unat_add_below [of x off e] by (simp add: word_less_nat_alt word_unat_eq_iff)
  with b show "(if unat x + unat off < unat e then Ok (x + off) else Err err) = Ok b"
    by (simp add: word_less_nat_alt)
qed

section \<open>Well-formed layouts\<close>

definition layout_wf :: "memory_layout \<Rightarrow> bool" where
  "layout_wf l \<longleftrightarrow>
     non_confidential_memory_start l < non_confidential_memory_end l
   \<and> non_confidential_memory_end l \<le> confidential_memory_start l
   \<and> confidential_memory_start l \<le> confidential_memory_end l
   \<and> is_aligned_to (confidential_memory_start l) (in_bytes smallest)
   \<and> is_aligned_to (confidential_memory_end l) (in_bytes smallest)"

definition in_confidential_range :: "memory_layout \<Rightarrow> usize \<Rightarrow> bool" where
  "in_confidential_range l a \<longleftrightarrow> confidential_memory_start l \<le> a \<and> a < confidential_memory_end l"

lemma regions_disjoint:
  "layout_wf l \<Longrightarrow> \<not> (in_confidential_range l a \<and> is_in_non_confidential_range l a)"
  by (auto simp: layout_wf_def in_confidential_range_def is_in_non_confidential_range_def)

lemma ptr_byte_offset_usize:
  assumes "ptr_byte_offset e s = Ok d" and "usize_try_from d = Some m" and "s \<le> e"
  shows "unat m = unat e - unat s"
proof -
  have "m = word_of_int (sint e - sint s)"
    using assms(1,2)
    by (auto simp: ptr_byte_offset_def usize_try_from_def Let_def split: if_splits)
  then have "m = e - s" by (simp add: wi_hom_sub [symmetric])
  with assms(3) show ?thesis by (simp add: unat_sub word_le_nat_alt)
qed

lemma round_down_to_pages:
  assumes "mul_usize (m div in_bytes smallest) (in_bytes smallest) = Ok b"
  shows "unat b = unat m - unat m mod 4096"
proof -
  have sz: "unat (in_bytes smallest) = 4096" by (simp add: smallest_def in_bytes_def)
  have "unat b = unat m div 4096 * 4096"
    using assms unat_mul_usize [of "m div in_bytes smallest" "in_bytes smallest"]
    by (simp add: res_simps unat_div sz)
  then show ?thesis by (simp add: minus_mod_eq_div_mult)
qed

lemma MemoryLayout_init_Ok:
  assumes "MemoryLayout_init ns ne cs ce cell = (Ok (s, e), cell')"
  shows "ns < ne" "ne \<le> cs" "cs \<le> s" "s \<le> e" "e \<le> ce"
    "unat s mod 4096 = 0" "unat e mod 4096 = 0" "unat s < unat cs + 4096"
    "unat ce < unat e + 4096"
    "cell' = call_once cell \<lparr>non_confidential_memory_start = ns, non_confidential_memory_end = ne,
       confidential_memory_start = s, confidential_memory_end = e\<rparr>"
proof -
  have sz: "unat (in_bytes smallest) = 4096" by (simp add: smallest_def in_bytes_def)
  from assms obtain d m b where order: "ns < ne" "ne \<le> cs"
    and al: "ptr_align cs (in_bytes smallest) ce = Ok s"
    and d: "ptr_byte_offset ce s = (Ok d :: int res)" and m: "usize_try_from d = Some m"
    and b: "mul_usize (m div in_bytes smallest) (in_bytes smallest) = (Ok b :: usize res)"
    and e: "(if b < m then map_err PointerError (ptr_byte_add_mut s b ce) else Ok ce) = Ok e"
    and cell: "cell' = call_once cell \<lparr>non_confidential_memory_start = ns,
       non_confidential_memory_end = ne, confidential_memory_start = s, confidential_memory_end = e\<rparr>"
    unfolding MemoryLayout_init_def Let_def by (auto simp: res_simps)
  note A = ptr_align_Ok [OF al]
  have um: "unat m = unat ce - unat s" using ptr_byte_offset_usize [OF d m] A(3) by simp
  note ub = round_down_to_pages [OF b]
  have ue: "unat e = unat s + unat b"
  proof (cases "b < m")
    case True
    with e show ?thesis by (auto simp: res_simps ptr_byte_add_mut_iff dest: unat_add_below)
  next
    case False
    with e have "e = ce" by simp
    moreover have "unat b = unat m" using False ub by (simp add: word_less_nat_alt)
    ultimately show ?thesis using um A(3) by (simp add: word_less_nat_alt)
  qed
  show "ns < ne" "ne \<le> cs" "cs \<le> s" using order A(2) by auto
  show "s \<le> e" "e \<le> ce"
    using ue ub um A(3) mod_less_eq_dividend [of "unat m" 4096]
    unfolding word_le_nat_alt word_less_nat_alt by linarith+
  show s4: "unat s mod 4096 = 0" using A(1) by (simp add: sz)
  show "unat s < unat cs + 4096" using A(4) by (simp add: sz)
  show "unat e mod 4096 = 0" using ue ub s4 by (metis mod_add_eq minus_mod_eq_mult_div
        mod_mult_self1_is_0 add_0 mod_0)
  show "unat ce < unat e + 4096"
    using ue ub um mod_less_divisor [of 4096 "unat m"] A(3)
    unfolding word_less_nat_alt by linarith
  show "cell' = call_once cell \<lparr>non_confidential_memory_start = ns,
       non_confidential_memory_end = ne, confidential_memory_start = s, confidential_memory_end = e\<rparr>"
    by (rule cell)
qed

section \<open>Properties\<close>

text \<open>A successful \<^verbatim>\<open>MemoryLayout::init\<close> on a fresh cell stores a well-formed layout: both
  confidential boundaries are page aligned, the two regions are disjoint, the confidential region
  lies inside the range it was given and loses less than one page at either end.\<close>

lemma memory_layout_init_sound:
  assumes "MemoryLayout_init ns ne cs ce None = (Ok (s, e), cell)"
  shows "\<exists>l. cell = Some l \<and> layout_wf l
    \<and> confidential_memory_boundary l = (s, e)
    \<and> non_confidential_memory_start l = ns \<and> non_confidential_memory_end l = ne
    \<and> cs \<le> s \<and> e \<le> ce \<and> unat s - unat cs < 4096 \<and> unat ce - unat e < 4096
    \<and> (\<forall>a. \<not> (in_confidential_range l a \<and> is_in_non_confidential_range l a))"
proof -
  note I = MemoryLayout_init_Ok [OF assms]
  let ?l = "\<lparr>non_confidential_memory_start = ns, non_confidential_memory_end = ne,
             confidential_memory_start = s, confidential_memory_end = e\<rparr>"
  have wf: "layout_wf ?l"
    using I(1-7) by (simp add: layout_wf_def is_aligned_to_def smallest_def in_bytes_def)
  show ?thesis
    using I wf regions_disjoint [OF wf]
    by (intro exI [of _ ?l])
       (auto simp: call_once_def confidential_memory_boundary_def)
qed

lemma MemoryLayout_init_example:
  "MemoryLayout_init 0x1000 0x2000 0x2008 0x5010 None
      = (Ok (0x3000, 0x5000), Some \<lparr>non_confidential_memory_start = 0x1000,
           non_confidential_memory_end = 0x2000, confidential_memory_start = 0x3000,
           confidential_memory_end = 0x5000\<rparr>)"
  by (simp add: MemoryLayout_init_def sbind_lift Let_def ptr_align_def align_offset_def
      is_power_of_two_def size_of_usize_def smallest_def in_bytes_def mul_usize_def
      ptr_byte_add_mut_def ptr_byte_offset_def usize_try_from_def call_once_def)

lemma memory_layout_init_sound_example:
  "\<exists>l. MemoryLayout_init 0x1000 0x2000 0x2008 0x5010 None = (Ok (0x3000, 0x5000), Some l)
     \<and> layout_wf l"
  using memory_layout_init_sound [OF MemoryLayout_init_example] MemoryLayout_init_example by auto

text \<open>C31: offsetting an address never leaves its region. An address in the non-confidential
  (confidential) region plus an offset is, when the call succeeds, the exact sum without wrap-around
  and again in that region; the call fails, without a panic, exactly when the sum is not.\<close>

theorem offset_stays_in_region:
  assumes "is_in_non_confidential_range l a" and "in_confidential_range l c"
  shows "(\<forall>b. non_confidential_address_at_offset l a off = Ok b \<longleftrightarrow>
             unat b = unat a + unat off \<and> is_in_non_confidential_range l b)
    \<and> (\<forall>b. confidential_address_at_offset l c off = Ok b \<longleftrightarrow>
             unat b = unat c + unat off \<and> in_confidential_range l b)
    \<and> non_confidential_address_at_offset l a off \<noteq> Panic
    \<and> confidential_address_at_offset l c off \<noteq> Panic"
  using assms
  by (simp add: non_confidential_address_at_offset_cases confidential_address_at_offset_cases
      is_in_non_confidential_range_def in_confidential_range_def offset_below_iff)

definition example_layout :: memory_layout where
  "example_layout = \<lparr>non_confidential_memory_start = 0x1000, non_confidential_memory_end = 0x3000,
     confidential_memory_start = 0x3000, confidential_memory_end = 0x800000\<rparr>"

theorem offset_stays_in_region_witness:
  "is_in_non_confidential_range example_layout 0x1000 \<and> in_confidential_range example_layout 0x3000
   \<and> non_confidential_address_at_offset example_layout 0x1000 0x1ff8 = Ok 0x2ff8
   \<and> non_confidential_address_at_offset example_layout 0x1000 0x2000 \<noteq> Panic"
proof -
  have h: "is_in_non_confidential_range example_layout 0x1000"
    "in_confidential_range example_layout 0x3000"
    by (simp_all add: example_layout_def is_in_non_confidential_range_def in_confidential_range_def)
  have "unat (0x2ff8 :: usize) = unat (0x1000 :: usize) + unat (0x1ff8 :: usize)"
    "is_in_non_confidential_range example_layout 0x2ff8"
    by (simp_all add: example_layout_def is_in_non_confidential_range_def)
  then show ?thesis
    using h offset_stays_in_region [OF h, of "0x1ff8"] offset_stays_in_region [OF h, of "0x2000"]
    by blast
qed

text \<open>\<^verbatim>\<open>confidential_address_at_offset_bounded\<close> does not enforce its bound on the address it
  returns: whenever the bound lies within the confidential memory the result is that of the
  unbounded function, and it can lie beyond the bound.\<close>

lemma bounded_offset_ignores_bound:
  "(\<forall>l a off ub. confidential_address_at_offset_bounded l a off ub =
      (if ub \<le> confidential_memory_end l then confidential_address_at_offset l a off
       else Err MemoryAccessAuthorization))
   \<and> layout_wf example_layout
   \<and> confidential_address_at_offset_bounded example_layout 0x3000 0x1000 0x3800 = Ok 0x4000"
  by (simp add: confidential_address_at_offset_bounded_cases confidential_address_at_offset_cases
      example_layout_def layout_wf_def is_aligned_to_def smallest_def in_bytes_def)

end
