(* ===== verification/Pages.thy ===== *)
theory Pages
  imports Memory_Layout
begin

text \<open>
  \<^verbatim>\<open>core/page_allocator/page.rs\<close>: page tokens and the only operations that touch the physical
  memory a token owns.

  \<^item> \<open>page\<close> is \<^verbatim>\<open>Page<S>\<close>; the phantom state \<^verbatim>\<open>S\<close> (allocated or not) has no run-time content.
  \<^item> \<open>mem_state\<close> is the physical memory. The monitor accesses it in 8-byte words, so
    \<open>confidential_memory\<close> maps the address of a word to its content. Non-confidential memory belongs
    to untrusted code that runs on other harts at the same time: \<open>non_confidential_memory s t a\<close> is
    the word a volatile read returns at time \<open>t\<close>, an arbitrary function, and every such read
    advances \<open>now\<close>. Nothing can be concluded from reading the same address twice.
  \<^item> Operations take the layout \<open>l\<close> where the source calls \<^verbatim>\<open>MemoryLayout::read()\<close>.
\<close>

record page =
  page_address :: confidential_memory_address
  page_size :: page_size

record mem_state =
  confidential_memory :: "usize \<Rightarrow> usize"
  non_confidential_memory :: "nat \<Rightarrow> usize \<Rightarrow> usize"
  now :: nat

definition write_volatile ::
    "confidential_memory_address \<Rightarrow> usize \<Rightarrow> ('z mem_state_scheme, error, unit) st" where
  "write_volatile a v s =
     (Ok (), s\<lparr>confidential_memory := (confidential_memory s)(a := v)\<rparr>)"

definition read_volatile ::
    "confidential_memory_address \<Rightarrow> ('z mem_state_scheme, error, usize) st" where
  "read_volatile a s = (Ok (confidential_memory s a), s)"

definition NonConfidentialMemoryAddress_read ::
    "non_confidential_memory_address \<Rightarrow> ('z mem_state_scheme, error, usize) st" where
  "NonConfidentialMemoryAddress_read a s =
     (Ok (non_confidential_memory s (now s) a), s\<lparr>now := Suc (now s)\<rparr>)"

definition Page_init :: "confidential_memory_address \<Rightarrow> page_size \<Rightarrow> page" where
  "Page_init address sz = \<lparr>page_address = address, page_size = sz\<rparr>"

definition start_address :: "page \<Rightarrow> usize" where
  "start_address p = page_address p"

definition end_address :: "page \<Rightarrow> usize res" where
  "end_address p = add_usize (page_address p) (in_bytes (page_size p))"

definition Page_read :: "page \<Rightarrow> usize \<Rightarrow> ('z mem_state_scheme, error, usize) st" where
  "Page_read p offset_in_bytes =
     sbind (lift (assert_that (offset_in_bytes mod size_of_usize = 0))) (\<lambda>_.
     sbind (lift (end_address p)) (\<lambda>e.
     sbind (lift (ConfidentialMemoryAddress_add (page_address p) offset_in_bytes e)) (\<lambda>pointer.
     read_volatile pointer)))"

definition Page_write :: "page \<Rightarrow> usize \<Rightarrow> usize \<Rightarrow> ('z mem_state_scheme, error, unit) st" where
  "Page_write p offset_in_bytes v =
     sbind (lift (assure (offset_in_bytes mod size_of_usize = 0) MemoryAccessAuthorization)) (\<lambda>_.
     sbind (lift (end_address p)) (\<lambda>e.
     sbind (lift (ConfidentialMemoryAddress_add (page_address p) offset_in_bytes e)) (\<lambda>pointer.
     write_volatile pointer v)))"

definition offsets :: "page \<Rightarrow> usize list" where
  "offsets p = map (\<lambda>i. of_nat (8 * i)) [0..<unat (in_bytes (page_size p)) div 8]"

definition clear :: "page \<Rightarrow> ('z mem_state_scheme, error, unit) st" where
  "clear p = for_each (\<lambda>offset_in_bytes. sunwrap (Page_write p offset_in_bytes 0)) (offsets p)"

definition zeroize :: "page \<Rightarrow> ('z mem_state_scheme, error, page) st" where
  "zeroize p = sbind (clear p) (\<lambda>_. ret p)"

definition deallocate :: "page \<Rightarrow> ('z mem_state_scheme, error, page) st" where
  "deallocate p = sbind (clear p) (\<lambda>_. ret p)"

definition copy_from_non_confidential_memory ::
    "memory_layout \<Rightarrow> page \<Rightarrow> non_confidential_memory_address
     \<Rightarrow> ('z mem_state_scheme, error, page) st" where
  "copy_from_non_confidential_memory l p address =
     sbind (for_each (\<lambda>offset_in_bytes.
        sbind (lift (non_confidential_address_at_offset l address offset_in_bytes))
          (\<lambda>non_confidential_address.
        sbind (NonConfidentialMemoryAddress_read non_confidential_address) (\<lambda>data_to_copy.
        Page_write p offset_in_bytes data_to_copy))) (offsets p)) (\<lambda>_. ret p)"

definition divide :: "memory_layout \<Rightarrow> page \<Rightarrow> page list res" where
  "divide l p =
     (let smaller_page_size = (case smaller (page_size p) of None \<Rightarrow> page_size p | Some q \<Rightarrow> q);
          number_of_smaller_pages = in_bytes (page_size p) div in_bytes smaller_page_size
      in and_then (end_address p) (\<lambda>page_end.
         try_map (\<lambda>i.
           and_then (mul_usize (of_nat i) (in_bytes smaller_page_size)) (\<lambda>offset_in_bytes.
           and_then (unwrap (confidential_address_at_offset_bounded l (page_address p)
                       offset_in_bytes page_end)) (\<lambda>smaller_page_start.
           Ok (Page_init smaller_page_start smaller_page_size))))
         [0..<unat number_of_smaller_pages]))"

definition clear_confidential_memory :: "memory_layout \<Rightarrow> ('z mem_state_scheme, error, unit) st" where
  "clear_confidential_memory l =
     sbind (lift (ptr_byte_offset (confidential_memory_end l) (confidential_memory_start l)))
       (\<lambda>offset. let memory_size = (word_of_int offset :: usize) in
     for_each (\<lambda>offset_in_bytes s.
        (case ptr_byte_add_mut (confidential_memory_start l) offset_in_bytes
                (confidential_memory_end l) of
           Ok ptr \<Rightarrow> write_volatile ptr 0 s
         | Err _ \<Rightarrow> (Ok (), s)
         | Panic \<Rightarrow> (Panic, s)))
       (map (\<lambda>i. of_nat (8 * i)) [0..<(unat memory_size + 7) div 8]))"

section \<open>The memory a token owns\<close>

definition page_range :: "page \<Rightarrow> nat set" where
  "page_range p = {unat (page_address p) ..< unat (page_address p) + bytes (page_size p)}"

definition page_ok :: "memory_layout \<Rightarrow> page \<Rightarrow> bool" where
  "page_ok l p \<longleftrightarrow>
     confidential_memory_start l \<le> page_address p
   \<and> unat (page_address p) + bytes (page_size p) \<le> unat (confidential_memory_end l)
   \<and> unat (page_address p) mod bytes (page_size p) = 0"

lemma page_range_nonempty [simp]: "unat (page_address p) \<in> page_range p"
  by (simp add: page_range_def)

lemma page_range_neq_empty [simp]: "page_range p \<noteq> {}"
  using page_range_nonempty [of p] by blast

lemma page_ok_range:
  "page_ok l p \<Longrightarrow> x \<in> page_range p \<Longrightarrow>
     unat (confidential_memory_start l) \<le> x \<and> x < unat (confidential_memory_end l)"
  by (auto simp: page_ok_def page_range_def word_le_nat_alt)

lemma page_ok_no_overflow:
  "page_ok l p \<Longrightarrow> unat (page_address p) + bytes (page_size p) < 2 ^ 64"
  using unat_lt_usize [of "confidential_memory_end l"]
  by (simp add: page_ok_def del: unat_lt_usize)

lemma page_ok_end:
  assumes "page_ok l p"
  shows "end_address p = Ok (page_address p + in_bytes (page_size p))"
    and "unat (page_address p + in_bytes (page_size p)) = unat (page_address p) + bytes (page_size p)"
  using page_ok_no_overflow [OF assms]
  by (simp_all add: end_address_def add_usize_def unat_in_bytes unat_add_usize)

lemma Page_init_simps [simp]:
  "page_address (Page_init a sz) = a" "page_size (Page_init a sz) = sz"
  by (simp_all add: Page_init_def)

section \<open>Accesses stay in the page\<close>

lemma Page_write_cases:
  assumes "page_ok l p"
  shows "Page_write p off v s =
    (if off mod 8 = 0 \<and> unat off < bytes (page_size p)
     then (Ok (), s\<lparr>confidential_memory := (confidential_memory s)(page_address p + off := v)\<rparr>)
     else (Err MemoryAccessAuthorization, s))"
  by (simp add: Page_write_def sbind_lift page_ok_end [OF assms] assure_def size_of_usize_def
      ConfidentialMemoryAddress_add_cases write_volatile_def)

lemma Page_read_cases:
  assumes "page_ok l p"
  shows "Page_read p off s =
    (if off mod 8 \<noteq> 0 then (Panic, s)
     else if unat off < bytes (page_size p)
     then (Ok (confidential_memory s (page_address p + off)), s)
     else (Err MemoryAccessAuthorization, s))"
  by (simp add: Page_read_def sbind_lift page_ok_end [OF assms] assert_that_def size_of_usize_def
      ConfidentialMemoryAddress_add_cases read_volatile_def)

definition words_in :: "page \<Rightarrow> nat" where
  "words_in p = bytes (page_size p) div 8"

definition word_at :: "page \<Rightarrow> nat \<Rightarrow> usize" where
  "word_at p i = page_address p + of_nat (8 * i)"

lemma words_in_bytes: "8 * words_in p = bytes (page_size p)"
  using eight_dvd_bytes [of "page_size p"] by (simp add: words_in_def)

lemma unat_word_offset: "i < words_in p \<Longrightarrow> unat (of_nat (8 * i) :: usize) = 8 * i"
  using words_in_bytes [of p] bytes_upper [of "page_size p"]
  by (simp add: unat_of_nat take_bit_nat_eq_self_iff del: of_nat_mult)

lemma unat_word_at:
  assumes "page_ok l p" and "i < words_in p"
  shows "unat (word_at p i) = unat (page_address p) + 8 * i"
proof -
  have "8 * i < bytes (page_size p)" using assms(2) words_in_bytes [of p] by linarith
  then have "unat (page_address p) + unat (of_nat (8 * i) :: usize) < 2 ^ 64"
    using page_ok_no_overflow [OF assms(1)] unat_word_offset [OF assms(2)] by linarith
  from unat_add_usize [OF this] show ?thesis
    using unat_word_offset [OF assms(2)] by (simp add: word_at_def)
qed

lemma word_at_in_page: "page_ok l p \<Longrightarrow> i < words_in p \<Longrightarrow> unat (word_at p i) \<in> page_range p"
  using words_in_bytes [of p] by (simp add: unat_word_at page_range_def)

lemma word_at_inject:
  "page_ok l p \<Longrightarrow> i < words_in p \<Longrightarrow> j < words_in p \<Longrightarrow> word_at p i = word_at p j \<longleftrightarrow> i = j"
  by (auto simp: word_unat_eq_iff unat_word_at)

lemma word_offset_aligned: "i < words_in p \<Longrightarrow> (of_nat (8 * i) :: usize) mod 8 = 0"
  by (simp add: word_unat_eq_iff unat_mod unat_word_offset del: of_nat_mult)

lemma Page_write_word:
  assumes "page_ok l p" and "i < words_in p"
  shows "Page_write p (of_nat (8 * i)) v s =
    (Ok (), s\<lparr>confidential_memory := (confidential_memory s)(word_at p i := v)\<rparr>)"
  using assms words_in_bytes [of p]
  by (simp add: Page_write_cases word_offset_aligned unat_word_offset word_at_def del: of_nat_mult)

lemma Page_read_word:
  assumes "page_ok l p" and "i < words_in p"
  shows "Page_read p (of_nat (8 * i)) s = (Ok (confidential_memory s (word_at p i)), s)"
  using assms words_in_bytes [of p]
  by (simp add: Page_read_cases word_offset_aligned unat_word_offset word_at_def del: of_nat_mult)

lemma offsets_eq: "offsets p = map (\<lambda>i. of_nat (8 * i)) [0..<words_in p]"
  by (simp add: offsets_def words_in_def unat_in_bytes)

section \<open>Writing a whole page\<close>

text \<open>\<open>fill p n f m\<close> is the memory \<open>m\<close> with the first \<open>n\<close> words of \<open>p\<close> set to \<open>f 0\<close>, \<open>f 1\<close>, ...\<close>

primrec fill :: "page \<Rightarrow> nat \<Rightarrow> (nat \<Rightarrow> usize) \<Rightarrow> (usize \<Rightarrow> usize) \<Rightarrow> usize \<Rightarrow> usize" where
  "fill p 0 f m = m"
| "fill p (Suc n) f m = (fill p n f m)(word_at p n := f n)"

lemma fill_outside:
  assumes "page_ok l p" and "n \<le> words_in p" and "unat x \<notin> page_range p"
  shows "fill p n f m x = m x"
  using assms(2)
proof (induction n)
  case (Suc n)
  then have "word_at p n \<noteq> x" using word_at_in_page [OF assms(1), of n] assms(3) by auto
  with Suc show ?case by simp
qed simp

lemma fill_word:
  assumes "page_ok l p" and "n \<le> words_in p" and "i < n"
  shows "fill p n f m (word_at p i) = f i"
  using assms(2,3)
proof (induction n)
  case (Suc n)
  then show ?case
    using word_at_inject [OF assms(1), of i n] by (cases "i = n") auto
qed simp

lemma clear_upto:
  assumes "page_ok l p" and "n \<le> words_in p"
  shows "for_each (\<lambda>off. sunwrap (Page_write p off 0)) (map (\<lambda>i. of_nat (8 * i)) [0..<n]) s =
    (Ok (), s\<lparr>confidential_memory := fill p n (\<lambda>_. 0) (confidential_memory s)\<rparr>)"
  using assms(2)
proof (induction n)
  case 0
  then show ?case by (simp add: ret_def)
next
  case (Suc n)
  then show ?case
    by (simp add: for_each_append sbind_def sunwrap_def ret_def Page_write_word [OF assms(1)]
        fun_upd_def del: of_nat_mult cong: if_cong)
qed

lemma clear_eq:
  "page_ok l p \<Longrightarrow> clear p s =
     (Ok (), s\<lparr>confidential_memory := fill p (words_in p) (\<lambda>_. 0) (confidential_memory s)\<rparr>)"
  by (simp add: clear_def offsets_eq clear_upto del: of_nat_mult)

lemma zeroize_eq:
  "page_ok l p \<Longrightarrow> zeroize p s =
     (Ok p, s\<lparr>confidential_memory := fill p (words_in p) (\<lambda>_. 0) (confidential_memory s)\<rparr>)"
  by (simp add: zeroize_def sbind_def clear_eq ret_def)

lemma deallocate_eq:
  "page_ok l p \<Longrightarrow> deallocate p s =
     (Ok p, s\<lparr>confidential_memory := fill p (words_in p) (\<lambda>_. 0) (confidential_memory s)\<rparr>)"
  by (simp add: deallocate_def sbind_def clear_eq ret_def)

text \<open>What a copy writes: word \<open>i\<close> is the value the \<open>i\<close>-th volatile read returned.\<close>

abbreviation copied :: "'z mem_state_scheme \<Rightarrow> usize \<Rightarrow> nat \<Rightarrow> usize" where
  "copied s a i \<equiv> non_confidential_memory s (now s + i) (a + of_nat (8 * i))"

lemma copy_upto:
  assumes "page_ok l p" and "n \<le> words_in p"
    and "\<And>i. i < n \<Longrightarrow> unat a + 8 * i < unat (non_confidential_memory_end l)"
  shows "for_each (\<lambda>off. sbind (lift (non_confidential_address_at_offset l a off)) (\<lambda>nc.
        sbind (NonConfidentialMemoryAddress_read nc) (\<lambda>d. Page_write p off d)))
      (map (\<lambda>i. of_nat (8 * i)) [0..<n]) s =
    (Ok (), s\<lparr>confidential_memory := fill p n (copied s a) (confidential_memory s),
              now := now s + n\<rparr>)"
  using assms(2,3)
proof (induction n)
  case 0
  then show ?case by (simp add: ret_def)
next
  case (Suc n)
  then show ?case
    using unat_word_offset [of n p]
    by (simp add: for_each_append sbind_def lift_def non_confidential_address_at_offset_cases
        NonConfidentialMemoryAddress_read_def ret_def Page_write_word [OF assms(1)]
        fun_upd_def del: of_nat_mult cong: if_cong)
qed

lemma copy_Ok:
  assumes "page_ok l p"
    and "unat a + bytes (page_size p) \<le> unat (non_confidential_memory_end l) + 7"
  shows "copy_from_non_confidential_memory l p a s =
    (Ok p, s\<lparr>confidential_memory := fill p (words_in p) (copied s a) (confidential_memory s),
             now := now s + words_in p\<rparr>)"
proof -
  have "unat a + 8 * i < unat (non_confidential_memory_end l)" if "i < words_in p" for i
    using that words_in_bytes [of p] assms(2) by linarith
  then show ?thesis
    by (simp add: copy_from_non_confidential_memory_def offsets_eq copy_upto [OF assms(1)] ret_def
        sbind_Ok del: of_nat_mult)
qed

section \<open>Dividing a page\<close>

definition divided_size :: "page_size \<Rightarrow> page_size" where
  "divided_size sz = (case smaller sz of None \<Rightarrow> sz | Some q \<Rightarrow> q)"

definition pieces :: "page_size \<Rightarrow> nat" where
  "pieces sz = bytes sz div bytes (divided_size sz)"

lemma pieces_bytes: "pieces sz * bytes (divided_size sz) = bytes sz"
  by (cases sz) (simp_all add: pieces_def divided_size_def)

lemma piece_bound:
  assumes "i < pieces sz"
  shows "i * bytes (divided_size sz) + bytes (divided_size sz) \<le> bytes sz"
proof -
  have "Suc i * bytes (divided_size sz) \<le> pieces sz * bytes (divided_size sz)"
    using assms by (intro mult_le_mono1) simp
  then show ?thesis by (simp add: pieces_bytes)
qed

definition piece :: "page \<Rightarrow> nat \<Rightarrow> page" where
  "piece p i = Page_init (page_address p + of_nat i * in_bytes (divided_size (page_size p)))
     (divided_size (page_size p))"

lemma piece_offset:
  assumes "page_ok l p" and "i < pieces (page_size p)"
  defines "sz \<equiv> divided_size (page_size p)"
  shows "mul_usize (of_nat i) (in_bytes sz) = Ok (of_nat i * in_bytes sz)"
    and "unat (of_nat i * in_bytes sz) = i * bytes sz"
    and "unat (page_address p + of_nat i * in_bytes sz) = unat (page_address p) + i * bytes sz"
proof -
  note b = piece_bound [OF assms(2), folded sz_def]
  have "bytes (page_size p) < 2 ^ 64" using bytes_upper [of "page_size p"] by simp
  moreover have "i * 1 \<le> i * bytes sz" by (intro mult_le_mono2) (simp add: Suc_le_eq)
  ultimately have "i < 2 ^ 64" and small: "i * bytes sz < 2 ^ 64"
    using b bytes_pos [of sz] by linarith+
  then have ui: "unat (of_nat i :: usize) = i" by (simp add: unat_of_nat)
  show "mul_usize (of_nat i) (in_bytes sz) = Ok (of_nat i * in_bytes sz)"
    using small by (simp add: mul_usize_def ui unat_in_bytes)
  show u: "unat (of_nat i * in_bytes sz) = i * bytes sz"
    using small unat_mul_usize [of "of_nat i" "in_bytes sz"] by (simp add: ui unat_in_bytes)
  have "unat (page_address p) + i * bytes sz < 2 ^ 64"
    using page_ok_no_overflow [OF assms(1)] b bytes_pos [of sz] by linarith
  then show "unat (page_address p + of_nat i * in_bytes sz) = unat (page_address p) + i * bytes sz"
    using u by (simp add: unat_add_usize)
qed

lemma piece_range:
  assumes "page_ok l p" and "i < pieces (page_size p)"
  shows "page_range (piece p i) =
    {unat (page_address p) + i * bytes (divided_size (page_size p)) ..<
     unat (page_address p) + Suc i * bytes (divided_size (page_size p))}"
  by (simp add: page_range_def piece_def piece_offset(3) [OF assms] algebra_simps)

lemma piece_ok:
  assumes "page_ok l p" and "i < pieces (page_size p)"
  shows "page_ok l (piece p i)"
proof -
  note b = piece_bound [OF assms(2)] and u = piece_offset(3) [OF assms]
  have "bytes (divided_size (page_size p)) dvd bytes (page_size p)"
    using pieces_bytes [of "page_size p"] by (metis dvd_triv_right)
  with assms(1) have "unat (page_address p) mod bytes (divided_size (page_size p)) = 0"
    by (auto simp: page_ok_def mod_eq_0_iff_dvd intro: dvd_trans)
  with assms(1) b u show ?thesis
    by (simp add: page_ok_def piece_def word_le_nat_alt)
qed

lemma divide_eq:
  assumes "page_ok l p"
  shows "divide l p = Ok (map (piece p) [0..<pieces (page_size p)])"
proof -
  let ?sz = "divided_size (page_size p)"
  let ?e = "page_address p + in_bytes (page_size p)"
  have n: "unat (in_bytes (page_size p) div in_bytes ?sz) = pieces (page_size p)"
    by (simp add: pieces_def unat_div unat_in_bytes)
  have e: "?e \<le> confidential_memory_end l"
    using assms page_ok_end(2) [OF assms] by (simp add: page_ok_def word_le_nat_alt)
  have step: "and_then (mul_usize (of_nat i) (in_bytes ?sz)) (\<lambda>off.
          and_then (unwrap (confidential_address_at_offset_bounded l (page_address p) off ?e))
            (\<lambda>a. Ok (Page_init a ?sz))) = (Ok (piece p i) :: page res)"
    if "i \<in> set [0..<pieces (page_size p)]" for i
  proof -
    from that have i: "i < pieces (page_size p)" by simp
    have "unat (page_address p) + i * bytes ?sz < unat (confidential_memory_end l)"
      using piece_bound [OF i] assms bytes_pos [of ?sz] unfolding page_ok_def by linarith
    then show ?thesis
      by (simp add: piece_offset [OF assms i] confidential_address_at_offset_bounded_cases e
          piece_def)
  qed
  show ?thesis
    by (simp add: divide_def Let_def page_ok_end(1) [OF assms] n divided_size_def [symmetric])
       (rule try_map_total, rule step)
qed

lemma pieces_cover:
  assumes "page_ok l p"
  shows "(\<Union>i < pieces (page_size p). page_range (piece p i)) = page_range p"
proof -
  let ?b = "bytes (divided_size (page_size p))" and ?a = "unat (page_address p)"
  have "x \<in> (\<Union>i < pieces (page_size p). page_range (piece p i))" if "x \<in> page_range p" for x
  proof -
    define i where "i = (x - ?a) div ?b"
    have x: "?a \<le> x" "x - ?a < pieces (page_size p) * ?b"
      using that by (auto simp: page_range_def pieces_bytes)
    then have i: "i < pieces (page_size p)"
      by (simp add: i_def less_mult_imp_div_less)
    have "i * ?b \<le> x - ?a" "x - ?a < Suc i * ?b"
      unfolding i_def by (simp_all add: dividend_less_div_times add.commute)
    then have "x \<in> page_range (piece p i)"
      unfolding piece_range [OF assms i] using x(1) by auto
    with i show ?thesis by blast
  qed
  moreover have "page_range (piece p i) \<subseteq> page_range p" if "i < pieces (page_size p)" for i
    using piece_bound [OF that] piece_range [OF assms that] by (auto simp: page_range_def [of p])
  ultimately show ?thesis by blast
qed

lemma pieces_disjoint:
  assumes "page_ok l p" and "i < pieces (page_size p)" and "j < pieces (page_size p)" and "i \<noteq> j"
  shows "page_range (piece p i) \<inter> page_range (piece p j) = {}"
proof -
  let ?b = "bytes (divided_size (page_size p))"
  have "Suc i * ?b \<le> j * ?b \<or> Suc j * ?b \<le> i * ?b"
    using assms(4) by (metis Suc_leI mult_le_mono1 nat_neq_iff)
  then show ?thesis
    unfolding piece_range [OF assms(1,2)] piece_range [OF assms(1,3)] by auto
qed

section \<open>Properties\<close>

lemma copy_Err:
  assumes "page_ok l p"
    and "unat (non_confidential_memory_end l) + 7 < unat a + bytes (page_size p)"
  shows "\<exists>n < words_in p. copy_from_non_confidential_memory l p a s =
    (Err MemoryAccessAuthorization,
     s\<lparr>confidential_memory := fill p n (copied s a) (confidential_memory s), now := now s + n\<rparr>)"
proof -
  let ?e = "unat (non_confidential_memory_end l)"
  have bytes: "8 * words_in p = bytes (page_size p)" by (rule words_in_bytes)
  with assms(2) have last: "?e \<le> unat a + 8 * (words_in p - 1)"
    and pos: "0 < words_in p" using bytes_lower [of "page_size p"] by linarith+
  define n where "n = (LEAST i. ?e \<le> unat a + 8 * i)"
  have n: "?e \<le> unat a + 8 * n" unfolding n_def by (rule LeastI) (rule last)
  have min: "unat a + 8 * i < ?e" if "i < n" for i
    using not_less_Least [OF that [unfolded n_def]] by simp
  have "n \<le> words_in p - 1" unfolding n_def by (rule Least_le) (rule last)
  with pos have nw: "n < words_in p" by simp
  then have split: "[0..<words_in p] = [0..<n] @ n # [Suc n..<words_in p]"
    using upt_add_eq_append [of 0 n "words_in p - n"] by (simp add: upt_conv_Cons)
  have "copy_from_non_confidential_memory l p a s =
    (Err MemoryAccessAuthorization,
     s\<lparr>confidential_memory := fill p n (copied s a) (confidential_memory s), now := now s + n\<rparr>)"
    using n nw unat_word_offset [OF nw] copy_upto [OF assms(1), of n a s, OF _ min]
    by (simp add: copy_from_non_confidential_memory_def offsets_eq split for_each_append sbind_Ok
        sbind_def lift_def non_confidential_address_at_offset_cases del: of_nat_mult)
  with nw show ?thesis by blast
qed

text \<open>Whatever the outcome, a copy changes the first \<open>n\<close> words of its page for some \<open>n\<close>.\<close>

lemma copy_outcome:
  assumes "page_ok l p"
  obtains n where "n \<le> words_in p"
    "snd (copy_from_non_confidential_memory l p a s) =
       s\<lparr>confidential_memory := fill p n (copied s a) (confidential_memory s), now := now s + n\<rparr>"
    "fst (copy_from_non_confidential_memory l p a s) = Ok p \<or>
     fst (copy_from_non_confidential_memory l p a s) = Err MemoryAccessAuthorization"
proof (cases "unat a + bytes (page_size p) \<le> unat (non_confidential_memory_end l) + 7")
  case True
  show ?thesis
    by (rule that [of "words_in p"]) (simp_all add: copy_Ok [OF assms True] del: of_nat_mult)
next
  case False
  then obtain n where "n < words_in p" "copy_from_non_confidential_memory l p a s =
    (Err MemoryAccessAuthorization,
     s\<lparr>confidential_memory := fill p n (copied s a) (confidential_memory s), now := now s + n\<rparr>)"
    using copy_Err [OF assms, of a s] by auto
  then show ?thesis by (intro that [of n]) (simp_all del: of_nat_mult)
qed

definition example_page :: page where
  "example_page = Page_init 0x4000 Size4KiB"

lemma example_page_ok: "page_ok example_layout example_page"
  by (simp add: page_ok_def example_layout_def example_page_def)

text \<open>\<^verbatim>\<open>Page::deallocate\<close>, the way an allocated page goes back to the allocator, always succeeds
  on a page that lies in confidential memory, overwrites every word of the page with zero, and
  changes nothing else: a later owner learns nothing of the previous one.\<close>

lemma deallocate_wipes_page:
  assumes "page_ok l p"
  shows "\<exists>t. deallocate p s = (Ok p, t)
    \<and> (\<forall>i < words_in p. confidential_memory t (word_at p i) = 0)
    \<and> (\<forall>a. unat a \<notin> page_range p \<longrightarrow> confidential_memory t a = confidential_memory s a)
    \<and> t = s\<lparr>confidential_memory := confidential_memory t\<rparr>"
  using fill_word [OF assms] fill_outside [OF assms] by (simp add: deallocate_eq [OF assms])

lemma deallocate_wipes_page_example:
  "\<exists>t. deallocate example_page
        \<lparr>confidential_memory = (\<lambda>_. 7), non_confidential_memory = (\<lambda>_ _. 0), now = 0\<rparr>
      = (Ok example_page, t)
    \<and> confidential_memory t 0x4008 = 0 \<and> confidential_memory t 0x5000 = 7"
proof -
  have w: "1 < words_in example_page" "word_at example_page 1 = 0x4008"
    "unat (0x5000 :: usize) \<notin> page_range example_page"
    by (simp_all add: words_in_def word_at_def page_range_def example_page_def)
  show ?thesis
    using deallocate_wipes_page [OF example_page_ok, of "\<lparr>confidential_memory = (\<lambda>_. 7),
      non_confidential_memory = (\<lambda>_ _. 0), now = 0\<rparr>"] w by force
qed

text \<open>C24: copying a page from non-confidential memory, whatever the concurrently running untrusted code
  does to that memory, either writes into word \<open>i\<close> the value that the \<open>i\<close>-th of exactly
  \<open>words_in p\<close> volatile reads returned (each source word is read once), or returns
  \<^verbatim>\<open>MemoryAccessAuthorization\<close>; it succeeds exactly when the last source word starts in the
  non-confidential memory. In no case does it write outside the page or panic.\<close>

theorem copy_page_exact:
  assumes "page_ok l p"
  shows "\<exists>r t. copy_from_non_confidential_memory l p a s = (r, t)
    \<and> (if unat a + bytes (page_size p) - 8 < unat (non_confidential_memory_end l)
       then r = Ok p \<and> now t = now s + words_in p
          \<and> (\<forall>i < words_in p. confidential_memory t (word_at p i)
                = non_confidential_memory s (now s + i) (a + of_nat (8 * i)))
       else r = Err MemoryAccessAuthorization)
    \<and> (\<forall>x. unat x \<notin> page_range p \<longrightarrow> confidential_memory t x = confidential_memory s x)
    \<and> t = s\<lparr>confidential_memory := confidential_memory t, now := now t\<rparr>"
proof (cases "unat a + bytes (page_size p) - 8 < unat (non_confidential_memory_end l)")
  case True
  then have "unat a + bytes (page_size p) \<le> unat (non_confidential_memory_end l) + 7" by linarith
  with True show ?thesis
    using fill_word [OF assms] fill_outside [OF assms] by (simp add: copy_Ok [OF assms] del: of_nat_mult)
next
  case False
  then have "unat (non_confidential_memory_end l) + 7 < unat a + bytes (page_size p)"
    using bytes_lower [of "page_size p"] by linarith
  from copy_Err [OF assms this, of s] False show ?thesis
    using fill_outside [OF assms] by (auto simp del: of_nat_mult)
qed

theorem copy_page_exact_witness:
  "\<exists>t. copy_from_non_confidential_memory example_layout example_page 0x1000
        \<lparr>confidential_memory = (\<lambda>_. 7), non_confidential_memory = (\<lambda>time a. a + of_nat time), now = 0\<rparr>
      = (Ok example_page, t)
    \<and> confidential_memory t 0x4008 = 0x1009 \<and> confidential_memory t 0x5000 = 7"
proof -
  have w: "1 < words_in example_page" "word_at example_page 1 = 0x4008"
    "unat (0x5000 :: usize) \<notin> page_range example_page"
    "bytes (page_size example_page) = 4096" "unat (non_confidential_memory_end example_layout) = 0x3000"
    by (simp_all add: words_in_def word_at_def page_range_def example_page_def example_layout_def)
  then show ?thesis
    using copy_page_exact [OF example_page_ok, of "0x1000" "\<lparr>confidential_memory = (\<lambda>_. 7),
      non_confidential_memory = (\<lambda>time a. a + of_nat time), now = 0\<rparr>"] by force
qed

text \<open>\<^verbatim>\<open>Page::divide\<close> partitions a page: it never panics, the resulting pages have the next
  smaller size, are aligned and lie in confidential memory, pairwise share no byte, and together
  own exactly the bytes of the divided page. A 4 KiB page is returned as it is.\<close>

lemma divide_partitions_page:
  assumes "page_ok l p"
  shows "\<exists>ps. divide l p = Ok ps
    \<and> length ps * bytes (divided_size (page_size p)) = bytes (page_size p)
    \<and> list_all (\<lambda>q. page_ok l q \<and> page_size q = divided_size (page_size p)) ps
    \<and> (\<Union>q \<in> set ps. page_range q) = page_range p
    \<and> (\<forall>i < length ps. \<forall>j < length ps. i \<noteq> j \<longrightarrow> page_range (ps ! i) \<inter> page_range (ps ! j) = {})
    \<and> (page_size p \<noteq> Size4KiB \<or> ps = [p])"
proof (intro exI conjI)
  let ?ps = "map (piece p) [0..<pieces (page_size p)]"
  show "divide l p = Ok ?ps" by (rule divide_eq [OF assms])
  show "length ?ps * bytes (divided_size (page_size p)) = bytes (page_size p)"
    by (simp add: pieces_bytes)
  show "list_all (\<lambda>q. page_ok l q \<and> page_size q = divided_size (page_size p)) ?ps"
    using piece_ok [OF assms] by (auto simp: list_all_iff piece_def)
  show "(\<Union>q \<in> set ?ps. page_range q) = page_range p"
    using pieces_cover [OF assms] by (auto simp: lessThan_atLeast0)
  show "\<forall>i < length ?ps. \<forall>j < length ?ps. i \<noteq> j \<longrightarrow> page_range (?ps ! i) \<inter> page_range (?ps ! j) = {}"
    using pieces_disjoint [OF assms] by simp
  show "page_size p \<noteq> Size4KiB \<or> ?ps = [p]"
    by (auto simp: pieces_def divided_size_def piece_def Page_init_def)
qed

lemma divide_partitions_page_example:
  "\<exists>ps. divide example_layout (Page_init 0x200000 Size2MiB) = Ok ps \<and> length ps = 512
     \<and> list_all (\<lambda>q. page_size q = Size4KiB) ps"
proof -
  have ok: "page_ok example_layout (Page_init 0x200000 Size2MiB)"
    by (simp add: page_ok_def example_layout_def)
  show ?thesis
    using divide_partitions_page [OF ok]
    by (auto simp: divided_size_def list_all_iff)
qed

end
