(* ===== verification/Page_Allocator.thy ===== *)
theory Page_Allocator
  imports Pages
begin

text \<open>
  \<^verbatim>\<open>core/page_allocator/page_allocator.rs\<close>: the allocator that hands out and takes back page tokens.

  \<^item> \<open>page_allocator\<close> is \<^verbatim>\<open>PageAllocator\<close>: a map from page sizes to the vector of free tokens.
    \<^verbatim>\<open>get_mut(..).unwrap()\<close> on a missing key is a \<open>Panic\<close>.
  \<^item> The global \<^verbatim>\<open>PAGE_ALLOCATOR : Once<RwLock<_>>\<close> is the field \<open>global_allocator\<close> of
    \<open>alloc_state\<close>, \<open>None\<close> before initialization. Every operation runs under the write lock, so
    operations of different harts are sequences of the steps below in some order.
  \<^item> The loops are \<open>grow\<close>, \<open>shrink\<close>, \<open>add_tokens\<close> and \<open>divide_loop\<close>, each total, with its
    termination proof.
\<close>

record page_allocator =
  allocator_map :: "page_size \<rightharpoonup> page list"

record alloc_state = mem_state +
  global_allocator :: "page_allocator option"

section \<open>Construction\<close>

definition empty :: page_allocator where
  "empty = \<lparr>allocator_map =
     foldl (\<lambda>m sz. m(sz \<mapsto> [])) Map.empty all_from_largest_to_smallest\<rparr>"

definition push_token :: "page_allocator \<Rightarrow> page_size \<Rightarrow> page \<Rightarrow> page_allocator res" where
  "push_token pa sz token =
     and_then (unwrap_option (allocator_map pa sz)) (\<lambda>tokens.
       Ok (pa\<lparr>allocator_map := (allocator_map pa)(sz \<mapsto> tokens @ [token])\<rparr>))"

definition can_create_page :: "memory_layout \<Rightarrow> usize \<Rightarrow> usize \<Rightarrow> page_size \<Rightarrow> bool" where
  "can_create_page l memory_region_end address sz =
     is_ok (confidential_address_at_offset_bounded l address (in_bytes sz - 1) memory_region_end)"

function grow :: "usize \<Rightarrow> page_size \<Rightarrow> page_size" where
  "grow address sz = (case larger sz of
      None \<Rightarrow> sz
    | Some larger_size \<Rightarrow>
        if is_aligned_to address (in_bytes larger_size) then grow address larger_size else sz)"
  by pat_completeness auto
termination
proof (relation "measure (\<lambda>(_, sz). 4 - rank sz)")
  fix address :: usize and sz larger_size :: page_size
  assume "larger sz = Some larger_size"
  then show "((address, larger_size), (address, sz)) \<in> measure (\<lambda>(_, sz). 4 - rank sz)"
    using rank_le_4 [of larger_size] by (auto dest: rank_larger)
qed simp

function shrink :: "memory_layout \<Rightarrow> usize \<Rightarrow> usize \<Rightarrow> page_size \<Rightarrow> page_size" where
  "shrink l memory_region_end address sz = (case smaller sz of
      None \<Rightarrow> sz
    | Some smaller_size \<Rightarrow>
        if \<not> can_create_page l memory_region_end address smaller_size
        then shrink l memory_region_end address smaller_size else sz)"
  by pat_completeness auto
termination
  by (relation "measure (\<lambda>(_, _, _, sz). rank sz)") (auto dest!: rank_smaller)

declare grow.simps [simp del] shrink.simps [simp del]

text \<open>One iteration of the outer loop of \<^verbatim>\<open>add_memory_region\<close>: the size it settles on and the next
  value of \<^verbatim>\<open>memory_address\<close>.\<close>

definition token_size :: "memory_layout \<Rightarrow> usize \<Rightarrow> usize \<Rightarrow> page_size \<Rightarrow> page_size" where
  "token_size l memory_region_end address sz = shrink l memory_region_end address (grow address sz)"

definition next_address :: "memory_layout \<Rightarrow> usize \<Rightarrow> usize \<Rightarrow> page_size \<Rightarrow> usize option" where
  "next_address l memory_region_end address sz =
     (case confidential_address_at_offset_bounded l address (in_bytes sz) memory_region_end of
        Ok a \<Rightarrow> Some a | _ \<Rightarrow> None)"

lemma next_address_Some:
  assumes "next_address l e a sz = Some b"
  shows "unat b = unat a + bytes sz" and "b < confidential_memory_end l" and "e \<le> confidential_memory_end l"
  using assms unat_add_below [of a "in_bytes sz" "confidential_memory_end l"]
  by (auto simp: next_address_def confidential_address_at_offset_bounded_cases word_less_nat_alt
      unat_in_bytes split: if_splits)

function add_tokens ::
    "memory_layout \<Rightarrow> usize \<Rightarrow> usize \<Rightarrow> page_size \<Rightarrow> page_allocator \<Rightarrow> page_allocator res" where
  "add_tokens l memory_region_end address sz pa =
     (let sz = token_size l memory_region_end address sz;
          memory_address = next_address l memory_region_end address sz
      in and_then
           (if memory_address \<noteq> None \<or> can_create_page l memory_region_end address sz
            then push_token pa sz (Page_init address sz) else Ok pa) (\<lambda>pa.
         case memory_address of
           None \<Rightarrow> Ok pa
         | Some address \<Rightarrow> add_tokens l memory_region_end address sz pa))"
  by pat_completeness auto
termination
proof (relation "measure (\<lambda>(l, _, a, _, _). unat (confidential_memory_end l) - unat a)")
  fix l :: memory_layout and e a :: usize and sz x :: page_size and pa pb :: page_allocator
    and na :: "usize option" and b :: usize
  assume "x = token_size l e a sz" and "na = next_address l e a x" and "na = Some b"
  then have "unat b = unat a + bytes x" and "b < confidential_memory_end l"
    using next_address_Some [of l e a x b] by auto
  then show "((l, e, b, x, pb), (l, e, a, sz, pa))
      \<in> measure (\<lambda>(l, _, a, _, _). unat (confidential_memory_end l) - unat a)"
    by (simp add: word_less_nat_alt diff_less_mono2)
qed simp

declare add_tokens.simps [simp del]

definition add_memory_region ::
    "memory_layout \<Rightarrow> usize \<Rightarrow> usize \<Rightarrow> page_allocator \<Rightarrow> page_allocator res" where
  "add_memory_region l memory_region_start memory_region_end pa =
     and_then (assert_that (is_aligned_to memory_region_start (in_bytes smallest))) (\<lambda>_.
     and_then (assert_that (is_aligned_to memory_region_end (in_bytes smallest))) (\<lambda>_.
     and_then (assert_that (memory_region_start < memory_region_end)) (\<lambda>_.
     add_tokens l memory_region_end memory_region_start smallest pa)))"

definition initialize ::
    "memory_layout \<Rightarrow> usize \<Rightarrow> usize \<Rightarrow> ('z alloc_state_scheme, error, unit) st" where
  "initialize l memory_start memory_end s =
     sbind (lift (assure_not (global_allocator s \<noteq> None) Reinitialization)) (\<lambda>_.
     sbind (lift (add_memory_region l memory_start memory_end empty)) (\<lambda>pa t.
     (Ok (), t\<lparr>global_allocator := Some pa\<rparr>))) s"

section \<open>Acquiring pages\<close>

definition vec_index :: "'a list \<Rightarrow> nat \<Rightarrow> 'a res" where
  "vec_index xs i = (if i < length xs then Ok (xs ! i) else Panic)"

definition vec_remove :: "nat \<Rightarrow> 'a list \<Rightarrow> ('a \<times> 'a list) res" where
  "vec_remove i xs = (if i < length xs then Ok (xs ! i, take i xs @ drop (Suc i) xs) else Panic)"

definition is_memory_region_continous :: "page list \<Rightarrow> nat \<Rightarrow> nat \<Rightarrow> bool res" where
  "is_memory_region_continous pages start_index end_index =
     (if end_index = 0 then Panic
      else try_all (\<lambda>page_index.
             and_then (vec_index pages page_index) (\<lambda>p.
             and_then (end_address p) (\<lambda>e.
             and_then (vec_index pages (page_index + 1)) (\<lambda>q.
             Ok (e = start_address q))))) [start_index..<end_index - 1])"

primrec remove_pages :: "nat \<Rightarrow> nat \<Rightarrow> page list \<Rightarrow> page list \<Rightarrow> (page list \<times> page list) res" where
  "remove_pages 0 allocation_start_index pages allocated_pages = Ok (allocated_pages, pages)"
| "remove_pages (Suc n) allocation_start_index pages allocated_pages =
     and_then (vec_remove allocation_start_index pages) (\<lambda>(p, rest).
     remove_pages n allocation_start_index rest (allocated_pages @ [p]))"

definition acquire_continous_pages_of_given_size ::
    "nat \<Rightarrow> page_size \<Rightarrow> page_allocator \<Rightarrow> (page list \<times> page_allocator) res" where
  "acquire_continous_pages_of_given_size number_of_pages sz pa =
     and_then (unwrap_option (allocator_map pa sz)) (\<lambda>pages.
     if length pages < number_of_pages then Ok ([], pa)
     else
       let last_possible_index = length pages - number_of_pages in
       and_then (try_find (\<lambda>allocation_start_index.
           is_memory_region_continous pages allocation_start_index
             (allocation_start_index + number_of_pages)) [0..<last_possible_index]) (\<lambda>found.
       case found of
         None \<Rightarrow> Ok ([], pa)
       | Some allocation_start_index \<Rightarrow>
           and_then (remove_pages number_of_pages allocation_start_index pages []) (\<lambda>(allocated, rest).
           Ok (allocated, pa\<lparr>allocator_map := (allocator_map pa)(sz \<mapsto> rest)\<rparr>))))"

definition divide_page ::
    "memory_layout \<Rightarrow> page_size \<Rightarrow> page_allocator \<Rightarrow> (bool \<times> page_allocator) res" where
  "divide_page l from_size pa =
     (case smaller from_size of
        None \<Rightarrow> Ok (False, pa)
      | Some to_size \<Rightarrow>
          and_then (unwrap_option (allocator_map pa from_size)) (\<lambda>tokens.
          if tokens = [] then Ok (False, pa)
          else
            let m = (allocator_map pa)(from_size \<mapsto> butlast tokens) in
            and_then (unwrap_option (m to_size)) (\<lambda>smaller_tokens.
            and_then (divide l (last tokens)) (\<lambda>divided.
            Ok (True, pa\<lparr>allocator_map := m(to_size \<mapsto> smaller_tokens @ divided)\<rparr>)))))"

section \<open>Termination of the division loop\<close>

definition tokens_of :: "page_allocator \<Rightarrow> page_size \<Rightarrow> page list" where
  "tokens_of pa sz = (case allocator_map pa sz of None \<Rightarrow> [] | Some ps \<Rightarrow> ps)"

abbreviation sizes :: "page_size set" where
  "sizes \<equiv> {Size4KiB, Size2MiB, Size1GiB, Size512GiB, Size128TiB}"

lemma in_sizes [simp]: "sz \<in> sizes"
  by (cases sz) simp_all

lemma tokens_of_update [simp]:
  "tokens_of (pa\<lparr>allocator_map := m(sz \<mapsto> ps)\<rparr>) sz' =
     (if sz' = sz then ps else tokens_of (pa\<lparr>allocator_map := m\<rparr>) sz')"
  by (simp add: tokens_of_def)

lemma tokens_of_id [simp]: "tokens_of (pa\<lparr>allocator_map := allocator_map pa\<rparr>) = tokens_of pa"
  by (simp add: tokens_of_def fun_eq_iff)

text \<open>A division takes one token out of one vector and puts at most 512 into the next, so a sum
  with weights 513 to the power of the rank decreases.\<close>

definition potential :: "page_allocator \<Rightarrow> nat" where
  "potential pa = (\<Sum>sz \<in> sizes. length (tokens_of pa sz) * 513 ^ rank sz)"

lemma divide_length: "divide l p = Ok ps \<Longrightarrow> length ps = pieces (page_size p)"
proof -
  have map_length: "try_map f xs = Ok ys \<Longrightarrow> length ys = length xs"
    for f :: "nat \<Rightarrow> (error, page) result" and xs ys
    by (induction xs arbitrary: ys) (auto simp: res_simps)
  assume "divide l p = Ok ps"
  then show ?thesis
    by (auto simp: divide_def Let_def res_simps pieces_def divided_size_def [symmetric] unat_div
        unat_in_bytes dest!: map_length)
qed

lemma pieces_le: "pieces sz \<le> 512"
  by (cases sz) (simp_all add: pieces_def divided_size_def)

lemma divide_page_True:
  assumes "divide_page l a pa = Ok (True, pa')"
  obtains b p ps qs ds where "smaller a = Some b" "allocator_map pa a = Some (ps @ [p])"
    "allocator_map pa b = Some qs" "divide l p = Ok ds"
    "pa' = pa\<lparr>allocator_map := (allocator_map pa)(a \<mapsto> ps, b \<mapsto> qs @ ds)\<rparr>"
proof -
  from assms obtain b ts qs ds where *: "smaller a = Some b" "allocator_map pa a = Some ts" "ts \<noteq> []"
    "((allocator_map pa)(a \<mapsto> butlast ts)) b = Some qs" "divide l (last ts) = Ok ds"
    "pa' = pa\<lparr>allocator_map := (allocator_map pa)(a \<mapsto> butlast ts, b \<mapsto> qs @ ds)\<rparr>"
    by (auto simp: divide_page_def Let_def res_simps split: option.splits if_splits)
  moreover have "a \<noteq> b" using smaller_Some [OF *(1)] by auto
  ultimately show ?thesis
    by (intro that [of b "butlast ts" "last ts" qs ds]) auto
qed

lemma divide_page_False:
  "divide_page l a pa = Ok (False, pa') \<Longrightarrow> pa' = pa"
  by (auto simp: divide_page_def Let_def res_simps split: option.splits if_splits)

lemma divide_page_potential:
  assumes "divide_page l a pa = Ok (True, pa')"
  shows "potential pa' < potential pa"
proof -
  from assms obtain b p ps qs ds where *: "smaller a = Some b" "allocator_map pa a = Some (ps @ [p])"
    "allocator_map pa b = Some qs" "divide l p = Ok ds"
    "pa' = pa\<lparr>allocator_map := (allocator_map pa)(a \<mapsto> ps, b \<mapsto> qs @ ds)\<rparr>"
    by (rule divide_page_True)
  have "length ds \<le> 512"
    using divide_length [OF *(4)] pieces_le [of "page_size p"] by simp
  then show ?thesis
    using *(1-3) unfolding *(5) potential_def
    by (cases a) (auto simp: tokens_of_def)
qed

function divide_loop ::
    "memory_layout \<Rightarrow> page_size \<Rightarrow> page_size option \<Rightarrow> page_allocator \<Rightarrow> page_allocator res" where
  "divide_loop l sz page_size_to_divide_next pa =
     (case page_size_to_divide_next of
        None \<Rightarrow> Ok pa
      | Some page_size_to_divide_now \<Rightarrow>
          if page_size_to_divide_now = sz then Ok pa
          else (case divide_page l page_size_to_divide_now pa of
                  Ok (divided, pa') \<Rightarrow>
                    if divided then divide_loop l sz (smaller page_size_to_divide_now) pa'
                    else divide_loop l sz (larger page_size_to_divide_now) pa'
                | Err e \<Rightarrow> Err e
                | Panic \<Rightarrow> Panic))"
  by pat_completeness auto
termination
proof (relation "inv_image (less_than <*lex*> less_than)
    (\<lambda>(_, _, n, pa). (potential pa, case n of None \<Rightarrow> 0 | Some sz \<Rightarrow> 5 - rank sz))")
  fix l :: memory_layout and sz now :: page_size and nxt :: "page_size option"
    and pa pa' :: page_allocator and x :: "bool \<times> page_allocator" and b :: bool
  assume *: "nxt = Some now" "divide_page l now pa = Ok x" "(b, pa') = x"
  show "((l, sz, smaller now, pa'), (l, sz, nxt, pa)) \<in> inv_image (less_than <*lex*> less_than)
      (\<lambda>(_, _, n, pa). (potential pa, case n of None \<Rightarrow> 0 | Some sz \<Rightarrow> 5 - rank sz))" if b
    using * that divide_page_potential [of l now pa pa'] by simp
  show "((l, sz, larger now, pa'), (l, sz, nxt, pa)) \<in> inv_image (less_than <*lex*> less_than)
      (\<lambda>(_, _, n, pa). (potential pa, case n of None \<Rightarrow> 0 | Some sz \<Rightarrow> 5 - rank sz))" if "\<not> b"
    using * that divide_page_False [of l now pa pa'] rank_le_4 [of now]
    by (auto split: option.splits dest: rank_larger)
qed (intro wf_inv_image wf_lex_prod wf_less_than)

declare divide_loop.simps [simp del]

definition divide_pages :: "memory_layout \<Rightarrow> page_size \<Rightarrow> page_allocator \<Rightarrow> page_allocator res" where
  "divide_pages l sz pa = divide_loop l sz (larger sz) pa"

definition acquire ::
    "memory_layout \<Rightarrow> nat \<Rightarrow> page_size \<Rightarrow> page_allocator \<Rightarrow> (page list \<times> page_allocator) res" where
  "acquire l number_of_pages sz pa =
     and_then (acquire_continous_pages_of_given_size number_of_pages sz pa) (\<lambda>(available_pages, pa).
     if available_pages = []
     then and_then (divide_pages l sz pa) (\<lambda>pa.
          acquire_continous_pages_of_given_size number_of_pages sz pa)
     else Ok (available_pages, pa))"

section \<open>The global allocator\<close>

definition try_write ::
    "(page_allocator \<Rightarrow> ('a \<times> page_allocator) res) \<Rightarrow> ('z alloc_state_scheme, error, 'a) st" where
  "try_write op s =
     (case global_allocator s of
        None \<Rightarrow> (Panic, s)
      | Some pa \<Rightarrow> (case op pa of
            Ok (a, pa') \<Rightarrow> (Ok a, s\<lparr>global_allocator := Some pa'\<rparr>)
          | Err e \<Rightarrow> (Err e, s)
          | Panic \<Rightarrow> (Panic, s)))"

definition acquire_continous_pages ::
    "memory_layout \<Rightarrow> nat \<Rightarrow> page_size \<Rightarrow> ('z alloc_state_scheme, error, page list) st" where
  "acquire_continous_pages l number_of_pages sz =
     sbind (try_write (acquire l number_of_pages sz)) (\<lambda>pages.
     sbind (lift (assure_not (pages = []) OutOfPages)) (\<lambda>_. ret pages))"

definition return_token :: "page_allocator \<Rightarrow> page \<Rightarrow> page_allocator" where
  "return_token pa p =
     (case allocator_map pa (page_size p) of
        None \<Rightarrow> pa
      | Some v \<Rightarrow> pa\<lparr>allocator_map := (allocator_map pa)(page_size p \<mapsto> v @ [p])\<rparr>)"

definition release_pages :: "page list \<Rightarrow> ('z alloc_state_scheme, error, unit) st" where
  "release_pages pages = try_write (\<lambda>pa. Ok ((), foldl return_token pa pages))"

definition release_page :: "page \<Rightarrow> ('z alloc_state_scheme, error, unit) st" where
  "release_page p = release_pages [p]"

end
