(* ===== verification/Page_Ownership.thy ===== *)
theory Page_Ownership
  imports Page_Allocator
begin

text \<open>
  Correctness of the page allocator, stated through ownership: \<open>owned ps x\<close> counts the tokens of
  \<open>ps\<close> that cover the byte \<open>x\<close>. A token list owns no byte twice iff the count never exceeds one,
  and every allocator operation conserves the sum of what is free and what is handed out.

  The locale \<open>page_provider\<close> is the contract the rest of the monitor relies on (a client acquires
  and releases pages); it is interpreted on the functions of \<^verbatim>\<open>PageAllocator\<close> at the end.
\<close>

section \<open>Counting owners\<close>

definition owned :: "page list \<Rightarrow> nat \<Rightarrow> nat" where
  "owned ps x = length (filter (\<lambda>p. x \<in> page_range p) ps)"

lemma owned_simps [simp]:
  "owned [] x = 0"
  "owned (p # ps) x = (if x \<in> page_range p then 1 else 0) + owned ps x"
  "owned (ps @ qs) x = owned ps x + owned qs x"
  by (simp_all add: owned_def)

lemma owned_mset: "mset ps = mset qs \<Longrightarrow> owned ps x = owned qs x"
  unfolding owned_def by (metis mset_filter size_mset)

lemma owned_pos_iff: "0 < owned ps x \<longleftrightarrow> (\<exists>p \<in> set ps. x \<in> page_range p)"
  by (induction ps) auto

lemma owned_pieces:
  assumes "page_ok l p"
  shows "owned (map (piece p) [0..<pieces (page_size p)]) x = owned [p] x"
proof -
  let ?I = "{i. i < pieces (page_size p) \<and> x \<in> page_range (piece p i)}"
  have count: "owned (map (piece p) [0..<pieces (page_size p)]) x = card ?I"
    unfolding owned_def by (simp add: filter_map o_def length_filter_conv_card)
      (intro arg_cong [where f = card], auto)
  show ?thesis
  proof (cases "x \<in> page_range p")
    case True
    then obtain i where i: "i \<in> ?I" using pieces_cover [OF assms] by auto
    have "?I = {i}"
    proof (intro equalityI subsetI)
      fix j assume "j \<in> ?I"
      with i pieces_disjoint [OF assms, of i j] show "j \<in> {i}" by blast
    qed (use i in simp)
    with True count show ?thesis by simp
  next
    case False
    then have "?I = {}" using pieces_cover [OF assms] by auto
    with False count show ?thesis by simp
  qed
qed

definition exclusive :: "(nat \<Rightarrow> nat) \<Rightarrow> bool" where
  "exclusive owners \<longleftrightarrow> (\<forall>x. owners x \<le> 1)"

text \<open>Two tokens of an exclusive list share no byte.\<close>

lemma exclusive_disjoint:
  assumes "exclusive (owned (ps @ p # qs @ q # rs))"
  shows "page_range p \<inter> page_range q = {}"
proof (rule ccontr)
  assume "page_range p \<inter> page_range q \<noteq> {}"
  then obtain x where "x \<in> page_range p" "x \<in> page_range q" by blast
  then have "2 \<le> owned (ps @ p # qs @ q # rs) x" by simp
  with assms show False unfolding exclusive_def by (metis Suc_1 Suc_n_not_le_n le_trans)
qed

section \<open>Free tokens of the allocator\<close>

definition free_owned :: "page_allocator \<Rightarrow> nat \<Rightarrow> nat" where
  "free_owned pa x = (\<Sum>sz \<in> sizes. owned (tokens_of pa sz) x)"

definition allocator_wf :: "memory_layout \<Rightarrow> page_allocator \<Rightarrow> bool" where
  "allocator_wf l pa \<longleftrightarrow>
     (\<forall>sz. allocator_map pa sz \<noteq> None)
   \<and> (\<forall>sz. \<forall>p \<in> set (tokens_of pa sz). page_size p = sz \<and> page_ok l p)"

lemma allocator_wf_lookup: "allocator_wf l pa \<Longrightarrow> allocator_map pa sz = Some (tokens_of pa sz)"
  by (force simp: allocator_wf_def tokens_of_def split: option.splits)

lemma allocator_wf_token:
  "allocator_wf l pa \<Longrightarrow> p \<in> set (tokens_of pa sz) \<Longrightarrow> page_size p = sz \<and> page_ok l p"
  by (simp add: allocator_wf_def)

lemma allocator_wf_update:
  assumes "allocator_wf l pa" and "\<And>p. p \<in> set ps \<Longrightarrow> page_size p = sz \<and> page_ok l p"
  shows "allocator_wf l (pa\<lparr>allocator_map := (allocator_map pa)(sz \<mapsto> ps)\<rparr>)"
  using assms by (auto simp: allocator_wf_def)

lemma free_owned_update:
  "free_owned (pa\<lparr>allocator_map := (allocator_map pa)(sz \<mapsto> ps)\<rparr>) x + owned (tokens_of pa sz) x =
   free_owned pa x + owned ps x"
  by (cases sz) (simp_all add: free_owned_def)

lemma free_owned_ge: "owned (tokens_of pa sz) x \<le> free_owned pa x"
  unfolding free_owned_def by (rule member_le_sum, rule in_sizes) simp_all

lemma free_owned_pos_iff:
  "0 < free_owned pa x \<longleftrightarrow> (\<exists>sz. \<exists>p \<in> set (tokens_of pa sz). x \<in> page_range p)"
proof
  assume "0 < free_owned pa x"
  then obtain sz where "0 < owned (tokens_of pa sz) x"
    unfolding free_owned_def by (metis (no_types, lifting) gr0I sum.neutral)
  then show "\<exists>sz. \<exists>p \<in> set (tokens_of pa sz). x \<in> page_range p" by (auto simp: owned_pos_iff)
next
  assume "\<exists>sz. \<exists>p \<in> set (tokens_of pa sz). x \<in> page_range p"
  then obtain sz where "0 < owned (tokens_of pa sz) x" by (auto simp: owned_pos_iff)
  then show "0 < free_owned pa x" using free_owned_ge [of pa sz x] by simp
qed

section \<open>Acquiring pages of one size\<close>

lemma remove_pages_eq:
  "i + n \<le> length pages \<Longrightarrow> remove_pages n i pages acc =
     Ok (acc @ take n (drop i pages), take i pages @ drop (i + n) pages)"
proof (induction n arbitrary: pages acc)
  case (Suc n)
  let ?rest = "take i pages @ drop (Suc i) pages"
  have "take n (drop i ?rest) = take n (drop (Suc i) pages)"
    "take i ?rest @ drop (i + n) ?rest = take i pages @ drop (i + Suc n) pages"
    "pages ! i # take n (drop (Suc i) pages) = take (Suc n) (drop i pages)"
    using Suc.prems by (simp_all add: Cons_nth_drop_Suc [symmetric] add.commute)
  with Suc show ?case by (simp add: vec_remove_def)
qed simp

definition contiguous :: "page list \<Rightarrow> bool" where
  "contiguous ps \<longleftrightarrow> (\<forall>i. Suc i < length ps \<longrightarrow>
     unat (page_address (ps ! i)) + bytes (page_size (ps ! i)) = unat (page_address (ps ! Suc i)))"

definition window :: "nat \<Rightarrow> page list \<Rightarrow> nat \<Rightarrow> page list" where
  "window n ps i = take n (drop i ps)"

lemma all_shifted:
  "(\<forall>j \<in> {i..<i + n - Suc 0}. Q j) \<longleftrightarrow> (\<forall>k. Suc k < n \<longrightarrow> Q (i + k))"
proof
  assume *: "\<forall>k. Suc k < n \<longrightarrow> Q (i + k)"
  show "\<forall>j \<in> {i..<i + n - Suc 0}. Q j"
  proof
    fix j assume "j \<in> {i..<i + n - Suc 0}"
    then have "Suc (j - i) < n" "i + (j - i) = j" by auto
    with * show "Q j" by metis
  qed
qed auto

lemma is_memory_region_continous_eq:
  assumes "\<And>p. p \<in> set pages \<Longrightarrow> page_ok l p" and "0 < n" and "i + n \<le> length pages"
  shows "is_memory_region_continous pages i (i + n) = Ok (contiguous (window n pages i))"
proof -
  let ?next = "\<lambda>j. unat (page_address (pages ! j)) + bytes (page_size (pages ! j))
                   = unat (page_address (pages ! Suc j))"
  have "and_then (vec_index pages j) (\<lambda>p. and_then (end_address p) (\<lambda>e.
      and_then (vec_index pages (j + 1)) (\<lambda>q. Ok (e = start_address q)))) = (Ok (?next j) :: bool res)"
    if "j \<in> set [i..<i + n - 1]" for j
  proof -
    from that assms(3) have "j < length pages" "Suc j < length pages" by auto
    then show ?thesis
      using page_ok_end [OF assms(1) [OF nth_mem], of j]
      by (simp add: vec_index_def start_address_def word_unat_eq_iff)
  qed
  note try_all_total [OF this, where xs = "[i..<i + n - 1]"]
  moreover have "list_all ?next [i..<i + n - 1] = contiguous (window n pages i)"
  proof -
    have "list_all ?next [i..<i + n - 1] = (\<forall>k. Suc k < n \<longrightarrow> ?next (i + k))"
      using assms(2) by (simp add: list_all_iff) (rule all_shifted)
    also have "\<dots> = contiguous (window n pages i)"
      using assms(3) by (auto simp: contiguous_def window_def)
    finally show ?thesis .
  qed
  ultimately show ?thesis
    using assms(2) by (simp add: is_memory_region_continous_def)
qed

lemma acquire_given_eq:
  fixes sz
  assumes "allocator_wf l pa" and "0 < n"
  defines "ps \<equiv> tokens_of pa sz"
  shows "acquire_continous_pages_of_given_size n sz pa =
    Ok (case List.find (\<lambda>i. contiguous (window n ps i)) [0..<length ps - n] of
          None \<Rightarrow> ([], pa)
        | Some i \<Rightarrow> (window n ps i,
            pa\<lparr>allocator_map := (allocator_map pa)(sz \<mapsto> take i ps @ drop (i + n) ps)\<rparr>))"
proof -
  have ok: "page_ok l p" if "p \<in> set ps" for p
    using allocator_wf_token [OF assms(1)] that by (auto simp: ps_def)
  have "is_memory_region_continous ps i (i + n) = Ok (contiguous (window n ps i))"
    if "i \<in> set [0..<length ps - n]" for i
    using that by (intro is_memory_region_continous_eq [OF ok assms(2)]) auto
  note found = try_find_total [OF this, where xs = "[0..<length ps - n]"]
  have small: "i + n \<le> length ps"
    if "List.find (\<lambda>i. contiguous (window n ps i)) [0..<length ps - n] = Some i" for i
  proof -
    from that have "i \<in> set [0..<length ps - n]"
      by (metis (no_types, lifting) find_Some_iff nth_mem)
    then show ?thesis by auto
  qed
  show ?thesis
    using found allocator_wf_lookup [OF assms(1), of sz] small
    by (auto simp: acquire_continous_pages_of_given_size_def ps_def Let_def window_def
        remove_pages_eq split: option.splits)
qed

lemma window_split: "i + n \<le> length ps \<Longrightarrow> ps = take i ps @ window n ps i @ drop (i + n) ps"
  unfolding window_def by (metis add.commute append_take_drop_id drop_drop)

text \<open>The outcome of an acquisition, successful or not.\<close>

definition acquired ::
    "memory_layout \<Rightarrow> nat \<Rightarrow> page_size \<Rightarrow> page_allocator \<Rightarrow> page list \<times> page_allocator \<Rightarrow> bool" where
  "acquired l n sz pa = (\<lambda>(ps, pa').
     (ps = [] \<or> length ps = n \<and> contiguous ps \<and> list_all (\<lambda>p. page_size p = sz \<and> page_ok l p) ps)
   \<and> allocator_wf l pa' \<and> (\<forall>x. free_owned pa x = owned ps x + free_owned pa' x))"

lemma acquire_given_acquired:
  assumes "allocator_wf l pa" and "0 < n"
  shows "\<exists>r. acquire_continous_pages_of_given_size n sz pa = Ok r \<and> acquired l n sz pa r"
proof (cases "List.find (\<lambda>i. contiguous (window n (tokens_of pa sz) i))
                [0..<length (tokens_of pa sz) - n]")
  case None
  then show ?thesis using assms by (simp add: acquire_given_eq acquired_def)
next
  case (Some i)
  let ?ps = "tokens_of pa sz"
  let ?pa' = "pa\<lparr>allocator_map := (allocator_map pa)(sz \<mapsto> take i ?ps @ drop (i + n) ?ps)\<rparr>"
  from Some have cont: "contiguous (window n ?ps i)" and "i \<in> set [0..<length ?ps - n]"
    by (auto simp: find_Some_iff)
  then have i: "i + n \<le> length ?ps" by simp
  note split = window_split [OF i]
  have sub: "set (window n ?ps i) \<subseteq> set ?ps" "set (take i ?ps @ drop (i + n) ?ps) \<subseteq> set ?ps"
    by (auto simp: window_def dest: in_set_takeD in_set_dropD)
  have "allocator_wf l ?pa'"
    using sub(2) allocator_wf_token [OF assms(1)] by (intro allocator_wf_update [OF assms(1)]) blast
  moreover have "free_owned pa x = owned (window n ?ps i) x + free_owned ?pa' x" for x
    using free_owned_update [of pa sz "take i ?ps @ drop (i + n) ?ps" x]
      arg_cong [OF split, of "\<lambda>ps. owned ps x"] by simp
  moreover have "list_all (\<lambda>p. page_size p = sz \<and> page_ok l p) (window n ?ps i)"
    using sub(1) allocator_wf_token [OF assms(1)] by (auto simp: list_all_iff)
  ultimately have "acquired l n sz pa (window n ?ps i, ?pa')"
    using cont i by (simp add: acquired_def window_def)
  then show ?thesis using Some assms by (simp add: acquire_given_eq)
qed

section \<open>Dividing larger pages\<close>

lemma divide_page_total:
  assumes "allocator_wf l pa"
  shows "divide_page l sz pa =
    (if smaller sz = None \<or> tokens_of pa sz = [] then Ok (False, pa)
     else Ok (True, pa\<lparr>allocator_map := (allocator_map pa)
            (sz \<mapsto> butlast (tokens_of pa sz),
             the (smaller sz) \<mapsto> tokens_of pa (the (smaller sz))
               @ map (piece (last (tokens_of pa sz))) [0..<pieces sz])\<rparr>))"
proof (cases "smaller sz")
  case (Some b)
  note ne = smaller_Some [OF Some, THEN less_imp_neq]
  have "divide l (last (tokens_of pa sz)) =
      Ok (map (piece (last (tokens_of pa sz))) [0..<pieces sz])" if "tokens_of pa sz \<noteq> []"
    using allocator_wf_token [OF assms last_in_set [OF that]] by (simp add: divide_eq)
  with ne Some show ?thesis
    by (simp add: divide_page_def allocator_wf_lookup [OF assms] Let_def)
qed (simp add: divide_page_def)

lemma divide_page_wf:
  assumes wf: "allocator_wf l pa" and "divide_page l sz pa = Ok (b, pa')"
  shows "allocator_wf l pa'" and "free_owned pa' x = free_owned pa x"
proof -
  let ?ts = "tokens_of pa sz"
  have "allocator_wf l pa' \<and> free_owned pa' x = free_owned pa x"
  proof (cases "smaller sz = None \<or> ?ts = []")
    case True
    with assms(2) wf show ?thesis unfolding divide_page_total [OF wf] by simp
  next
    case False
    then obtain c where c: "smaller sz = Some c" and ts: "?ts \<noteq> []" by auto
    note ne = smaller_Some [OF c, THEN less_imp_neq]
    define p where "p = last ?ts"
    define ds where "ds = map (piece p) [0..<pieces sz]"
    let ?pa1 = "pa\<lparr>allocator_map := (allocator_map pa)(sz \<mapsto> butlast ?ts)\<rparr>"
    have tok1: "tokens_of ?pa1 c = tokens_of pa c" using ne by simp
    have pa': "pa' = ?pa1\<lparr>allocator_map := (allocator_map ?pa1)(c \<mapsto> tokens_of ?pa1 c @ ds)\<rparr>"
      using assms(2) c ts ne unfolding divide_page_total [OF wf] by (simp add: p_def ds_def)
    have p: "page_size p = sz" "page_ok l p"
      using allocator_wf_token [OF wf last_in_set [OF ts]] by (simp_all add: p_def)
    have "divided_size sz = c" using c by (simp add: divided_size_def)
    then have ds: "q \<in> set ds \<Longrightarrow> page_size q = c \<and> page_ok l q" for q
      using piece_ok [OF p(2)] p(1) by (auto simp: ds_def piece_def)
    have wf1: "allocator_wf l ?pa1"
      using allocator_wf_token [OF wf] by (intro allocator_wf_update [OF wf]) (auto dest: in_set_butlastD)
    have "allocator_wf l pa'"
      unfolding pa' using ds allocator_wf_token [OF wf1] by (intro allocator_wf_update [OF wf1]) auto
    moreover have "free_owned pa' x = free_owned pa x"
    proof -
      have "owned ds x = owned [p] x" using owned_pieces [OF p(2), of x] p(1) by (simp add: ds_def)
      moreover have "owned ?ts x = owned (butlast ?ts) x + owned [p] x"
        using append_butlast_last_id [OF ts] owned_simps(3) [of "butlast ?ts" "[p]" x]
        unfolding p_def by metis
      ultimately show ?thesis
        using free_owned_update [of pa sz "butlast ?ts" x]
          free_owned_update [of ?pa1 c "tokens_of ?pa1 c @ ds" x]
        unfolding pa' [symmetric] by simp
    qed
    ultimately show ?thesis ..
  qed
  then show "allocator_wf l pa'" "free_owned pa' x = free_owned pa x" by simp_all
qed

lemma divide_loop_wf:
  "allocator_wf l pa \<Longrightarrow> \<exists>pa'. divide_loop l sz nxt pa = Ok pa' \<and> allocator_wf l pa'
     \<and> (\<forall>x. free_owned pa' x = free_owned pa x)"
proof (induction l sz nxt pa rule: divide_loop.induct)
  case (1 l sz nxt pa)
  show ?case
  proof (cases nxt)
    case None
    with 1 show ?thesis by (simp add: divide_loop.simps)
  next
    case (Some cur)
    obtain b pa1 where d: "divide_page l cur pa = Ok (b, pa1)"
      using divide_page_total [OF 1(3), of cur] by (cases "smaller cur = None \<or> tokens_of pa cur = []") auto
    note wf1 = divide_page_wf [OF 1(3) d]
    consider "cur = sz" | "cur \<noteq> sz" b | "cur \<noteq> sz" "\<not> b" by blast
    then show ?thesis
    proof cases
      case 1
      with Some \<open>allocator_wf l pa\<close> show ?thesis by (simp add: divide_loop.simps)
    next
      case 2
      then show ?thesis
        using "1.IH"(1) [OF Some 2(1) d refl 2(2) wf1(1)] Some d wf1(2)
        by (simp add: divide_loop.simps [of l sz "Some cur"])
    next
      case 3
      then show ?thesis
        using "1.IH"(2) [OF Some 3(1) d refl 3(2) wf1(1)] Some d wf1(2)
        by (simp add: divide_loop.simps [of l sz "Some cur"])
    qed
  qed
qed

lemma acquire_acquired:
  assumes "allocator_wf l pa" and "0 < n"
  shows "\<exists>r. acquire l n sz pa = Ok r \<and> acquired l n sz pa r"
proof -
  obtain ps pa1 where a: "acquire_continous_pages_of_given_size n sz pa = Ok (ps, pa1)"
    "acquired l n sz pa (ps, pa1)" using acquire_given_acquired [OF assms, of sz] by auto
  show ?thesis
  proof (cases "ps = []")
    case True
    with a(2) have wf1: "allocator_wf l pa1" and eq: "free_owned pa x = free_owned pa1 x" for x
      by (auto simp: acquired_def)
    obtain pa2 where d: "divide_pages l sz pa1 = Ok pa2" "allocator_wf l pa2"
      "\<And>x. free_owned pa2 x = free_owned pa1 x"
      using divide_loop_wf [OF wf1, of sz "larger sz"] by (auto simp: divide_pages_def)
    obtain r where r: "acquire_continous_pages_of_given_size n sz pa2 = Ok r" "acquired l n sz pa2 r"
      using acquire_given_acquired [OF d(2) assms(2)] by blast
    then show ?thesis using a(1) True d eq by (auto simp: acquire_def acquired_def)
  qed (use a in \<open>auto simp: acquire_def\<close>)
qed

section \<open>A division loop that has something to divide delivers\<close>

lemma tokens_divide_page:
  assumes "allocator_wf l pa" and "tokens_of pa cur \<noteq> []" and "smaller cur = Some c"
  obtains p pa' where "divide_page l cur pa = Ok (True, pa')" "page_ok l p" "page_size p = cur"
    "tokens_of pa' c = tokens_of pa c @ map (piece p) [0..<pieces cur]"
    "\<And>d. d < c \<Longrightarrow> tokens_of pa' d = tokens_of pa d"
proof -
  have ne: "c < cur" using smaller_Some [OF assms(3)] .
  let ?p = "last (tokens_of pa cur)"
  have "page_ok l ?p" "page_size ?p = cur"
    using allocator_wf_token [OF assms(1) last_in_set [OF assms(2)]] by simp_all
  note p = this
  obtain pa' where d: "divide_page l cur pa = Ok (True, pa')"
    "pa' = pa\<lparr>allocator_map := (allocator_map pa)(cur \<mapsto> butlast (tokens_of pa cur),
       c \<mapsto> tokens_of pa c @ map (piece ?p) [0..<pieces cur])\<rparr>"
    using assms divide_page_total [OF assms(1), of cur] by simp
  show ?thesis
    by (rule that [OF d(1) p]) (use ne in \<open>auto simp: d(2)\<close>)
qed

lemma pieces_nonempty: "0 < pieces sz"
  by (cases sz) (simp_all add: pieces_def divided_size_def)

lemma divide_loop_delivers:
  assumes "allocator_wf l pa" and "nxt = Some cur" and "sz < cur"
    and "\<exists>d \<ge> cur. tokens_of pa d \<noteq> []"
  shows "\<exists>pa' p. divide_loop l sz nxt pa = Ok pa' \<and> page_ok l p \<and> smaller (page_size p) = Some sz
     \<and> tokens_of pa' sz = tokens_of pa sz @ map (piece p) [0..<pieces (page_size p)]"
  using assms
proof (induction l sz nxt pa arbitrary: cur rule: divide_loop.induct)
  case (1 l sz nxt pa)
  from \<open>sz < cur\<close> have neq: "cur \<noteq> sz" by simp
  from \<open>sz < cur\<close> obtain c where c: "smaller cur = Some c" "sz \<le> c"
    by (cases cur; cases sz) (auto simp: less_page_size_def less_eq_page_size_def)
  show ?case
  proof (cases "tokens_of pa cur = []")
    case True
    then have d: "divide_page l cur pa = Ok (False, pa)" by (simp add: divide_page_total "1.prems"(1))
    from True "1.prems"(4) obtain e where e: "cur < e" "tokens_of pa e \<noteq> []"
      by (metis order_le_imp_less_or_eq)
    then obtain b where b: "larger cur = Some b" "b \<le> e"
      by (cases cur; cases e) (auto simp: less_page_size_def less_eq_page_size_def)
    have "sz < b" using "1.prems"(3) larger_Some [OF b(1)] by simp
    from "1.IH"(2) [OF "1.prems"(2) neq d refl _ "1.prems"(1) b(1) this] b(2) e(2)
    show ?thesis using neq d "1.prems"(2) by (auto simp: divide_loop.simps [of l sz "Some cur"])
  next
    case False
    obtain p pa1 where d: "divide_page l cur pa = Ok (True, pa1)" "page_ok l p" "page_size p = cur"
      "tokens_of pa1 c = tokens_of pa c @ map (piece p) [0..<pieces cur]"
      "\<And>d. d < c \<Longrightarrow> tokens_of pa1 d = tokens_of pa d"
      using tokens_divide_page [OF "1.prems"(1) False c(1)] by metis
    show ?thesis
    proof (cases "sz = c")
      case True
      then have "divide_loop l sz nxt pa = Ok pa1"
        using d(1) c neq "1.prems"(2) by (simp add: divide_loop.simps [of l c])
      then show ?thesis using True d c by blast
    next
      case False
      with c(2) have lt: "sz < c" by simp
      have "tokens_of pa1 c \<noteq> []" using d(4) pieces_nonempty [of cur] by simp
      then have "\<exists>d \<ge> c. tokens_of pa1 d \<noteq> []" by blast
      from "1.IH"(1) [OF "1.prems"(2) neq d(1) refl _ divide_page_wf(1) [OF "1.prems"(1) d(1)]
          c(1) lt this]
      show ?thesis
        using neq d(1) d(5) [OF lt] "1.prems"(2) by (simp add: divide_loop.simps [of l sz "Some cur"])
    qed
  qed
qed

lemma pieces_contiguous:
  assumes "page_ok l p" and "n \<le> pieces (page_size p)"
  shows "contiguous (map (piece p) [0..<n])"
  using assms(2)
  by (auto simp: contiguous_def piece_def piece_offset(3) [OF assms(1)] simp del: of_nat_Suc)

lemma acquire_given_finds:
  assumes "allocator_wf l pa" and "0 < n"
    and "tokens_of pa sz = old @ map (piece p) [0..<k]" and "n < k" and "k \<le> pieces (page_size p)"
    and "page_ok l p"
  shows "\<exists>ps pa'. acquire_continous_pages_of_given_size n sz pa = Ok (ps, pa') \<and> ps \<noteq> []"
proof -
  let ?ps = "tokens_of pa sz" and ?find = "\<lambda>ps. List.find (\<lambda>i. contiguous (window n ps i))"
  have "window n ?ps (length old) = map (piece p) [0..<n]"
    using assms(3,4) by (simp add: window_def take_map)
  then have "contiguous (window n ?ps (length old))"
    using pieces_contiguous [OF assms(6), of n] assms(4,5) by simp
  moreover have "length old \<in> set [0..<length ?ps - n]" using assms(3,4) by simp
  ultimately have "?find ?ps [0..<length ?ps - n] \<noteq> None" by (auto simp: find_None_iff)
  then obtain i where i: "?find ?ps [0..<length ?ps - n] = Some i" by blast
  then have "i \<in> set [0..<length ?ps - n]" by (metis (no_types, lifting) find_Some_iff nth_mem)
  then have "window n ?ps i \<noteq> []" using assms(2) by (auto simp: window_def)
  with i show ?thesis using assms(1,2) by (simp add: acquire_given_eq)
qed

lemma pieces_ge: "smaller sz = Some b \<Longrightarrow> 256 \<le> pieces sz"
  by (cases sz) (simp_all add: pieces_def divided_size_def)

lemma acquire_succeeds:
  assumes "allocator_wf l pa" and "0 < n" and "n < 256" and "sz < d" and "tokens_of pa d \<noteq> []"
  shows "\<exists>ps pa'. acquire l n sz pa = Ok (ps, pa') \<and> ps \<noteq> []"
proof -
  obtain ps pa1 where a: "acquire_continous_pages_of_given_size n sz pa = Ok (ps, pa1)"
    using acquire_given_acquired [OF assms(1,2), of sz] by auto
  show ?thesis
  proof (cases "ps = []")
    case True
    then have pa1: "pa1 = pa"
      using a unfolding acquire_given_eq [OF assms(1,2)]
      by (auto simp: window_def find_Some_iff split: option.splits)
         (metis add_lessD1 assms(2) diff_is_0_eq drop_eq_Nil less_diff_conv less_nat_zero_code
           not_less take_eq_Nil2)
    from assms(4) obtain b where b: "larger sz = Some b" "b \<le> d"
      by (cases sz; cases d) (auto simp: less_page_size_def less_eq_page_size_def)
    have "\<exists>d \<ge> b. tokens_of pa d \<noteq> []" using b(2) assms(5) by blast
    from divide_loop_delivers [OF assms(1) b(1) larger_Some [OF b(1)] this]
    obtain pa2 p where d: "divide_pages l sz pa = Ok pa2" "page_ok l p" "smaller (page_size p) = Some sz"
      "tokens_of pa2 sz = tokens_of pa sz @ map (piece p) [0..<pieces (page_size p)]"
      by (auto simp: divide_pages_def)
    have wf2: "allocator_wf l pa2"
      using divide_loop_wf [OF assms(1), of sz "larger sz"] d(1) by (simp add: divide_pages_def)
    have "n < pieces (page_size p)" using pieces_ge [OF d(3)] assms(3) by simp
    from acquire_given_finds [OF wf2 assms(2) d(4) this le_refl d(2)]
    show ?thesis using a True pa1 d(1) by (simp add: acquire_def)
  qed (use a in \<open>simp add: acquire_def\<close>)
qed

section \<open>Creating the tokens of a memory region\<close>

lemma can_create_page_iff:
  "e \<le> confidential_memory_end l \<Longrightarrow>
     can_create_page l e a sz \<longleftrightarrow> unat a + bytes sz \<le> unat (confidential_memory_end l)"
proof -
  have "unat (in_bytes sz - 1) = bytes sz - 1"
    using bytes_lower [of sz] by (simp add: unat_sub word_le_nat_alt unat_in_bytes)
  moreover assume "e \<le> confidential_memory_end l"
  ultimately show ?thesis
    using bytes_lower [of sz]
    by (auto simp: can_create_page_def confidential_address_at_offset_bounded_cases)
qed

lemma next_address_cases:
  "e \<le> confidential_memory_end l \<Longrightarrow> next_address l e a sz =
     (if unat a + bytes sz < unat (confidential_memory_end l) then Some (a + in_bytes sz) else None)"
  by (simp add: next_address_def confidential_address_at_offset_bounded_cases unat_in_bytes)

lemma grow_aligned: "unat a mod bytes sz = 0 \<Longrightarrow> unat a mod bytes (grow a sz) = 0"
  by (induction a sz rule: grow.induct)
     (subst grow.simps, auto simp: is_aligned_to_def unat_in_bytes split: option.splits)

lemma shrink_le: "shrink l e a sz \<le> sz"
proof (induction l e a sz rule: shrink.induct)
  case (1 l e a sz)
  then show ?case
    by (subst shrink.simps) (force split: option.splits dest: smaller_Some intro: order_trans)
qed

lemma shrink_smaller_fits:
  "smaller (shrink l e a sz) = Some b \<Longrightarrow> can_create_page l e a b"
  by (induction l e a sz rule: shrink.induct)
     (subst (asm) shrink.simps, auto split: option.splits if_splits)

lemma token_size_aligned:
  assumes "unat a mod bytes sz = 0"
  shows "unat a mod bytes (token_size l e a sz) = 0"
proof -
  have "bytes (token_size l e a sz) dvd bytes (grow a sz)"
    unfolding token_size_def by (rule bytes_dvd_mono) (rule shrink_le)
  with grow_aligned [OF assms] show ?thesis by (simp add: mod_eq_0_iff_dvd dvd_trans)
qed

lemma push_token_wf:
  assumes "allocator_wf l pa" and "page_ok l p" and "page_size p = sz"
  shows "\<exists>pa'. push_token pa sz p = Ok pa' \<and> allocator_wf l pa'
    \<and> (\<forall>x. free_owned pa' x = free_owned pa x + owned [p] x)"
proof -
  let ?pa' = "pa\<lparr>allocator_map := (allocator_map pa)(sz \<mapsto> tokens_of pa sz @ [p])\<rparr>"
  have "allocator_wf l ?pa'"
    using allocator_wf_token [OF assms(1)] assms(2,3) by (intro allocator_wf_update [OF assms(1)]) auto
  moreover have "free_owned ?pa' x = free_owned pa x + owned [p] x" for x
    using free_owned_update [of pa sz "tokens_of pa sz @ [p]" x] by simp
  ultimately show ?thesis
    by (simp add: push_token_def allocator_wf_lookup [OF assms(1)])
qed

text \<open>What \<open>add_tokens\<close> achieves from address \<open>a\<close>: tokens that own each byte of \<open>[a, x)\<close> once.
  A tail \<open>[x, end)\<close> may stay without tokens, in exactly the case that one page of some size does
  not fit any more but the next smaller one would.\<close>

definition tiled :: "memory_layout \<Rightarrow> nat \<Rightarrow> nat \<Rightarrow> page_allocator \<Rightarrow> page_allocator \<Rightarrow> bool" where
  "tiled l a x pa pa' \<longleftrightarrow> allocator_wf l pa' \<and> a \<le> x \<and> x \<le> unat (confidential_memory_end l)
   \<and> (\<forall>y. free_owned pa' y = free_owned pa y + (if a \<le> y \<and> y < x then 1 else 0))
   \<and> (x = unat (confidential_memory_end l)
      \<or> (\<exists>sz b. smaller sz = Some b \<and> x mod bytes sz = 0
          \<and> x + bytes b \<le> unat (confidential_memory_end l)
          \<and> unat (confidential_memory_end l) < x + bytes sz))"

lemma last_token_tail:
  assumes "unat a mod 4096 = 0" and "unat (confidential_memory_end l) mod 4096 = 0"
    and "e \<le> confidential_memory_end l" and "a < confidential_memory_end l"
    and "\<not> unat a + bytes sz \<le> unat (confidential_memory_end l)"
    and "\<And>b. smaller sz = Some b \<Longrightarrow> can_create_page l e a b"
  shows "\<exists>b. smaller sz = Some b \<and> unat a + bytes b \<le> unat (confidential_memory_end l)"
proof (cases "smaller sz")
  case None
  then have "sz = Size4KiB" by (cases sz) simp_all
  moreover have "4096 dvd unat (confidential_memory_end l) - unat a"
    using assms(1,2) by (auto simp: mod_eq_0_iff_dvd)
  moreover have "0 < unat (confidential_memory_end l) - unat a"
    using assms(4) by (simp add: word_less_nat_alt)
  ultimately show ?thesis using assms(5) by (auto dest: dvd_imp_le)
next
  case (Some b)
  with assms(6) assms(3) show ?thesis by (simp add: can_create_page_iff)
qed

lemma add_tokens_tiles:
  assumes "allocator_wf l pa" and "e \<le> confidential_memory_end l"
    and "confidential_memory_start l \<le> a" and "a < confidential_memory_end l"
    and "unat a mod bytes sz = 0" and "unat (confidential_memory_end l) mod 4096 = 0"
  shows "\<exists>x pa'. add_tokens l e a sz pa = Ok pa' \<and> tiled l (unat a) x pa pa'"
  using assms
proof (induction l e a sz pa rule: add_tokens.induct)
  case (1 l e a sz pa)
  let ?ts = "token_size l e a sz" and ?top = "unat (confidential_memory_end l)"
  note wf = "1.prems"(1) and e = "1.prems"(2)
  have al: "unat a mod bytes ?ts = 0" by (rule token_size_aligned [OF "1.prems"(5)])
  have eq: "add_tokens l e a sz pa = and_then
      (if unat a + bytes ?ts \<le> ?top then push_token pa ?ts (Page_init a ?ts) else Ok pa)
      (\<lambda>pa. if unat a + bytes ?ts < ?top then add_tokens l e (a + in_bytes ?ts) ?ts pa else Ok pa)"
    by (subst add_tokens.simps) (simp add: Let_def next_address_cases [OF e] can_create_page_iff [OF e])
  show ?case
  proof (cases "unat a + bytes ?ts \<le> ?top")
    case False
    have "unat a mod 4096 = 0"
      using al smallest_dvd_bytes [of ?ts] by (auto simp: mod_eq_0_iff_dvd intro: dvd_trans)
    from last_token_tail [OF this "1.prems"(6) e "1.prems"(4) False]
    obtain b where "smaller ?ts = Some b" "unat a + bytes b \<le> ?top"
      by (auto simp: token_size_def dest: shrink_smaller_fits)
    then have "tiled l (unat a) (unat a) pa pa"
      using False al wf "1.prems"(4) unfolding tiled_def word_less_nat_alt not_le
      by (intro conjI disjI2 exI [of _ ?ts] exI [of _ b]) simp_all
    with False show ?thesis unfolding eq by auto
  next
    case True
    let ?p = "Page_init a ?ts"
    have "page_ok l ?p" using True "1.prems"(3) al by (simp add: page_ok_def)
    from push_token_wf [OF wf this, of ?ts] obtain pa1 where p1: "push_token pa ?ts ?p = Ok pa1"
      "allocator_wf l pa1" "\<And>x. free_owned pa1 x = free_owned pa x + owned [?p] x" by auto
    show ?thesis
    proof (cases "unat a + bytes ?ts < ?top")
      case False
      then have "tiled l (unat a) ?top pa pa1"
        using True p1 by (auto simp: tiled_def page_range_def)
      with p1 True False show ?thesis unfolding eq by auto
    next
      case lt: True
      let ?b = "a + in_bytes ?ts"
      have ub: "unat ?b = unat a + bytes ?ts"
        using lt unat_add_below [of a "in_bytes ?ts" "confidential_memory_end l"] by (simp add: unat_in_bytes)
      have nxt: "next_address l e a ?ts = Some ?b" using lt by (simp add: next_address_cases [OF e])
      have hyps: "confidential_memory_start l \<le> ?b" "?b < confidential_memory_end l"
        "unat ?b mod bytes ?ts = 0"
        using ub lt "1.prems"(3) al by (simp_all add: word_le_nat_alt word_less_nat_alt)
      from "1.IH" [OF refl refl nxt p1(2) e hyps "1.prems"(6)]
      obtain x pa' where x: "add_tokens l e ?b ?ts pa1 = Ok pa'" "tiled l (unat ?b) x pa1 pa'"
        by auto
      then have "tiled l (unat a) x pa pa'"
        using p1(3) by (auto simp: tiled_def ub page_range_def)
      with x lt p1 True show ?thesis unfolding eq by auto
    qed
  qed
qed

lemma empty_wf: "allocator_wf l empty" "free_owned empty x = 0"
proof -
  have m: "allocator_map empty sz = Some []" for sz
    by (cases sz) (simp_all add: empty_def all_from_largest_to_smallest_def)
  then have t: "tokens_of empty sz = []" for sz by (simp add: tokens_of_def)
  show "allocator_wf l empty" by (simp add: allocator_wf_def m t)
  show "free_owned empty x = 0" by (simp add: free_owned_def t)
qed

section \<open>The contract between the allocator and its clients\<close>

text \<open>A client of the allocator holds pages: it acquires some, and gives some back. \<open>client_step\<close>
  is one call of one hart; the calls of all harts are serialized by the allocator's lock.\<close>

inductive client_step ::
    "(nat \<Rightarrow> page_size \<Rightarrow> ('s, error, page list) st) \<Rightarrow> (page list \<Rightarrow> ('s, error, unit) st)
     \<Rightarrow> 's \<times> page list \<Rightarrow> 's \<times> page list \<Rightarrow> bool" for acq rel where
  acquire_ok: "0 < n \<Longrightarrow> acq n sz s = (Ok ps, t) \<Longrightarrow> client_step acq rel (s, held) (t, ps @ held)"
| acquire_fails: "0 < n \<Longrightarrow> acq n sz s = (Err e, t) \<Longrightarrow> client_step acq rel (s, held) (t, held)"
| release: "mset held = mset (ps @ rest) \<Longrightarrow> rel ps s = (r, t) \<Longrightarrow>
     client_step acq rel (s, held) (t, rest)"

inductive_cases client_step_cases: "client_step acq rel (s, held) (t, held')"

locale page_provider =
  fixes acq :: "nat \<Rightarrow> page_size \<Rightarrow> ('s, error, page list) st"
    and rel :: "page list \<Rightarrow> ('s, error, unit) st"
    and free :: "'s \<Rightarrow> nat \<Rightarrow> nat"
    and valid :: "page \<Rightarrow> bool"
    and inv :: "'s \<Rightarrow> bool"
    and frame :: "'s \<Rightarrow> 'r"
  assumes acq_inv: "inv s \<Longrightarrow> 0 < n \<Longrightarrow> acq n sz s = (q, t) \<Longrightarrow> inv t \<and> frame t = frame s"
    and acq_ok: "inv s \<Longrightarrow> 0 < n \<Longrightarrow> acq n sz s = (Ok ps, t) \<Longrightarrow>
        length ps = n \<and> contiguous ps \<and> list_all (\<lambda>p. page_size p = sz \<and> valid p) ps
        \<and> free s x = owned ps x + free t x"
    and acq_err: "inv s \<Longrightarrow> 0 < n \<Longrightarrow> acq n sz s = (Err e, t) \<Longrightarrow> e = OutOfPages \<and> free t x = free s x"
    and acq_no_panic: "inv s \<Longrightarrow> 0 < n \<Longrightarrow> fst (acq n sz s) \<noteq> Panic"
    and rel_ok: "inv s \<Longrightarrow> list_all valid ps \<Longrightarrow> rel ps s = (r, t) \<Longrightarrow>
        r = Ok () \<and> inv t \<and> frame t = frame s \<and> free t x = free s x + owned ps x"
begin

definition accounted :: "'s \<times> page list \<Rightarrow> nat \<Rightarrow> nat" where
  "accounted c x = free (fst c) x + owned (snd c) x"

definition sound :: "'s \<times> page list \<Rightarrow> bool" where
  "sound c \<longleftrightarrow> inv (fst c) \<and> list_all valid (snd c)"

lemma step_sound:
  assumes "client_step acq rel c d" and "sound c"
  shows "sound d \<and> accounted d x = accounted c x \<and> frame (fst d) = frame (fst c)"
  using assms
proof (cases rule: client_step.cases)
  case (acquire_ok n sz s ps t held)
  then show ?thesis
    using assms(2) acq_inv [of s n sz "Ok ps" t] acq_ok [of s n sz ps t x]
    by (auto simp: sound_def accounted_def list_all_iff)
next
  case (acquire_fails n sz s e t held)
  then show ?thesis
    using assms(2) acq_inv [of s n sz "Err e" t] acq_err [of s n sz e t x]
    by (auto simp: sound_def accounted_def)
next
  case (release held ps rest s r t)
  have "set held = set ps \<union> set rest"
    using release(3) by (metis set_append set_mset_mset)
  then have v: "list_all valid ps" "list_all valid rest"
    using assms(2) release(1) by (auto simp: sound_def list_all_iff)
  have "owned held x = owned ps x + owned rest x"
    using owned_mset [OF release(3), of x] by simp
  then show ?thesis
    using assms(2) release v rel_ok [of s ps r t x] by (auto simp: sound_def accounted_def)
qed

lemma steps_sound:
  assumes "(client_step acq rel)\<^sup>*\<^sup>* c d" and "sound c"
  shows "sound d \<and> accounted d x = accounted c x \<and> frame (fst d) = frame (fst c)"
  using assms by (induction rule: rtranclp_induct) (metis step_sound)+

text \<open>However many calls were made in whatever order, no byte ever has two owners, and no
  byte is lost.\<close>

lemma steps_exclusive:
  assumes "(client_step acq rel)\<^sup>*\<^sup>* (s, []) (t, held)" and "inv s" and "exclusive (free s)"
  shows "exclusive (\<lambda>x. free t x + owned held x)" and "free t x + owned held x = free s x"
    and "list_all valid held" and "frame t = frame s"
  using steps_sound [OF assms(1)] assms(2,3)
  by (auto simp: sound_def accounted_def exclusive_def)

text \<open>A fresh page overlaps none of the pages its client holds.\<close>

lemma fresh_page:
  assumes "inv s" and "exclusive (\<lambda>x. free s x + owned held x)" and "0 < n"
    and "acq n sz s = (Ok ps, t)" and "p \<in> set ps" and "q \<in> set held"
  shows "page_range p \<inter> page_range q = {}"
proof -
  have "owned ps x + owned held x \<le> 1" for x
    using acq_ok [OF assms(1,3,4), of x] assms(2) [unfolded exclusive_def, rule_format, of x] by simp
  note le = this
  show ?thesis
  proof (rule ccontr)
    assume "page_range p \<inter> page_range q \<noteq> {}"
    then obtain x where "x \<in> page_range p" "x \<in> page_range q" by blast
    then have "0 < owned ps x" "0 < owned held x" using assms(5,6) by (auto simp: owned_pos_iff)
    with le [of x] show False by simp
  qed
qed

end

section \<open>The allocator meets the contract\<close>

definition free_in :: "'z alloc_state_scheme \<Rightarrow> nat \<Rightarrow> nat" where
  "free_in s x = (case global_allocator s of None \<Rightarrow> 0 | Some pa \<Rightarrow> free_owned pa x)"

definition alloc_inv :: "memory_layout \<Rightarrow> 'z alloc_state_scheme \<Rightarrow> bool" where
  "alloc_inv l s \<longleftrightarrow> (case global_allocator s of None \<Rightarrow> False | Some pa \<Rightarrow> allocator_wf l pa)"

lemma alloc_inv_obtain:
  assumes "alloc_inv l s"
  obtains pa where "global_allocator s = Some pa" "allocator_wf l pa"
  using assms by (auto simp: alloc_inv_def split: option.splits)

lemma acquire_continous_pages_cases:
  assumes "alloc_inv l s" and "0 < n"
  obtains pa ps pa' where "global_allocator s = Some pa" "acquired l n sz pa (ps, pa')"
    "acquire l n sz pa = Ok (ps, pa')"
    "acquire_continous_pages l n sz s =
       (if ps = [] then Err OutOfPages else Ok ps, s\<lparr>global_allocator := Some pa'\<rparr>)"
proof -
  from assms(1) obtain pa where pa: "global_allocator s = Some pa" "allocator_wf l pa"
    by (rule alloc_inv_obtain)
  obtain ps pa' where r: "acquire l n sz pa = Ok (ps, pa')" "acquired l n sz pa (ps, pa')"
    using acquire_acquired [OF pa(2) assms(2), of sz] by auto
  show ?thesis
    by (rule that [OF pa(1) r(2,1)])
       (simp add: acquire_continous_pages_def sbind_def try_write_def pa r(1) lift_def ret_def)
qed

lemma return_token_wf:
  assumes "allocator_wf l pa" and "page_ok l p"
  shows "allocator_wf l (return_token pa p)"
    and "free_owned (return_token pa p) x = free_owned pa x + owned [p] x"
proof -
  obtain pa' where "push_token pa (page_size p) p = Ok pa'" "allocator_wf l pa'"
    "free_owned pa' x = free_owned pa x + owned [p] x"
    using push_token_wf [OF assms refl] by auto
  moreover from this(1) have "return_token pa p = pa'"
    by (auto simp: push_token_def return_token_def res_simps)
  ultimately show "allocator_wf l (return_token pa p)"
    "free_owned (return_token pa p) x = free_owned pa x + owned [p] x" by simp_all
qed

lemma return_tokens_wf:
  assumes "allocator_wf l pa" and "list_all (page_ok l) ps"
  shows "allocator_wf l (foldl return_token pa ps)
    \<and> free_owned (foldl return_token pa ps) x = free_owned pa x + owned ps x"
  using assms
proof (induction ps arbitrary: pa)
  case (Cons p ps)
  then show ?case
    using return_token_wf(1) [of l pa p] return_token_wf(2) [of l pa p x] Cons.IH [of "return_token pa p"] by simp
qed simp

interpretation allocator: page_provider
  "acquire_continous_pages l" release_pages free_in "page_ok l" "alloc_inv l"
  "\<lambda>s :: 'z alloc_state_scheme. s\<lparr>global_allocator := None\<rparr>" for l
proof
  fix s t :: "'z alloc_state_scheme" and n x :: nat and sz :: page_size
    and r :: "page list res" and ps :: "page list" and e :: error
  assume inv: "alloc_inv l s" and "0 < n"
  then obtain pa ps' pa' where A: "global_allocator s = Some pa" "acquired l n sz pa (ps', pa')"
    "acquire_continous_pages l n sz s =
       (if ps' = [] then Err OutOfPages else Ok ps', s\<lparr>global_allocator := Some pa'\<rparr>)"
    by (rule acquire_continous_pages_cases)
  show "alloc_inv l t \<and> t\<lparr>global_allocator := None\<rparr> = s\<lparr>global_allocator := None\<rparr>"
    if "acquire_continous_pages l n sz s = (r, t)"
    using that A by (auto simp: acquired_def alloc_inv_def)
  show "length ps = n \<and> contiguous ps \<and> list_all (\<lambda>p. page_size p = sz \<and> page_ok l p) ps
        \<and> free_in s x = owned ps x + free_in t x"
    if "acquire_continous_pages l n sz s = (Ok ps, t)"
    using that A by (auto simp: acquired_def free_in_def split: if_splits)
  show "e = OutOfPages \<and> free_in t x = free_in s x"
    if "acquire_continous_pages l n sz s = (Err e, t)"
    using that A by (auto simp: acquired_def free_in_def split: if_splits)
  show "fst (acquire_continous_pages l n sz s) \<noteq> Panic"
    using A by (simp split: if_splits)
next
  fix s t :: "'z alloc_state_scheme" and ps :: "page list" and r :: "unit res" and x :: nat
  assume inv: "alloc_inv l s" and v: "list_all (page_ok l) ps" and "release_pages ps s = (r, t)"
  moreover from inv obtain pa where "global_allocator s = Some pa" "allocator_wf l pa"
    by (rule alloc_inv_obtain)
  ultimately show "r = Ok () \<and> alloc_inv l t
      \<and> t\<lparr>global_allocator := None\<rparr> = s\<lparr>global_allocator := None\<rparr>
      \<and> free_in t x = free_in s x + owned ps x"
    using return_tokens_wf [of l pa ps x]
    by (auto simp: release_pages_def try_write_def alloc_inv_def free_in_def)
qed

section \<open>Properties\<close>

definition example_allocator :: page_allocator where
  "example_allocator = \<lparr>allocator_map = (allocator_map empty)
     (Size4KiB \<mapsto> [Page_init 0x4000 Size4KiB, Page_init 0x5000 Size4KiB],
      Size2MiB \<mapsto> [Page_init 0x200000 Size2MiB])\<rparr>"

definition example_state :: alloc_state where
  "example_state = \<lparr>confidential_memory = (\<lambda>_. 0), non_confidential_memory = (\<lambda>_ _. 0), now = 0,
     global_allocator = Some example_allocator\<rparr>"

lemma example_tokens:
  "tokens_of example_allocator Size4KiB = [Page_init 0x4000 Size4KiB, Page_init 0x5000 Size4KiB]"
  "tokens_of example_allocator Size2MiB = [Page_init 0x200000 Size2MiB]"
  "tokens_of example_allocator Size1GiB = []"
  "tokens_of example_allocator Size512GiB = []"
  "tokens_of example_allocator Size128TiB = []"
  by (simp_all add: example_allocator_def tokens_of_def empty_def all_from_largest_to_smallest_def)

lemma example_allocator_wf: "allocator_wf example_layout example_allocator"
  unfolding allocator_wf_def
proof (intro conjI allI)
  show "allocator_map example_allocator sz \<noteq> None" for sz
    by (cases sz) (simp_all add: example_allocator_def empty_def all_from_largest_to_smallest_def)
  show "\<forall>p \<in> set (tokens_of example_allocator sz). page_size p = sz \<and> page_ok example_layout p" for sz
    by (cases sz) (simp_all add: example_tokens page_ok_def example_layout_def)
qed

lemma example_state_inv: "alloc_inv example_layout example_state"
  by (simp add: alloc_inv_def example_state_def example_allocator_wf)

lemma example_state_exclusive: "exclusive (free_in example_state)"
  by (simp add: exclusive_def free_in_def example_state_def free_owned_def example_tokens
      page_range_def)

lemma example_acquire:
  "acquire_continous_pages example_layout 1 Size4KiB example_state =
     (Ok [Page_init 0x4000 Size4KiB], example_state\<lparr>global_allocator := Some
        (example_allocator\<lparr>allocator_map := (allocator_map example_allocator)
           (Size4KiB \<mapsto> [Page_init 0x5000 Size4KiB])\<rparr>)\<rparr>)"
proof -
  have "acquire_continous_pages_of_given_size 1 Size4KiB example_allocator =
    Ok ([Page_init 0x4000 Size4KiB], example_allocator\<lparr>allocator_map :=
        (allocator_map example_allocator)(Size4KiB \<mapsto> [Page_init 0x5000 Size4KiB])\<rparr>)"
    by (simp add: acquire_given_eq [OF example_allocator_wf] example_tokens window_def contiguous_def)
  then show ?thesis
    by (simp add: acquire_continous_pages_def acquire_def sbind_def try_write_def lift_def ret_def
        example_state_def)
qed

text \<open>C12: no physical byte is ever owned twice and none gets lost. Starting from an allocator whose
  tokens cover no byte twice, after any sequence of \<^verbatim>\<open>acquire_continous_pages\<close> and
  \<^verbatim>\<open>release_pages\<close> calls, successful or not, every byte of the initial pool is owned by exactly
  one free or held token, held tokens lie in confidential memory, and nothing but the allocator
  itself has changed.\<close>

theorem page_ownership_exclusive:
  assumes "alloc_inv l s" and "exclusive (free_in s)"
    and "(client_step (acquire_continous_pages l) release_pages)\<^sup>*\<^sup>* (s, []) (t, held)"
  shows "exclusive (\<lambda>x. free_in t x + owned held x)
    \<and> (\<forall>x. free_in t x + owned held x = free_in s x)
    \<and> list_all (page_ok l) held
    \<and> t\<lparr>global_allocator := None\<rparr> = s\<lparr>global_allocator := None\<rparr>"
  using allocator.steps_exclusive [OF assms(3,1,2)] by blast

theorem page_ownership_exclusive_witness:
  "\<exists>t. client_step (acquire_continous_pages example_layout) release_pages
         (example_state, []) (t, [Page_init 0x4000 Size4KiB])
     \<and> exclusive (\<lambda>x. free_in t x + owned [Page_init 0x4000 Size4KiB] x)"
proof -
  obtain t where t: "acquire_continous_pages example_layout 1 Size4KiB example_state =
      (Ok [Page_init 0x4000 Size4KiB], t)" using example_acquire by blast
  have step: "client_step (acquire_continous_pages example_layout) release_pages
      (example_state, []) (t, [Page_init 0x4000 Size4KiB])"
    using client_step.acquire_ok [of 1 "acquire_continous_pages example_layout" Size4KiB
        example_state "[Page_init 0x4000 Size4KiB]" t release_pages "[]"] t by simp
  from page_ownership_exclusive [OF example_state_inv example_state_exclusive r_into_rtranclp [of
        "client_step (acquire_continous_pages example_layout) release_pages", OF step]] step
  show ?thesis by blast
qed

text \<open>C25: acquiring pages is safe. For a positive number of pages, \<^verbatim>\<open>acquire_continous_pages\<close> never
  panics; it returns exactly the requested number of tokens of the requested size, each aligned and
  inside confidential memory, adjacent in the order returned, and removed from the free pool, or
  it returns \<^verbatim>\<open>OutOfPages\<close> and the pool owns the same bytes as before.\<close>

theorem acquire_continous_pages_spec:
  assumes "alloc_inv l s" and "0 < n"
  shows "\<exists>r t. acquire_continous_pages l n sz s = (r, t) \<and> alloc_inv l t
    \<and> (case r of
         Ok ps \<Rightarrow> length ps = n \<and> contiguous ps
           \<and> list_all (\<lambda>p. page_size p = sz \<and> page_ok l p) ps
           \<and> (\<forall>x. free_in s x = owned ps x + free_in t x)
       | Err e \<Rightarrow> e = OutOfPages \<and> (\<forall>x. free_in t x = free_in s x)
       | Panic \<Rightarrow> False)"
proof -
  obtain r t where rt: "acquire_continous_pages l n sz s = (r, t)" by fastforce
  note inv = allocator.acq_inv [OF assms rt, THEN conjunct1]
  show ?thesis
  proof (cases r)
    case (Ok ps)
    then show ?thesis using inv rt allocator.acq_ok [OF assms, of sz ps t] by simp
  next
    case (Err e)
    then show ?thesis using inv rt allocator.acq_err [OF assms, of sz e t] by simp
  next
    case Panic
    then show ?thesis using rt allocator.acq_no_panic [OF assms, of sz] by simp
  qed
qed

theorem acquire_continous_pages_spec_witness:
  "\<exists>t. acquire_continous_pages example_layout 1 Size4KiB example_state =
        (Ok [Page_init 0x4000 Size4KiB], t) \<and> alloc_inv example_layout t"
  using acquire_continous_pages_spec [OF example_state_inv zero_less_one, of Size4KiB] example_acquire
  by auto

text \<open>As long as a token of a larger size is free, a request for fewer than 256 adjacent pages
  succeeds, since \<^verbatim>\<open>divide_pages\<close> breaks it down through all sizes between. The monitor only
  asks for 1 and 4 pages at a time.\<close>

lemma acquire_by_division_succeeds:
  assumes "alloc_inv l s" and "global_allocator s = Some pa"
    and "0 < n" and "n < 256" and "sz < d" and "tokens_of pa d \<noteq> []"
  shows "\<exists>ps t. acquire_continous_pages l n sz s = (Ok ps, t) \<and> length ps = n"
proof -
  have wf: "allocator_wf l pa" using assms(1,2) by (simp add: alloc_inv_def)
  obtain ps t where "acquire_continous_pages l n sz s = (Ok ps, t)"
    using acquire_succeeds [OF wf assms(3-6)] assms(2)
    by (auto simp: acquire_continous_pages_def sbind_def try_write_def lift_def ret_def)
  with allocator.acq_ok [OF assms(1,3) this] show ?thesis by blast
qed

lemma acquire_by_division_succeeds_example:
  "\<exists>ps t. acquire_continous_pages example_layout 4 Size4KiB example_state = (Ok ps, t) \<and> length ps = 4"
  by (rule acquire_by_division_succeeds [OF example_state_inv, of example_allocator _ _ Size2MiB])
     (simp_all add: example_state_def example_tokens less_page_size_def)

text \<open>C26: \<^verbatim>\<open>PageAllocator::initialize\<close> on a page-aligned region that ends at the end of confidential
  memory (the only call in the monitor) succeeds once and creates well-formed tokens that own every
  byte of a prefix \<open>[start, x)\<close> of the region exactly once and no other byte. The prefix is the whole region unless \<open>x\<close> is aligned
  to a page size that no longer fits although a page of the next smaller size does; then the
  rest \<open>[x, end)\<close> stays without tokens (against the comment in the code, which promises smaller tokens there). So the whole region is covered
  if every page of every size that starts at an aligned address in the region fits. A second
  initialization is refused.\<close>

theorem page_allocator_initialize_covers_prefix:
  assumes "layout_wf l" and "start < confidential_memory_end l" and "confidential_memory_start l \<le> start"
    and "is_aligned_to start (in_bytes smallest)" and "global_allocator s = None"
  shows "\<exists>t x. initialize l start (confidential_memory_end l) s = (Ok (), t)
    \<and> alloc_inv l t \<and> exclusive (free_in t)
    \<and> unat start \<le> x \<and> x \<le> unat (confidential_memory_end l)
    \<and> (\<forall>y. free_in t y = (if unat start \<le> y \<and> y < x then 1 else 0))
    \<and> (x = unat (confidential_memory_end l)
       \<or> (\<exists>sz b. smaller sz = Some b \<and> x mod bytes sz = 0 \<and> x + bytes b \<le> unat (confidential_memory_end l)
            \<and> unat (confidential_memory_end l) < x + bytes sz))
    \<and> initialize l start (confidential_memory_end l) t = (Err Reinitialization, t)"
proof -
  have ends: "unat (confidential_memory_end l) mod 4096 = 0" "unat start mod bytes smallest = 0"
    "is_aligned_to (confidential_memory_end l) (in_bytes smallest)"
    using assms(1,4) by (simp_all add: layout_wf_def is_aligned_to_def unat_in_bytes smallest_def)
  obtain x pa where x: "add_tokens l (confidential_memory_end l) start smallest empty = Ok pa"
    "tiled l (unat start) x empty pa"
    using add_tokens_tiles [OF empty_wf(1) order_refl assms(3,2) ends(2,1)] by blast
  have run: "initialize l start (confidential_memory_end l) s =
      (Ok (), s\<lparr>global_allocator := Some pa\<rparr>)"
    using x(1) assms(2,4,5) ends(3)
    by (simp add: initialize_def add_memory_region_def sbind_lift)
  show ?thesis
    using x(2) unfolding run
    by (intro exI [of _ "s\<lparr>global_allocator := Some pa\<rparr>"] exI [of _ x])
       (simp add: tiled_def alloc_inv_def free_in_def exclusive_def empty_wf(2) initialize_def
         sbind_lift)
qed

definition example_small_layout :: memory_layout where
  "example_small_layout = \<lparr>non_confidential_memory_start = 0x1000, non_confidential_memory_end = 0x3000,
     confidential_memory_start = 0x3000, confidential_memory_end = 0x7000\<rparr>"

theorem page_allocator_initialize_covers_prefix_witness:
  "\<exists>t. initialize example_small_layout 0x4000 0x7000 (example_state\<lparr>global_allocator := None\<rparr>) = (Ok (), t)
    \<and> (\<forall>y. free_in t y = (if 0x4000 \<le> y \<and> y < 0x7000 then 1 else 0))
    \<and> initialize example_small_layout 0x4000 0x7000 t = (Err Reinitialization, t)"
proof -
  have e: "confidential_memory_end example_small_layout = 0x7000" by (simp add: example_small_layout_def)
  have "layout_wf example_small_layout" "(0x4000 :: usize) < confidential_memory_end example_small_layout"
    "confidential_memory_start example_small_layout \<le> 0x4000" "is_aligned_to 0x4000 (in_bytes smallest)"
    "global_allocator (example_state\<lparr>global_allocator := None\<rparr>) = None"
    by (simp_all add: example_small_layout_def layout_wf_def is_aligned_to_def smallest_def in_bytes_def)
  from page_allocator_initialize_covers_prefix [OF this]
  obtain t x where t: "initialize example_small_layout 0x4000 0x7000 (example_state\<lparr>global_allocator := None\<rparr>) = (Ok (), t)"
    and x: "unat (0x4000 :: usize) \<le> x" "x \<le> unat (0x7000 :: usize)"
      "x = unat (0x7000 :: usize) \<or> (\<exists>sz b. smaller sz = Some b \<and> x mod bytes sz = 0
         \<and> x + bytes b \<le> unat (0x7000 :: usize) \<and> unat (0x7000 :: usize) < x + bytes sz)"
    and free: "\<forall>y. free_in t y = (if unat (0x4000 :: usize) \<le> y \<and> y < x then 1 else 0)"
    and again: "initialize example_small_layout 0x4000 0x7000 t = (Err Reinitialization, t)"
    unfolding e by (elim exE conjE) (rule that)
  have "x = 0x7000"
  proof (rule disjE [OF x(3)])
    assume "\<exists>sz b. smaller sz = Some b \<and> x mod bytes sz = 0
         \<and> x + bytes b \<le> unat (0x7000 :: usize) \<and> unat (0x7000 :: usize) < x + bytes sz"
    then obtain sz b where sz: "smaller sz = Some b" "x mod bytes sz = 0" by (elim exE conjE) (rule that)
    then have "x < bytes sz" using x(2) by (cases sz) simp_all
    then show ?thesis using sz(2) x(1) mod_less [of x "bytes sz"] by simp
  qed simp
  with t free again show ?thesis by auto
qed

lemma divide_loop_stuck:
  assumes "allocator_wf l pa" and "\<forall>cur. nxt = Some cur \<longrightarrow> sz < cur"
    and "\<And>d. sz < d \<Longrightarrow> tokens_of pa d = []"
  shows "divide_loop l sz nxt pa = Ok pa"
  using assms
proof (induction l sz nxt pa rule: divide_loop.induct)
  case (1 l sz nxt pa)
  show ?case
  proof (cases nxt)
    case (Some cur)
    then have cur: "sz < cur" and d: "divide_page l cur pa = Ok (False, pa)"
      using "1.prems" by (simp_all add: divide_page_total)
    then have "\<forall>c. larger cur = Some c \<longrightarrow> sz < c" by (auto dest: larger_Some)
    from "1.IH"(2) [OF Some _ d refl _ "1.prems"(1) this "1.prems"(3)] Some d cur
    show ?thesis by (simp add: divide_loop.simps [of l sz "Some cur"])
  qed (simp add: divide_loop.simps)
qed

text \<open>C35: the search window of \<^verbatim>\<open>acquire_continous_pages_of_given_size\<close> stops one short. When no
  larger page is left, a request for \<open>n\<close> pages fails with \<^verbatim>\<open>OutOfPages\<close> even if exactly \<open>n\<close>
  (possibly adjacent) pages of that size are free: the last \<open>n\<close> tokens are never handed out.\<close>

theorem last_pages_never_acquired:
  assumes "alloc_inv l s" and "global_allocator s = Some pa" and "0 < n"
    and "length (tokens_of pa sz) \<le> n" and "\<And>d. sz < d \<Longrightarrow> tokens_of pa d = []"
  shows "acquire_continous_pages l n sz s = (Err OutOfPages, s)"
proof -
  have wf: "allocator_wf l pa" using assms(1,2) by (simp add: alloc_inv_def)
  have given: "acquire_continous_pages_of_given_size n sz pa = Ok ([], pa)"
    using assms(4) by (simp add: acquire_given_eq [OF wf assms(3)])
  moreover have "divide_pages l sz pa = Ok pa"
    unfolding divide_pages_def using assms(5) by (intro divide_loop_stuck [OF wf]) (auto dest: larger_Some)
  ultimately have "acquire l n sz pa = Ok ([], pa)" by (simp add: acquire_def)
  then show ?thesis
    using assms(2) by (simp add: acquire_continous_pages_def sbind_def try_write_def lift_def)
qed

theorem last_pages_never_acquired_witness:
  "tokens_of example_allocator Size2MiB = [Page_init 0x200000 Size2MiB]
   \<and> acquire_continous_pages example_layout 1 Size2MiB example_state = (Err OutOfPages, example_state)"
proof -
  have "tokens_of example_allocator d = []" if "Size2MiB < d" for d
    using that by (cases d) (simp_all add: less_page_size_def example_tokens)
  then show ?thesis
    using last_pages_never_acquired [OF example_state_inv, of example_allocator 1 Size2MiB]
    by (simp add: example_state_def example_tokens)
qed

text \<open>The shrinking loop of \<^verbatim>\<open>add_memory_region\<close> stops one size too early, so a region can be
  left without tokens although pages fit: the 1 MiB region from 2 MiB to 3 MiB yields no token at
  all, while 256 pages of 4 KiB would fit.\<close>

lemma memory_region_without_tokens:
  "add_memory_region
     \<lparr>non_confidential_memory_start = 0x1000, non_confidential_memory_end = 0x100000,
      confidential_memory_start = 0x100000, confidential_memory_end = 0x300000\<rparr>
     0x200000 0x300000 empty = Ok empty"
  by (simp add: add_memory_region_def is_aligned_to_def smallest_def in_bytes_def
      add_tokens.simps [of _ _ "0x200000"] token_size_def grow.simps shrink.simps
      can_create_page_def confidential_address_at_offset_bounded_cases next_address_def)

end
