(* ===== verification/Paging.thy ===== *)
theory Paging
  imports Page_Ownership
begin

text \<open>
  \<^verbatim>\<open>core/memory_protector/mmu/paging_system.rs\<close> and the encodings of \<^verbatim>\<open>page_table_entry.rs\<close>: the
  shape of the Sv57x4 page tables and the bit layout of a page table entry.

  The facts on encodings are stated bit by bit, so that the round trips and the independence of
  address, configuration and permission bits are consequences of one description (\<open>pte_bits\<close>).
\<close>

section \<open>The paging system\<close>

datatype hgatp_mode = Sv57x4_mode

datatype paging_system = Sv57x4

datatype page_table_level = Level5 | Level4 | Level3 | Level2 | Level1

definition PagingSystem_from :: "hgatp_mode \<Rightarrow> paging_system option" where
  "PagingSystem_from mode = (case mode of Sv57x4_mode \<Rightarrow> Some Sv57x4)"

definition hgatp_mode_of :: "paging_system \<Rightarrow> hgatp_mode" where
  "hgatp_mode_of ps = (case ps of Sv57x4 \<Rightarrow> Sv57x4_mode)"

definition levels :: "paging_system \<Rightarrow> page_table_level" where
  "levels ps = (case ps of Sv57x4 \<Rightarrow> Level5)"

definition entry_size :: "paging_system \<Rightarrow> usize" where
  "entry_size ps = (case ps of Sv57x4 \<Rightarrow> 8)"

definition entries :: "paging_system \<Rightarrow> page_table_level \<Rightarrow> usize" where
  "entries ps level = (case ps of Sv57x4 \<Rightarrow>
     (case level of Level5 \<Rightarrow> push_bit 11 1 | _ \<Rightarrow> push_bit 9 1))"

definition size_in_bytes :: "paging_system \<Rightarrow> page_table_level \<Rightarrow> usize" where
  "size_in_bytes ps level = entries ps level * entry_size ps"

definition configuration_pages :: "paging_system \<Rightarrow> page_table_level \<Rightarrow> usize" where
  "configuration_pages ps level = size_in_bytes ps level div in_bytes Size4KiB"

definition vpn :: "paging_system \<Rightarrow> usize \<Rightarrow> page_table_level \<Rightarrow> usize" where
  "vpn ps virtual_address level = (case ps of Sv57x4 \<Rightarrow>
     (case level of
        Level5 \<Rightarrow> drop_bit 48 virtual_address AND 0x3ff
      | Level4 \<Rightarrow> drop_bit 39 virtual_address AND 0x1ff
      | Level3 \<Rightarrow> drop_bit 30 virtual_address AND 0x1ff
      | Level2 \<Rightarrow> drop_bit 21 virtual_address AND 0x1ff
      | Level1 \<Rightarrow> drop_bit 12 virtual_address AND 0x1ff))"

definition level_page_size :: "paging_system \<Rightarrow> page_table_level \<Rightarrow> page_size" where
  "level_page_size ps level = (case level of
      Level5 \<Rightarrow> Size128TiB
    | Level4 \<Rightarrow> Size512GiB
    | Level3 \<Rightarrow> Size1GiB
    | Level2 \<Rightarrow> Size2MiB
    | Level1 \<Rightarrow> Size4KiB)"

fun lower :: "page_table_level \<Rightarrow> page_table_level option" where
  "lower Level5 = Some Level4"
| "lower Level4 = Some Level3"
| "lower Level3 = Some Level2"
| "lower Level2 = Some Level1"
| "lower Level1 = None"

primrec depth :: "page_table_level \<Rightarrow> nat" where
  "depth Level5 = 5"
| "depth Level4 = 4"
| "depth Level3 = 3"
| "depth Level2 = 2"
| "depth Level1 = 1"

lemma depth_lower: "lower level = Some b \<Longrightarrow> depth level = Suc (depth b)"
  by (cases level) auto

abbreviation table_entries :: "paging_system \<Rightarrow> page_table_level \<Rightarrow> nat" where
  "table_entries ps level \<equiv> unat (entries ps level)"

lemma table_geometry:
  "table_entries ps level = 512 * unat (configuration_pages ps level)"
  "unat (configuration_pages ps level) = (if level = Level5 then 4 else 1)"
  "entry_size ps = 8"
  by (cases ps; cases level; simp add: entries_def configuration_pages_def size_in_bytes_def
      entry_size_def in_bytes_def)+

section \<open>Bits of a page table entry\<close>

datatype page_table_bits = Valid | Read | Write | Execute | User | Global | Accessed | Dirty

primrec bit_position :: "page_table_bits \<Rightarrow> nat" where
  "bit_position Valid = 0"
| "bit_position Read = 1"
| "bit_position Write = 2"
| "bit_position Execute = 3"
| "bit_position User = 4"
| "bit_position Global = 5"
| "bit_position Accessed = 6"
| "bit_position Dirty = 7"

definition pte_mask :: "page_table_bits \<Rightarrow> usize" where
  "pte_mask b = push_bit (bit_position b) 1"

definition is_set :: "page_table_bits \<Rightarrow> usize \<Rightarrow> bool" where
  "is_set b raw_entry \<longleftrightarrow> raw_entry AND pte_mask b \<noteq> 0"

definition is_valid :: "usize \<Rightarrow> bool" where
  "is_valid raw_entry \<longleftrightarrow> is_set Valid raw_entry"

definition is_leaf :: "usize \<Rightarrow> bool" where
  "is_leaf raw_entry \<longleftrightarrow>
     is_set Read raw_entry \<or> is_set Write raw_entry \<or> is_set Execute raw_entry"

definition CONFIGURATION_BIT_MASK :: usize where
  "CONFIGURATION_BIT_MASK = 0x3ff"

definition ADDRESS_SHIFT :: nat where
  "ADDRESS_SHIFT = 2"

definition PageTableAddress_decode :: "usize \<Rightarrow> usize" where
  "PageTableAddress_decode raw_entry =
     push_bit ADDRESS_SHIFT (raw_entry AND NOT CONFIGURATION_BIT_MASK)"

definition PageTableAddress_encode :: "usize \<Rightarrow> usize" where
  "PageTableAddress_encode address = drop_bit ADDRESS_SHIFT address"

record page_table_permission =
  can_read :: bool
  can_write :: bool
  can_execute :: bool

definition shared_page_permission :: page_table_permission where
  "shared_page_permission = \<lparr>can_read = True, can_write = True, can_execute = False\<rparr>"

definition PageTablePermission_decode :: "usize \<Rightarrow> page_table_permission" where
  "PageTablePermission_decode raw_entry =
     \<lparr>can_read = is_set Read raw_entry, can_write = is_set Write raw_entry,
      can_execute = is_set Execute raw_entry\<rparr>"

definition PageTablePermission_encode :: "page_table_permission \<Rightarrow> usize" where
  "PageTablePermission_encode p =
     (let encoded_value = 0;
          encoded_value = if can_read p then encoded_value OR pte_mask Read else encoded_value;
          encoded_value = if can_write p then encoded_value OR pte_mask Write else encoded_value;
          encoded_value = if can_execute p then encoded_value OR pte_mask Execute else encoded_value
      in encoded_value)"

record page_table_configuration =
  is_accessible_to_user :: bool
  was_accessed :: bool
  is_global_mapping :: bool
  is_dirty :: bool

definition PageTableConfiguration_empty :: page_table_configuration where
  "PageTableConfiguration_empty =
     \<lparr>is_accessible_to_user = False, was_accessed = False, is_global_mapping = False,
      is_dirty = False\<rparr>"

definition shared_page_configuration :: page_table_configuration where
  "shared_page_configuration =
     \<lparr>is_accessible_to_user = True, was_accessed = True, is_global_mapping = False,
      is_dirty = True\<rparr>"

definition PageTableConfiguration_decode :: "usize \<Rightarrow> page_table_configuration" where
  "PageTableConfiguration_decode raw_entry =
     \<lparr>is_accessible_to_user = is_set User raw_entry, was_accessed = is_set Accessed raw_entry,
      is_global_mapping = is_set Global raw_entry, is_dirty = is_set Dirty raw_entry\<rparr>"

definition PageTableConfiguration_encode :: "page_table_configuration \<Rightarrow> usize" where
  "PageTableConfiguration_encode c =
     (let encoded_value = 0;
          encoded_value = if is_accessible_to_user c then encoded_value OR pte_mask User else encoded_value;
          encoded_value = if was_accessed c then encoded_value OR pte_mask Accessed else encoded_value;
          encoded_value = if is_global_mapping c then encoded_value OR pte_mask Global else encoded_value;
          encoded_value = if is_dirty c then encoded_value OR pte_mask Dirty else encoded_value
      in encoded_value)"

section \<open>The encoding, bit by bit\<close>

lemma is_set_bit: "is_set b raw \<longleftrightarrow> bit raw (bit_position b)"
  by (simp add: is_set_def pte_mask_def bit_iff_and_push_bit_not_eq_0)

lemma bit_pte_mask: "bit (pte_mask b) n \<longleftrightarrow> n = bit_position b"
proof -
  have "bit_position b < 64" by (cases b) simp_all
  then show ?thesis by (auto simp: pte_mask_def bit_simps)
qed

lemma bit_permission:
  "bit (PageTablePermission_encode p) n \<longleftrightarrow>
     n = 1 \<and> can_read p \<or> n = 2 \<and> can_write p \<or> n = 3 \<and> can_execute p"
  by (auto simp: PageTablePermission_encode_def Let_def bit_simps bit_pte_mask)

lemma bit_configuration:
  "bit (PageTableConfiguration_encode c) n \<longleftrightarrow>
     n = 4 \<and> is_accessible_to_user c \<or> n = 5 \<and> is_global_mapping c
     \<or> n = 6 \<and> was_accessed c \<or> n = 7 \<and> is_dirty c"
  by (auto simp: PageTableConfiguration_encode_def Let_def bit_simps bit_pte_mask)

lemma bit_aligned:
  assumes "unat (a :: usize) mod 4096 = 0" and "n < 12"
  shows "\<not> bit a n"
proof -
  have "take_bit 12 a = 0"
    using assms(1) by (simp add: word_unat_eq_iff take_bit_eq_mod unat_mod)
  then have "bit (take_bit 12 a) n = False" by simp
  with assms(2) show ?thesis by (simp add: bit_take_bit_iff)
qed

lemma bit_address_encode:
  "bit (PageTableAddress_encode a) n \<longleftrightarrow> bit a (n + 2)"
  by (simp add: PageTableAddress_encode_def ADDRESS_SHIFT_def bit_drop_bit_eq add.commute)

lemma bit_address_decode:
  "bit (PageTableAddress_decode raw) n \<longleftrightarrow> 12 \<le> n \<and> n < 64 \<and> bit raw (n - 2)"
proof -
  have m: "CONFIGURATION_BIT_MASK = mask 10" by (simp add: CONFIGURATION_BIT_MASK_def mask_eq_exp_minus_1)
  show ?thesis
    unfolding PageTableAddress_decode_def ADDRESS_SHIFT_def m
    by (auto simp: bit_push_bit_iff bit_and_iff bit_not_iff bit_mask_iff)
qed

lemma decode_aligned: "unat (PageTableAddress_decode raw) mod 4096 = 0"
proof -
  have "take_bit 12 (PageTableAddress_decode raw) = 0"
    by (rule bit_eqI) (auto simp: bit_take_bit_iff bit_address_decode)
  then have "unat (take_bit 12 (PageTableAddress_decode raw)) = 0" by simp
  then show ?thesis by (simp add: take_bit_eq_mod unat_mod)
qed

text \<open>The raw entry for an address with the given configuration and permissions.\<close>

definition pte :: "usize \<Rightarrow> page_table_configuration \<Rightarrow> page_table_permission \<Rightarrow> usize" where
  "pte a c p = pte_mask Valid OR PageTableAddress_encode a OR PageTableConfiguration_encode c
     OR PageTablePermission_encode p"

definition no_permission :: page_table_permission where
  "no_permission = \<lparr>can_read = False, can_write = False, can_execute = False\<rparr>"

lemma permission_encode_none: "PageTablePermission_encode no_permission = 0"
  by (simp add: PageTablePermission_encode_def no_permission_def)

lemma pte_bits:
  assumes "unat a mod 4096 = 0"
  shows "bit (pte a c p) n \<longleftrightarrow>
    n = 0 \<or> 10 \<le> n \<and> bit a (n + 2)
    \<or> n = 4 \<and> is_accessible_to_user c \<or> n = 5 \<and> is_global_mapping c
    \<or> n = 6 \<and> was_accessed c \<or> n = 7 \<and> is_dirty c
    \<or> n = 1 \<and> can_read p \<or> n = 2 \<and> can_write p \<or> n = 3 \<and> can_execute p"
proof -
  have addr: "bit (PageTableAddress_encode a) n \<longleftrightarrow> 10 \<le> n \<and> bit a (n + 2)"
    using bit_aligned [OF assms, of "n + 2"] by (cases "10 \<le> n") (simp_all add: bit_address_encode)
  show ?thesis
    by (simp only: pte_def bit_or_iff bit_pte_mask bit_position.simps addr bit_permission
        bit_configuration disj_assoc)
qed

lemma pte_decode:
  assumes "unat a mod 4096 = 0"
  shows "is_valid (pte a c p)"
    and "is_leaf (pte a c p) \<longleftrightarrow> can_read p \<or> can_write p \<or> can_execute p"
    and "PageTablePermission_decode (pte a c p) = p"
    and "PageTableConfiguration_decode (pte a c p) = c"
    and "PageTableAddress_decode (pte a c p) = a"
proof -
  note b = pte_bits [OF assms]
  show "is_valid (pte a c p)" by (simp add: is_valid_def is_set_bit b)
  show "is_leaf (pte a c p) \<longleftrightarrow> can_read p \<or> can_write p \<or> can_execute p"
    by (simp add: is_leaf_def is_set_bit b)
  show "PageTablePermission_decode (pte a c p) = p"
    by (simp add: PageTablePermission_decode_def is_set_bit b)
  show "PageTableConfiguration_decode (pte a c p) = c"
    by (simp add: PageTableConfiguration_decode_def is_set_bit b)
  show "PageTableAddress_decode (pte a c p) = a"
  proof (rule bit_eqI)
    fix n
    assume "possible_bit TYPE(64 word) n"
    then have "n < 64" by simp
    then show "bit (PageTableAddress_decode (pte a c p)) n = bit a n"
    proof (cases "12 \<le> n")
      case True
      then obtain k where "n = 12 + k" using le_Suc_ex by blast
      with \<open>n < 64\<close> show ?thesis by (simp add: bit_address_decode b add.commute)
    qed (simp add: bit_address_decode bit_aligned [OF assms])
  qed
qed

text \<open>An address that is not page aligned disturbs the flags but not the page it denotes.\<close>

lemma pte_any_address:
  shows "is_valid (pte a c p)"
    and "can_read p \<or> can_write p \<or> can_execute p \<Longrightarrow> is_leaf (pte a c p)"
    and "PageTableAddress_decode (pte a c p) = a AND NOT (mask 12)"
proof -
  have b: "bit (pte a c p) n \<longleftrightarrow> n = 0 \<or> bit a (n + 2) \<or> bit (PageTableConfiguration_encode c) n
      \<or> bit (PageTablePermission_encode p) n" for n
    by (simp only: pte_def bit_or_iff bit_pte_mask bit_position.simps bit_address_encode disj_assoc)
  show "is_valid (pte a c p)" by (simp add: is_valid_def is_set_bit b)
  show "is_leaf (pte a c p)" if "can_read p \<or> can_write p \<or> can_execute p"
    using that by (auto simp: is_leaf_def is_set_bit b bit_permission)
  show "PageTableAddress_decode (pte a c p) = a AND NOT (mask 12)"
  proof (rule bit_eqI)
    fix n
    assume "possible_bit TYPE(64 word) n"
    then have n: "n < 64" by simp
    show "bit (PageTableAddress_decode (pte a c p)) n = bit (a AND NOT (mask 12)) n"
    proof (cases "12 \<le> n")
      case True
      then obtain k where "n = 12 + k" using le_Suc_ex by blast
      with n show ?thesis
        by (simp add: bit_address_decode b bit_configuration bit_permission bit_and_iff bit_not_iff
            bit_mask_iff add.commute)
    qed (simp add: bit_address_decode bit_and_iff bit_not_iff bit_mask_iff)
  qed
qed

end
