(* ===== verification/Page_Table.thy ===== *)
theory Page_Table
  imports Paging
begin

text \<open>
  \<^verbatim>\<open>core/memory_protector/mmu/page_table.rs\<close>, \<^verbatim>\<open>page_table_entry.rs\<close>, \<^verbatim>\<open>page_table_memory.rs\<close> and
  \<^verbatim>\<open>core/page_allocator/shared_page.rs\<close>: second-level page tables in confidential memory.

  \<^item> A page table exists twice: as the tree \<open>page_table\<close> of the monitor (whose nodes own page
    tokens) and as raw entries in the confidential memory that the hardware walks. Every operation
    below changes both.
  \<^item> Rust drops values that go out of scope. \<open>drop_table\<close> is \<^verbatim>\<open>Drop for PageTable\<close> followed by
    \<^verbatim>\<open>Drop for PageTableMemory\<close>; \<open>discard_entries\<close> is the drop of a vector of entries, which
    releases the tables below pointers but not the page of a leaf (neither \<^verbatim>\<open>Page\<close> nor
    \<^verbatim>\<open>PageTableEntry\<close> implements \<^verbatim>\<open>Drop\<close>). \<open>on_error\<close> marks the early returns that drop values.
  \<^item> \<^verbatim>\<open>&mut self\<close> methods of \<^verbatim>\<open>PageTable\<close> return the changed table; on an error the
    table is unchanged.
\<close>

section \<open>Shared pages\<close>

record share_page_request =
  request_virtual_address :: usize
  request_page_size :: page_size

definition SharePageRequest_new :: "usize \<Rightarrow> share_page_request res" where
  "SharePageRequest_new address =
     Ok \<lparr>request_virtual_address = address, request_page_size = Size4KiB\<rparr>"

record shared_page =
  hypervisor_address :: non_confidential_memory_address
  confidential_vm_virtual_address :: usize
  shared_page_size :: page_size

definition SharedPage_new :: "memory_layout \<Rightarrow> usize \<Rightarrow> share_page_request \<Rightarrow> shared_page res" where
  "SharedPage_new l address request =
     (let sz = request_page_size request in
      and_then (NonConfidentialMemoryAddress_new l address) (\<lambda>address.
      and_then (sub_usize (in_bytes sz) 1) (\<lambda>offset.
      and_then (non_confidential_address_at_offset l address offset) (\<lambda>_.
      Ok \<lparr>hypervisor_address = address,
          confidential_vm_virtual_address = request_virtual_address request,
          shared_page_size = sz\<rparr>))))"

definition non_confidential_address :: "shared_page \<Rightarrow> usize" where
  "non_confidential_address sp = hypervisor_address sp"

section \<open>Page tables\<close>

record page_table_memory =
  memory_pages :: "page list"
  number_of_entries :: usize
  memory_entry_size :: usize

datatype page_table_entry =
    Pointer page_table page_table_configuration
  | Leaf page page_table_configuration page_table_permission
  | Shared shared_page page_table_configuration page_table_permission
  | NotValid
and page_table = PageTable page_table_level page_table_memory "page_table_entry list"

definition PageTableMemory_start_address :: "page_table_memory \<Rightarrow> usize res" where
  "PageTableMemory_start_address mem =
     and_then (vec_index (memory_pages mem) 0) (\<lambda>p. Ok (start_address p))"

primrec PageTable_address :: "page_table \<Rightarrow> usize res" where
  "PageTable_address (PageTable level mem es) = PageTableMemory_start_address mem"

definition PageTableEntry_encode :: "page_table_entry \<Rightarrow> usize res" where
  "PageTableEntry_encode e = (case e of
      Pointer pt configuration \<Rightarrow>
        and_then (PageTable_address pt) (\<lambda>address.
        Ok (pte_mask Valid OR PageTableAddress_encode address
            OR PageTableConfiguration_encode configuration))
    | Leaf p configuration permissions \<Rightarrow>
        Ok (pte_mask Valid OR PageTableAddress_encode (start_address p)
            OR PageTableConfiguration_encode configuration OR PageTablePermission_encode permissions)
    | Shared sp configuration permissions \<Rightarrow>
        Ok (pte_mask Valid OR PageTableAddress_encode (non_confidential_address sp)
            OR PageTableConfiguration_encode configuration OR PageTablePermission_encode permissions)
    | NotValid \<Rightarrow> Ok 0)"

subsection \<open>The memory of one table\<close>

definition resolve_index :: "page_table_memory \<Rightarrow> usize \<Rightarrow> (usize \<times> usize) option" where
  "resolve_index mem index =
     (if index < number_of_entries mem then
        let entries_per_page = in_bytes Size4KiB div memory_entry_size mem;
            page_id = index div entries_per_page;
            index_in_page = index mod entries_per_page
        in Some (page_id, index_in_page)
      else None)"

text \<open>\<open>ok\<close> is \<^verbatim>\<open>Result::ok\<close>.\<close>

definition ok :: "('s, 'e, 'a) st \<Rightarrow> ('s, 'e, 'a option) st" where
  "ok m s = (case m s of
      (Ok a, t) \<Rightarrow> (Ok (Some a), t)
    | (Err _, t) \<Rightarrow> (Ok None, t)
    | (Panic, t) \<Rightarrow> (Panic, t))"

definition get_page :: "page_table_memory \<Rightarrow> usize \<Rightarrow> page option" where
  "get_page mem page_id =
     (if unat page_id < length (memory_pages mem) then Some (memory_pages mem ! unat page_id) else None)"

definition PageTableMemory_entry ::
    "page_table_memory \<Rightarrow> usize \<Rightarrow> ('z mem_state_scheme, error, usize option) st" where
  "PageTableMemory_entry mem index =
     (case resolve_index mem index of
        None \<Rightarrow> ret None
      | Some (page_id, index_in_page) \<Rightarrow>
          sbind (lift (mul_usize (memory_entry_size mem) index_in_page)) (\<lambda>offset_in_page.
          case get_page mem page_id of
            None \<Rightarrow> ret None
          | Some p \<Rightarrow> ok (Page_read p offset_in_page)))"

definition PageTableMemory_set_entry ::
    "page_table_memory \<Rightarrow> usize \<Rightarrow> page_table_entry \<Rightarrow> ('z mem_state_scheme, error, unit) st" where
  "PageTableMemory_set_entry mem index e =
     sbind (lift (PageTableEntry_encode e)) (\<lambda>v.
     if v = 0 then ret ()
     else case resolve_index mem index of
        None \<Rightarrow> ret ()
      | Some (page_id, index_in_page) \<Rightarrow>
          sbind (lift (mul_usize (memory_entry_size mem) index_in_page)) (\<lambda>offset_in_page.
          case get_page mem page_id of
            None \<Rightarrow> ret ()
          | Some p \<Rightarrow> sbind (ok (Page_write p offset_in_page v)) (\<lambda>_. ret ())))"

definition new_memory :: "paging_system \<Rightarrow> page_table_level \<Rightarrow> page list \<Rightarrow> page_table_memory" where
  "new_memory ps level pages =
     \<lparr>memory_pages = pages, number_of_entries = entries ps level, memory_entry_size = entry_size ps\<rparr>"

definition copy_memory_page ::
    "memory_layout \<Rightarrow> non_confidential_memory_address \<Rightarrow> nat \<times> page
     \<Rightarrow> ('z mem_state_scheme, error, page) st" where
  "copy_memory_page l address = (\<lambda>(i, p).
     sbind (lift (mul_usize (of_nat i) (in_bytes (page_size p)))) (\<lambda>offset_in_bytes.
     sbind (lift (non_confidential_address_at_offset l address offset_in_bytes)) (\<lambda>page_address.
     copy_from_non_confidential_memory l p page_address)))"

definition PageTableMemory_copy_from_non_confidential_memory ::
    "memory_layout \<Rightarrow> paging_system \<Rightarrow> page_table_level \<Rightarrow> non_confidential_memory_address
     \<Rightarrow> ('z alloc_state_scheme, error, page_table_memory) st" where
  "PageTableMemory_copy_from_non_confidential_memory l ps level address =
     sbind (acquire_continous_pages l (unat (configuration_pages ps level)) Size4KiB) (\<lambda>pages.
     sbind (traverse (copy_memory_page l address) (enumerate 0 pages)) (\<lambda>pages.
     ret (new_memory ps level pages)))"

definition PageTableMemory_empty ::
    "memory_layout \<Rightarrow> paging_system \<Rightarrow> page_table_level
     \<Rightarrow> ('z alloc_state_scheme, error, page_table_memory) st" where
  "PageTableMemory_empty l ps level =
     sbind (acquire_continous_pages l (unat (configuration_pages ps level)) Size4KiB) (\<lambda>pages.
     sbind (traverse zeroize pages) (\<lambda>pages.
     ret (new_memory ps level pages)))"

definition PageTableMemory_drop :: "page_table_memory \<Rightarrow> ('z alloc_state_scheme, error, unit) st" where
  "PageTableMemory_drop mem =
     sbind (traverse deallocate (memory_pages mem)) (\<lambda>deallocated_pages.
     release_pages deallocated_pages)"

definition release_leaf :: "page \<Rightarrow> ('z alloc_state_scheme, error, unit) st" where
  "release_leaf p = sbind (deallocate p) release_page"

subsection \<open>Dropping tables\<close>

fun drop_table :: "page_table \<Rightarrow> ('z alloc_state_scheme, error, unit) st"
and drop_entries :: "page_table_entry list \<Rightarrow> ('z alloc_state_scheme, error, unit) st" where
  "drop_table (PageTable level mem es) = sbind (drop_entries es) (\<lambda>_. PageTableMemory_drop mem)"
| "drop_entries [] = ret ()"
| "drop_entries (e # es) =
     sbind (case e of
              Leaf p _ _ \<Rightarrow> release_leaf p
            | Pointer pt _ \<Rightarrow> drop_table pt
            | _ \<Rightarrow> ret ()) (\<lambda>_. drop_entries es)"

primrec discard_entries :: "page_table_entry list \<Rightarrow> ('z alloc_state_scheme, error, unit) st" where
  "discard_entries [] = ret ()"
| "discard_entries (e # es) =
     sbind (case e of Pointer pt _ \<Rightarrow> drop_table pt | _ \<Rightarrow> ret ()) (\<lambda>_. discard_entries es)"

subsection \<open>Copying a page table from untrusted memory\<close>

definition convert_entry ::
    "memory_layout \<Rightarrow> paging_system \<Rightarrow> page_table_level
     \<Rightarrow> (non_confidential_memory_address \<Rightarrow> ('z alloc_state_scheme, error, page_table) st) option
     \<Rightarrow> usize \<Rightarrow> ('z alloc_state_scheme, error, page_table_entry) st" where
  "convert_entry l ps level copy_lower entry_raw =
     (if \<not> is_valid entry_raw then ret NotValid
      else if is_leaf entry_raw then
        sbind (lift (NonConfidentialMemoryAddress_new l (PageTableAddress_decode entry_raw)))
          (\<lambda>address.
        sbind (acquire_continous_pages l 1 (level_page_size ps level)) (\<lambda>pages.
        sbind (lift (vec_remove 0 pages)) (\<lambda>(p, _).
        sbind (smap_err (\<lambda>_. PageTableCorrupted) (copy_from_non_confidential_memory l p address))
          (\<lambda>p.
        ret (Leaf p (PageTableConfiguration_decode entry_raw)
               (PageTablePermission_decode entry_raw))))))
      else
        sbind (lift (ok_or copy_lower PageTableCorrupted)) (\<lambda>copy_lower.
        sbind (lift (NonConfidentialMemoryAddress_new l (PageTableAddress_decode entry_raw)))
          (\<lambda>address.
        sbind (copy_lower address) (\<lambda>pt.
        ret (Pointer pt (PageTableConfiguration_decode entry_raw))))))"

definition copy_entry ::
    "memory_layout \<Rightarrow> paging_system \<Rightarrow> page_table_level
     \<Rightarrow> (non_confidential_memory_address \<Rightarrow> ('z alloc_state_scheme, error, page_table) st) option
     \<Rightarrow> page_table_memory \<Rightarrow> usize \<Rightarrow> ('z alloc_state_scheme, error, page_table_entry) st" where
  "copy_entry l ps level copy_lower mem index =
     sbind (PageTableMemory_entry mem index) (\<lambda>entry_raw.
     sbind (lift (unwrap_option entry_raw)) (\<lambda>entry_raw.
     sbind (convert_entry l ps level copy_lower entry_raw) (\<lambda>page_table_entry.
     sbind (PageTableMemory_set_entry mem index page_table_entry) (\<lambda>_.
     ret page_table_entry))))"

primrec collect_entries ::
    "(usize \<Rightarrow> ('z alloc_state_scheme, error, page_table_entry) st) \<Rightarrow> usize list
     \<Rightarrow> page_table_entry list \<Rightarrow> ('z alloc_state_scheme, error, page_table_entry list) st" where
  "collect_entries f [] collected = ret collected"
| "collect_entries f (index # indices) collected =
     sbind (on_error (f index) (discard_entries collected)) (\<lambda>e.
     collect_entries f indices (collected @ [e]))"

definition copy_one_table ::
    "memory_layout \<Rightarrow> paging_system \<Rightarrow> page_table_level
     \<Rightarrow> (non_confidential_memory_address \<Rightarrow> ('z alloc_state_scheme, error, page_table) st) option
     \<Rightarrow> non_confidential_memory_address \<Rightarrow> ('z alloc_state_scheme, error, page_table) st" where
  "copy_one_table l ps level copy_lower address =
     sbind (PageTableMemory_copy_from_non_confidential_memory l ps level address) (\<lambda>mem.
     on_error
       (sbind (collect_entries (copy_entry l ps level copy_lower mem)
                 (map of_nat [0..<unat (number_of_entries mem)]) []) (\<lambda>es.
        ret (PageTable level mem es)))
       (PageTableMemory_drop mem))"

function PageTable_copy_from_non_confidential_memory ::
    "memory_layout \<Rightarrow> paging_system \<Rightarrow> page_table_level
     \<Rightarrow> non_confidential_memory_address \<Rightarrow> ('z alloc_state_scheme, error, page_table) st" where
  "PageTable_copy_from_non_confidential_memory l ps level =
     copy_one_table l ps level
       (case lower level of
          None \<Rightarrow> None
        | Some lower_level \<Rightarrow> Some (PageTable_copy_from_non_confidential_memory l ps lower_level))"
  by pat_completeness auto
termination
  by (relation "measure (\<lambda>(_, _, level). depth level)") (auto dest: depth_lower)

declare PageTable_copy_from_non_confidential_memory.simps [simp del]

subsection \<open>Changing a page table\<close>

definition PageTable_empty ::
    "memory_layout \<Rightarrow> paging_system \<Rightarrow> page_table_level
     \<Rightarrow> ('z alloc_state_scheme, error, page_table) st" where
  "PageTable_empty l ps level =
     sbind (PageTableMemory_empty l ps level) (\<lambda>mem. ret (PageTable level mem []))"

definition PageTable_set_entry ::
    "page_table \<Rightarrow> usize \<Rightarrow> page_table_entry \<Rightarrow> ('z alloc_state_scheme, error, page_table) st" where
  "PageTable_set_entry pt index e = (case pt of PageTable level mem es \<Rightarrow>
     sbind (PageTableMemory_set_entry mem index e) (\<lambda>_.
     sbind (lift (vec_index es (unat index))) (\<lambda>entry_to_remove.
     sbind (case entry_to_remove of
              Leaf p _ _ \<Rightarrow> release_leaf p
            | Pointer old _ \<Rightarrow> drop_table old
            | _ \<Rightarrow> ret ()) (\<lambda>_.
     ret (PageTable level mem (es[unat index := e]))))))"

definition shared_entry :: "shared_page \<Rightarrow> page_table_entry" where
  "shared_entry sp = Shared sp shared_page_configuration shared_page_permission"

lemma nth_entry_size:
  assumes "es ! i = Pointer t c" and "i < length es"
  shows "size t < Suc (size_list size (es :: page_table_entry list))"
proof -
  have "es ! i \<in> set es" using assms(2) by simp
  from size_list_estimation [OF this, of "size t" size] assms(1) show ?thesis by simp
qed

lemma nonempty_entries_size: "i < length es \<Longrightarrow> 0 < size_list size (es :: page_table_entry list)"
  by (cases es) simp_all

function PageTable_map_shared_page ::
    "memory_layout \<Rightarrow> paging_system \<Rightarrow> shared_page \<Rightarrow> page_table
     \<Rightarrow> ('z alloc_state_scheme, error, page_table) st" where
  "PageTable_map_shared_page l ps sp (PageTable level mem es) =
     (let virtual_page_number = vpn ps (confidential_vm_virtual_address sp) level;
          i = unat virtual_page_number
      in if i < length es then
           (case es ! i of
              Pointer next_page_table c \<Rightarrow>
                sbind (PageTable_map_shared_page l ps sp next_page_table) (\<lambda>next_page_table.
                ret (PageTable level mem (es[i := Pointer next_page_table c])))
            | Leaf _ _ _ \<Rightarrow>
                PageTable_set_entry (PageTable level mem es) virtual_page_number (shared_entry sp)
            | Shared _ _ _ \<Rightarrow>
                PageTable_set_entry (PageTable level mem es) virtual_page_number (shared_entry sp)
            | NotValid \<Rightarrow>
                if level = Level1 then
                  PageTable_set_entry (PageTable level mem es) virtual_page_number (shared_entry sp)
                else
                  sbind (PageTableMemory_empty l ps level) (\<lambda>next_memory.
                  sbind (on_error (PageTable_map_shared_page l ps sp (PageTable level next_memory []))
                           (drop_table (PageTable level next_memory []))) (\<lambda>next_page_table.
                  PageTable_set_entry (PageTable level mem es) virtual_page_number
                    (Pointer next_page_table PageTableConfiguration_empty))))
         else lift (Err PageTableConfigurationError))"
  by pat_completeness auto
termination
  by (relation "measure (\<lambda>(_, _, _, pt). size pt)")
     (auto simp: nth_entry_size nonempty_entries_size)

declare PageTable_map_shared_page.simps [simp del]

definition PageTable_unmap_shared_page ::
    "paging_system \<Rightarrow> usize \<Rightarrow> page_table \<Rightarrow> ('z alloc_state_scheme, error, page_table) st" where
  "PageTable_unmap_shared_page ps address pt = lift Panic"

function PageTable_translate :: "paging_system \<Rightarrow> usize \<Rightarrow> page_table \<Rightarrow> confidential_memory_address res" where
  "PageTable_translate ps address (PageTable level mem es) =
     (let i = unat (vpn ps address level)
      in if i < length es then
           (case es ! i of
              Pointer next_page_table _ \<Rightarrow> PageTable_translate ps address next_page_table
            | Leaf p _ _ \<Rightarrow> Ok (page_address p)
            | _ \<Rightarrow> Err AddressTranslationFailed)
         else Err PageTableConfigurationError)"
  by pat_completeness auto
termination
  by (relation "measure (\<lambda>(_, _, pt). size pt)") (auto simp: nth_entry_size)

declare PageTable_translate.simps [simp del]

subsection \<open>The root page table\<close>

record root_page_table =
  root_paging_system :: paging_system
  root_table :: page_table

definition RootPageTable_copy_from_non_confidential_memory ::
    "memory_layout \<Rightarrow> non_confidential_memory_address \<Rightarrow> paging_system
     \<Rightarrow> ('z alloc_state_scheme, error, root_page_table) st" where
  "RootPageTable_copy_from_non_confidential_memory l address ps =
     sbind (PageTable_copy_from_non_confidential_memory l ps (levels ps) address) (\<lambda>pt.
     ret \<lparr>root_paging_system = ps, root_table = pt\<rparr>)"

definition RootPageTable_map_shared_page ::
    "memory_layout \<Rightarrow> root_page_table \<Rightarrow> shared_page
     \<Rightarrow> ('z alloc_state_scheme, error, root_page_table) st" where
  "RootPageTable_map_shared_page l root sp =
     sbind (PageTable_map_shared_page l (root_paging_system root) sp (root_table root)) (\<lambda>pt.
     ret (root\<lparr>root_table := pt\<rparr>))"

definition RootPageTable_unmap_shared_page ::
    "root_page_table \<Rightarrow> usize \<Rightarrow> ('z alloc_state_scheme, error, root_page_table) st" where
  "RootPageTable_unmap_shared_page root address =
     sbind (PageTable_unmap_shared_page (root_paging_system root) address (root_table root)) (\<lambda>pt.
     ret (root\<lparr>root_table := pt\<rparr>))"

definition RootPageTable_translate :: "root_page_table \<Rightarrow> usize \<Rightarrow> confidential_memory_address res" where
  "RootPageTable_translate root address =
     PageTable_translate (root_paging_system root) address (root_table root)"

definition RootPageTable_address :: "root_page_table \<Rightarrow> usize res" where
  "RootPageTable_address root = PageTable_address (root_table root)"

end
