(* ===== verification/Transformations.thy ===== *)
theory Transformations
  imports Sbi Page_Table
begin

text \<open>
  \<^verbatim>\<open>core/transformations/*.rs\<close>: the messages that cross the boundary between the hypervisor, the
  monitor and a confidential hart. A transformation is the only way information leaves
  or enters the state of a confidential hart.

  \<^item> \<open>expose_to_hypervisor\<close> and \<open>expose_to_confidential_vm\<close> are the two enumerations of declassifiers,
    \<open>pending_request\<close> what a confidential hart waits for, \<open>inter_hart_request\<close> what one confidential
    hart asks of another.
  \<^item> A structure is a record; its getters are the selectors. \<^verbatim>\<open>opensbi_sys::sbi_trap_regs\<close> is
    generated from OpenSBI's header; \<open>sbi_trap_regs\<close> holds its registers. Its fields are 64 bits wide,
    so the conversions \<^verbatim>\<open>try_into\<close> succeed.
\<close>

type_synonym confidential_vm_id = usize

section \<open>Requests and results\<close>

record sbi_request =
  extension_id :: usize
  function_id :: usize
  request_a0 :: usize
  request_a1 :: usize
  request_a2 :: usize
  request_a3 :: usize
  request_a4 :: usize
  request_a5 :: usize

definition SbiRequest_new ::
    "usize \<Rightarrow> usize \<Rightarrow> usize \<Rightarrow> usize \<Rightarrow> usize \<Rightarrow> usize \<Rightarrow> usize \<Rightarrow> usize \<Rightarrow> sbi_request" where
  "SbiRequest_new ext fid a0 a1 a2 a3 a4 a5 =
     \<lparr>extension_id = ext, function_id = fid, request_a0 = a0, request_a1 = a1,
      request_a2 = a2, request_a3 = a3, request_a4 = a4, request_a5 = a5\<rparr>"

definition KVM_ACE_EXTID :: usize where "KVM_ACE_EXTID = 0x509999"
definition KVM_ACE_REGISTER_FID :: usize where "KVM_ACE_REGISTER_FID = 1"
definition KVM_ACE_PAGE_IN_FID :: usize where "KVM_ACE_PAGE_IN_FID = 2"

definition kvm_ace_register :: "confidential_vm_id \<Rightarrow> usize \<Rightarrow> sbi_request" where
  "kvm_ace_register vm_id hart =
     SbiRequest_new KVM_ACE_EXTID KVM_ACE_REGISTER_FID vm_id hart 0 0 0 0"

definition kvm_ace_page_in :: "usize \<Rightarrow> sbi_request" where
  "kvm_ace_page_in address =
     SbiRequest_new KVM_ACE_EXTID KVM_ACE_PAGE_IN_FID address 0 0 0 0 0"

definition kvm_hsm_hart_start :: "usize \<Rightarrow> sbi_request" where
  "kvm_hsm_hart_start virtual_hart_id =
     SbiRequest_new HsmExtension_EXTID HART_START_FID virtual_hart_id 0 0 0 0 0"

definition kvm_hsm_hart_stop :: sbi_request where
  "kvm_hsm_hart_stop = SbiRequest_new HsmExtension_EXTID HART_STOP_FID 0 0 0 0 0 0"

definition kvm_hsm_hart_suspend :: sbi_request where
  "kvm_hsm_hart_suspend = SbiRequest_new HsmExtension_EXTID HART_SUSPEND_FID 0 0 0 0 0 0"

definition kvm_srst_system_reset :: sbi_request where
  "kvm_srst_system_reset = SbiRequest_new SrstExtension_EXTID SYSTEM_RESET_FID 0 0 0 0 0 0"

definition SbiRequest_from_hart_state :: "hart_architectural_state \<Rightarrow> sbi_request" where
  "SbiRequest_from_hart_state h =
     SbiRequest_new (gpr h gpr_a7) (gpr h gpr_a6) (gpr h gpr_a0) (gpr h gpr_a1) (gpr h gpr_a2)
       (gpr h gpr_a3) (gpr h gpr_a4) (gpr h gpr_a5)"

record sbi_vm_request =
  vm_sbi_request :: sbi_request

definition SbiVmRequest_from_hart_state :: "hart_architectural_state \<Rightarrow> sbi_vm_request" where
  "SbiVmRequest_from_hart_state h =
     \<lparr>vm_sbi_request = SbiRequest_new (gpr h gpr_a7) (gpr h gpr_a6) (gpr h gpr_a0) (gpr h gpr_a1)
        (gpr h gpr_a2) (gpr h gpr_a3) (gpr h gpr_a4) (gpr h gpr_a5)\<rparr>"

record sbi_result =
  result_a0 :: usize
  result_a1 :: usize
  pc_offset :: usize

definition SbiResult_new :: "usize \<Rightarrow> usize \<Rightarrow> usize \<Rightarrow> sbi_result" where
  "SbiResult_new a0 a1 pc = \<lparr>result_a0 = a0, result_a1 = a1, pc_offset = pc\<rparr>"

definition SbiResult_ecall :: "hart_architectural_state \<Rightarrow> sbi_result" where
  "SbiResult_ecall h = SbiResult_new (gpr h gpr_a0) (gpr h gpr_a1) ECALL_INSTRUCTION_LENGTH"

definition SbiResult_success :: "usize \<Rightarrow> sbi_result" where
  "SbiResult_success code = SbiResult_new 0 code ECALL_INSTRUCTION_LENGTH"

definition SbiResult_failure :: "usize \<Rightarrow> sbi_result" where
  "SbiResult_failure code = SbiResult_new code 0 ECALL_INSTRUCTION_LENGTH"

record guest_load_page_fault_request =
  load_request_instruction_length :: usize
  load_request_result_gpr :: general_purpose_register

record guest_load_page_fault_result =
  load_result_value :: usize
  load_result_gpr :: general_purpose_register
  load_result_instruction_length :: usize

definition GuestLoadPageFaultResult_new ::
    "hart_architectural_state \<Rightarrow> guest_load_page_fault_request \<Rightarrow> guest_load_page_fault_result" where
  "GuestLoadPageFaultResult_new h request =
     \<lparr>load_result_value = gpr h (load_request_result_gpr request),
      load_result_gpr = load_request_result_gpr request,
      load_result_instruction_length = load_request_instruction_length request\<rparr>"

record guest_store_page_fault_request =
  store_request_instruction_length :: usize

record guest_store_page_fault_result =
  store_result_instruction_length :: usize

definition GuestStorePageFaultResult_new ::
    "guest_store_page_fault_request \<Rightarrow> guest_store_page_fault_result" where
  "GuestStorePageFaultResult_new request =
     \<lparr>store_result_instruction_length = store_request_instruction_length request\<rparr>"

record mmio_load_request =
  load_code :: usize
  load_stval :: usize
  load_htval :: usize
  load_instruction :: usize

record mmio_store_request =
  store_code :: usize
  store_stval :: usize
  store_htval :: usize
  store_instruction :: usize
  store_gpr :: general_purpose_register
  store_gpr_value :: usize

record interrupt_request =
  interrupt_code :: usize

record enabled_interrupts =
  enabled_vsie :: usize

definition EnabledInterrupts_new :: "csr_file \<Rightarrow> enabled_interrupts" where
  "EnabledInterrupts_new f = \<lparr>enabled_vsie = read_csr f CSR_VSIE\<rparr>"

record injected_interrupts =
  injected_hvip :: usize

definition InjectedInterrupts_new :: "csr_file \<Rightarrow> injected_interrupts" where
  "InjectedInterrupts_new f = \<lparr>injected_hvip = read_csr f CSR_HVIP\<rparr>"

record virtual_instruction_request =
  virtual_instruction :: usize
  virtual_instruction_length :: usize

record virtual_instruction_result =
  virtual_result_instruction_length :: usize

record promote_to_confidential_vm =
  promoted_hart_state :: hart_architectural_state

definition PromoteToConfidentialVm_new ::
    "csr_file \<Rightarrow> hart_architectural_state \<Rightarrow> promote_to_confidential_vm" where
  "PromoteToConfidentialVm_new f from_state = \<lparr>promoted_hart_state = from_existing f 0 from_state\<rparr>"

definition PromoteToConfidentialVm_into ::
    "promote_to_confidential_vm \<Rightarrow> confidential_vm_physical_address \<times> hart_architectural_state" where
  "PromoteToConfidentialVm_into p = (gpr (promoted_hart_state p) gpr_a0, promoted_hart_state p)"

record resume_request =
  resume_confidential_vm_id :: confidential_vm_id
  resume_confidential_hart_id :: usize

record terminate_request =
  terminate_confidential_vm_id :: confidential_vm_id

record share_page_result =
  response_code :: usize
  hypervisor_page_address :: usize

definition SharePageResult_is_error :: "share_page_result \<Rightarrow> bool" where
  "SharePageResult_is_error r \<longleftrightarrow> response_code r > 0"

record unshare_page_request =
  unshare_address :: confidential_vm_physical_address

definition UnsharePageRequest_new :: "usize \<Rightarrow> unshare_page_request res" where
  "UnsharePageRequest_new address = Ok \<lparr>unshare_address = address\<rparr>"

record sbi_trap_regs =
  trap_gprs :: general_purpose_registers
  trap_mepc :: usize
  trap_mstatus :: usize
  trap_mstatusH :: usize

record opensbi_request =
  opensbi_regs :: sbi_trap_regs

definition OpensbiRequest_new :: "hart_architectural_state \<Rightarrow> opensbi_request" where
  "OpensbiRequest_new h = \<lparr>opensbi_regs =
     \<lparr>trap_gprs = (\<lambda>r. if r = gpr_zero then 0 else gpr h r),
      trap_mepc = dump h CSR_MEPC, trap_mstatus = dump h CSR_MSTATUS, trap_mstatusH = 0\<rparr>\<rparr>"

record opensbi_result =
  result_trap_regs :: sbi_trap_regs

section \<open>Requests between harts\<close>

record sbi_ipi =
  ipi_hart_mask :: usize
  ipi_hart_mask_base :: usize

record sbi_remote_fence_i =
  fence_i_hart_mask :: usize
  fence_i_hart_mask_base :: usize

record sbi_remote_sfence_vma =
  sfence_hart_mask :: usize
  sfence_hart_mask_base :: usize
  sfence_start_address :: usize
  sfence_size :: usize

record sbi_remote_sfence_vma_asid =
  sfence_asid_hart_mask :: usize
  sfence_asid_hart_mask_base :: usize
  sfence_asid_start_address :: usize
  sfence_asid_size :: usize
  sfence_asid :: usize

record sbi_srst_system_reset =
  initiating_confidential_hart_id :: usize

record sbi_hsm_hart_start =
  start_confidential_hart_id :: usize
  hart_start_address :: usize
  hart_start_opaque :: usize

record sbi_hsm_hart_suspend =
  suspend_type :: usize
  resume_address :: usize
  suspend_opaque :: usize

record sbi_hsm_hart_status =
  status_confidential_hart_id :: usize

datatype expose_to_hypervisor =
    ExposeSbiRequest sbi_request
  | ExposeSbiResult sbi_result
  | ExposeOpensbiResult opensbi_result
  | ExposeSbiVmRequest sbi_vm_request
  | ExposeMmioLoadRequest mmio_load_request
  | ExposeMmioStoreRequest mmio_store_request
  | ExposeInterruptRequest interrupt_request
  | ExposeEnabledInterrupts enabled_interrupts

datatype expose_to_confidential_vm =
    ApplySbiResult sbi_result
  | ApplyGuestLoadPageFaultResult guest_load_page_fault_result
  | ApplyVirtualInstructionResult virtual_instruction_result
  | ApplyGuestStorePageFaultResult guest_store_page_fault_result
  | ApplyResume
  | ApplySbiIpi sbi_ipi
  | ApplySbiRemoteFenceI sbi_remote_fence_i
  | ApplySbiRemoteSfenceVma sbi_remote_sfence_vma
  | ApplySbiRemoteSfenceVmaAsid sbi_remote_sfence_vma_asid
  | ApplySbiHsmHartStart
  | ApplySbiHsmHartStartPending
  | ApplySbiSrstSystemReset

datatype pending_request =
    PendingSharePage share_page_request
  | PendingGuestLoadPageFault guest_load_page_fault_request
  | PendingGuestStorePageFault guest_store_page_fault_request
  | PendingSbiHsmHartStart
  | PendingSbiHsmHartStartPending
  | PendingSbiRequest

datatype inter_hart_request =
    InterHartSbiIpi sbi_ipi
  | InterHartSbiRemoteFenceI sbi_remote_fence_i
  | InterHartSbiRemoteSfenceVma sbi_remote_sfence_vma
  | InterHartSbiRemoteSfenceVmaAsid sbi_remote_sfence_vma_asid
  | InterHartSbiSrstSystemReset sbi_srst_system_reset

primrec into_expose_to_confidential_vm :: "inter_hart_request \<Rightarrow> expose_to_confidential_vm" where
  "into_expose_to_confidential_vm (InterHartSbiIpi v) = ApplySbiIpi v"
| "into_expose_to_confidential_vm (InterHartSbiRemoteFenceI v) = ApplySbiRemoteFenceI v"
| "into_expose_to_confidential_vm (InterHartSbiRemoteSfenceVma v) = ApplySbiRemoteSfenceVma v"
| "into_expose_to_confidential_vm (InterHartSbiRemoteSfenceVmaAsid v) = ApplySbiRemoteSfenceVmaAsid v"
| "into_expose_to_confidential_vm (InterHartSbiSrstSystemReset v) = ApplySbiSrstSystemReset"

definition checked_sub :: "usize \<Rightarrow> usize \<Rightarrow> usize option" where
  "checked_sub a b = (if b \<le> a then Some (a - b) else None)"

definition hart_selected :: "usize \<Rightarrow> usize \<Rightarrow> usize \<Rightarrow> bool" where
  "hart_selected hart hart_mask hart_mask_base =
     (if hart_mask_base = - 1 then True
      else case checked_sub hart hart_mask_base of
             None \<Rightarrow> False
           | Some i \<Rightarrow> i < 64 \<and> hart_mask AND push_bit (unat i) 1 \<noteq> 0)"

primrec is_hart_selected :: "inter_hart_request \<Rightarrow> usize \<Rightarrow> bool" where
  "is_hart_selected (InterHartSbiIpi v) hart =
     hart_selected hart (ipi_hart_mask v) (ipi_hart_mask_base v)"
| "is_hart_selected (InterHartSbiRemoteFenceI v) hart =
     hart_selected hart (fence_i_hart_mask v) (fence_i_hart_mask_base v)"
| "is_hart_selected (InterHartSbiRemoteSfenceVma v) hart =
     hart_selected hart (sfence_hart_mask v) (sfence_hart_mask_base v)"
| "is_hart_selected (InterHartSbiRemoteSfenceVmaAsid v) hart =
     hart_selected hart (sfence_asid_hart_mask v) (sfence_asid_hart_mask_base v)"
| "is_hart_selected (InterHartSbiSrstSystemReset v) hart \<longleftrightarrow>
     initiating_confidential_hart_id v \<noteq> hart"

section \<open>Errors as transformations\<close>

definition into_non_confidential_transformation :: "error \<Rightarrow> expose_to_hypervisor" where
  "into_non_confidential_transformation e = ExposeSbiResult (SbiResult_failure 0x1000)"

definition into_confidential_transformation :: "error \<Rightarrow> expose_to_confidential_vm" where
  "into_confidential_transformation e = ApplySbiResult (SbiResult_failure 0x1000)"

section \<open>Selection of harts\<close>

text \<open>The harts that an inter-hart request with mask \<open>hart_mask\<close> and base \<open>base\<close> selects are the ones
  the SBI specification names: all harts when the base is the largest word, and otherwise the
  harts \<open>base + i\<close> for the bits \<open>i\<close> of the mask that are set, computed without wrap-around.\<close>

lemma hart_selection_spec:
  "is_hart_selected (InterHartSbiIpi \<lparr>ipi_hart_mask = hart_mask, ipi_hart_mask_base = base\<rparr>) hart \<longleftrightarrow>
     base = - 1 \<or> (\<exists>i < 64. bit hart_mask i \<and> unat hart = unat base + i)"
proof (cases "base = - 1")
  case False
  have "hart_selected hart hart_mask base \<longleftrightarrow> base \<le> hart \<and> hart - base < 64 \<and> bit hart_mask (unat (hart - base))"
    using False push_bit_one_positive [of "unat (hart - base)"]
    by (auto simp: hart_selected_def checked_sub_def and_push_bit_one word_less_nat_alt
        less_eq_word_def simp del: push_bit_of_1)
  also have "\<dots> \<longleftrightarrow> (\<exists>i < 64. bit hart_mask i \<and> unat hart = unat base + i)"
  proof
    assume "base \<le> hart \<and> hart - base < 64 \<and> bit hart_mask (unat (hart - base))"
    then show "\<exists>i < 64. bit hart_mask i \<and> unat hart = unat base + i"
      by (intro exI [of _ "unat (hart - base)"])
         (auto simp: unat_sub word_le_nat_alt word_less_nat_alt)
  next
    assume "\<exists>i < 64. bit hart_mask i \<and> unat hart = unat base + i"
    then obtain i where i: "i < 64" "bit hart_mask i" "unat hart = unat base + i" by blast
    then have "base \<le> hart" by (simp add: word_le_nat_alt)
    moreover from this i have "unat (hart - base) = i" by (simp add: unat_sub)
    ultimately show "base \<le> hart \<and> hart - base < 64 \<and> bit hart_mask (unat (hart - base))"
      using i by (simp add: word_less_nat_alt)
  qed
  finally show ?thesis using False by simp
qed (simp add: hart_selected_def)

end
