(* ===== verification/Memory_Protector.thy ===== *)
theory Memory_Protector
  imports Transformations
begin

text \<open>
  \<^verbatim>\<open>core/memory_protector/\<close> (the two memory protectors, \<^verbatim>\<open>pmp\<close>, \<^verbatim>\<open>iopmp\<close>, \<^verbatim>\<open>tlb\<close>, \<^verbatim>\<open>mmu/mod.rs\<close>) and
  \<^verbatim>\<open>struct Hgatp\<close>: how the monitor configures the memory isolation of a physical hart.

  \<^item> \<open>physical_hart\<close> extends the memory and the allocator by the CSRs of the executing hart and by
    the log \<open>fences\<close> of the fence instructions it executed.
  \<^item> \<open>pmp_decision\<close> is the specification side: what the hardware decides for a physical address from
    the first two PMP entries (RISC-V privileged specification, section 3.7), the ones the monitor
    uses. \<open>None\<close> means that neither entry matches and a later entry decides.
\<close>

record physical_hart = alloc_state +
  csrs :: csr_file
  fences :: "fence list"

definition write_csr :: "csr \<Rightarrow> usize \<Rightarrow> 'z physical_hart_scheme \<Rightarrow> 'z physical_hart_scheme" where
  "write_csr r v s = s\<lparr>csrs := set_csr (csrs s) r v\<rparr>"

definition execute_fence :: "fence \<Rightarrow> 'z physical_hart_scheme \<Rightarrow> 'z physical_hart_scheme" where
  "execute_fence f s = s\<lparr>fences := fences s @ [f]\<rparr>"

section \<open>The register hgatp\<close>

primrec HgatpMode_code :: "hgatp_mode \<Rightarrow> usize" where
  "HgatpMode_code Sv57x4_mode = 10"

definition HgatpMode_from_code :: "usize \<Rightarrow> hgatp_mode option" where
  "HgatpMode_from_code code = (if code = 10 then Some Sv57x4_mode else None)"

record hgatp =
  hgatp_bits :: usize

definition HGATP64_MODE_SHIFT :: nat where "HGATP64_MODE_SHIFT = 60"
definition HGATP64_VMID_SHIFT :: nat where "HGATP64_VMID_SHIFT = 44"
definition PAGE_SHIFT :: nat where "PAGE_SHIFT = 12"
definition HGATP_PPN_MASK :: usize where "HGATP_PPN_MASK = 0x0000FFFFFFFFFFF"

definition Hgatp_from :: "usize \<Rightarrow> hgatp" where
  "Hgatp_from bits = \<lparr>hgatp_bits = bits\<rparr>"

definition Hgatp_address :: "hgatp \<Rightarrow> usize" where
  "Hgatp_address h = push_bit PAGE_SHIFT (hgatp_bits h AND HGATP_PPN_MASK)"

definition Hgatp_mode :: "hgatp \<Rightarrow> hgatp_mode option" where
  "Hgatp_mode h = HgatpMode_from_code (drop_bit HGATP64_MODE_SHIFT (hgatp_bits h) AND 0b1111)"

definition Hgatp_new :: "usize \<Rightarrow> hgatp_mode \<Rightarrow> usize \<Rightarrow> hgatp" where
  "Hgatp_new address mode vmid =
     (let ppn = drop_bit PAGE_SHIFT address AND HGATP_PPN_MASK
      in \<lparr>hgatp_bits = push_bit HGATP64_VMID_SHIFT vmid
            OR push_bit HGATP64_MODE_SHIFT (HgatpMode_code mode) OR ppn\<rparr>)"

lemmas hgatp_defs = Hgatp_from_def Hgatp_address_def Hgatp_mode_def Hgatp_new_def Let_def
  HgatpMode_from_code_def HGATP64_MODE_SHIFT_def HGATP64_VMID_SHIFT_def PAGE_SHIFT_def
  HGATP_PPN_MASK_def

section \<open>Physical memory protection\<close>

definition tlb_shutdown :: "'z physical_hart_scheme \<Rightarrow> 'z physical_hart_scheme" where
  "tlb_shutdown s = execute_fence HFENCE_VVMA (execute_fence HFENCE_GVMA s)"

definition clear_caches :: "'z physical_hart_scheme \<Rightarrow> 'z physical_hart_scheme" where
  "clear_caches s = execute_fence HFENCE_GVMA (execute_fence SFENCE_VMA s)"

definition open_access_to_confidential_memory :: "'z physical_hart_scheme \<Rightarrow> 'z physical_hart_scheme" where
  "open_access_to_confidential_memory s =
     (let pmp_mask = (PMP_OFF_MASK OR PMP_PERMISSION_RWX_MASK)
            OR push_bit (1 * PMP_CONFIG_SHIFT) (PMP_TOR_MASK OR PMP_PERMISSION_RWX_MASK);
          (_, f) = read_and_set_bits (csrs s) CSR_PMPCFG0 pmp_mask
      in clear_caches (s\<lparr>csrs := f\<rparr>))"

definition close_access_to_confidential_memory :: "'z physical_hart_scheme \<Rightarrow> 'z physical_hart_scheme" where
  "close_access_to_confidential_memory s =
     (let pmp_mask = PMP_PERMISSION_RWX_MASK
            OR push_bit (1 * PMP_CONFIG_SHIFT) PMP_PERMISSION_RWX_MASK;
          (_, f) = read_and_clear_bits (csrs s) CSR_PMPCFG0 pmp_mask
      in clear_caches (s\<lparr>csrs := f\<rparr>))"

definition split_memory_into_confidential_and_non_confidential ::
    "usize \<Rightarrow> usize \<Rightarrow> ('z physical_hart_scheme, error, unit) st" where
  "split_memory_into_confidential_and_non_confidential confidential_start confidential_end s =
     (let number_of_pmps = 16 :: usize; minimum = 4 in
      if number_of_pmps \<ge> minimum then
        let s = write_csr CSR_PMPADDR0 (drop_bit PMP_ADDRESS_SHIFT confidential_start) s;
            s = write_csr CSR_PMPADDR1 (drop_bit PMP_ADDRESS_SHIFT confidential_end) s
        in (Ok (), close_access_to_confidential_memory s)
      else (Err (NotSupportedHardware NotEnoughPmps), s))"

definition protect_confidential_memory_from_io_devices ::
    "usize \<Rightarrow> usize \<Rightarrow> ('z physical_hart_scheme, error, unit) st" where
  "protect_confidential_memory_from_io_devices confidential_start confidential_end = ret ()"

section \<open>Address translation\<close>

definition enable_address_translation :: "usize \<Rightarrow> 'z physical_hart_scheme \<Rightarrow> 'z physical_hart_scheme" where
  "enable_address_translation v s = write_csr CSR_HGATP v s"

definition copy_mmu_configuration_from_non_confidential_memory ::
    "memory_layout \<Rightarrow> hgatp \<Rightarrow> ('z alloc_state_scheme, error, root_page_table) st" where
  "copy_mmu_configuration_from_non_confidential_memory l h =
     sbind (lift (ok_or (Hgatp_mode h) UnsupportedPagingMode)) (\<lambda>paging_mode.
     sbind (lift (ok_or (PagingSystem_from paging_mode) UnsupportedPagingMode)) (\<lambda>paging_system.
     sbind (lift (NonConfidentialMemoryAddress_new l (Hgatp_address h))) (\<lambda>root_page_address.
     sbind (RootPageTable_copy_from_non_confidential_memory l root_page_address paging_system)
       (\<lambda>root_page_table. ret root_page_table))))"

section \<open>The memory protector of the hypervisor\<close>

text \<open>\<^verbatim>\<open>HypervisorMemoryProtector\<close> has no fields.\<close>

definition HypervisorMemoryProtector_setup ::
    "memory_layout \<Rightarrow> ('z physical_hart_scheme, error, unit) st" where
  "HypervisorMemoryProtector_setup l =
     (let (confidential_start, confidential_end) = confidential_memory_boundary l in
      sbind (split_memory_into_confidential_and_non_confidential confidential_start confidential_end)
        (\<lambda>_.
      sbind (protect_confidential_memory_from_io_devices confidential_start confidential_end) (\<lambda>_.
      (\<lambda>s. (Ok (), tlb_shutdown (close_access_to_confidential_memory s))))))"

definition HypervisorMemoryProtector_enable ::
    "usize \<Rightarrow> 'z physical_hart_scheme \<Rightarrow> 'z physical_hart_scheme" where
  "HypervisorMemoryProtector_enable v s =
     tlb_shutdown (enable_address_translation v (close_access_to_confidential_memory s))"

section \<open>The memory protector of a confidential VM\<close>

record confidential_vm_memory_protector =
  protector_root_page_table :: root_page_table
  protector_hgatp :: usize

definition from_vm_state ::
    "memory_layout \<Rightarrow> hart_architectural_state
     \<Rightarrow> ('z alloc_state_scheme, error, confidential_vm_memory_protector) st" where
  "from_vm_state l h =
     sbind (copy_mmu_configuration_from_non_confidential_memory l (Hgatp_from (dump h CSR_HGATP)))
       (\<lambda>root_page_table.
     ret \<lparr>protector_root_page_table = root_page_table, protector_hgatp = 0\<rparr>)"

definition protector_set_confidential_vm_id ::
    "confidential_vm_id \<Rightarrow> confidential_vm_memory_protector \<Rightarrow> confidential_vm_memory_protector res" where
  "protector_set_confidential_vm_id i mp =
     and_then (RootPageTable_address (protector_root_page_table mp)) (\<lambda>address.
     Ok (mp\<lparr>protector_hgatp := hgatp_bits (Hgatp_new address
            (hgatp_mode_of (root_paging_system (protector_root_page_table mp))) i)\<rparr>))"

definition protector_map_shared_page ::
    "memory_layout \<Rightarrow> shared_page \<Rightarrow> confidential_vm_memory_protector
     \<Rightarrow> ('z physical_hart_scheme, error, confidential_vm_memory_protector) st" where
  "protector_map_shared_page l sp mp =
     sbind (RootPageTable_map_shared_page l (protector_root_page_table mp) sp) (\<lambda>root.
     (\<lambda>s. (Ok (mp\<lparr>protector_root_page_table := root\<rparr>), tlb_shutdown s)))"

definition protector_unmap_shared_page ::
    "confidential_vm_physical_address \<Rightarrow> confidential_vm_memory_protector
     \<Rightarrow> ('z physical_hart_scheme, error, confidential_vm_memory_protector) st" where
  "protector_unmap_shared_page address mp =
     sbind (RootPageTable_unmap_shared_page (protector_root_page_table mp) address) (\<lambda>root.
     (\<lambda>s. (Ok (mp\<lparr>protector_root_page_table := root\<rparr>), tlb_shutdown s)))"

definition protector_translate ::
    "confidential_vm_memory_protector \<Rightarrow> confidential_vm_physical_address
     \<Rightarrow> confidential_memory_address res" where
  "protector_translate mp address = RootPageTable_translate (protector_root_page_table mp) address"

definition protector_enable ::
    "confidential_vm_memory_protector \<Rightarrow> 'z physical_hart_scheme \<Rightarrow> 'z physical_hart_scheme" where
  "protector_enable mp s =
     tlb_shutdown (enable_address_translation (protector_hgatp mp)
       (open_access_to_confidential_memory s))"

section \<open>What the hardware enforces\<close>

datatype pmp_mode = PmpOff | PmpTor | PmpNa4 | PmpNapot

definition pmp_config :: "csr_file \<Rightarrow> nat \<Rightarrow> usize" where
  "pmp_config f i = drop_bit (8 * i) (f CSR_PMPCFG0)"

definition pmp_mode :: "csr_file \<Rightarrow> nat \<Rightarrow> pmp_mode" where
  "pmp_mode f i =
     (if bit (pmp_config f i) 4 then (if bit (pmp_config f i) 3 then PmpNapot else PmpNa4)
      else if bit (pmp_config f i) 3 then PmpTor else PmpOff)"

definition pmp_matches :: "pmp_mode \<Rightarrow> usize \<Rightarrow> usize \<Rightarrow> usize \<Rightarrow> bool" where
  "pmp_matches mode previous own address =
     (let a = drop_bit 2 address in
      case mode of
        PmpOff \<Rightarrow> False
      | PmpTor \<Rightarrow> previous \<le> a \<and> a < own
      | PmpNa4 \<Rightarrow> a = own
      | PmpNapot \<Rightarrow> a OR (own XOR (own + 1)) = own OR (own XOR (own + 1)))"

text \<open>The permissions (read, write, execute) of the first of the two entries that matches.\<close>

definition pmp_decision :: "csr_file \<Rightarrow> usize \<Rightarrow> (bool \<times> bool \<times> bool) option" where
  "pmp_decision f address =
     (let permissions = (\<lambda>i. (bit (pmp_config f i) 0, bit (pmp_config f i) 1, bit (pmp_config f i) 2))
      in if pmp_matches (pmp_mode f 0) 0 (f CSR_PMPADDR0) address then Some (permissions 0)
         else if pmp_matches (pmp_mode f 1) (f CSR_PMPADDR0) (f CSR_PMPADDR1) address
         then Some (permissions 1)
         else None)"

text \<open>The two entries as the monitor may find them: left alone since reset by the firmware (which starts
  with the third entry, as \<^verbatim>\<open>pmp/mod.rs\<close> relies on and \<^verbatim>\<open>platform/opensbi_v1.4.patch\<close> arranges), or
  configured by the monitor itself. Entry 1 is in use once its mode is top-of-range.\<close>

definition pmp_in_use :: "csr_file \<Rightarrow> bool" where
  "pmp_in_use f \<longleftrightarrow> pmp_mode f 1 = PmpTor"

definition pmp_available :: "csr_file \<Rightarrow> bool" where
  "pmp_available f \<longleftrightarrow> pmp_mode f 0 = PmpOff \<and> (pmp_mode f 1 = PmpOff \<or> pmp_in_use f)"

definition pmp_region :: "csr_file \<Rightarrow> usize \<Rightarrow> usize \<Rightarrow> bool" where
  "pmp_region f low high \<longleftrightarrow>
     f CSR_PMPADDR0 = drop_bit 2 low \<and> f CSR_PMPADDR1 = drop_bit 2 high"

definition pmp_open :: "csr_file \<Rightarrow> bool" where
  "pmp_open f \<longleftrightarrow> bit (f CSR_PMPCFG0) 8 \<and> bit (f CSR_PMPCFG0) 9 \<and> bit (f CSR_PMPCFG0) 10"

definition pmp_closed :: "csr_file \<Rightarrow> bool" where
  "pmp_closed f \<longleftrightarrow> \<not> bit (f CSR_PMPCFG0) 8 \<and> \<not> bit (f CSR_PMPCFG0) 9 \<and> \<not> bit (f CSR_PMPCFG0) 10"

subsection \<open>The effect of the operations on the CSRs\<close>

lemma csrs_simps [simp]:
  "csrs (write_csr r v s) = (csrs s)(r := v)"
  "csrs (execute_fence f s) = csrs s"
  "csrs (tlb_shutdown s) = csrs s" "csrs (clear_caches s) = csrs s"
  "csrs (enable_address_translation v s) = (csrs s)(CSR_HGATP := v)"
  by (simp_all add: write_csr_def set_csr_def execute_fence_def tlb_shutdown_def clear_caches_def
      enable_address_translation_def)

lemma open_mask: "(PMP_OFF_MASK OR PMP_PERMISSION_RWX_MASK)
    OR push_bit (1 * PMP_CONFIG_SHIFT) (PMP_TOR_MASK OR PMP_PERMISSION_RWX_MASK)
    = mask 3 OR push_bit 8 (mask 4)"
  by (simp add: PMP_OFF_MASK_def PMP_PERMISSION_RWX_MASK_def PMP_TOR_MASK_def PMP_CONFIG_SHIFT_def
      mask_eq_exp_minus_1)

lemma close_mask: "PMP_PERMISSION_RWX_MASK OR push_bit (1 * PMP_CONFIG_SHIFT) PMP_PERMISSION_RWX_MASK
    = mask 3 OR push_bit 8 (mask 3)"
  by (simp add: PMP_PERMISSION_RWX_MASK_def PMP_CONFIG_SHIFT_def mask_eq_exp_minus_1)

lemma csrs_open: "csrs (open_access_to_confidential_memory s) =
    (csrs s)(CSR_PMPCFG0 := csrs s CSR_PMPCFG0 OR (mask 3 OR push_bit 8 (mask 4)))"
  unfolding open_access_to_confidential_memory_def open_mask
  by (simp add: read_and_set_bits_def)

lemma csrs_close: "csrs (close_access_to_confidential_memory s) =
    (csrs s)(CSR_PMPCFG0 := csrs s CSR_PMPCFG0 AND NOT (mask 3 OR push_bit 8 (mask 3)))"
  unfolding close_access_to_confidential_memory_def close_mask
  by (simp add: read_and_clear_bits_def)

lemma bit_open: "n < 64 \<Longrightarrow> bit (csrs (open_access_to_confidential_memory s) CSR_PMPCFG0) n \<longleftrightarrow>
    bit (csrs s CSR_PMPCFG0) n \<or> n < 3 \<or> 8 \<le> n \<and> n < 12"
  by (auto simp: csrs_open bit_simps)

lemma bit_close: "n < 64 \<Longrightarrow> bit (csrs (close_access_to_confidential_memory s) CSR_PMPCFG0) n \<longleftrightarrow>
    bit (csrs s CSR_PMPCFG0) n \<and> \<not> n < 3 \<and> \<not> (8 \<le> n \<and> n < 11)"
  by (auto simp: csrs_close bit_simps)

lemma csrs_open_close_other [simp]:
  "r \<noteq> CSR_PMPCFG0 \<Longrightarrow> csrs (open_access_to_confidential_memory s) r = csrs s r"
  "r \<noteq> CSR_PMPCFG0 \<Longrightarrow> csrs (close_access_to_confidential_memory s) r = csrs s r"
  by (simp_all add: csrs_open csrs_close)

lemma bit_pmp_config: "bit (pmp_config f i) n \<longleftrightarrow> bit (f CSR_PMPCFG0) (8 * i + n)"
  by (simp add: pmp_config_def bit_drop_bit_eq)

lemma pmp_mode_open_close:
  "pmp_mode (csrs (close_access_to_confidential_memory s)) 0 = pmp_mode (csrs s) 0"
  "pmp_mode (csrs (close_access_to_confidential_memory s)) 1 = pmp_mode (csrs s) 1"
  "pmp_mode (csrs (open_access_to_confidential_memory s)) 0 = pmp_mode (csrs s) 0"
  "pmp_mode (csrs s) 1 \<in> {PmpOff, PmpTor} \<Longrightarrow>
     pmp_mode (csrs (open_access_to_confidential_memory s)) 1 = PmpTor"
  by (auto simp: pmp_mode_def bit_pmp_config bit_open bit_close split: if_splits)

lemma pmp_cong:
  assumes "f CSR_PMPCFG0 = g CSR_PMPCFG0"
  shows "pmp_available f = pmp_available g" and "pmp_in_use f = pmp_in_use g"
  using assms by (simp_all add: pmp_available_def pmp_in_use_def pmp_mode_def pmp_config_def)

lemma pmp_use_open_close:
  "pmp_available (csrs (close_access_to_confidential_memory s)) = pmp_available (csrs s)"
  "pmp_in_use (csrs (close_access_to_confidential_memory s)) = pmp_in_use (csrs s)"
  "pmp_available (csrs s) \<Longrightarrow> pmp_available (csrs (open_access_to_confidential_memory s))"
  "pmp_available (csrs s) \<Longrightarrow> pmp_in_use (csrs (open_access_to_confidential_memory s))"
  "pmp_in_use (csrs s) \<Longrightarrow> pmp_in_use (csrs (open_access_to_confidential_memory s))"
  by (auto simp: pmp_available_def pmp_in_use_def pmp_mode_open_close simp del: One_nat_def)

lemma pmp_open_close:
  "pmp_open (csrs (open_access_to_confidential_memory s))"
  "pmp_closed (csrs (close_access_to_confidential_memory s))"
  by (simp_all add: pmp_open_def pmp_closed_def bit_open bit_close)

lemma div_4_le:
  assumes "(m :: nat) mod 4 = 0"
  shows "m div 4 \<le> n div 4 \<longleftrightarrow> m \<le> n"
proof -
  have "m div 4 \<le> n div 4 \<longleftrightarrow> m div 4 * 4 \<le> n" by (rule less_eq_div_iff_mult_less_eq) simp
  also have "m div 4 * 4 = m" using assms div_mult_mod_eq [of m 4] by simp
  finally show ?thesis .
qed

lemma drop_bit_2_le:
  assumes "unat low mod 4 = 0"
  shows "drop_bit 2 (low :: usize) \<le> drop_bit 2 a \<longleftrightarrow> low \<le> a"
  by (simp add: word_le_nat_alt drop_bit_eq_div unat_div_distrib div_4_le [OF assms])

lemma drop_bit_2_less:
  "unat high mod 4 = 0 \<Longrightarrow> drop_bit 2 a < drop_bit 2 (high :: usize) \<longleftrightarrow> a < high"
  using drop_bit_2_le [of high a] by (simp add: linorder_not_le [symmetric])

lemma pmp_decision_available:
  assumes "pmp_available f" and "pmp_region f low high" and "unat low mod 4 = 0" and "unat high mod 4 = 0"
  shows "pmp_decision f a = (if pmp_in_use f \<and> low \<le> a \<and> a < high
    then Some (bit (f CSR_PMPCFG0) 8, bit (f CSR_PMPCFG0) 9, bit (f CSR_PMPCFG0) 10) else None)"
  using assms
  by (auto simp: pmp_decision_def pmp_available_def pmp_in_use_def pmp_region_def pmp_matches_def bit_pmp_config
      drop_bit_2_le drop_bit_2_less)

text \<open>The setup of the memory protector and its effect on the two entries.\<close>

lemma HypervisorMemoryProtector_setup_csrs:
  obtains t where "HypervisorMemoryProtector_setup l s = (Ok (), t)"
    and "pmp_region (csrs t) (confidential_memory_start l) (confidential_memory_end l)" "pmp_closed (csrs t)"
    and "pmp_available (csrs t) = pmp_available (csrs s)" "pmp_in_use (csrs t) = pmp_in_use (csrs s)"
    and "\<And>r. r \<notin> {CSR_PMPCFG0, CSR_PMPADDR0, CSR_PMPADDR1} \<Longrightarrow> csrs t r = csrs s r"
proof -
  define u where "u = write_csr CSR_PMPADDR1 (drop_bit 2 (confidential_memory_end l))
    (write_csr CSR_PMPADDR0 (drop_bit 2 (confidential_memory_start l)) s)"
  let ?t = "tlb_shutdown (close_access_to_confidential_memory (close_access_to_confidential_memory u))"
  show thesis
  proof (rule that [of ?t])
    show "HypervisorMemoryProtector_setup l s = (Ok (), ?t)"
      by (simp add: HypervisorMemoryProtector_setup_def confidential_memory_boundary_def sbind_def u_def
          split_memory_into_confidential_and_non_confidential_def Let_def PMP_ADDRESS_SHIFT_def
          protect_confidential_memory_from_io_devices_def ret_def)
    show "pmp_region (csrs ?t) (confidential_memory_start l) (confidential_memory_end l)"
      by (simp add: pmp_region_def u_def)
    show "pmp_available (csrs ?t) = pmp_available (csrs s)" "pmp_in_use (csrs ?t) = pmp_in_use (csrs s)"
      using pmp_cong [of "csrs u" "csrs s"] by (simp_all add: pmp_use_open_close u_def)
  qed (simp_all add: pmp_open_close u_def)
qed

section \<open>Properties\<close>

text \<open>C19: On a hart whose first two PMP entries the firmware left alone, the setup succeeds. Once
  the access has been opened for a confidential VM, entry 1 grants every read, write and fetch in the confidential memory;
  when it is closed again for the hypervisor, entry 1 denies them all. Before the first opening the entry denies accesses to
  the confidential memory only if it was already switched on before the setup (from reset it is off and no entry matches).
  Outside the confidential memory none of the two entries ever matches, so a later entry or the default decides there.\<close>

theorem pmp_isolates_confidential_memory:
  assumes "pmp_available (csrs s)"
    and "unat (confidential_memory_start l) mod 4 = 0" and "unat (confidential_memory_end l) mod 4 = 0"
  shows "\<exists>t u v. HypervisorMemoryProtector_setup l s = (Ok (), t)
    \<and> u = protector_enable mp t \<and> v = HypervisorMemoryProtector_enable hgatp u
    \<and> pmp_decision (csrs t) a =
      (if pmp_in_use (csrs s) \<and> confidential_memory_start l \<le> a \<and> a < confidential_memory_end l
       then Some (False, False, False) else None)
    \<and> pmp_decision (csrs u) a =
      (if confidential_memory_start l \<le> a \<and> a < confidential_memory_end l
       then Some (True, True, True) else None)
    \<and> pmp_decision (csrs v) a =
      (if confidential_memory_start l \<le> a \<and> a < confidential_memory_end l
       then Some (False, False, False) else None)"
proof -
  obtain t where t: "HypervisorMemoryProtector_setup l s = (Ok (), t)"
    and region: "pmp_region (csrs t) (confidential_memory_start l) (confidential_memory_end l)"
    and closed: "pmp_closed (csrs t)" and available: "pmp_available (csrs t)"
    and use: "pmp_in_use (csrs t) = pmp_in_use (csrs s)"
    using HypervisorMemoryProtector_setup_csrs [of l s] assms(1) by metis
  let ?o = "open_access_to_confidential_memory t"
  let ?u = "protector_enable mp t" let ?v = "HypervisorMemoryProtector_enable hgatp ?u"
  have u: "pmp_available (csrs ?u)" "pmp_in_use (csrs ?u)"
    using pmp_cong [of "csrs ?u" "csrs ?o"] pmp_use_open_close(3,4) [OF available]
    by (simp_all add: protector_enable_def)
  then have v: "pmp_available (csrs ?v)" "pmp_in_use (csrs ?v)"
    using pmp_cong [of "csrs ?v" "csrs (close_access_to_confidential_memory ?u)"] pmp_use_open_close(1,2) [of ?u]
    by (simp_all add: HypervisorMemoryProtector_enable_def)
  have "pmp_region (csrs ?u) (confidential_memory_start l) (confidential_memory_end l)"
    "pmp_region (csrs ?v) (confidential_memory_start l) (confidential_memory_end l)"
    using region by (simp_all add: pmp_region_def protector_enable_def HypervisorMemoryProtector_enable_def)
  then show ?thesis
    using t use closed pmp_decision_available [OF available region assms(2,3)]
      pmp_decision_available [OF u(1) _ assms(2,3)] pmp_decision_available [OF v(1) _ assms(2,3)] u(2) v(2)
    by (simp add: pmp_closed_def protector_enable_def HypervisorMemoryProtector_enable_def bit_open bit_close)
qed

definition example_hart :: physical_hart where
  "example_hart = \<lparr>confidential_memory = (\<lambda>_. 0), non_confidential_memory = (\<lambda>_ _. 0), now = 0,
     global_allocator = Some example_allocator,
     csrs = (\<lambda>_. 0)(CSR_PMPCFG0 := 0x800, CSR_PMPADDR0 := 0xC00, CSR_PMPADDR1 := 0x200000),
     fences = []\<rparr>"

lemma pmp_available_reset: "f CSR_PMPCFG0 = 0 \<Longrightarrow> pmp_available f \<and> \<not> pmp_in_use f"
  by (simp add: pmp_available_def pmp_in_use_def pmp_mode_def bit_pmp_config)

definition example_protector :: confidential_vm_memory_protector where
  "example_protector = \<lparr>protector_root_page_table = \<lparr>root_paging_system = Sv57x4,
     root_table = PageTable Level5 \<lparr>memory_pages = [], number_of_entries = 0, memory_entry_size = 8\<rparr> []\<rparr>,
     protector_hgatp = 0xA000\<rparr>"

theorem pmp_isolates_confidential_memory_witness:
  "let s = example_hart\<lparr>csrs := \<lambda>_. 0\<rparr>; t = snd (HypervisorMemoryProtector_setup example_layout s);
       u = protector_enable example_protector t;
       v = HypervisorMemoryProtector_enable 9 u
   in pmp_available (csrs s) \<and> pmp_decision (csrs t) 0x4000 = None
    \<and> pmp_decision (csrs u) 0x4000 = Some (True, True, True) \<and> pmp_decision (csrs v) 0x4000 = Some (False, False, False)
    \<and> pmp_decision (csrs v) 0x1000 = None"
proof -
  let ?s = "example_hart\<lparr>csrs := \<lambda>_. 0\<rparr>"
  have h: "pmp_available (csrs ?s)" "unat (confidential_memory_start example_layout) mod 4 = 0"
    "unat (confidential_memory_end example_layout) mod 4 = 0"
    using pmp_available_reset by (simp_all add: example_layout_def)
  note at = pmp_isolates_confidential_memory [OF h, of example_protector 9]
  show ?thesis
    using h(1) at [of "0x4000"] at [of "0x1000"] pmp_available_reset [of "csrs ?s"]
    by (auto simp: Let_def example_layout_def)
qed

text \<open>C37: \<^verbatim>\<open>HypervisorMemoryProtector::setup\<close> never sets the address-matching mode of the PMP
  entries; only \<^verbatim>\<open>open_access_to_confidential_memory\<close> does. On a hart whose first two entries are in
  their reset state, none of them matches any address after the setup, so the
  confidential memory is not protected from the hypervisor.\<close>

theorem setup_leaves_reset_pmp_off:
  assumes "csrs s CSR_PMPCFG0 = 0"
  shows "\<exists>t. HypervisorMemoryProtector_setup l s = (Ok (), t) \<and> pmp_decision (csrs t) a = None"
proof -
  have off: "pmp_decision f a = None" if "f CSR_PMPCFG0 = 0" for f
    using that by (simp add: pmp_decision_def pmp_mode_def bit_pmp_config pmp_matches_def)
  show ?thesis using assms
    by (auto simp: HypervisorMemoryProtector_setup_def confidential_memory_boundary_def sbind_def
        split_memory_into_confidential_and_non_confidential_def Let_def csrs_close
        protect_confidential_memory_from_io_devices_def ret_def intro!: off)
qed

theorem setup_leaves_reset_pmp_off_witness:
  "\<exists>t. HypervisorMemoryProtector_setup example_layout (example_hart\<lparr>csrs := \<lambda>_. 0\<rparr>) = (Ok (), t)
     \<and> pmp_decision (csrs t) 0x4000 = None"
  by (rule setup_leaves_reset_pmp_off) simp

subsection \<open>The root page table register\<close>

lemma bit_hgatp: "bit (hgatp_bits (Hgatp_new address mode vmid)) n \<longleftrightarrow>
    n < 64 \<and> (44 \<le> n \<and> bit vmid (n - 44) \<or> 60 \<le> n \<and> bit (HgatpMode_code mode) (n - 60)
      \<or> n < 44 \<and> bit address (n + 12))"
proof -
  have ppn: "HGATP_PPN_MASK = mask 44" by (simp add: HGATP_PPN_MASK_def mask_eq_exp_minus_1)
  show ?thesis
    by (auto simp: Hgatp_new_def ppn HGATP64_MODE_SHIFT_def HGATP64_VMID_SHIFT_def PAGE_SHIFT_def
        Let_def bit_simps add.commute simp del: HgatpMode_code.simps)
qed

lemma bit_small_word:
  assumes "unat (w :: usize) < 2 ^ k" and "k \<le> n"
  shows "\<not> bit w n"
proof -
  have "unat w < 2 ^ n"
    by (rule less_le_trans [OF assms(1)]) (simp add: assms(2))
  then have "\<not> bit (unat w) n" by (simp add: bit_iff_odd)
  then show ?thesis by (simp add: bit_unsigned_iff)
qed

lemma Hgatp_address_new:
  assumes "unat address mod 4096 = 0" and "unat address < 2 ^ 56"
  shows "Hgatp_address (Hgatp_new address mode vmid) = address"
proof -
  have low: "\<not> bit address n" if "n < 12" for n
  proof -
    have "take_bit 12 address = 0"
      using assms(1) by (simp add: take_bit_eq_mod word_arith_nat_mod unat_eq_0)
    then show ?thesis using that by (metis bit_0_eq bit_take_bit_iff bot_apply bot_bool_def)
  qed
  have high: "\<not> bit address n" if "56 \<le> n" for n using bit_small_word [OF assms(2) that] .
  have ppn: "HGATP_PPN_MASK = mask 44" by (simp add: HGATP_PPN_MASK_def mask_eq_exp_minus_1)
  show ?thesis
    unfolding Hgatp_address_def PAGE_SHIFT_def ppn
  proof (rule bit_eqI)
    fix n :: nat
    consider "n < 12" | "12 \<le> n" "n < 56" | "56 \<le> n" by linarith
    then show "bit (push_bit 12 (hgatp_bits (Hgatp_new address mode vmid) AND mask 44)) n \<longleftrightarrow> bit address n"
      by cases (use low high in \<open>auto simp: bit_simps bit_hgatp\<close>)
  qed
qed

text \<open>The value of \<open>hgatp\<close> that the monitor installs for a confidential VM names the root page
  table, the paging mode and the id of the VM, provided the table is page-aligned
  and below \<open>2^56\<close> and the id fits the 16 bits of the field.\<close>

lemma hgatp_roundtrip:
  assumes "unat address mod 4096 = 0" and "unat address < 2 ^ 56" and "unat vmid < 2 ^ 16"
  shows "Hgatp_address (Hgatp_new address mode vmid) = address
    \<and> Hgatp_mode (Hgatp_new address mode vmid) = Some mode
    \<and> drop_bit HGATP64_VMID_SHIFT (hgatp_bits (Hgatp_new address mode vmid)) AND 0xFFFF = vmid"
proof -
  have v: "\<not> bit vmid n" if "16 \<le> n" for n using bit_small_word [OF assms(3) that] .
  note Hgatp_address_new [OF assms(1,2)]
  moreover have "drop_bit 60 (hgatp_bits (Hgatp_new address mode vmid)) AND mask 4
      = HgatpMode_code mode AND mask 4"
    by (rule bit_eqI) (use v in \<open>auto simp: bit_simps bit_hgatp simp del: HgatpMode_code.simps\<close>)
  moreover have "drop_bit 44 (hgatp_bits (Hgatp_new address mode vmid)) AND mask 16 = vmid"
  proof (rule bit_eqI)
    fix n :: nat
    show "bit (drop_bit 44 (hgatp_bits (Hgatp_new address mode vmid)) AND mask 16) n \<longleftrightarrow> bit vmid n"
      using v [of n] by (cases "n < 16") (auto simp: bit_simps bit_hgatp)
  qed
  ultimately show ?thesis
    by (cases mode) (simp add: Hgatp_mode_def HgatpMode_from_code_def HGATP64_MODE_SHIFT_def
        HGATP64_VMID_SHIFT_def mask_eq_exp_minus_1)
qed

lemma hgatp_roundtrip_example:
  "Hgatp_address (Hgatp_new 0x4000 Sv57x4_mode 7) = 0x4000
   \<and> Hgatp_mode (Hgatp_new 0x4000 Sv57x4_mode 7) = Some Sv57x4_mode"
  using hgatp_roundtrip [of "0x4000" 7 Sv57x4_mode] by simp

end
