(* ===== verification/Confidential_Hart.thy ===== *)
theory Confidential_Hart
  imports Memory_Protector
begin

text \<open>
  \<^verbatim>\<open>core/control_data/confidential_hart.rs\<close>: the dumped state of a virtual hart of a confidential VM,
  its lifecycle and the transformations applied to it.

  \<^item> \<open>confidential_hart\<close> is \<^verbatim>\<open>struct ConfidentialHart\<close>. \<open>hart_vm_id = None\<close> marks a dummy hart.
  \<^item> A method with \<^verbatim>\<open>&mut self\<close> returns the changed hart. \<open>mepc += n\<close> panics on overflow.
  \<^item> The address of the assembly entry point \<^verbatim>\<open>enter_from_confidential_hart_asm\<close>, the functions of
    the crate \<^verbatim>\<open>riscv_decode\<close> and the address of the dump area are arguments of the definitions that
    use them.
\<close>

record confidential_hart =
  confidential_hart_state :: hart_architectural_state
  hart_vm_id :: "confidential_vm_id option"
  lifecycle_state :: hart_lifecycle_state
  hart_pending_request :: "pending_request option"

section \<open>Construction\<close>

definition delegated_exceptions :: usize where
  "delegated_exceptions =
     push_bit (unat CAUSE_MISALIGNED_FETCH) 1 OR push_bit (unat CAUSE_FETCH_ACCESS) 1
     OR push_bit (unat CAUSE_ILLEGAL_INSTRUCTION) 1 OR push_bit (unat CAUSE_BREAKPOINT) 1
     OR push_bit (unat CAUSE_MISALIGNED_LOAD) 1 OR push_bit (unat CAUSE_LOAD_ACCESS) 1
     OR push_bit (unat CAUSE_MISALIGNED_STORE) 1 OR push_bit (unat CAUSE_STORE_ACCESS) 1
     OR push_bit (unat CAUSE_USER_ECALL) 1 OR push_bit (unat CAUSE_FETCH_PAGE_FAULT) 1
     OR push_bit (unat CAUSE_LOAD_PAGE_FAULT) 1 OR push_bit (unat CAUSE_STORE_PAGE_FAULT) 1"

definition delegated_interrupts :: usize where
  "delegated_interrupts = MIE_VSSIP_MASK OR MIE_VSTIP_MASK OR MIE_VSEIP_MASK"

definition ConfidentialHart_new ::
    "usize \<Rightarrow> hart_architectural_state \<Rightarrow> hart_lifecycle_state \<Rightarrow> confidential_hart" where
  "ConfidentialHart_new enter_from_confidential_hart_asm h lifecycle =
     (let h = set_dump CSR_SSTATUS (push_bit CSR_SSTATUS_SPIE 1 OR push_bit CSR_SSTATUS_UXL 1
                OR push_bit CSR_SSTATUS_FS 0b10) h;
          h = set_dump CSR_HSTATUS (push_bit CSR_HSTATUS_VTW 1 OR push_bit CSR_HSTATUS_SPVP 1
                OR push_bit CSR_HSTATUS_UXL 1) h;
          h = set_dump CSR_MIDELEG delegated_interrupts h;
          h = set_dump CSR_HIDELEG (dump h CSR_MIDELEG) h;
          h = set_dump CSR_HIE (dump h CSR_MIDELEG) h;
          h = set_dump CSR_MIE MIE_STIP_MASK h;
          h = set_dump CSR_MEDELEG delegated_exceptions h;
          h = set_dump CSR_HEDELEG (dump h CSR_MEDELEG) h;
          h = set_dump CSR_MTVEC enter_from_confidential_hart_asm h
      in \<lparr>confidential_hart_state = h, hart_vm_id = None, lifecycle_state = lifecycle,
          hart_pending_request = None\<rparr>)"

definition dummy :: "usize \<Rightarrow> usize \<Rightarrow> confidential_hart" where
  "dummy entry i = ConfidentialHart_new entry (HartArchitecturalState_empty i) Started"

definition from_vm_hart_reset ::
    "usize \<Rightarrow> usize \<Rightarrow> hart_architectural_state \<Rightarrow> confidential_hart" where
  "from_vm_hart_reset entry i non_confidential =
     (let h = HartArchitecturalState_empty i;
          h = set_dump CSR_MSTATUS (dump non_confidential CSR_MSTATUS) h;
          h = set_dump CSR_VSTIMECMP (- 1 - 1) h;
          h = set_dump CSR_HTIMEDELTA (dump non_confidential CSR_HTIMEDELTA) h;
          h = set_dump CSR_SCOUNTEREN (dump non_confidential CSR_SCOUNTEREN) h
      in ConfidentialHart_new entry h Stopped)"

definition from_vm_hart ::
    "csr_file \<Rightarrow> usize \<Rightarrow> usize \<Rightarrow> hart_architectural_state \<Rightarrow> confidential_hart" where
  "from_vm_hart f entry i non_confidential =
     (ConfidentialHart_new entry (from_existing f i non_confidential) Started)
       \<lparr>hart_pending_request := Some PendingSbiRequest\<rparr>"

definition ConfidentialHart_set_confidential_vm_id ::
    "confidential_vm_id \<Rightarrow> confidential_hart \<Rightarrow> confidential_hart" where
  "ConfidentialHart_set_confidential_vm_id i h = h\<lparr>hart_vm_id := Some i\<rparr>"

definition confidential_hart_id :: "confidential_hart \<Rightarrow> usize" where
  "confidential_hart_id h = hart_id (confidential_hart_state h)"

definition take_request :: "confidential_hart \<Rightarrow> pending_request option \<times> confidential_hart" where
  "take_request h = (hart_pending_request h, h\<lparr>hart_pending_request := None\<rparr>)"

definition is_dummy :: "confidential_hart \<Rightarrow> bool" where
  "is_dummy h \<longleftrightarrow> hart_vm_id h = None"

definition is_executable :: "confidential_hart \<Rightarrow> bool" where
  "is_executable h \<longleftrightarrow> \<not> is_dummy h \<and> lifecycle_state h \<in> set [Started, StartPending, Suspended]"

definition ConfidentialHart_set_pending_request ::
    "pending_request \<Rightarrow> confidential_hart \<Rightarrow> confidential_hart res" where
  "ConfidentialHart_set_pending_request request h =
     and_then (assure (hart_pending_request h = None) PendingRequestError) (\<lambda>_.
     Ok (h\<lparr>hart_pending_request := Some request\<rparr>))"

section \<open>Control and status registers\<close>

definition ConfidentialHart_store_control_status_registers ::
    "csr_file \<Rightarrow> confidential_hart \<Rightarrow> enabled_interrupts \<times> confidential_hart" where
  "ConfidentialHart_store_control_status_registers f h =
     (EnabledInterrupts_new f,
      h\<lparr>confidential_hart_state := store_control_status_registers f (confidential_hart_state h)\<rparr>)"

definition ConfidentialHart_store_volatile ::
    "csr_file \<Rightarrow> confidential_hart \<Rightarrow> confidential_hart" where
  "ConfidentialHart_store_volatile f h =
     h\<lparr>confidential_hart_state :=
         set_dump CSR_MSTATUS (read_csr f CSR_MSTATUS)
           (set_dump CSR_MEPC (read_csr f CSR_MEPC) (confidential_hart_state h))\<rparr>"

definition apply_injected_interrupts :: "injected_interrupts \<Rightarrow> confidential_hart \<Rightarrow> confidential_hart" where
  "apply_injected_interrupts r h =
     h\<lparr>confidential_hart_state := set_dump CSR_HVIP (injected_hvip r) (confidential_hart_state h)\<rparr>"

definition ConfidentialHart_load_control_status_registers ::
    "injected_interrupts \<Rightarrow> confidential_hart \<Rightarrow> csr_file \<Rightarrow> confidential_hart \<times> csr_file" where
  "ConfidentialHart_load_control_status_registers interrupts h f =
     (apply_injected_interrupts interrupts h,
      load_control_status_registers (confidential_hart_state h) f)"

definition ConfidentialHart_load_volatile :: "usize \<Rightarrow> confidential_hart \<Rightarrow> csr_file \<Rightarrow> csr_file" where
  "ConfidentialHart_load_volatile dump_address h f =
     (let d = dump (confidential_hart_state h);
          f = set_csr f CSR_HVIP (d CSR_HVIP OR d CSR_VSIP);
          f = set_csr f CSR_MSTATUS (d CSR_MSTATUS);
          f = set_csr f CSR_MEPC (d CSR_MEPC)
      in set_csr f CSR_SSCRATCH dump_address)"

section \<open>Lifecycle transitions\<close>

definition transition_from_stopped_to_start_pending ::
    "sbi_hsm_hart_start \<Rightarrow> confidential_hart \<Rightarrow> confidential_hart res" where
  "transition_from_stopped_to_start_pending request h =
     and_then (assure (lifecycle_state h = Stopped) CannotStartNotStoppedHart) (\<lambda>_.
     and_then (assure_not (is_dummy h) HartAlreadyRunning) (\<lambda>_.
     let s = confidential_hart_state h;
         s = set_dump CSR_VSATP 0 s;
         s = set_dump CSR_MSTATUS (disable_bit (dump s CSR_MSTATUS) CSR_MSTATUS_SPIE) s;
         s = set_dump CSR_MSTATUS (disable_bit (dump s CSR_MSTATUS) CSR_MSTATUS_MPIE) s;
         s = set_dump CSR_VSSTATUS (disable_bit (dump s CSR_VSSTATUS) CSR_STATUS_SIE) s;
         s = set_gpr gpr_a0 (confidential_hart_id h) s;
         s = set_gpr gpr_a1 (hart_start_opaque request) s;
         s = set_dump CSR_MEPC (hart_start_address request) s
     in Ok (h\<lparr>lifecycle_state := StartPending,
              hart_pending_request := Some PendingSbiHsmHartStartPending,
              confidential_hart_state := s\<rparr>)))"

definition transition_from_start_pending_to_started :: "confidential_hart \<Rightarrow> confidential_hart res" where
  "transition_from_start_pending_to_started h =
     and_then (assert_that (\<not> is_dummy h)) (\<lambda>_.
     Ok (if lifecycle_state h = StartPending then h\<lparr>lifecycle_state := Started\<rparr> else h))"

definition transition_from_started_to_suspended ::
    "sbi_hsm_hart_suspend \<Rightarrow> confidential_hart \<Rightarrow> confidential_hart res" where
  "transition_from_started_to_suspended request h =
     and_then (assert_that (\<not> is_dummy h)) (\<lambda>_.
     and_then (assure (lifecycle_state h = Started) CannotSuspedNotStartedHart) (\<lambda>_.
     Ok (h\<lparr>lifecycle_state := Suspended\<rparr>)))"

definition transition_from_started_to_stopped :: "confidential_hart \<Rightarrow> confidential_hart res" where
  "transition_from_started_to_stopped h =
     and_then (assert_that (\<not> is_dummy h)) (\<lambda>_.
     and_then (assure (lifecycle_state h = Started) CannotStopNotStartedHart) (\<lambda>_.
     Ok (h\<lparr>lifecycle_state := Stopped\<rparr>)))"

definition transition_from_suspended_to_started :: "confidential_hart \<Rightarrow> confidential_hart res" where
  "transition_from_suspended_to_started h =
     and_then (assert_that (\<not> is_dummy h)) (\<lambda>_.
     and_then (assure (lifecycle_state h = Suspended) CannotStartNotSuspendedHart) (\<lambda>_.
     Ok (h\<lparr>lifecycle_state := Started\<rparr>)))"

definition transition_to_shutdown :: "confidential_hart \<Rightarrow> confidential_hart res" where
  "transition_to_shutdown h =
     and_then (assert_that (\<not> is_dummy h)) (\<lambda>_. Ok (h\<lparr>lifecycle_state := Shutdown\<rparr>))"

section \<open>Transformations applied to the hart\<close>

definition update_hart_state ::
    "(hart_architectural_state \<Rightarrow> hart_architectural_state) \<Rightarrow> confidential_hart \<Rightarrow> confidential_hart" where
  "update_hart_state f h = h\<lparr>confidential_hart_state := f (confidential_hart_state h)\<rparr>"

definition advance_mepc :: "usize \<Rightarrow> confidential_hart \<Rightarrow> confidential_hart res" where
  "advance_mepc n h =
     and_then (add_usize (dump (confidential_hart_state h) CSR_MEPC) n) (\<lambda>pc.
     Ok (update_hart_state (set_dump CSR_MEPC pc) h))"

definition apply_sbi_ipi :: "sbi_ipi \<Rightarrow> confidential_hart \<Rightarrow> confidential_hart" where
  "apply_sbi_ipi v h = update_hart_state
     (\<lambda>s. set_dump CSR_VSIP (dump s CSR_VSIP OR MIE_VSSIP_MASK) s) h"

definition apply_sbi_result :: "sbi_result \<Rightarrow> confidential_hart \<Rightarrow> confidential_hart res" where
  "apply_sbi_result r h =
     advance_mepc (pc_offset r)
       (update_hart_state (\<lambda>s. set_gpr gpr_a1 (result_a1 r) (set_gpr gpr_a0 (result_a0 r) s)) h)"

definition apply_sbi_result_success :: "confidential_hart \<Rightarrow> confidential_hart res" where
  "apply_sbi_result_success h =
     advance_mepc ECALL_INSTRUCTION_LENGTH
       (update_hart_state (\<lambda>s. set_gpr gpr_a1 0 (set_gpr gpr_a0 0 s)) h)"

definition apply_guest_load_page_fault_result ::
    "guest_load_page_fault_result \<Rightarrow> confidential_hart \<Rightarrow> confidential_hart res" where
  "apply_guest_load_page_fault_result r h =
     advance_mepc (load_result_instruction_length r)
       (update_hart_state (set_gpr (load_result_gpr r) (load_result_value r)) h)"

definition apply_guest_store_page_fault_result ::
    "guest_store_page_fault_result \<Rightarrow> confidential_hart \<Rightarrow> confidential_hart res" where
  "apply_guest_store_page_fault_result r h = advance_mepc (store_result_instruction_length r) h"

definition apply_virtual_instruction_result ::
    "virtual_instruction_result \<Rightarrow> confidential_hart \<Rightarrow> confidential_hart res" where
  "apply_virtual_instruction_result r h = advance_mepc (virtual_result_instruction_length r) h"

text \<open>The remote fences execute a fence on the hart that runs the monitor (\<open>transformation_fences\<close>)
  and leave the confidential hart as it is.\<close>

definition transformation_fences :: "expose_to_confidential_vm \<Rightarrow> fence list" where
  "transformation_fences t = (case t of
      ApplySbiRemoteFenceI _ \<Rightarrow> [FENCE_I]
    | ApplySbiRemoteSfenceVma _ \<Rightarrow> [SFENCE_VMA]
    | ApplySbiRemoteSfenceVmaAsid _ \<Rightarrow> [SFENCE_VMA]
    | _ \<Rightarrow> [])"

definition ConfidentialHart_apply ::
    "expose_to_confidential_vm \<Rightarrow> confidential_hart \<Rightarrow> confidential_hart res" where
  "ConfidentialHart_apply t h = (case t of
      ApplySbiResult v \<Rightarrow> apply_sbi_result v h
    | ApplyGuestLoadPageFaultResult v \<Rightarrow> apply_guest_load_page_fault_result v h
    | ApplyVirtualInstructionResult v \<Rightarrow> apply_virtual_instruction_result v h
    | ApplyGuestStorePageFaultResult v \<Rightarrow> apply_guest_store_page_fault_result v h
    | ApplySbiIpi v \<Rightarrow> Ok (apply_sbi_ipi v h)
    | ApplySbiRemoteFenceI v \<Rightarrow> Ok h
    | ApplySbiRemoteSfenceVma v \<Rightarrow> Ok h
    | ApplySbiRemoteSfenceVmaAsid v \<Rightarrow> Ok h
    | ApplySbiHsmHartStartPending \<Rightarrow> transition_from_start_pending_to_started h
    | ApplySbiHsmHartStart \<Rightarrow> apply_sbi_result_success h
    | ApplySbiSrstSystemReset \<Rightarrow> transition_to_shutdown h
    | ApplyResume \<Rightarrow> Ok h)"

section \<open>Declassification of the hart state\<close>

definition ConfidentialHart_trap_reason :: "csr_file \<Rightarrow> confidential_hart \<Rightarrow> trap_cause" where
  "ConfidentialHart_trap_reason f h =
     TrapCause_from (read_csr f CSR_MCAUSE) (gpr (confidential_hart_state h) gpr_a7)
       (gpr (confidential_hart_state h) gpr_a6)"

definition hypercall_request :: "confidential_hart \<Rightarrow> sbi_request" where
  "hypercall_request h = SbiRequest_from_hart_state (confidential_hart_state h)"

definition ConfidentialHart_virtual_instruction_request ::
    "(16 word \<Rightarrow> usize) \<Rightarrow> csr_file \<Rightarrow> virtual_instruction_request" where
  "ConfidentialHart_virtual_instruction_request instruction_length f =
     (let i = read_csr f CSR_MTVAL
      in \<lparr>virtual_instruction = i, virtual_instruction_length = instruction_length (ucast i)\<rparr>)"

definition faulted_instruction_length :: "(16 word \<Rightarrow> usize) \<Rightarrow> usize \<Rightarrow> usize" where
  "faulted_instruction_length instruction_length mtinst =
     (if is_bit_enabled mtinst 1 then instruction_length (ucast (mtinst OR 0x3)) else 2)"

definition ConfidentialHart_guest_load_page_fault_request ::
    "(32 word \<Rightarrow> instruction option) \<Rightarrow> (16 word \<Rightarrow> usize) \<Rightarrow> csr_file
     \<Rightarrow> (guest_load_page_fault_request \<times> mmio_load_request) res" where
  "ConfidentialHart_guest_load_page_fault_request riscv_decode instruction_length f =
     (let mcause = read_csr f CSR_MCAUSE; mtinst = read_csr f CSR_MTINST;
          mtval = read_csr f CSR_MTVAL; mtval2 = read_csr f CSR_MTVAL2 in
      and_then (assert_that (mtinst AND 0x1 > 0)) (\<lambda>_.
      and_then (decode_result_register riscv_decode (mtinst OR 0x3)) (\<lambda>g.
      Ok (\<lparr>load_request_instruction_length = faulted_instruction_length instruction_length mtinst,
           load_request_result_gpr = g\<rparr>,
          \<lparr>load_code = mcause, load_stval = mtval, load_htval = mtval2, load_instruction = mtinst\<rparr>))))"

definition ConfidentialHart_guest_store_page_fault_request ::
    "(32 word \<Rightarrow> instruction option) \<Rightarrow> (16 word \<Rightarrow> usize) \<Rightarrow> csr_file \<Rightarrow> confidential_hart
     \<Rightarrow> (guest_store_page_fault_request \<times> mmio_store_request) res" where
  "ConfidentialHart_guest_store_page_fault_request riscv_decode instruction_length f h =
     (let mcause = read_csr f CSR_MCAUSE; mtinst = read_csr f CSR_MTINST;
          mtval = read_csr f CSR_MTVAL; mtval2 = read_csr f CSR_MTVAL2 in
      and_then (assert_that (mtinst AND 0x1 > 0)) (\<lambda>_.
      and_then (decode_result_register riscv_decode (mtinst OR 0x3)) (\<lambda>g.
      Ok (\<lparr>store_request_instruction_length = faulted_instruction_length instruction_length mtinst\<rparr>,
          \<lparr>store_code = mcause, store_stval = mtval, store_htval = mtval2, store_instruction = mtinst,
           store_gpr = g, store_gpr_value = gpr (confidential_hart_state h) g\<rparr>))))"

definition ConfidentialHart_share_page_request ::
    "confidential_hart \<Rightarrow> (share_page_request \<times> sbi_request) res" where
  "ConfidentialHart_share_page_request h =
     (let address = gpr (confidential_hart_state h) gpr_a0 in
      and_then (SharePageRequest_new address) (\<lambda>request. Ok (request, kvm_ace_page_in address)))"

definition ConfidentialHart_unshare_page_request :: "confidential_hart \<Rightarrow> unshare_page_request res" where
  "ConfidentialHart_unshare_page_request h =
     UnsharePageRequest_new (gpr (confidential_hart_state h) gpr_a0)"

definition ConfidentialHart_sbi_ipi :: "confidential_hart \<Rightarrow> inter_hart_request" where
  "ConfidentialHart_sbi_ipi h = (let s = confidential_hart_state h in
     InterHartSbiIpi \<lparr>ipi_hart_mask = gpr s gpr_a0, ipi_hart_mask_base = gpr s gpr_a1\<rparr>)"

definition ConfidentialHart_sbi_hsm_hart_start :: "confidential_hart \<Rightarrow> sbi_hsm_hart_start" where
  "ConfidentialHart_sbi_hsm_hart_start h = (let s = confidential_hart_state h in
     \<lparr>start_confidential_hart_id = gpr s gpr_a0, hart_start_address = gpr s gpr_a1,
      hart_start_opaque = gpr s gpr_a2\<rparr>)"

definition ConfidentialHart_sbi_hsm_hart_suspend :: "confidential_hart \<Rightarrow> sbi_hsm_hart_suspend" where
  "ConfidentialHart_sbi_hsm_hart_suspend h = (let s = confidential_hart_state h in
     \<lparr>suspend_type = gpr s gpr_a0, resume_address = gpr s gpr_a1, suspend_opaque = gpr s gpr_a2\<rparr>)"

definition ConfidentialHart_sbi_hsm_hart_status :: "confidential_hart \<Rightarrow> sbi_hsm_hart_status" where
  "ConfidentialHart_sbi_hsm_hart_status h =
     \<lparr>status_confidential_hart_id = gpr (confidential_hart_state h) gpr_a0\<rparr>"

definition ConfidentialHart_sbi_remote_fence_i :: "confidential_hart \<Rightarrow> inter_hart_request" where
  "ConfidentialHart_sbi_remote_fence_i h = (let s = confidential_hart_state h in
     InterHartSbiRemoteFenceI
       \<lparr>fence_i_hart_mask = gpr s gpr_a0, fence_i_hart_mask_base = gpr s gpr_a1\<rparr>)"

definition ConfidentialHart_sbi_remote_sfence_vma :: "confidential_hart \<Rightarrow> inter_hart_request" where
  "ConfidentialHart_sbi_remote_sfence_vma h = (let s = confidential_hart_state h in
     InterHartSbiRemoteSfenceVma
       \<lparr>sfence_hart_mask = gpr s gpr_a0, sfence_hart_mask_base = gpr s gpr_a1,
        sfence_start_address = gpr s gpr_a2, sfence_size = gpr s gpr_a3\<rparr>)"

definition ConfidentialHart_sbi_remote_sfence_vma_asid :: "confidential_hart \<Rightarrow> inter_hart_request" where
  "ConfidentialHart_sbi_remote_sfence_vma_asid h = (let s = confidential_hart_state h in
     InterHartSbiRemoteSfenceVmaAsid
       \<lparr>sfence_asid_hart_mask = gpr s gpr_a0, sfence_asid_hart_mask_base = gpr s gpr_a1,
        sfence_asid_start_address = gpr s gpr_a2, sfence_asid_size = gpr s gpr_a3,
        sfence_asid = gpr s gpr_a4\<rparr>)"

section \<open>The lifecycle as a state machine\<close>

text \<open>The state machine of the SBI HSM extension as the monitor uses it, with the additional final
  state \<open>Shutdown\<close>.\<close>

inductive lifecycle_step :: "hart_lifecycle_state \<Rightarrow> hart_lifecycle_state \<Rightarrow> bool" where
  hart_start: "lifecycle_step Stopped StartPending"
| hart_started: "lifecycle_step StartPending Started"
| hart_suspend: "lifecycle_step Started Suspended"
| hart_resume: "lifecycle_step Suspended Started"
| hart_stop: "lifecycle_step Started Stopped"
| hart_shutdown: "lifecycle_step s Shutdown"

inductive_simps lifecycle_step_simps: "lifecycle_step s t"
inductive_cases from_shutdown: "lifecycle_step Shutdown t"

code_pred lifecycle_step .

text \<open>One operation of the monitor on a confidential hart.\<close>

inductive hart_step :: "confidential_hart \<Rightarrow> confidential_hart \<Rightarrow> bool" where
  start: "transition_from_stopped_to_start_pending r h = Ok g \<Longrightarrow> hart_step h g"
| suspend: "transition_from_started_to_suspended q h = Ok g \<Longrightarrow> hart_step h g"
| stop: "transition_from_started_to_stopped h = Ok g \<Longrightarrow> hart_step h g"
| resume: "transition_from_suspended_to_started h = Ok g \<Longrightarrow> hart_step h g"
| shutdown: "transition_to_shutdown h = Ok g \<Longrightarrow> hart_step h g"
| transform: "ConfidentialHart_apply t h = Ok g \<Longrightarrow> hart_step h g"
| request: "ConfidentialHart_set_pending_request p h = Ok g \<Longrightarrow> hart_step h g"
| reply: "take_request h = (p', g) \<Longrightarrow> hart_step h g"
| store_csrs: "ConfidentialHart_store_control_status_registers f h = (e, g) \<Longrightarrow> hart_step h g"
| store_volatile: "ConfidentialHart_store_volatile f h = g \<Longrightarrow> hart_step h g"
| load_csrs: "ConfidentialHart_load_control_status_registers i h f = (g, f') \<Longrightarrow> hart_step h g"

lemmas hart_transition_defs = transition_from_stopped_to_start_pending_def
  transition_from_started_to_suspended_def transition_from_started_to_stopped_def
  transition_from_suspended_to_started_def transition_to_shutdown_def
  transition_from_start_pending_to_started_def

lemmas hart_apply_defs = apply_sbi_result_def apply_sbi_result_success_def
  apply_guest_load_page_fault_result_def apply_guest_store_page_fault_result_def
  apply_virtual_instruction_result_def apply_sbi_ipi_def advance_mepc_def update_hart_state_def

lemmas hart_csr_defs = ConfidentialHart_store_control_status_registers_def
  ConfidentialHart_store_volatile_def ConfidentialHart_load_control_status_registers_def
  apply_injected_interrupts_def

lemma apply_lifecycle:
  assumes "ConfidentialHart_apply t h = Ok g"
  shows "lifecycle_state g = lifecycle_state h \<or> lifecycle_step (lifecycle_state h) (lifecycle_state g)"
  using assms
  by (cases t) (auto simp: ConfidentialHart_apply_def hart_apply_defs hart_transition_defs res_simps
      intro: lifecycle_step.intros split: if_splits)

lemma hart_step_lifecycle:
  "hart_step h g \<Longrightarrow> lifecycle_state g = lifecycle_state h
     \<or> lifecycle_step (lifecycle_state h) (lifecycle_state g)"
proof (induction rule: hart_step.induct)
  case (transform t h g)
  then show ?case by (rule apply_lifecycle)
qed (auto simp: hart_transition_defs hart_csr_defs ConfidentialHart_set_pending_request_def
    take_request_def res_simps Let_def intro: lifecycle_step.intros)

lemma apply_identity:
  "ConfidentialHart_apply t h = Ok g \<Longrightarrow>
     hart_vm_id g = hart_vm_id h \<and> confidential_hart_id g = confidential_hart_id h"
  by (cases t) (auto simp: ConfidentialHart_apply_def hart_apply_defs hart_transition_defs res_simps
      confidential_hart_id_def split: if_splits)

lemma hart_step_identity:
  "hart_step h g \<Longrightarrow> hart_vm_id g = hart_vm_id h \<and> confidential_hart_id g = confidential_hart_id h"
proof (induction rule: hart_step.induct)
  case (transform t h g)
  then show ?case by (rule apply_identity)
qed (auto simp: hart_transition_defs hart_csr_defs ConfidentialHart_set_pending_request_def
    take_request_def res_simps Let_def confidential_hart_id_def)

lemma hart_steps_shutdown:
  "hart_step\<^sup>*\<^sup>* h g \<Longrightarrow> lifecycle_state h = Shutdown \<Longrightarrow> lifecycle_state g = Shutdown"
proof (induction rule: rtranclp_induct)
  case (step g k)
  then show ?case using hart_step_lifecycle [of g k] by (auto elim: from_shutdown)
qed

lemma hart_steps_identity:
  "hart_step\<^sup>*\<^sup>* h g \<Longrightarrow> hart_vm_id g = hart_vm_id h \<and> confidential_hart_id g = confidential_hart_id h"
  by (induction rule: rtranclp_induct) (auto dest: hart_step_identity)

lemma apply_dummy: "ConfidentialHart_apply t h = Ok g \<Longrightarrow> is_dummy h \<Longrightarrow> lifecycle_state g = lifecycle_state h"
  by (cases t) (auto simp: ConfidentialHart_apply_def hart_apply_defs hart_transition_defs res_simps split: if_splits)

lemma hart_step_dummy: "hart_step h g \<Longrightarrow> is_dummy h \<Longrightarrow> lifecycle_state g = lifecycle_state h"
proof (induction rule: hart_step.induct)
  case (transform t h g)
  then show ?case by (rule apply_dummy)
qed (auto simp: hart_transition_defs hart_csr_defs ConfidentialHart_set_pending_request_def
    take_request_def res_simps Let_def)

lemma hart_step_stays: "\<exists>g. lifecycle_state h = lifecycle_state g \<and> hart_step h g"
  using hart_step.transform [of ApplyResume h h] by (auto simp: ConfidentialHart_apply_def)

lemma hart_step_edges:
  assumes "\<not> is_dummy h"
  shows "\<exists>g. Shutdown = lifecycle_state g \<and> hart_step h g"
    and "lifecycle_state h = Started \<Longrightarrow> \<exists>g. Suspended = lifecycle_state g \<and> hart_step h g"
    and "lifecycle_state h = Started \<Longrightarrow> \<exists>g. Stopped = lifecycle_state g \<and> hart_step h g"
    and "lifecycle_state h = Stopped \<Longrightarrow> \<exists>g. StartPending = lifecycle_state g \<and> hart_step h g"
    and "lifecycle_state h = StartPending \<Longrightarrow> \<exists>g. Started = lifecycle_state g \<and> hart_step h g"
    and "lifecycle_state h = Suspended \<Longrightarrow> \<exists>g. Started = lifecycle_state g \<and> hart_step h g"
proof -
  have "\<exists>g. transition_to_shutdown h = Ok g \<and> Shutdown = lifecycle_state g"
    using assms by (simp add: transition_to_shutdown_def)
  then show "\<exists>g. Shutdown = lifecycle_state g \<and> hart_step h g" by (blast intro: hart_step.shutdown)
  have "\<exists>g. transition_from_started_to_suspended q h = Ok g \<and> Suspended = lifecycle_state g"
    if "lifecycle_state h = Started" for q
    using assms that by (simp add: transition_from_started_to_suspended_def)
  then show "lifecycle_state h = Started \<Longrightarrow> \<exists>g. Suspended = lifecycle_state g \<and> hart_step h g"
    by (blast intro: hart_step.suspend)
  have "\<exists>g. transition_from_started_to_stopped h = Ok g \<and> Stopped = lifecycle_state g" if "lifecycle_state h = Started"
    using assms that by (simp add: transition_from_started_to_stopped_def)
  then show "lifecycle_state h = Started \<Longrightarrow> \<exists>g. Stopped = lifecycle_state g \<and> hart_step h g"
    by (blast intro: hart_step.stop)
  have "\<exists>g. transition_from_stopped_to_start_pending r h = Ok g \<and> StartPending = lifecycle_state g"
    if "lifecycle_state h = Stopped" for r
    using assms that by (simp add: transition_from_stopped_to_start_pending_def Let_def)
  then show "lifecycle_state h = Stopped \<Longrightarrow> \<exists>g. StartPending = lifecycle_state g \<and> hart_step h g"
    by (blast intro: hart_step.start)
  have "\<exists>g. ConfidentialHart_apply ApplySbiHsmHartStartPending h = Ok g \<and> Started = lifecycle_state g"
    if "lifecycle_state h = StartPending"
    using assms that by (simp add: ConfidentialHart_apply_def transition_from_start_pending_to_started_def)
  then show "lifecycle_state h = StartPending \<Longrightarrow> \<exists>g. Started = lifecycle_state g \<and> hart_step h g"
    by (blast intro: hart_step.transform)
  have "\<exists>g. transition_from_suspended_to_started h = Ok g \<and> Started = lifecycle_state g" if "lifecycle_state h = Suspended"
    using assms that by (simp add: transition_from_suspended_to_started_def)
  then show "lifecycle_state h = Suspended \<Longrightarrow> \<exists>g. Started = lifecycle_state g \<and> hart_step h g"
    by (blast intro: hart_step.resume)
qed

text \<open>What a transformation writes in the dumped state of a confidential hart.\<close>

definition written_gprs :: "expose_to_confidential_vm \<Rightarrow> general_purpose_register set" where
  "written_gprs t = (case t of
      ApplySbiResult _ \<Rightarrow> {gpr_a0, gpr_a1}
    | ApplySbiHsmHartStart \<Rightarrow> {gpr_a0, gpr_a1}
    | ApplyGuestLoadPageFaultResult r \<Rightarrow> {load_result_gpr r}
    | _ \<Rightarrow> {})"

definition written_csrs :: "expose_to_confidential_vm \<Rightarrow> csr set" where
  "written_csrs t = (case t of
      ApplySbiResult _ \<Rightarrow> {CSR_MEPC}
    | ApplySbiHsmHartStart \<Rightarrow> {CSR_MEPC}
    | ApplyGuestLoadPageFaultResult _ \<Rightarrow> {CSR_MEPC}
    | ApplyGuestStorePageFaultResult _ \<Rightarrow> {CSR_MEPC}
    | ApplyVirtualInstructionResult _ \<Rightarrow> {CSR_MEPC}
    | ApplySbiIpi _ \<Rightarrow> {CSR_VSIP}
    | _ \<Rightarrow> {})"

section \<open>Properties\<close>

text \<open>C22: One operation of the monitor moves the lifecycle state of a confidential hart exactly along the edges of the SBI
  state machine: from each state the operations that succeed reach that state itself and the listed ones, all of them and no other
  (started: suspended, stopped; stopped: start pending; start pending and suspended: started; all of these: shut down).
  The state of a dummy hart never changes. Every operation keeps the id of the hart and the VM it belongs to, and a hart
  that is shut down stays so under any sequence of operations and is never executable again.\<close>

theorem lifecycle_follows_state_machine:
  "{lifecycle_state g |g. hart_step h g} =
      (if is_dummy h then {lifecycle_state h}
       else insert (lifecycle_state h) (case lifecycle_state h of
           Started \<Rightarrow> {Suspended, Stopped, Shutdown}
         | Stopped \<Rightarrow> {StartPending, Shutdown}
         | StartPending \<Rightarrow> {Started, Shutdown}
         | Suspended \<Rightarrow> {Started, Shutdown}
         | Shutdown \<Rightarrow> {}))
   \<and> (\<forall>g. hart_step h g \<longrightarrow> hart_vm_id g = hart_vm_id h \<and> confidential_hart_id g = confidential_hart_id h)
   \<and> (\<forall>g. hart_step\<^sup>*\<^sup>* h g \<and> lifecycle_state h = Shutdown \<longrightarrow> lifecycle_state g = Shutdown \<and> \<not> is_executable g)"
proof (intro conjI allI impI)
  show "{lifecycle_state g |g. hart_step h g} =
      (if is_dummy h then {lifecycle_state h}
       else insert (lifecycle_state h) (case lifecycle_state h of
           Started \<Rightarrow> {Suspended, Stopped, Shutdown}
         | Stopped \<Rightarrow> {StartPending, Shutdown}
         | StartPending \<Rightarrow> {Started, Shutdown}
         | Suspended \<Rightarrow> {Started, Shutdown}
         | Shutdown \<Rightarrow> {}))" (is "?L = ?R")
  proof
    show "?L \<subseteq> ?R"
    proof
      fix x assume "x \<in> ?L"
      then obtain g where "hart_step h g" "x = lifecycle_state g" by blast
      then show "x \<in> ?R"
        using hart_step_dummy [of h g] hart_step_lifecycle [of h g]
        by (cases "lifecycle_state h") (auto simp: lifecycle_step_simps)
    qed
    show "?R \<subseteq> ?L"
      using hart_step_stays [of h] hart_step_edges [of h]
      by (auto split: if_splits hart_lifecycle_state.splits)
  qed
qed (use hart_step_identity hart_steps_shutdown in \<open>auto simp: is_executable_def\<close>)

definition example_confidential_hart :: confidential_hart where
  "example_confidential_hart = ConfidentialHart_set_confidential_vm_id 7
     (ConfidentialHart_new 0x8000 (HartArchitecturalState_empty 1) Started)"

lemma example_confidential_hart_simps [simp]:
  "lifecycle_state example_confidential_hart = Started"
  "hart_vm_id example_confidential_hart = Some 7"
  "hart_pending_request example_confidential_hart = None"
  "confidential_hart_id example_confidential_hart = 1"
  "gpr (confidential_hart_state example_confidential_hart) r = 0"
  "dump (confidential_hart_state example_confidential_hart) CSR_MEPC = 0"
  by (simp_all add: example_confidential_hart_def ConfidentialHart_set_confidential_vm_id_def
      ConfidentialHart_new_def Let_def HartArchitecturalState_empty_def confidential_hart_id_def
      gpr_def GeneralPurposeRegisters_get_def GeneralPurposeRegisters_empty_def set_dump_def)

theorem lifecycle_follows_state_machine_witness:
  "{lifecycle_state g |g. hart_step example_confidential_hart g} = {Started, Suspended, Stopped, Shutdown}
   \<and> (\<exists>g. hart_step example_confidential_hart g \<and> lifecycle_state g = Stopped \<and> hart_vm_id g = Some 7
        \<and> confidential_hart_id g = 1)"
proof -
  have h: "\<not> is_dummy example_confidential_hart" by (simp add: is_dummy_def)
  note step = lifecycle_follows_state_machine [of example_confidential_hart]
  then have reach: "{lifecycle_state g |g. hart_step example_confidential_hart g} = {Started, Suspended, Stopped, Shutdown}"
    using h by simp
  then obtain g where g: "hart_step example_confidential_hart g" "lifecycle_state g = Stopped" by force
  then have "hart_vm_id g = Some 7" "confidential_hart_id g = 1" using step by auto
  with reach g show ?thesis by blast
qed

text \<open>C20: A transformation changes a confidential hart only where it declares to: the registers of
  the result, the program counter, or the software interrupt of an IPI. All other
  registers, its identity and its floating-point state stay as they were.\<close>

theorem transformation_changes_only_declared:
  assumes "ConfidentialHart_apply t h = Ok g"
  shows "(\<forall>r. r \<in> written_gprs t \<or> gpr (confidential_hart_state g) r = gpr (confidential_hart_state h) r)
    \<and> (\<forall>c. c \<in> written_csrs t \<or> dump (confidential_hart_state g) c = dump (confidential_hart_state h) c)
    \<and> fprs (confidential_hart_state g) = fprs (confidential_hart_state h)
    \<and> hart_vm_id g = hart_vm_id h \<and> confidential_hart_id g = confidential_hart_id h
    \<and> hart_pending_request g = hart_pending_request h"
  using assms apply_identity [OF assms]
  by (cases t) (auto simp: ConfidentialHart_apply_def hart_apply_defs hart_transition_defs res_simps
      written_gprs_def written_csrs_def split: if_splits)

theorem transformation_changes_only_declared_witness:
  "\<exists>g. ConfidentialHart_apply (ApplySbiResult (SbiResult_success 5)) example_confidential_hart = Ok g
     \<and> gpr (confidential_hart_state g) gpr_a1 = 5
     \<and> gpr (confidential_hart_state g) gpr_s0 = gpr (confidential_hart_state example_confidential_hart) gpr_s0"
proof -
  let ?t = "ApplySbiResult (SbiResult_success 5)"
  obtain g where g: "ConfidentialHart_apply ?t example_confidential_hart = Ok g"
      and a1: "gpr (confidential_hart_state g) gpr_a1 = 5"
    by (simp add: ConfidentialHart_apply_def hart_apply_defs SbiResult_success_def SbiResult_new_def
        ECALL_INSTRUCTION_LENGTH_def add_usize_def)
  have "gpr_s0 \<notin> written_gprs ?t" by (simp add: written_gprs_def)
  with transformation_changes_only_declared [OF g] g a1 show ?thesis by blast
qed

end
