(* ===== verification/Hardware_Hart.thy ===== *)
theory Hardware_Hart
  imports Confidential_Hart
begin

text \<open>
  \<^verbatim>\<open>core/control_data/hardware_hart.rs\<close>: the monitor's view of a physical hart. \<open>hardware_hart\<close> is
  \<^verbatim>\<open>struct HardwareHart\<close> (its field \<^verbatim>\<open>confidential_hart\<close> is \<open>assigned_hart\<close>; the memory
  protector of the hypervisor has no fields). \<open>executing_hart\<close> extends the state of the physical hart
  by the \<^verbatim>\<open>HardwareHart\<close> that \<open>mscratch\<close> points to, on which the code runs with \<^verbatim>\<open>&mut\<close> access.
\<close>

record hardware_hart =
  non_confidential_hart_state :: hart_architectural_state
  stack :: page
  stack_address :: usize
  previous_mscratch :: usize
  assigned_hart :: confidential_hart

record executing_hart = physical_hart +
  hardware :: hardware_hart

definition update_hypervisor_state ::
    "(hart_architectural_state \<Rightarrow> hart_architectural_state)
     \<Rightarrow> 'z executing_hart_scheme \<Rightarrow> 'z executing_hart_scheme" where
  "update_hypervisor_state f s = s\<lparr>hardware := (hardware s)
     \<lparr>non_confidential_hart_state := f (non_confidential_hart_state (hardware s))\<rparr>\<rparr>"

abbreviation hypervisor_state :: "'z executing_hart_scheme \<Rightarrow> hart_architectural_state" where
  "hypervisor_state s \<equiv> non_confidential_hart_state (hardware s)"

definition set_assigned_hart ::
    "confidential_hart \<Rightarrow> 'z executing_hart_scheme \<Rightarrow> 'z executing_hart_scheme" where
  "set_assigned_hart h s = s\<lparr>hardware := (hardware s)\<lparr>assigned_hart := h\<rparr>\<rparr>"

section \<open>Construction and control registers\<close>

definition HardwareHart_init ::
    "usize \<Rightarrow> usize \<Rightarrow> page \<Rightarrow> ('z mem_state_scheme, error, hardware_hart) st" where
  "HardwareHart_init entry i stack_page =
     sbind (lift (end_address stack_page)) (\<lambda>address.
     sbind (zeroize stack_page) (\<lambda>p.
     ret \<lparr>non_confidential_hart_state = HartArchitecturalState_empty i, stack = p,
          stack_address = address, previous_mscratch = 0, assigned_hart = dummy entry i\<rparr>))"

definition swap_mscratch :: "'z executing_hart_scheme \<Rightarrow> 'z executing_hart_scheme" where
  "swap_mscratch s =
     (let current_mscratch = read_csr (csrs s) CSR_MSCRATCH;
          s' = write_csr CSR_MSCRATCH (previous_mscratch (hardware s)) s
      in s'\<lparr>hardware := (hardware s')\<lparr>previous_mscratch := current_mscratch\<rparr>\<rparr>)"

definition enable_hypervisor_memory_protector ::
    "'z executing_hart_scheme \<Rightarrow> 'z executing_hart_scheme" where
  "enable_hypervisor_memory_protector s =
     HypervisorMemoryProtector_enable (dump (hypervisor_state s) CSR_HGATP) s"

definition HardwareHart_store_control_status_registers ::
    "'z executing_hart_scheme \<Rightarrow> injected_interrupts \<times> 'z executing_hart_scheme" where
  "HardwareHart_store_control_status_registers s =
     (InjectedInterrupts_new (csrs s),
      update_hypervisor_state (store_control_status_registers (csrs s)) s)"

definition HardwareHart_store_volatile :: "'z executing_hart_scheme \<Rightarrow> 'z executing_hart_scheme" where
  "HardwareHart_store_volatile s =
     update_hypervisor_state
       (\<lambda>h. set_dump CSR_MSTATUS (read_csr (csrs s) CSR_MSTATUS)
              (set_dump CSR_MEPC (read_csr (csrs s) CSR_MEPC) h)) s"

definition HardwareHart_load_volatile :: "'z executing_hart_scheme \<Rightarrow> 'z executing_hart_scheme" where
  "HardwareHart_load_volatile s =
     write_csr CSR_MSTATUS (dump (hypervisor_state s) CSR_MSTATUS)
       (write_csr CSR_MEPC (dump (hypervisor_state s) CSR_MEPC) s)"

section \<open>Transformations applied to the hypervisor's hart\<close>

definition set_csr_bit :: "csr \<Rightarrow> nat \<Rightarrow> 'z executing_hart_scheme \<Rightarrow> 'z executing_hart_scheme" where
  "set_csr_bit r b s = s\<lparr>csrs := snd (read_and_set_bit (csrs s) r b)\<rparr>"

definition clear_csr_bit :: "csr \<Rightarrow> nat \<Rightarrow> 'z executing_hart_scheme \<Rightarrow> 'z executing_hart_scheme" where
  "clear_csr_bit r b s = s\<lparr>csrs := snd (read_and_clear_bit (csrs s) r b)\<rparr>"

definition apply_trap :: "bool \<Rightarrow> ('z executing_hart_scheme, error, unit) st" where
  "apply_trap encoded_guest_virtual_address s =
     (if are_bits_enabled (read_csr (csrs s) CSR_STVEC) STVEC_MODE_VECTORED then (Panic, s)
      else
        let s = update_hypervisor_state (\<lambda>h.
              let m = disable_bit (dump h CSR_MSTATUS) CSR_MSTATUS_MPV;
                  m = enable_bit m CSR_MSTATUS_MPP;
                  m = disable_bit m CSR_MSTATUS_MPIE;
                  m = disable_bit m CSR_MSTATUS_SIE
              in set_dump CSR_MSTATUS m h) s;
            s = write_csr CSR_SEPC (dump (hypervisor_state s) CSR_MEPC) s;
            s = update_hypervisor_state (set_dump CSR_MEPC (read_csr (csrs s) CSR_STVEC)) s;
            s = update_hypervisor_state (\<lambda>h.
              set_dump CSR_MSTATUS (enable_bit (dump h CSR_MSTATUS) CSR_MSTATUS_SPP) h) s;
            s = set_csr_bit CSR_HSTATUS CSR_HSTATUS_SPV s;
            s = set_csr_bit CSR_HSTATUS CSR_HSTATUS_SPVP s;
            s = set_csr_bit CSR_SSTATUS CSR_SSTATUS_SPP s;
            s = (if encoded_guest_virtual_address then set_csr_bit CSR_HSTATUS CSR_HSTATUS_GVA s
                 else clear_csr_bit CSR_HSTATUS CSR_HSTATUS_GVA s)
        in (Ok (), s))"

definition apply_enabled_interrupts ::
    "enabled_interrupts \<Rightarrow> 'z executing_hart_scheme \<Rightarrow> 'z executing_hart_scheme" where
  "apply_enabled_interrupts r s = write_csr CSR_VSIE (enabled_vsie r) s"

definition HardwareHart_apply_sbi_result ::
    "sbi_result \<Rightarrow> ('z executing_hart_scheme, error, unit) st" where
  "HardwareHart_apply_sbi_result r s =
     (let s = update_hypervisor_state (set_gpr gpr_a0 (result_a0 r)) s;
          s = update_hypervisor_state (set_gpr gpr_a1 (result_a1 r)) s
      in case add_usize (dump (hypervisor_state s) CSR_MEPC) (pc_offset r) of
           Ok pc \<Rightarrow> (Ok (), update_hypervisor_state (set_dump CSR_MEPC pc) s)
         | Err e \<Rightarrow> (Err e, s)
         | Panic \<Rightarrow> (Panic, s))"

definition apply_opensbi_result ::
    "opensbi_result \<Rightarrow> 'z executing_hart_scheme \<Rightarrow> 'z executing_hart_scheme" where
  "apply_opensbi_result r s =
     (let regs = result_trap_regs r;
          s = update_hypervisor_state (set_dump CSR_MSTATUS (trap_mstatus regs)) s;
          s = update_hypervisor_state (set_dump CSR_MEPC (trap_mepc regs)) s;
          s = update_hypervisor_state (set_gpr gpr_a0 (trap_gprs regs gpr_a0)) s
      in update_hypervisor_state (set_gpr gpr_a1 (trap_gprs regs gpr_a1)) s)"

definition set_request_gprs :: "sbi_request \<Rightarrow> hart_architectural_state \<Rightarrow> hart_architectural_state" where
  "set_request_gprs r h =
     (let h = set_gpr gpr_a7 (extension_id r) h;
          h = set_gpr gpr_a6 (function_id r) h;
          h = set_gpr gpr_a0 (request_a0 r) h;
          h = set_gpr gpr_a1 (request_a1 r) h;
          h = set_gpr gpr_a2 (request_a2 r) h;
          h = set_gpr gpr_a3 (request_a3 r) h;
          h = set_gpr gpr_a4 (request_a4 r) h
      in set_gpr gpr_a5 (request_a5 r) h)"

definition apply_sbi_vm_request :: "sbi_vm_request \<Rightarrow> ('z executing_hart_scheme, error, unit) st" where
  "apply_sbi_vm_request r s =
     (let s = write_csr CSR_SCAUSE (ucast CAUSE_VIRTUAL_SUPERVISOR_ECALL) s
      in apply_trap False (update_hypervisor_state (set_request_gprs (vm_sbi_request r)) s))"

definition apply_sbi_request :: "sbi_request \<Rightarrow> ('z executing_hart_scheme, error, unit) st" where
  "apply_sbi_request r s =
     (let s = write_csr CSR_SCAUSE (ucast CAUSE_VIRTUAL_SUPERVISOR_ECALL) s
      in apply_trap False (update_hypervisor_state (set_request_gprs r) s))"

definition apply_mmio_load_request :: "mmio_load_request \<Rightarrow> ('z executing_hart_scheme, error, unit) st" where
  "apply_mmio_load_request r s =
     (let s = write_csr CSR_SCAUSE (load_code r) s;
          s = write_csr CSR_STVAL (load_stval r) s;
          s = write_csr CSR_HTVAL (load_htval r) s;
          s = write_csr CSR_VSSCRATCH (load_instruction r) s
      in apply_trap True s)"

definition apply_mmio_store_request :: "mmio_store_request \<Rightarrow> ('z executing_hart_scheme, error, unit) st" where
  "apply_mmio_store_request r s =
     (let s = write_csr CSR_SCAUSE (store_code r) s;
          s = write_csr CSR_STVAL (store_stval r) s;
          s = write_csr CSR_HTVAL (store_htval r) s;
          s = update_hypervisor_state (set_gpr (store_gpr r) (store_gpr_value r)) s;
          s = write_csr CSR_VSSCRATCH (store_instruction r) s
      in apply_trap True s)"

definition apply_interrupt_request :: "interrupt_request \<Rightarrow> ('z executing_hart_scheme, error, unit) st" where
  "apply_interrupt_request r s =
     apply_trap False (write_csr CSR_SCAUSE (interrupt_code r OR SCAUSE_INTERRUPT_MASK) s)"

definition HardwareHart_apply :: "expose_to_hypervisor \<Rightarrow> ('z executing_hart_scheme, error, unit) st" where
  "HardwareHart_apply t s = (case t of
      ExposeSbiRequest v \<Rightarrow> apply_sbi_request v s
    | ExposeSbiVmRequest v \<Rightarrow> apply_sbi_vm_request v s
    | ExposeSbiResult v \<Rightarrow> HardwareHart_apply_sbi_result v s
    | ExposeOpensbiResult v \<Rightarrow> (Ok (), apply_opensbi_result v s)
    | ExposeMmioLoadRequest v \<Rightarrow> apply_mmio_load_request v s
    | ExposeMmioStoreRequest v \<Rightarrow> apply_mmio_store_request v s
    | ExposeInterruptRequest v \<Rightarrow> apply_interrupt_request v s
    | ExposeEnabledInterrupts v \<Rightarrow> (Ok (), apply_enabled_interrupts v s))"

definition HardwareHart_load_control_status_registers ::
    "enabled_interrupts \<Rightarrow> ('z executing_hart_scheme, error, unit) st" where
  "HardwareHart_load_control_status_registers interrupts s =
     HardwareHart_apply (ExposeEnabledInterrupts interrupts)
       (s\<lparr>csrs := load_control_status_registers (hypervisor_state s) (csrs s)\<rparr>)"

section \<open>Requests of the hypervisor\<close>

definition restore_original_gprs :: "'z executing_hart_scheme \<Rightarrow> 'z executing_hart_scheme" where
  "restore_original_gprs s =
     update_hypervisor_state
       (\<lambda>h. set_gpr gpr_a6 (read_csr (csrs s) CSR_VSEPC) (set_gpr gpr_a7 (read_csr (csrs s) CSR_VSTVAL) h)) s"

definition HardwareHart_trap_reason ::
    "'z executing_hart_scheme \<Rightarrow> trap_cause \<times> 'z executing_hart_scheme" where
  "HardwareHart_trap_reason s =
     (let trap_reason = TrapCause_from (read_csr (csrs s) CSR_MCAUSE)
            (gpr (hypervisor_state s) gpr_a7) (gpr (hypervisor_state s) gpr_a6)
      in (trap_reason, case trap_reason of HsEcall (Ace _) \<Rightarrow> restore_original_gprs s | _ \<Rightarrow> s))"

definition read_security_monitor_call_arguments :: "'z executing_hart_scheme \<Rightarrow> usize \<times> usize" where
  "read_security_monitor_call_arguments s =
     (read_csr (csrs s) CSR_VSTVEC, read_csr (csrs s) CSR_VSSCRATCH)"

definition promote_to_confidential_vm_request ::
    "'z executing_hart_scheme \<Rightarrow> promote_to_confidential_vm" where
  "promote_to_confidential_vm_request s = PromoteToConfidentialVm_new (csrs s) (hypervisor_state s)"

definition hypercall_result :: "'z executing_hart_scheme \<Rightarrow> sbi_result" where
  "hypercall_result s = SbiResult_ecall (hypervisor_state s)"

definition HardwareHart_guest_load_page_fault_result ::
    "'z executing_hart_scheme \<Rightarrow> guest_load_page_fault_request \<Rightarrow> guest_load_page_fault_result" where
  "HardwareHart_guest_load_page_fault_result s request =
     GuestLoadPageFaultResult_new (hypervisor_state s) request"

definition HardwareHart_sbi_vm_request :: "'z executing_hart_scheme \<Rightarrow> sbi_vm_request" where
  "HardwareHart_sbi_vm_request s = SbiVmRequest_from_hart_state (hypervisor_state s)"

definition HardwareHart_resume_request :: "'z executing_hart_scheme \<Rightarrow> resume_request" where
  "HardwareHart_resume_request s =
     (let (vm_id, hart) = read_security_monitor_call_arguments s
      in \<lparr>resume_confidential_vm_id = vm_id, resume_confidential_hart_id = hart\<rparr>)"

definition HardwareHart_terminate_request :: "'z executing_hart_scheme \<Rightarrow> terminate_request" where
  "HardwareHart_terminate_request s =
     (let (vm_id, _) = read_security_monitor_call_arguments s
      in \<lparr>terminate_confidential_vm_id = vm_id\<rparr>)"

definition HardwareHart_share_page_result :: "'z executing_hart_scheme \<Rightarrow> share_page_result" where
  "HardwareHart_share_page_result s =
     \<lparr>response_code = gpr (hypervisor_state s) gpr_a0,
      hypervisor_page_address = gpr (hypervisor_state s) gpr_a1\<rparr>"

definition HardwareHart_opensbi_request :: "'z executing_hart_scheme \<Rightarrow> opensbi_request" where
  "HardwareHart_opensbi_request s = OpensbiRequest_new (hypervisor_state s)"

section \<open>Frame lemmas\<close>

lemma hypervisor_state_simps [simp]:
  "hardware (update_hypervisor_state f s) =
     (hardware s)\<lparr>non_confidential_hart_state := f (hypervisor_state s)\<rparr>"
  "csrs (update_hypervisor_state f s) = csrs s"
  "fences (update_hypervisor_state f s) = fences s"
  "hardware (write_csr r v s) = hardware s"
  "fences (write_csr r v s) = fences s"
  "hardware (set_csr_bit r b s) = hardware s" "hardware (clear_csr_bit r b s) = hardware s"
  "fences (set_csr_bit r b s) = fences s" "fences (clear_csr_bit r b s) = fences s"
  "csrs (set_csr_bit r b s) = (csrs s)(r := csrs s r OR push_bit b 1)"
  "csrs (clear_csr_bit r b s) = (csrs s)(r := csrs s r AND NOT (push_bit b 1))"
  by (simp_all add: update_hypervisor_state_def write_csr_def set_csr_bit_def clear_csr_bit_def
      read_and_set_bit_def read_and_set_bits_def read_and_clear_bit_def read_and_clear_bits_def
      del: push_bit_of_1)

end
