(* ===== verification/Device_Tree.thy ===== *)
theory Device_Tree
  imports Errors Pointers
begin

text \<open>
  \<^verbatim>\<open>rust-crates/flattened_device_tree/src/lib.rs\<close>: the wrapper around the third-party parser \<^verbatim>\<open>fdt_rs\<close>.

  The parser is a parameter: \<open>dev_tree\<close> is what \<^verbatim>\<open>DevTree::nodes\<close> iterates over (the nodes, each with
  its properties), and the parser itself is the argument \<open>parse\<close> of \<open>from_raw_pointer\<close>,
  \<open>None\<close> when it rejects the input. A property has a name (\<^verbatim>\<open>name()\<close>), a string value (\<^verbatim>\<open>str()\<close>), numbers
  (\<^verbatim>\<open>u64(i)\<close>) and its value as UTF-8 text, each \<open>None\<close> when the parser reports an error.
\<close>

record dev_prop =
  prop_name :: "string option"
  prop_str :: "string option"
  prop_u64 :: "nat \<Rightarrow> usize option"
  prop_utf8 :: "string option"

type_synonym dev_node = "dev_prop list"
type_synonym dev_tree = "dev_node list"

text \<open>\<^verbatim>\<open>FallibleIterator::any\<close> and \<^verbatim>\<open>find\<close>: an error of the closure ends the iteration.\<close>

primrec fallible_any :: "('a \<Rightarrow> bool option) \<Rightarrow> 'a list \<Rightarrow> bool option" where
  "fallible_any f [] = Some False"
| "fallible_any f (x # xs) = (case f x of
      None \<Rightarrow> None | Some b \<Rightarrow> if b then Some True else fallible_any f xs)"

primrec fallible_find :: "('a \<Rightarrow> bool option) \<Rightarrow> 'a list \<Rightarrow> 'a option option" where
  "fallible_find f [] = Some None"
| "fallible_find f (x # xs) = (case f x of
      None \<Rightarrow> None | Some b \<Rightarrow> if b then Some (Some x) else fallible_find f xs)"

definition has_device_type :: "string \<Rightarrow> dev_prop \<Rightarrow> bool option" where
  "has_device_type kind p = (case prop_name p of
      None \<Rightarrow> None
    | Some n \<Rightarrow> if n = ''device_type'' then map_option (\<lambda>v. v = kind) (prop_str p) else Some False)"

definition from_raw_pointer ::
    "(usize \<Rightarrow> dev_tree option) \<Rightarrow> usize \<Rightarrow> (fdt_error, dev_tree) result" where
  "from_raw_pointer parse address =
     and_then (align_offset address 4) (\<lambda>off.
     if off \<noteq> 0 then Err FdtPointerNotAligned
     else ok_or (parse address) FdtErrorParsing)"

definition harts :: "dev_tree \<Rightarrow> dev_node list" where
  "harts tree = filter (\<lambda>n. fallible_any (has_device_type ''cpu'') n = Some True) tree"

record fdt_memory_region =
  region_base :: usize
  region_size :: usize

text \<open>\<^verbatim>\<open>memory\<close> searches the properties of all nodes in order; \<^verbatim>\<open>mem_prop.node()\<close> is the node of the
  property it finds.\<close>

definition memory :: "dev_tree \<Rightarrow> (fdt_error, fdt_memory_region) result" where
  "memory tree =
     and_then (ok_or (fallible_find (\<lambda>(n, p). has_device_type ''memory'' p)
                 (concat (map (\<lambda>n. map (\<lambda>p. (n, p)) n) tree))) FdtErrorParsing) (\<lambda>found.
     and_then (ok_or found NoMemoryNode) (\<lambda>(node, _).
     and_then (ok_or (fallible_find (\<lambda>p. Some (case prop_name p of
                 None \<Rightarrow> ''empty'' = ''reg'' | Some n \<Rightarrow> n = ''reg'')) node) FdtErrorParsing) (\<lambda>found.
     and_then (ok_or found NoMemoryNode) (\<lambda>reg_prop.
     and_then (ok_or (prop_u64 reg_prop 0) FdtErrorParsing) (\<lambda>b.
     and_then (ok_or (prop_u64 reg_prop 1) FdtErrorParsing) (\<lambda>sz.
     Ok \<lparr>region_base = b, region_size = sz\<rparr>))))))"

text \<open>\<^verbatim>\<open>property_str\<close>: the text of the property without its final NUL character.\<close>

definition strip_nul :: "string \<Rightarrow> string option" where
  "strip_nul v = (if v \<noteq> [] \<and> last v = CHR 0x00 then Some (butlast v) else None)"

definition property_str :: "dev_node \<Rightarrow> string \<Rightarrow> string option" where
  "property_str node name =
     (case fallible_find (\<lambda>p. map_option (\<lambda>n. n = name) (prop_name p)) node of
        Some (Some prop) \<Rightarrow> Option.bind (prop_utf8 prop) strip_nul
      | _ \<Rightarrow> None)"

end
