(* ===== verification/Control_Data.thy ===== *)
theory Control_Data
  imports Hardware_Hart Device_Tree "HOL-Library.AList"
begin

text \<open>
  \<^verbatim>\<open>core/control_data/confidential_vm.rs\<close>, \<^verbatim>\<open>storage.rs\<close>, \<^verbatim>\<open>confidential_vm_measurement.rs\<close> and
  \<^verbatim>\<open>core/interrupt_controller/mod.rs\<close>.

  \<^item> \<open>environment\<close> collects what the monitor calls but does not contain: OpenSBI's functions, the crates
    \<^verbatim>\<open>riscv_decode\<close> and \<^verbatim>\<open>fdt_rs\<close>, the addresses of assembly entry points and of the dump areas.
    The result of \<^verbatim>\<open>sbi_ipi_send_smode\<close> may depend on all IPIs sent so far.
  \<^item> \<open>monitor\<close> is the state a hart of the monitor works on: the executing hart plus the global
    variables \<^verbatim>\<open>CONTROL_DATA\<close> and \<^verbatim>\<open>INTERRUPT_CONTROLLER\<close>. A \<^verbatim>\<open>BTreeMap\<close> is an
    association list with distinct keys. Locks order the accesses of different harts; each
    closure that runs under a lock is one step here.
  \<^item> An operation on a VM inside the control data is a computation on the pair of the VM and the rest
    of the state; \<open>try_confidential_vm\<close> takes the VM out, runs it and puts it back.
\<close>

record environment =
  layout :: memory_layout
  riscv_decode :: "32 word \<Rightarrow> instruction option"
  instruction_length :: "16 word \<Rightarrow> usize"
  sbi_ipi_send_smode :: "(usize \<times> usize) list \<Rightarrow> usize"
  sbi_trap_handler :: "sbi_trap_regs \<Rightarrow> csr_file \<Rightarrow> sbi_trap_regs \<times> csr_file"
  parse_device_tree :: "(usize \<Rightarrow> usize) \<Rightarrow> usize \<Rightarrow> dev_tree option"
  enter_from_confidential_hart_asm :: usize
  enter_from_hypervisor_or_vm_asm :: usize
  hardware_hart_address :: "usize \<Rightarrow> usize"
  confidential_hart_address :: "usize \<Rightarrow> usize"

type_synonym confidential_vm_measurement = "8 word list"

definition ConfidentialVmMeasurement_empty :: confidential_vm_measurement where
  "ConfidentialVmMeasurement_empty = replicate (512 div 8) 0"

record confidential_vm =
  vm_id :: confidential_vm_id
  measurements :: "confidential_vm_measurement list"
  confidential_harts :: "confidential_hart list"
  memory_protector :: confidential_vm_memory_protector
  inter_hart_requests :: "usize \<rightharpoonup> inter_hart_request list"

record control_data =
  confidential_vms :: "(confidential_vm_id \<times> confidential_vm) list"

record monitor = executing_hart +
  CONTROL_DATA :: "control_data option"
  INTERRUPT_CONTROLLER :: bool
  ipis :: "(usize \<times> usize) list"

section \<open>The interrupt controller\<close>

definition InterruptController_initialize :: "('z monitor_scheme, error, unit) st" where
  "InterruptController_initialize s =
     (if INTERRUPT_CONTROLLER s then (Err Reinitialization, s)
      else (Ok (), s\<lparr>INTERRUPT_CONTROLLER := True\<rparr>))"

definition send_ipi :: "environment \<Rightarrow> usize \<Rightarrow> ('z monitor_scheme, error, unit) st" where
  "send_ipi env target_hart_id s =
     (if \<not> INTERRUPT_CONTROLLER s then (Panic, s)
      else
        let s = s\<lparr>ipis := ipis s @ [(1, target_hart_id)]\<rparr>
        in if sbi_ipi_send_smode env (ipis s) = 0 then (Ok (), s) else (Err InterruptSendingError, s))"

section \<open>Confidential VMs\<close>

definition MAX_NUMBER_OF_REMOTE_HART_REQUESTS :: nat where "MAX_NUMBER_OF_REMOTE_HART_REQUESTS = 64"
definition MAX_NUMBER_OF_HARTS_PER_VM :: nat where "MAX_NUMBER_OF_HARTS_PER_VM = 1024"

definition ConfidentialVm_new ::
    "confidential_vm_id \<Rightarrow> confidential_hart list \<Rightarrow> confidential_vm_measurement list
     \<Rightarrow> confidential_vm_memory_protector \<Rightarrow> confidential_vm res" where
  "ConfidentialVm_new i hs ms protector =
     and_then (protector_set_confidential_vm_id i protector) (\<lambda>protector.
     let hs = map (ConfidentialHart_set_confidential_vm_id i) hs;
         requests = foldl (\<lambda>m h. m(confidential_hart_id h \<mapsto> [])) Map.empty hs
     in Ok \<lparr>vm_id = i, measurements = ms, confidential_harts = hs, memory_protector = protector,
            inter_hart_requests = requests\<rparr>)"

definition nth_hart :: "confidential_vm \<Rightarrow> usize \<Rightarrow> confidential_hart option" where
  "nth_hart vm i =
     (if unat i < length (confidential_harts vm) then Some (confidential_harts vm ! unat i) else None)"

definition set_hart :: "usize \<Rightarrow> confidential_hart \<Rightarrow> confidential_vm \<Rightarrow> confidential_vm" where
  "set_hart i h vm = vm\<lparr>confidential_harts := (confidential_harts vm)[unat i := h]\<rparr>"

definition steal_confidential_hart ::
    "usize \<Rightarrow> (confidential_vm \<times> 'z monitor_scheme, error, unit) st" where
  "steal_confidential_hart i = (\<lambda>(vm, s).
     case nth_hart vm i of
       None \<Rightarrow> (Err InvalidHartId, (vm, s))
     | Some h \<Rightarrow>
         if is_dummy h then (Err HartAlreadyRunning, (vm, s))
         else if \<not> is_executable h then (Err HartNotExecutable, (vm, s))
         else
           let (interrupts_to_inject, s) = HardwareHart_store_control_status_registers s;
               (h, f) = ConfidentialHart_load_control_status_registers interrupts_to_inject h (csrs s);
               s = s\<lparr>csrs := f\<rparr>;
               vm = set_hart i (assigned_hart (hardware s)) vm;
               s = set_assigned_hart h s;
               s = protector_enable (memory_protector vm) s
           in (Ok (), (vm, s)))"

definition return_confidential_hart :: "(confidential_vm \<times> 'z monitor_scheme, error, unit) st" where
  "return_confidential_hart = (\<lambda>(vm, s).
     let h = assigned_hart (hardware s); i = confidential_hart_id h in
     if is_dummy h \<or> Some (vm_id vm) \<noteq> hart_vm_id h \<or> \<not> length (confidential_harts vm) > unat i
     then (Panic, (vm, s))
     else
       let s = set_assigned_hart (confidential_harts vm ! unat i) s;
           (enabled_interrupts, h) = ConfidentialHart_store_control_status_registers (csrs s) h;
           vm = set_hart i h vm
       in case HardwareHart_load_control_status_registers enabled_interrupts s of
            (Ok _, s) \<Rightarrow> (Ok (), (vm, enable_hypervisor_memory_protector s))
          | (Err e, s) \<Rightarrow> (Err e, (vm, s))
          | (Panic, s) \<Rightarrow> (Panic, (vm, s)))"

definition are_all_harts_shutdown :: "confidential_vm \<Rightarrow> bool" where
  "are_all_harts_shutdown vm \<longleftrightarrow>
     length (filter (\<lambda>h. lifecycle_state h \<noteq> Shutdown) (confidential_harts vm)) = 0"

definition transit_confidential_hart_to_start_pending ::
    "sbi_hsm_hart_start \<Rightarrow> (confidential_vm \<times> 'z monitor_scheme, error, unit) st" where
  "transit_confidential_hart_to_start_pending request = (\<lambda>(vm, s).
     case nth_hart vm (start_confidential_hart_id request) of
       None \<Rightarrow> (Err InvalidHartId, (vm, s))
     | Some h \<Rightarrow>
         (case transition_from_stopped_to_start_pending request h of
            Ok h \<Rightarrow> (Ok (), (set_hart (start_confidential_hart_id request) h vm, s))
          | Err e \<Rightarrow> (Err e, (vm, s))
          | Panic \<Rightarrow> (Panic, (vm, s))))"

definition try_inter_hart_requests ::
    "usize \<Rightarrow> (inter_hart_request list \<Rightarrow> 'a res \<times> inter_hart_request list)
     \<Rightarrow> (confidential_vm \<times> 'z monitor_scheme, error, 'a) st" where
  "try_inter_hart_requests i op = (\<lambda>(vm, s).
     case inter_hart_requests vm i of
       None \<Rightarrow> (Err InvalidHartId, (vm, s))
     | Some q \<Rightarrow> (case op q of (r, q) \<Rightarrow>
         (r, (vm\<lparr>inter_hart_requests := (inter_hart_requests vm)(i \<mapsto> q)\<rparr>, s))))"

definition push_request ::
    "inter_hart_request \<Rightarrow> inter_hart_request list \<Rightarrow> unit res \<times> inter_hart_request list" where
  "push_request r q =
     (if length q < MAX_NUMBER_OF_REMOTE_HART_REQUESTS then (Ok (), q @ [r])
      else (Err ReachedMaxNumberOfRemoteHartRequests, q))"

text \<open>The body of the loop of \<^verbatim>\<open>broadcast_inter_hart_request\<close> for one selected hart.\<close>

definition deliver_request ::
    "environment \<Rightarrow> inter_hart_request \<Rightarrow> usize \<Rightarrow> (confidential_vm \<times> 'z monitor_scheme, error, unit) st" where
  "deliver_request env request i = (\<lambda>(vm, s).
     case nth_hart vm i of
       None \<Rightarrow> (Panic, (vm, s))
     | Some h \<Rightarrow>
         if \<not> is_dummy h then
           let transition = into_expose_to_confidential_vm request in
           (case ConfidentialHart_apply transition h of
              Ok h \<Rightarrow> (Ok (), (set_hart i h vm,
                        s\<lparr>fences := fences s @ transformation_fences transition\<rparr>))
            | Err e \<Rightarrow> (Err e, (vm, s))
            | Panic \<Rightarrow> (Panic, (vm, s)))
         else
           (case try_inter_hart_requests i (push_request request) (vm, s) of
              (Ok _, (vm, s)) \<Rightarrow>
                (case send_ipi env (confidential_hart_id h) s of (r, s) \<Rightarrow> (r, (vm, s)))
            | (r, vs) \<Rightarrow> (r, vs)))"

definition ConfidentialVm_broadcast_inter_hart_request ::
    "environment \<Rightarrow> inter_hart_request \<Rightarrow> (confidential_vm \<times> 'z monitor_scheme, error, unit) st" where
  "ConfidentialVm_broadcast_inter_hart_request env request = (\<lambda>(vm, s).
     for_each (deliver_request env request)
       (filter (is_hart_selected request) (map of_nat [0..<length (confidential_harts vm)])) (vm, s))"

definition confidential_hart_lifecycle_state ::
    "usize \<Rightarrow> confidential_vm \<Rightarrow> hart_lifecycle_state res" where
  "confidential_hart_lifecycle_state i vm =
     and_then (assure (unat i < length (confidential_harts vm)) InvalidHartId) (\<lambda>_.
     Ok (lifecycle_state (confidential_harts vm ! unat i)))"

section \<open>The control data\<close>

definition ControlData_new :: control_data where
  "ControlData_new = \<lparr>confidential_vms = []\<rparr>"

definition checked_add :: "usize \<Rightarrow> usize \<Rightarrow> usize option" where
  "checked_add a b = (if unat a + unat b < 2 ^ 64 then Some (a + b) else None)"

definition unique_id :: "control_data \<Rightarrow> confidential_vm_id res" where
  "unique_id cd =
     ok_or (case map fst (confidential_vms cd) of
              [] \<Rightarrow> Some 0
            | k # ks \<Rightarrow> checked_add (fold max ks k) 1) TooManyConfidentialVms"

definition insert_confidential_vm ::
    "confidential_vm \<Rightarrow> control_data \<Rightarrow> confidential_vm_id res \<times> control_data" where
  "insert_confidential_vm vm cd =
     (let i = vm_id vm in
      if map_of (confidential_vms cd) i = None
      then (Ok i, cd\<lparr>confidential_vms := AList.update i vm (confidential_vms cd)\<rparr>)
      else (Err InvalidConfidentialVmId, cd))"

definition ControlData_confidential_vm :: "control_data \<Rightarrow> confidential_vm_id \<Rightarrow> confidential_vm res" where
  "ControlData_confidential_vm cd i = ok_or (map_of (confidential_vms cd) i) InvalidConfidentialVmId"

definition control_data_try_write ::
    "(control_data \<Rightarrow> 'a res \<times> control_data) \<Rightarrow> ('z monitor_scheme, error, 'a) st" where
  "control_data_try_write op s = (case CONTROL_DATA s of
      None \<Rightarrow> (Panic, s)
    | Some cd \<Rightarrow> (case op cd of (r, cd) \<Rightarrow> (r, s\<lparr>CONTROL_DATA := Some cd\<rparr>)))"

definition remove_confidential_vm ::
    "confidential_vm_id \<Rightarrow> ('z monitor_scheme, error, confidential_vm) st" where
  "remove_confidential_vm i = control_data_try_write (\<lambda>cd.
     case ControlData_confidential_vm cd i of
       Ok vm \<Rightarrow>
         if are_all_harts_shutdown vm
         then (Ok vm, cd\<lparr>confidential_vms := AList.delete i (confidential_vms cd)\<rparr>)
         else (Err HartAlreadyRunning, cd)
     | Err e \<Rightarrow> (Err e, cd)
     | Panic \<Rightarrow> (Panic, cd))"

text \<open>The value that \<^verbatim>\<open>remove_confidential_vm\<close> returns is dropped by its callers; dropping a VM drops
  its page tables.\<close>

definition drop_vm :: "confidential_vm \<Rightarrow> ('z alloc_state_scheme, error, unit) st" where
  "drop_vm vm = drop_table (root_table (protector_root_page_table (memory_protector vm)))"

definition try_confidential_vm ::
    "confidential_vm_id \<Rightarrow> (confidential_vm \<times> 'z monitor_scheme, error, 'a) st
     \<Rightarrow> ('z monitor_scheme, error, 'a) st" where
  "try_confidential_vm i op s = (case CONTROL_DATA s of
      None \<Rightarrow> (Panic, s)
    | Some cd \<Rightarrow> (case ControlData_confidential_vm cd i of
        Ok vm \<Rightarrow> (case op (vm, s) of (r, (vm, s)) \<Rightarrow>
          (r, s\<lparr>CONTROL_DATA := Some (cd\<lparr>confidential_vms := AList.update i vm (confidential_vms cd)\<rparr>)\<rparr>))
      | Err e \<Rightarrow> (Err e, s)
      | Panic \<Rightarrow> (Panic, s)))"

end
