(* ===== verification/Flows.thy ===== *)
theory Flows
  imports Control_Data
begin

text \<open>
  \<^verbatim>\<open>confidential_flow/\<close> and \<^verbatim>\<open>non_confidential_flow/\<close>: the control flow of the monitor between a trap and
  the return to a confidential hart or to the hypervisor, with every handler.

  \<^item> A handler returns \<^verbatim>\<open>!\<close>: it ends in one of the two assembly exits. Here it returns the \<open>exit\<close> it
    takes, in the state the exit starts from, or it panics.
  \<^item> \<^verbatim>\<open>ConfidentialFlow\<close> and \<^verbatim>\<open>NonConfidentialFlow\<close> are tokens for the \<^verbatim>\<open>HardwareHart\<close> in the state
    (\<open>hardware\<close>); their constructors assert that a confidential hart is, or is not, assigned.
  \<^item> \<open>set_pending_request\<close> may leave the handler early, so it takes the rest of the handler as an
    argument.
\<close>

datatype exit = ExitToConfidentialHart | ExitToHypervisor

section \<open>Exits and transitions between the flows\<close>

definition modify :: "('s \<Rightarrow> 's) \<Rightarrow> ('s, 'e, unit) st" where
  "modify f s = (Ok (), f s)"

definition ConfidentialFlow_create :: "('z monitor_scheme, error, unit) st" where
  "ConfidentialFlow_create s = (assert_that (\<not> is_dummy (assigned_hart (hardware s))), s)"

definition NonConfidentialFlow_create :: "('z monitor_scheme, error, unit) st" where
  "NonConfidentialFlow_create s = (assert_that (is_dummy (assigned_hart (hardware s))), s)"

text \<open>\<^verbatim>\<open>hardware_hart.confidential_hart_mut()\<close> followed by an operation on the hart.\<close>

definition on_assigned_hart ::
    "(confidential_hart \<Rightarrow> confidential_hart res) \<Rightarrow> ('z monitor_scheme, error, unit) st" where
  "on_assigned_hart f s = (case f (assigned_hart (hardware s)) of
      Ok h \<Rightarrow> (Ok (), set_assigned_hart h s) | Err e \<Rightarrow> (Err e, s) | Panic \<Rightarrow> (Panic, s))"

definition apply_to_assigned_hart :: "expose_to_confidential_vm \<Rightarrow> ('z monitor_scheme, error, unit) st" where
  "apply_to_assigned_hart t =
     sbind (on_assigned_hart (ConfidentialHart_apply t)) (\<lambda>_.
     modify (\<lambda>s. s\<lparr>fences := fences s @ transformation_fences t\<rparr>))"

definition exit_to_confidential_hart ::
    "environment \<Rightarrow> expose_to_confidential_vm \<Rightarrow> ('z monitor_scheme, error, exit) st" where
  "exit_to_confidential_hart env t =
     sbind (apply_to_assigned_hart t) (\<lambda>_.
     sbind (modify (\<lambda>s. s\<lparr>csrs := ConfidentialHart_load_volatile
              (confidential_hart_address env (hart_id (hypervisor_state s)))
              (assigned_hart (hardware s)) (csrs s)\<rparr>)) (\<lambda>_.
     ret ExitToConfidentialHart))"

definition exit_to_hypervisor :: "expose_to_hypervisor \<Rightarrow> ('z monitor_scheme, error, exit) st" where
  "exit_to_hypervisor t =
     sbind (HardwareHart_apply t) (\<lambda>_.
     sbind (modify HardwareHart_load_volatile) (\<lambda>_.
     ret ExitToHypervisor))"

definition flow_vm_id :: "('z monitor_scheme, error, confidential_vm_id) st" where
  "flow_vm_id s = (unwrap_option (hart_vm_id (assigned_hart (hardware s))), s)"

definition flow_hart_id :: "'z monitor_scheme \<Rightarrow> usize" where
  "flow_hart_id s = confidential_hart_id (assigned_hart (hardware s))"

definition is_confidential_hart_shutdown :: "'z monitor_scheme \<Rightarrow> bool" where
  "is_confidential_hart_shutdown s \<longleftrightarrow> lifecycle_state (assigned_hart (hardware s)) = Shutdown"

definition into_non_confidential_flow :: "('z monitor_scheme, error, unit) st" where
  "into_non_confidential_flow =
     sbind flow_vm_id (\<lambda>i.
     sunwrap (try_confidential_vm i
       (sbind return_confidential_hart (\<lambda>_.
        (\<lambda>(vm, s). case NonConfidentialFlow_create s of (r, s) \<Rightarrow> (r, (vm, s)))))))"

definition flow_set_pending_request ::
    "environment \<Rightarrow> pending_request \<Rightarrow> ('z monitor_scheme, error, exit) st
     \<Rightarrow> ('z monitor_scheme, error, exit) st" where
  "flow_set_pending_request env request continue s =
     (case on_assigned_hart (ConfidentialHart_set_pending_request request) s of
        (Ok _, s) \<Rightarrow> continue s
      | (Err e, s) \<Rightarrow> exit_to_confidential_hart env (into_confidential_transformation e) s
      | (Panic, s) \<Rightarrow> (Panic, s))"

definition broadcast_inter_hart_request ::
    "environment \<Rightarrow> inter_hart_request \<Rightarrow> ('z monitor_scheme, error, unit) st" where
  "broadcast_inter_hart_request env request =
     sbind flow_vm_id (\<lambda>i.
     try_confidential_vm i (\<lambda>(vm, s).
       case ConfidentialVm_broadcast_inter_hart_request env request (vm, swap_mscratch s) of
         (Panic, vs) \<Rightarrow> (Panic, vs)
       | (r, (vm, s)) \<Rightarrow> (r, (vm, swap_mscratch s))))"

definition process_inter_hart_requests :: "('z monitor_scheme, error, unit) st" where
  "process_inter_hart_requests =
     sbind flow_vm_id (\<lambda>i.
     sunwrap (try_confidential_vm i (\<lambda>(vm, s).
       case try_inter_hart_requests (flow_hart_id s) (\<lambda>q. (Ok q, [])) (vm, s) of
         (Ok q, (vm, s)) \<Rightarrow>
           (case for_each (\<lambda>r. apply_to_assigned_hart (into_expose_to_confidential_vm r)) q s of
              (r, s) \<Rightarrow> (r, (vm, s)))
       | (Err e, vs) \<Rightarrow> (Err e, vs)
       | (Panic, vs) \<Rightarrow> (Panic, vs))))"

text \<open>\<^verbatim>\<open>result.and_then(|_| Ok(t)).unwrap_or_else(|e| e.into_confidential_transformation())\<close> followed by
  the exit to the confidential hart.\<close>

definition exit_with ::
    "environment \<Rightarrow> ('z monitor_scheme, error, 'a) st \<Rightarrow> ('a \<Rightarrow> expose_to_confidential_vm)
     \<Rightarrow> ('z monitor_scheme, error, exit) st" where
  "exit_with env m t s = (case m s of
      (Ok a, s) \<Rightarrow> exit_to_confidential_hart env (t a) s
    | (Err e, s) \<Rightarrow> exit_to_confidential_hart env (into_confidential_transformation e) s
    | (Panic, s) \<Rightarrow> (Panic, s))"

section \<open>Handlers of the confidential flow\<close>

definition hypercall :: "environment \<Rightarrow> sbi_request \<Rightarrow> ('z monitor_scheme, error, exit) st" where
  "hypercall env request =
     flow_set_pending_request env PendingSbiRequest
       (sbind into_non_confidential_flow (\<lambda>_. exit_to_hypervisor (ExposeSbiRequest request)))"

definition guest_load_page_fault ::
    "environment \<Rightarrow> (guest_load_page_fault_request \<times> mmio_load_request) res
     \<Rightarrow> ('z monitor_scheme, error, exit) st" where
  "guest_load_page_fault env load_fault_request = (case load_fault_request of
      Ok (request, mmio) \<Rightarrow>
        flow_set_pending_request env (PendingGuestLoadPageFault request)
          (sbind into_non_confidential_flow (\<lambda>_. exit_to_hypervisor (ExposeMmioLoadRequest mmio)))
    | Err e \<Rightarrow> sbind into_non_confidential_flow (\<lambda>_.
        exit_to_hypervisor (into_non_confidential_transformation e))
    | Panic \<Rightarrow> lift Panic)"

definition guest_store_page_fault ::
    "environment \<Rightarrow> (guest_store_page_fault_request \<times> mmio_store_request) res
     \<Rightarrow> ('z monitor_scheme, error, exit) st" where
  "guest_store_page_fault env store_page_fault_request = (case store_page_fault_request of
      Ok (request, mmio) \<Rightarrow>
        flow_set_pending_request env (PendingGuestStorePageFault request)
          (sbind into_non_confidential_flow (\<lambda>_. exit_to_hypervisor (ExposeMmioStoreRequest mmio)))
    | Err e \<Rightarrow> sbind into_non_confidential_flow (\<lambda>_.
        exit_to_hypervisor (into_non_confidential_transformation e))
    | Panic \<Rightarrow> lift Panic)"

definition shutdown_confidential_hart :: "('z monitor_scheme, error, exit) st" where
  "shutdown_confidential_hart =
     sbind flow_vm_id (\<lambda>i.
     sbind (on_assigned_hart transition_to_shutdown) (\<lambda>_.
     sbind into_non_confidential_flow (\<lambda>_.
     sbind (\<lambda>s. case remove_confidential_vm i s of
               (Ok vm, s) \<Rightarrow> drop_vm vm s
             | (Err e, s) \<Rightarrow> (Ok (), s)
             | (Panic, s) \<Rightarrow> (Panic, s)) (\<lambda>_.
     exit_to_hypervisor (ExposeSbiRequest kvm_srst_system_reset)))))"

definition exit_on_interrupt :: "usize \<Rightarrow> ('z monitor_scheme, error, exit) st" where
  "exit_on_interrupt mip =
     (if mip AND (MIE_MTIP_MASK OR MIE_STIP_MASK) > 0
      then sbind into_non_confidential_flow (\<lambda>_.
             exit_to_hypervisor (ExposeInterruptRequest \<lparr>interrupt_code = of_nat MIE_STIP\<rparr>))
      else sbind into_non_confidential_flow (\<lambda>_.
             exit_to_hypervisor (ExposeSbiResult (SbiResult_success 0))))"

definition interrupt :: "environment \<Rightarrow> ('z monitor_scheme, error, exit) st" where
  "interrupt env s =
     (let mip = read_csr (csrs s) CSR_MIP in
      (if mip AND MIE_SSIP_MASK > 0
       then sbind process_inter_hart_requests (\<lambda>_ s.
              if is_confidential_hart_shutdown s then shutdown_confidential_hart s
              else exit_on_interrupt mip s)
       else exit_on_interrupt mip) s)"

definition invalid_call :: "environment \<Rightarrow> ('z monitor_scheme, error, exit) st" where
  "invalid_call env s =
     exit_to_confidential_hart env
       (into_confidential_transformation (InvalidCall (read_csr (csrs s) CSR_MCAUSE))) s"

definition sbi_hsm_hart_start_handler ::
    "environment \<Rightarrow> sbi_hsm_hart_start \<Rightarrow> ('z monitor_scheme, error, exit) st" where
  "sbi_hsm_hart_start_handler env request s =
     (case sbind flow_vm_id (\<lambda>i.
             try_confidential_vm i (transit_confidential_hart_to_start_pending request)) s of
        (Ok _, s) \<Rightarrow>
          flow_set_pending_request env PendingSbiHsmHartStart
            (sbind into_non_confidential_flow (\<lambda>_.
             exit_to_hypervisor (ExposeSbiRequest
               (kvm_hsm_hart_start (start_confidential_hart_id request))))) s
      | (Err e, s) \<Rightarrow> exit_to_confidential_hart env (into_confidential_transformation e) s
      | (Panic, s) \<Rightarrow> (Panic, s))"

definition sbi_hsm_hart_status_handler ::
    "environment \<Rightarrow> sbi_hsm_hart_status \<Rightarrow> ('z monitor_scheme, error, exit) st" where
  "sbi_hsm_hart_status_handler env request =
     exit_with env
       (sbind flow_vm_id (\<lambda>i. try_confidential_vm i (\<lambda>(vm, s).
          (confidential_hart_lifecycle_state (status_confidential_hart_id request) vm, (vm, s)))))
       (\<lambda>lifecycle. ApplySbiResult (SbiResult_success (sbi_code lifecycle)))"

definition sbi_hsm_hart_stop_handler :: "environment \<Rightarrow> ('z monitor_scheme, error, exit) st" where
  "sbi_hsm_hart_stop_handler env s = (case on_assigned_hart transition_from_started_to_stopped s of
      (Ok _, s) \<Rightarrow> sbind into_non_confidential_flow (\<lambda>_.
        exit_to_hypervisor (ExposeSbiRequest kvm_hsm_hart_stop)) s
    | (Err e, s) \<Rightarrow> exit_to_confidential_hart env (into_confidential_transformation e) s
    | (Panic, s) \<Rightarrow> (Panic, s))"

definition sbi_hsm_hart_suspend_handler ::
    "environment \<Rightarrow> sbi_hsm_hart_suspend \<Rightarrow> ('z monitor_scheme, error, exit) st" where
  "sbi_hsm_hart_suspend_handler env request s =
     (case on_assigned_hart (transition_from_started_to_suspended request) s of
        (Ok _, s) \<Rightarrow> sbind into_non_confidential_flow (\<lambda>_.
          exit_to_hypervisor (ExposeSbiRequest kvm_hsm_hart_suspend)) s
      | (Err e, s) \<Rightarrow> exit_to_confidential_hart env (into_confidential_transformation e) s
      | (Panic, s) \<Rightarrow> (Panic, s))"

definition sbi_ipi_handler ::
    "environment \<Rightarrow> inter_hart_request \<Rightarrow> ('z monitor_scheme, error, exit) st" where
  "sbi_ipi_handler env request =
     exit_with env (broadcast_inter_hart_request env request)
       (\<lambda>_. ApplySbiResult (SbiResult_success 0))"

definition sbi_probe_extension ::
    "environment \<Rightarrow> sbi_request \<Rightarrow> ('z monitor_scheme, error, exit) st" where
  "sbi_probe_extension env request =
     (let i = request_a0 request;
          response = (if i = AceExtension_EXTID then 1 else if i = BaseExtension_EXTID then 1
            else if i = IpiExtension_EXTID then 1 else if i = RfenceExtension_EXTID then 1
            else if i = HsmExtension_EXTID then 1 else if i = SrstExtension_EXTID then 1 else 0)
      in exit_to_confidential_hart env (ApplySbiResult (SbiResult_success response)))"

definition sbi_rfence_nop :: "environment \<Rightarrow> ('z monitor_scheme, error, exit) st" where
  "sbi_rfence_nop env = exit_to_confidential_hart env (ApplySbiResult (SbiResult_success 0))"

definition sbi_srst :: "environment \<Rightarrow> ('z monitor_scheme, error, exit) st" where
  "sbi_srst env s =
     (let shutdown_ipi = InterHartSbiSrstSystemReset
            \<lparr>initiating_confidential_hart_id = flow_hart_id s\<rparr>
      in case broadcast_inter_hart_request env shutdown_ipi s of
           (Ok _, s) \<Rightarrow> shutdown_confidential_hart s
         | (Err e, s) \<Rightarrow> exit_to_confidential_hart env (into_confidential_transformation e) s
         | (Panic, s) \<Rightarrow> (Panic, s))"

definition share_page ::
    "environment \<Rightarrow> (share_page_request \<times> sbi_request) res \<Rightarrow> ('z monitor_scheme, error, exit) st" where
  "share_page env request = (case request of
      Ok (share_request, sbi_request) \<Rightarrow>
        flow_set_pending_request env (PendingSharePage share_request)
          (sbind into_non_confidential_flow (\<lambda>_. exit_to_hypervisor (ExposeSbiRequest sbi_request)))
    | Err e \<Rightarrow> exit_to_confidential_hart env (into_confidential_transformation e)
    | Panic \<Rightarrow> lift Panic)"

definition unshare_page ::
    "environment \<Rightarrow> unshare_page_request res \<Rightarrow> ('z monitor_scheme, error, exit) st" where
  "unshare_page env request = (case request of
      Ok r \<Rightarrow> exit_with env
        (sbind flow_vm_id (\<lambda>i. try_confidential_vm i (\<lambda>(vm, s).
           case protector_unmap_shared_page (unshare_address r) (memory_protector vm) s of
             (Ok p, s) \<Rightarrow> (Ok (), (vm\<lparr>memory_protector := p\<rparr>, s))
           | (Err e, s) \<Rightarrow> (Err e, (vm, s))
           | (Panic, s) \<Rightarrow> (Panic, (vm, s)))))
        (\<lambda>_. ApplySbiResult (SbiResult_success 0))
    | Err e \<Rightarrow> exit_to_confidential_hart env (into_confidential_transformation e)
    | Panic \<Rightarrow> lift Panic)"

definition WFI_INSTRUCTION :: usize where "WFI_INSTRUCTION = 0x10500073"

definition virtual_instruction_handler ::
    "environment \<Rightarrow> virtual_instruction_request \<Rightarrow> ('z monitor_scheme, error, exit) st" where
  "virtual_instruction_handler env request =
     (if virtual_instruction request = WFI_INSTRUCTION
      then exit_to_confidential_hart env (ApplyVirtualInstructionResult
             \<lparr>virtual_result_instruction_length = virtual_instruction_length request\<rparr>)
      else lift Panic)"

section \<open>Handlers of the response of the hypervisor\<close>

definition share_page_result_handler ::
    "environment \<Rightarrow> share_page_result \<Rightarrow> share_page_request \<Rightarrow> ('z monitor_scheme, error, exit) st" where
  "share_page_result_handler env r request =
     sbind flow_vm_id (\<lambda>i.
     if SharePageResult_is_error r
     then exit_to_confidential_hart env (ApplySbiResult (SbiResult_failure (response_code r)))
     else case SharedPage_new (layout env) (hypervisor_page_address r) request of
        Err e \<Rightarrow> exit_to_confidential_hart env (into_confidential_transformation e)
      | Panic \<Rightarrow> lift Panic
      | Ok sp \<Rightarrow> exit_with env
          (try_confidential_vm i (\<lambda>(vm, s).
             case protector_map_shared_page (layout env) sp (memory_protector vm) s of
               (Ok p, s) \<Rightarrow> (Ok (), (vm\<lparr>memory_protector := p\<rparr>, s))
             | (Err e, s) \<Rightarrow> (Err e, (vm, s))
             | (Panic, s) \<Rightarrow> (Panic, (vm, s))))
          (\<lambda>_. ApplySbiResult (SbiResult_success 0)))"

definition handle_response ::
    "environment \<Rightarrow> pending_request option \<Rightarrow> ('z monitor_scheme, error, exit) st" where
  "handle_response env pending s =
     (case pending of
        Some PendingSbiRequest \<Rightarrow> exit_to_confidential_hart env (ApplySbiResult (hypercall_result s))
      | Some (PendingGuestLoadPageFault request) \<Rightarrow> exit_to_confidential_hart env
          (ApplyGuestLoadPageFaultResult (HardwareHart_guest_load_page_fault_result s request))
      | Some (PendingGuestStorePageFault request) \<Rightarrow> exit_to_confidential_hart env
          (ApplyGuestStorePageFaultResult (GuestStorePageFaultResult_new request))
      | Some (PendingSharePage request) \<Rightarrow>
          share_page_result_handler env (HardwareHart_share_page_result s) request
      | Some PendingSbiHsmHartStart \<Rightarrow> exit_to_confidential_hart env ApplySbiHsmHartStart
      | Some PendingSbiHsmHartStartPending \<Rightarrow> exit_to_confidential_hart env ApplySbiHsmHartStartPending
      | None \<Rightarrow> exit_to_confidential_hart env ApplyResume) s"

definition resume_confidential_hart_execution :: "environment \<Rightarrow> ('z monitor_scheme, error, exit) st" where
  "resume_confidential_hart_execution env =
     sbind ConfidentialFlow_create (\<lambda>_.
     sbind process_inter_hart_requests (\<lambda>_ s.
     case take_request (assigned_hart (hardware s)) of (pending, h) \<Rightarrow>
       handle_response env pending (set_assigned_hart h s)))"

section \<open>Routing of a trap from a confidential hart\<close>

definition handle_confidential_trap ::
    "environment \<Rightarrow> trap_cause \<Rightarrow> confidential_hart \<Rightarrow> csr_file \<Rightarrow> ('z monitor_scheme, error, exit) st" where
  "handle_confidential_trap env trap_reason h f = (case trap_reason of
      Interrupt \<Rightarrow> interrupt env
    | VsEcall (Ace SharePageWithHypervisor) \<Rightarrow> share_page env (ConfidentialHart_share_page_request h)
    | VsEcall (Ace StopSharingPageWithHypervisor) \<Rightarrow>
        unshare_page env (ConfidentialHart_unshare_page_request h)
    | VsEcall (Base GetSpecVersion) \<Rightarrow> hypercall env (hypercall_request h)
    | VsEcall (Base GetImplId) \<Rightarrow> hypercall env (hypercall_request h)
    | VsEcall (Base GetImplVersion) \<Rightarrow> hypercall env (hypercall_request h)
    | VsEcall (Base ProbeExtension) \<Rightarrow> sbi_probe_extension env (hypercall_request h)
    | VsEcall (Base GetMvendorId) \<Rightarrow> hypercall env (hypercall_request h)
    | VsEcall (Base GetMarchid) \<Rightarrow> hypercall env (hypercall_request h)
    | VsEcall (Base GetMimpid) \<Rightarrow> hypercall env (hypercall_request h)
    | VsEcall (Ipi SendIpi) \<Rightarrow> sbi_ipi_handler env (ConfidentialHart_sbi_ipi h)
    | VsEcall (Rfence RemoteFenceI) \<Rightarrow> sbi_ipi_handler env (ConfidentialHart_sbi_remote_fence_i h)
    | VsEcall (Rfence RemoteSfenceVma) \<Rightarrow> sbi_ipi_handler env (ConfidentialHart_sbi_remote_sfence_vma h)
    | VsEcall (Rfence RemoteSfenceVmaAsid) \<Rightarrow>
        sbi_ipi_handler env (ConfidentialHart_sbi_remote_sfence_vma_asid h)
    | VsEcall (Rfence RemoteHfenceGvmaVmid) \<Rightarrow> sbi_rfence_nop env
    | VsEcall (Rfence RemoteHfenceGvma) \<Rightarrow> sbi_rfence_nop env
    | VsEcall (Rfence RemoteHfenceVvmaAsid) \<Rightarrow> sbi_rfence_nop env
    | VsEcall (Rfence RemoteHfenceVvma) \<Rightarrow> sbi_rfence_nop env
    | VsEcall (Hsm HartStart) \<Rightarrow> sbi_hsm_hart_start_handler env (ConfidentialHart_sbi_hsm_hart_start h)
    | VsEcall (Hsm HartStop) \<Rightarrow> sbi_hsm_hart_stop_handler env
    | VsEcall (Hsm HartSuspend) \<Rightarrow>
        sbi_hsm_hart_suspend_handler env (ConfidentialHart_sbi_hsm_hart_suspend h)
    | VsEcall (Hsm HartGetStatus) \<Rightarrow>
        sbi_hsm_hart_status_handler env (ConfidentialHart_sbi_hsm_hart_status h)
    | VsEcall (Srst SystemReset) \<Rightarrow> sbi_srst env
    | VsEcall (SbiUnknown _ _) \<Rightarrow> invalid_call env
    | GuestLoadPageFault \<Rightarrow> guest_load_page_fault env
        (ConfidentialHart_guest_load_page_fault_request (riscv_decode env) (instruction_length env) f)
    | VirtualInstruction \<Rightarrow> virtual_instruction_handler env
        (ConfidentialHart_virtual_instruction_request (instruction_length env) f)
    | GuestStorePageFault \<Rightarrow> guest_store_page_fault env
        (ConfidentialHart_guest_store_page_fault_request (riscv_decode env) (instruction_length env) f h)
    | _ \<Rightarrow> lift Panic)"

definition route_confidential_flow :: "environment \<Rightarrow> ('z monitor_scheme, error, exit) st" where
  "route_confidential_flow env =
     sbind (\<lambda>s. on_assigned_hart (\<lambda>h. Ok (ConfidentialHart_store_volatile (csrs s) h)) s) (\<lambda>_.
     sbind ConfidentialFlow_create (\<lambda>_ s.
     let h = assigned_hart (hardware s) in
     handle_confidential_trap env (ConfidentialHart_trap_reason (csrs s) h) h (csrs s) s))"

section \<open>The non-confidential flow\<close>

definition BOOT_HART_ID :: usize where "BOOT_HART_ID = 0"

text \<open>The harts, the device tree and the registration of the VM of \<^verbatim>\<open>create_confidential_vm\<close>.\<close>

definition create_confidential_harts ::
    "environment \<Rightarrow> csr_file \<Rightarrow> nat \<Rightarrow> hart_architectural_state \<Rightarrow> confidential_hart list" where
  "create_confidential_harts env f number_of_confidential_harts hart_state =
     map (\<lambda>i. if i = 0
            then from_vm_hart f (enter_from_confidential_hart_asm env) (of_nat i) hart_state
            else from_vm_hart_reset (enter_from_confidential_hart_asm env) (of_nat i) hart_state)
       [0..<number_of_confidential_harts]"

definition read_device_tree :: "environment \<Rightarrow> usize \<Rightarrow> ('z monitor_scheme, error, dev_tree) st" where
  "read_device_tree env address s =
     (map_err DeviceTreeError (from_raw_pointer (parse_device_tree env (confidential_memory s)) address), s)"

definition register_confidential_vm ::
    "confidential_hart list \<Rightarrow> confidential_vm_memory_protector
     \<Rightarrow> ('z monitor_scheme, error, confidential_vm_id) st" where
  "register_confidential_vm hs protector =
     control_data_try_write (\<lambda>cd.
       case unique_id cd of
         Err e \<Rightarrow> (Err e, cd)
       | Panic \<Rightarrow> (Panic, cd)
       | Ok i \<Rightarrow> (case ConfidentialVm_new i hs (replicate 4 ConfidentialVmMeasurement_empty) protector of
           Err e \<Rightarrow> (Err e, cd)
         | Panic \<Rightarrow> (Panic, cd)
         | Ok vm \<Rightarrow> insert_confidential_vm vm cd))"

definition create_confidential_vm ::
    "environment \<Rightarrow> promote_to_confidential_vm \<Rightarrow> ('z monitor_scheme, error, confidential_vm_id) st" where
  "create_confidential_vm env request =
     (case PromoteToConfidentialVm_into request of (fdt_address, hart_state) \<Rightarrow>
      sbind (from_vm_state (layout env) hart_state) (\<lambda>protector.
      on_error
        (sbind (lift (protector_translate protector fdt_address)) (\<lambda>address.
         sbind (read_device_tree env address) (\<lambda>tree.
         sbind (lift (assure (length (harts tree) < MAX_NUMBER_OF_HARTS_PER_VM)
                  ReachedMaxNumberOfHartsPerVm)) (\<lambda>_ s.
         register_confidential_vm
           (create_confidential_harts env (csrs s) (length (harts tree)) hart_state) protector s))))
        (drop_table (root_table (protector_root_page_table protector)))))"

definition promote_to_confidential_vm_handler ::
    "environment \<Rightarrow> promote_to_confidential_vm \<Rightarrow> ('z monitor_scheme, error, exit) st" where
  "promote_to_confidential_vm_handler env request s = (case create_confidential_vm env request s of
      (Ok i, s) \<Rightarrow> exit_to_hypervisor (ExposeSbiRequest (kvm_ace_register i BOOT_HART_ID)) s
    | (Err e, s) \<Rightarrow> exit_to_hypervisor (into_non_confidential_transformation e) s
    | (Panic, s) \<Rightarrow> (Panic, s))"

definition resume_confidential_hart ::
    "environment \<Rightarrow> resume_request \<Rightarrow> ('z monitor_scheme, error, exit) st" where
  "resume_confidential_hart env request s =
     (case try_confidential_vm (resume_confidential_vm_id request)
             (steal_confidential_hart (resume_confidential_hart_id request)) s of
        (Ok _, s) \<Rightarrow> resume_confidential_hart_execution env s
      | (Err e, s) \<Rightarrow> exit_to_hypervisor (ExposeSbiRequest kvm_srst_system_reset) s
      | (Panic, s) \<Rightarrow> (Panic, s))"

definition terminate_confidential_vm :: "terminate_request \<Rightarrow> ('z monitor_scheme, error, exit) st" where
  "terminate_confidential_vm request s =
     (case sbind (remove_confidential_vm (terminate_confidential_vm_id request)) drop_vm s of
        (Ok _, s) \<Rightarrow> exit_to_hypervisor (ExposeSbiResult (SbiResult_success 0)) s
      | (Err e, s) \<Rightarrow> exit_to_hypervisor (into_non_confidential_transformation e) s
      | (Panic, s) \<Rightarrow> (Panic, s))"

definition delegate_hypercall :: "sbi_vm_request \<Rightarrow> ('z monitor_scheme, error, exit) st" where
  "delegate_hypercall request = exit_to_hypervisor (ExposeSbiVmRequest request)"

definition delegate_to_opensbi :: "environment \<Rightarrow> opensbi_request \<Rightarrow> ('z monitor_scheme, error, exit) st" where
  "delegate_to_opensbi env request s =
     (let s = swap_mscratch s;
          (regs, f) = sbi_trap_handler env (opensbi_regs request) (csrs s);
          s = swap_mscratch (s\<lparr>csrs := f\<rparr>)
      in exit_to_hypervisor (ExposeOpensbiResult \<lparr>result_trap_regs = regs\<rparr>) s)"

definition handle_non_confidential_trap ::
    "environment \<Rightarrow> trap_cause \<Rightarrow> ('z monitor_scheme, error, exit) st" where
  "handle_non_confidential_trap env trap_reason s = (case trap_reason of
      Interrupt \<Rightarrow> delegate_to_opensbi env (HardwareHart_opensbi_request s) s
    | IllegalInstruction \<Rightarrow> delegate_to_opensbi env (HardwareHart_opensbi_request s) s
    | LoadAddressMisaligned \<Rightarrow> delegate_to_opensbi env (HardwareHart_opensbi_request s) s
    | LoadAccessFault \<Rightarrow> delegate_to_opensbi env (HardwareHart_opensbi_request s) s
    | StoreAddressMisaligned \<Rightarrow> delegate_to_opensbi env (HardwareHart_opensbi_request s) s
    | StoreAccessFault \<Rightarrow> delegate_to_opensbi env (HardwareHart_opensbi_request s) s
    | HsEcall (Ace ResumeConfidentialHart) \<Rightarrow>
        resume_confidential_hart env (HardwareHart_resume_request s) s
    | HsEcall (Ace TerminateConfidentialVm) \<Rightarrow>
        terminate_confidential_vm (HardwareHart_terminate_request s) s
    | HsEcall _ \<Rightarrow> delegate_to_opensbi env (HardwareHart_opensbi_request s) s
    | VsEcall (Ace PromoteToConfidentialVm) \<Rightarrow>
        promote_to_confidential_vm_handler env (promote_to_confidential_vm_request s) s
    | VsEcall _ \<Rightarrow> delegate_hypercall (HardwareHart_sbi_vm_request s) s
    | MachineEcall \<Rightarrow> delegate_to_opensbi env (HardwareHart_opensbi_request s) s
    | _ \<Rightarrow> (Panic, s))"

definition route_non_confidential_flow :: "environment \<Rightarrow> ('z monitor_scheme, error, exit) st" where
  "route_non_confidential_flow env =
     sbind (modify HardwareHart_store_volatile) (\<lambda>_.
     sbind NonConfidentialFlow_create (\<lambda>_ s.
     case HardwareHart_trap_reason s of (trap_reason, s) \<Rightarrow>
       handle_non_confidential_trap env trap_reason s))"

end
