(* ===== verification/Frames.thy ===== *)
theory Frames
  imports Memory_Protector
begin

text \<open>
  A logic of partial correctness for the stateful computations of the model, and its first use: the
  operations on pages and page tables touch memory and the page allocator only.

  \<open>run R P m Q E\<close>: from a state with \<open>P\<close>, a computation that does not panic reaches a state related
  by \<open>R\<close> to the initial one, with \<open>Q\<close> for a successful result and \<open>E\<close> for an error. A panic stops
  the hart for good, so nothing is said about the state it leaves.
\<close>

named_theorems run_intros \<open>rules for the combinators of stateful computations\<close>

definition run ::
    "('s \<Rightarrow> 's \<Rightarrow> bool) \<Rightarrow> ('s \<Rightarrow> bool) \<Rightarrow> ('s, 'e, 'a) st \<Rightarrow> ('a \<Rightarrow> 's \<Rightarrow> bool) \<Rightarrow> ('s \<Rightarrow> bool) \<Rightarrow> bool" where
  "run R P m Q E \<longleftrightarrow> (\<forall>s. P s \<longrightarrow> (case m s of
      (Ok a, t) \<Rightarrow> R s t \<and> Q a t | (Err e, t) \<Rightarrow> R s t \<and> E t | (Panic, t) \<Rightarrow> True))"

lemma runI:
  assumes "\<And>s a t. P s \<Longrightarrow> m s = (Ok a, t) \<Longrightarrow> R s t \<and> Q a t"
    and "\<And>s e t. P s \<Longrightarrow> m s = (Err e, t) \<Longrightarrow> R s t \<and> E t"
  shows "run R P m Q E"
  using assms by (auto simp: run_def split: prod.splits result.splits)

lemma run_Ok: "run R P m Q E \<Longrightarrow> P s \<Longrightarrow> m s = (Ok a, t) \<Longrightarrow> R s t \<and> Q a t"
  by (auto simp: run_def split: prod.splits result.splits)

lemma run_Err: "run R P m Q E \<Longrightarrow> P s \<Longrightarrow> m s = (Err e, t) \<Longrightarrow> R s t \<and> E t"
  by (auto simp: run_def split: prod.splits result.splits)

lemma run_weaken:
  "run R P m Q E \<Longrightarrow> (\<And>s. P' s \<Longrightarrow> P s) \<Longrightarrow> (\<And>a t. Q a t \<Longrightarrow> Q' a t) \<Longrightarrow> (\<And>t. E t \<Longrightarrow> E' t)
     \<Longrightarrow> run R P' m Q' E'"
  by (rule runI) (blast dest: run_Ok run_Err)+

lemma run_pre: "(\<And>s. P s \<Longrightarrow> run R (\<lambda>t. t = s) m Q E) \<Longrightarrow> run R P m Q E"
  by (auto simp: run_def)

locale transition =
  fixes R :: "'s \<Rightarrow> 's \<Rightarrow> bool"
  assumes refl: "R s s" and trans: "R s t \<Longrightarrow> R t u \<Longrightarrow> R s u"
begin

lemma ret: "(\<And>s. P s \<Longrightarrow> Q a s) \<Longrightarrow> run R P (ret a) Q E"
  by (rule runI) (auto simp: ret_def refl)

lemma lift:
  "(\<And>s a. P s \<Longrightarrow> r = Ok a \<Longrightarrow> Q a s) \<Longrightarrow> (\<And>s e. P s \<Longrightarrow> r = Err e \<Longrightarrow> E s) \<Longrightarrow> run R P (lift r) Q E"
  by (rule runI) (auto simp: lift_def refl)

lemma bind:
  assumes "run R P m A E" and "\<And>a. run R (A a) (f a) Q E"
  shows "run R P (sbind m f) Q E"
proof (rule runI)
  fix s b u assume "P s" "sbind m f s = (Ok b, u)"
  then obtain a t where "m s = (Ok a, t)" "f a t = (Ok b, u)" by (auto simp: res_simps)
  with run_Ok [OF assms(1) \<open>P s\<close>] run_Ok [OF assms(2)] show "R s u \<and> Q b u" by (blast intro: trans)
next
  fix s e u assume "P s" "sbind m f s = (Err e, u)"
  then consider "m s = (Err e, u)" | a t where "m s = (Ok a, t)" "f a t = (Err e, u)"
    by (auto simp: sbind_def split: prod.splits result.splits)
  then show "R s u \<and> E u"
  proof cases
    case 1
    then show ?thesis using run_Err [OF assms(1) \<open>P s\<close>] by blast
  next
    case 2
    then show ?thesis using run_Ok [OF assms(1) \<open>P s\<close>] run_Err [OF assms(2)] by (blast intro: trans)
  qed
qed

lemma unwrap: "run R P m Q (\<lambda>_. True) \<Longrightarrow> run R P (sunwrap m) Q E"
proof (rule runI)
  fix s e t assume "sunwrap m s = (Err e, t)"
  then have "unwrap (fst (m s)) = Err e" by (auto simp: sunwrap_def split: prod.splits)
  then show "R s t \<and> E t" by (cases "fst (m s)") simp_all
qed (auto simp: res_simps dest: run_Ok)

lemma rename_error: "run R P m Q E \<Longrightarrow> run R P (smap_err g m) Q E"
proof (rule runI)
  fix s e t assume *: "run R P m Q E" "P s" "smap_err g m s = (Err e, t)"
  then obtain e' where "m s = (Err e', t)"
    by (auto simp: smap_err_def split: prod.splits) (metis map_err.simps result.exhaust result.simps)
  with * show "R s t \<and> E t" by (blast dest: run_Err)
qed (auto simp: res_simps dest: run_Ok)

lemma clean_up:
  "run R P m Q F \<Longrightarrow> run R F h (\<lambda>_. E) E \<Longrightarrow> run R P (on_error m h) Q E"
proof (rule runI)
  assume m: "run R P m Q F" and h: "run R F h (\<lambda>_. E) E"
  fix s e u assume "P s" "on_error m h s = (Err e, u)"
  then obtain t where t: "m s = (Err e, t)" and u: "(\<exists>a. h t = (Ok a, u)) \<or> (\<exists>e. h t = (Err e, u))"
    by (auto simp: on_error_def split: prod.splits result.splits)
  from run_Err [OF m \<open>P s\<close> t] u show "R s u \<and> E u"
    by (blast dest: run_Ok [OF h] run_Err [OF h] intro: trans)
qed (auto simp: on_error_def split: prod.splits result.splits dest: run_Ok)

lemma loop:
  assumes "\<And>x. x \<in> set xs \<Longrightarrow> run R P (f x) (\<lambda>_. P) E"
  shows "run R P (for_each f xs) (\<lambda>_. P) E"
  using assms by (induction xs) (auto intro!: ret bind)

lemma loop_collect:
  assumes "\<And>x. x \<in> set xs \<Longrightarrow> run R P (f x) (\<lambda>_. P) E"
  shows "run R P (traverse f xs) (\<lambda>_. P) E"
  using assms by (induction xs) (auto intro!: ret bind)

lemma branch: "run R P m Q E \<Longrightarrow> run R P m' Q E \<Longrightarrow> run R P (if c then m else m') Q E"
  by simp

text \<open>A computation whose error is handled, as \<^verbatim>\<open>match\<close> and \<^verbatim>\<open>or_else\<close> do it.\<close>

lemma both:
  assumes "run R P m A F" and "\<And>a. run R (A a) (f a) Q E" and "\<And>e. run R F (g e) Q E"
  shows "run R P (\<lambda>s. case m s of (Ok a, s) \<Rightarrow> f a s | (Err e, s) \<Rightarrow> g e s | (Panic, s) \<Rightarrow> (Panic, s)) Q E"
proof (rule runI, goal_cases)
  case (1 s x t)
  then consider a u where "m s = (Ok a, u)" "f a u = (Ok x, t)" | e u where "m s = (Err e, u)" "g e u = (Ok x, t)"
    by (auto split: prod.splits result.splits)
  then show ?case
    by cases (use run_Ok [OF assms(1) 1(1)] run_Err [OF assms(1) 1(1)] run_Ok [OF assms(2)] run_Ok [OF assms(3)]
        in \<open>blast intro: trans\<close>)+
next
  case (2 s e t)
  then consider a u where "m s = (Ok a, u)" "f a u = (Err e, t)" | e' u where "m s = (Err e', u)" "g e' u = (Err e, t)"
    by (auto split: prod.splits result.splits)
  then show ?case
    by cases (use run_Ok [OF assms(1) 2(1)] run_Err [OF assms(1) 2(1)] run_Err [OF assms(2)] run_Err [OF assms(3)]
        in \<open>blast intro: trans\<close>)+
qed

text \<open>The rules without assertions: every computation built from steps within \<open>R\<close> is within \<open>R\<close>.\<close>

lemma keep_ret: "run R (\<lambda>_. True) (ret a) (\<lambda>_ _. True) (\<lambda>_. True)"
  by (intro ret TrueI)

lemma keep_lift: "run R (\<lambda>_. True) (lift r) (\<lambda>_ _. True) (\<lambda>_. True)"
  by (intro lift TrueI)

lemma keep_bind:
  "run R (\<lambda>_. True) m (\<lambda>_ _. True) (\<lambda>_. True) \<Longrightarrow> (\<And>a. run R (\<lambda>_. True) (f a) (\<lambda>_ _. True) (\<lambda>_. True))
     \<Longrightarrow> run R (\<lambda>_. True) (sbind m f) (\<lambda>_ _. True) (\<lambda>_. True)"
  by (rule bind)

lemma keep_clean_up:
  "run R (\<lambda>_. True) m (\<lambda>_ _. True) (\<lambda>_. True) \<Longrightarrow> run R (\<lambda>_. True) h (\<lambda>_ _. True) (\<lambda>_. True)
     \<Longrightarrow> run R (\<lambda>_. True) (on_error m h) (\<lambda>_ _. True) (\<lambda>_. True)"
  by (rule clean_up)

lemmas keep = keep_ret keep_lift keep_bind unwrap rename_error keep_clean_up loop loop_collect

end

section \<open>The frame of the operations on pages\<close>

definition same_frame :: "'z alloc_state_scheme \<Rightarrow> 'z alloc_state_scheme \<Rightarrow> bool" where
  "same_frame s t \<longleftrightarrow> alloc_state.more t = alloc_state.more s"

interpretation frame: transition same_frame
  by unfold_locales (simp_all add: same_frame_def)

abbreviation keeps_frame :: "('z alloc_state_scheme, 'e, 'a) st \<Rightarrow> bool" where
  "keeps_frame m \<equiv> run same_frame (\<lambda>_. True) m (\<lambda>_ _. True) (\<lambda>_. True)"

lemma keeps_frame_ok: "keeps_frame m \<Longrightarrow> keeps_frame (ok m)"
proof (rule runI)
  fix s a t assume m: "keeps_frame m" and "ok m s = (Ok a, t)"
  then have "(\<exists>a. m s = (Ok a, t)) \<or> (\<exists>e. m s = (Err e, t))"
    by (auto simp: ok_def split: prod.splits result.splits)
  then show "same_frame s t \<and> True" using run_Ok [OF m] run_Err [OF m] by blast
qed (auto simp: ok_def split: prod.splits result.splits)

lemma keeps_frame_memory:
  "keeps_frame (write_volatile a v)" "keeps_frame (read_volatile a)"
  "keeps_frame (NonConfidentialMemoryAddress_read a)"
  by (auto simp: run_def same_frame_def write_volatile_def read_volatile_def
      NonConfidentialMemoryAddress_read_def)

lemma keeps_frame_try_write: "keeps_frame (try_write op)"
  by (rule runI) (auto simp: try_write_def same_frame_def split: option.splits result.splits)

lemmas frame_intros = frame.keep keeps_frame_ok keeps_frame_memory keeps_frame_try_write

lemma keeps_frame_page_access: "keeps_frame (Page_read p i)" "keeps_frame (Page_write p i v)"
  unfolding Page_read_def Page_write_def by (intro frame_intros)+

lemma keeps_frame_clear: "keeps_frame (clear p)"
  unfolding clear_def by (intro frame_intros keeps_frame_page_access)

lemma keeps_frame_page:
  "keeps_frame (zeroize p)" "keeps_frame (deallocate p)"
  unfolding zeroize_def deallocate_def by (intro frame_intros keeps_frame_clear)+

lemma keeps_frame_copy_page: "keeps_frame (copy_from_non_confidential_memory l p a)"
  unfolding copy_from_non_confidential_memory_def by (intro frame_intros keeps_frame_page_access)

lemma keeps_frame_allocator:
  "keeps_frame (acquire_continous_pages l n sz)" "keeps_frame (release_pages ps)"
  "keeps_frame (release_page p)"
  unfolding acquire_continous_pages_def release_page_def release_pages_def by (intro frame_intros)+

lemma keeps_frame_table_memory:
  "keeps_frame (PageTableMemory_entry mem i)" "keeps_frame (PageTableMemory_set_entry mem i e)"
  "keeps_frame (PageTableMemory_empty l ps level)" "keeps_frame (PageTableMemory_drop mem)"
  "keeps_frame (release_leaf p)"
  unfolding PageTableMemory_entry_def PageTableMemory_set_entry_def PageTableMemory_empty_def
    PageTableMemory_drop_def release_leaf_def
  by (auto intro!: frame_intros keeps_frame_page_access keeps_frame_page keeps_frame_allocator
      split: option.splits)

lemma keeps_frame_table_memory_copy:
  "keeps_frame (PageTableMemory_copy_from_non_confidential_memory l ps level a)"
  unfolding PageTableMemory_copy_from_non_confidential_memory_def copy_memory_page_def
  by (auto intro!: frame_intros keeps_frame_allocator keeps_frame_copy_page split: prod.splits)

lemmas table_frame_intros = frame_intros keeps_frame_allocator keeps_frame_copy_page
  keeps_frame_table_memory keeps_frame_table_memory_copy

lemma keeps_frame_drop:
  "keeps_frame (drop_table pt :: ('z alloc_state_scheme, error, unit) st)"
  "keeps_frame (drop_entries es :: ('z alloc_state_scheme, error, unit) st)"
  by (induction pt and es rule: drop_table_drop_entries.induct)
     (auto intro!: table_frame_intros split: page_table_entry.splits)

lemma keeps_frame_discard: "keeps_frame (discard_entries es)"
  by (induction es) (auto intro!: frame_intros keeps_frame_drop split: page_table_entry.splits)

lemma bind_lift_results [simp]:
  "sbind (lift (Ok a)) f = f a" "sbind (lift (Err e)) f = lift (Err e)" "sbind (lift Panic) f = lift Panic"
  by (simp_all add: sbind_def lift_def fun_eq_iff)

lemma keeps_frame_convert_entry:
  assumes "\<And>f a. copy_lower = Some f \<Longrightarrow> keeps_frame (f a)"
  shows "keeps_frame (convert_entry l ps level copy_lower v)"
  unfolding convert_entry_def using assms
  by (cases copy_lower) (auto intro!: table_frame_intros split: prod.splits)

lemma keeps_frame_collect:
  assumes "\<And>i. keeps_frame (f i)"
  shows "keeps_frame (collect_entries f is es)"
  using assms by (induction "is" arbitrary: es) (auto intro!: frame_intros keeps_frame_discard)

lemma keeps_frame_copy_one:
  assumes "\<And>f a. copy_lower = Some f \<Longrightarrow> keeps_frame (f a)"
  shows "keeps_frame (copy_one_table l ps level copy_lower a)"
  unfolding copy_one_table_def copy_entry_def
  by (intro table_frame_intros keeps_frame_collect keeps_frame_convert_entry assms)

lemma keeps_frame_copy_table:
  "keeps_frame (PageTable_copy_from_non_confidential_memory l ps level a)"
proof (induction level arbitrary: a rule: measure_induct_rule [of depth])
  case (less level)
  show ?case
    unfolding PageTable_copy_from_non_confidential_memory.simps [of l ps level]
    by (rule keeps_frame_copy_one) (auto split: option.splits intro!: less dest: depth_lower)
qed

lemma keeps_frame_set_entry: "keeps_frame (PageTable_set_entry pt i e)"
  unfolding PageTable_set_entry_def
  by (auto intro!: table_frame_intros keeps_frame_drop split: page_table.splits page_table_entry.splits)

lemma keeps_frame_map_shared_page: "keeps_frame (PageTable_map_shared_page l ps sp pt)"
proof (induction l ps sp pt rule: PageTable_map_shared_page.induct)
  case (1 l ps sp level mem es)
  let ?i = "unat (vpn ps (confidential_vm_virtual_address sp) level)"
  show ?case
  proof (cases "?i < length es")
    case True
    then show ?thesis
      by (cases "es ! ?i")
         (simp_all add: PageTable_map_shared_page.simps [of l ps sp level] Let_def frame_intros
            keeps_frame_set_entry keeps_frame_table_memory keeps_frame_drop 1 del: drop_table.simps)
  qed (simp add: PageTable_map_shared_page.simps Let_def frame_intros)
qed

text \<open>The operations of the memory protector and of the drop of a VM that act on page tables.\<close>

lemma keeps_frame_from_vm_state: "keeps_frame (from_vm_state l h)"
  unfolding from_vm_state_def copy_mmu_configuration_from_non_confidential_memory_def
    RootPageTable_copy_from_non_confidential_memory_def
  by (intro frame_intros keeps_frame_copy_table)

lemma keeps_frame_root_map_shared_page: "keeps_frame (RootPageTable_map_shared_page l root sp)"
  unfolding RootPageTable_map_shared_page_def by (intro frame_intros keeps_frame_map_shared_page)

end
