(* ===== verification/Assignment.thy ===== *)
theory Assignment
  imports Flows Frames
begin

text \<open>
  The invariant that ties the table of confidential VMs to the hardware harts that execute their
  harts, and the memory protection in force on each of them.

  \<^item> \<open>occupation\<close> is the abstract view of the scheduler: which confidential hart (VM and index)
    each hardware hart runs, and the value of \<open>hgatp\<close> it runs under.
  \<^item> \<open>control_ok\<close> relates an occupation to the table: a slot of a VM is either filled by its own hart
    or by the dummy hart of the hardware hart that runs it.
  \<^item> \<open>hart_inv l n others s\<close> is the invariant from the point of view of hardware hart \<open>n\<close> in state
    \<open>s\<close>, while the other harts occupy \<open>others\<close>. It includes that the PMP entry of the monitor denies all
    accesses while the hart serves the hypervisor (it matches once the hart has executed a confidential
    hart, see \<open>pmp_in_use\<close>), and that the page table of its own VM is active otherwise.
\<close>

type_synonym occupation = "usize \<rightharpoonup> confidential_vm_id \<times> usize \<times> usize"

definition running :: "'z monitor_scheme \<Rightarrow> bool" where
  "running s \<longleftrightarrow> \<not> is_dummy (assigned_hart (hardware s))"

definition occupied :: "'z monitor_scheme \<Rightarrow> (confidential_vm_id \<times> usize \<times> usize) option" where
  "occupied s = (let h = assigned_hart (hardware s) in
     case hart_vm_id h of None \<Rightarrow> None | Some k \<Rightarrow> Some (k, confidential_hart_id h, csrs s CSR_HGATP))"

definition slot_ok :: "occupation \<Rightarrow> confidential_vm_id \<Rightarrow> nat \<Rightarrow> confidential_hart \<Rightarrow> bool" where
  "slot_ok occ k i h \<longleftrightarrow>
     (if is_dummy h
      then lifecycle_state h = Started \<and> (\<exists>g. occ (confidential_hart_id h) = Some (k, of_nat i, g))
      else hart_vm_id h = Some k \<and> confidential_hart_id h = of_nat i)"

definition queues_ok :: "confidential_vm \<Rightarrow> bool" where
  "queues_ok vm \<longleftrightarrow> (\<forall>i < length (confidential_harts vm). inter_hart_requests vm (of_nat i) \<noteq> None)
     \<and> (\<forall>i q. inter_hart_requests vm i = Some q \<longrightarrow> length q \<le> MAX_NUMBER_OF_REMOTE_HART_REQUESTS)"

definition vm_ok :: "occupation \<Rightarrow> confidential_vm_id \<Rightarrow> confidential_vm \<Rightarrow> bool" where
  "vm_ok occ k vm \<longleftrightarrow> vm_id vm = k \<and> length (confidential_harts vm) < MAX_NUMBER_OF_HARTS_PER_VM
     \<and> queues_ok vm \<and> (\<forall>i < length (confidential_harts vm). slot_ok occ k i (confidential_harts vm ! i))"

definition seated ::
    "(confidential_vm_id \<rightharpoonup> confidential_vm) \<Rightarrow> usize \<Rightarrow> confidential_vm_id \<times> usize \<times> usize \<Rightarrow> bool" where
  "seated vms m = (\<lambda>(k, i, g). \<exists>vm. vms k = Some vm \<and> unat i < length (confidential_harts vm)
     \<and> is_dummy (confidential_harts vm ! unat i)
     \<and> confidential_hart_id (confidential_harts vm ! unat i) = m
     \<and> protector_hgatp (memory_protector vm) = g)"

definition control_ok :: "occupation \<Rightarrow> (confidential_vm_id \<rightharpoonup> confidential_vm) \<Rightarrow> bool" where
  "control_ok occ vms \<longleftrightarrow> (\<forall>k vm. vms k = Some vm \<longrightarrow> vm_ok occ k vm)
     \<and> (\<forall>m p. occ m = Some p \<longrightarrow> seated vms m p)"

definition protection_ok :: "memory_layout \<Rightarrow> bool \<Rightarrow> csr_file \<Rightarrow> bool" where
  "protection_ok l confidential f \<longleftrightarrow> pmp_available f
     \<and> pmp_region f (confidential_memory_start l) (confidential_memory_end l)
     \<and> (if confidential then pmp_open f \<and> pmp_in_use f else pmp_closed f)"

definition vm_table :: "'z monitor_scheme \<Rightarrow> confidential_vm_id \<rightharpoonup> confidential_vm" where
  "vm_table s = (case CONTROL_DATA s of None \<Rightarrow> Map.empty | Some cd \<Rightarrow> map_of (confidential_vms cd))"

definition own_hart_ok :: "memory_layout \<Rightarrow> usize \<Rightarrow> 'z monitor_scheme \<Rightarrow> bool" where
  "own_hart_ok l n s \<longleftrightarrow> protection_ok l (running s) (csrs s)
     \<and> (let h = assigned_hart (hardware s) in
        is_dummy h \<longrightarrow> confidential_hart_id h = n \<and> lifecycle_state h = Started)"

definition hart_inv :: "memory_layout \<Rightarrow> usize \<Rightarrow> occupation \<Rightarrow> 'z monitor_scheme \<Rightarrow> bool" where
  "hart_inv l n others s \<longleftrightarrow> own_hart_ok l n s \<and> control_ok (others(n := occupied s)) (vm_table s)"

section \<open>The table of confidential VMs under the operations of one hart\<close>

lemma slot_index:
  assumes "i < MAX_NUMBER_OF_HARTS_PER_VM"
  shows "unat (of_nat i :: usize) = i"
  using assms by (simp add: MAX_NUMBER_OF_HARTS_PER_VM_def unat_of_nat)

lemma set_hart_simps [simp]:
  "confidential_harts (set_hart i h vm) = (confidential_harts vm)[unat i := h]"
  "vm_id (set_hart i h vm) = vm_id vm" "memory_protector (set_hart i h vm) = memory_protector vm"
  "inter_hart_requests (set_hart i h vm) = inter_hart_requests vm"
  by (simp_all add: set_hart_def)

lemma control_ok_vm: "control_ok occ vms \<Longrightarrow> vms k = Some vm \<Longrightarrow> vm_ok occ k vm"
  by (simp add: control_ok_def)

lemma control_ok_seated: "control_ok occ vms \<Longrightarrow> occ m = Some p \<Longrightarrow> seated vms m p"
  unfolding control_ok_def by blast

lemma control_okI:
  "(\<And>k vm. vms k = Some vm \<Longrightarrow> vm_ok occ k vm) \<Longrightarrow> (\<And>m p. occ m = Some p \<Longrightarrow> seated vms m p)
     \<Longrightarrow> control_ok occ vms"
  unfolding control_ok_def by blast

lemma vm_ok_slot:
  "vm_ok occ k vm \<Longrightarrow> i < length (confidential_harts vm) \<Longrightarrow> slot_ok occ k i (confidential_harts vm ! i)"
  by (simp add: vm_ok_def)

lemma vm_ok_set_hart:
  assumes "vm_ok occ' k vm'" "vm_id vm = k" "length (confidential_harts vm) = length (confidential_harts vm')"
    "queues_ok vm" and "\<And>i. i < length (confidential_harts vm) \<Longrightarrow> slot_ok occ k i (confidential_harts vm ! i)"
  shows "vm_ok occ k vm"
  using assms by (simp add: vm_ok_def)

lemma queues_ok_set_hart [simp]: "queues_ok (set_hart i h vm) = queues_ok vm"
  by (simp add: queues_ok_def)

lemma seated_other:
  assumes "seated vms m p" and "fst p \<noteq> k \<or> vms k = Some vm" 
    and "fst p = k \<Longrightarrow> length (confidential_harts vm') = length (confidential_harts vm)
      \<and> confidential_harts vm' ! unat (fst (snd p)) = confidential_harts vm ! unat (fst (snd p))
      \<and> protector_hgatp (memory_protector vm') = protector_hgatp (memory_protector vm)"
  shows "seated (vms(k \<mapsto> vm')) m p"
  using assms by (cases p) (auto simp: seated_def)

text \<open>Two harts never run the same confidential hart.\<close>

lemma control_ok_injective:
  assumes "control_ok occ vms" and "occ m = Some (k, i, g)" and "occ m' = Some (k, i, g')"
  shows "m = m'"
  using control_ok_seated [OF assms(1,2)] control_ok_seated [OF assms(1,3)] by (auto simp: seated_def)

lemma control_ok_update:
  assumes ok: "control_ok occ vms" and vm: "vms k = Some vm" and new: "vm_ok occ k vm'"
    and len: "length (confidential_harts vm') = length (confidential_harts vm)"
    and slots: "\<And>i. i < length (confidential_harts vm) \<Longrightarrow> is_dummy (confidential_harts vm ! i)
      \<Longrightarrow> confidential_harts vm' ! i = confidential_harts vm ! i"
    and hgatp: "protector_hgatp (memory_protector vm') = protector_hgatp (memory_protector vm)"
  shows "control_ok occ (vms(k \<mapsto> vm'))"
proof (rule control_okI)
  fix m p assume "occ m = Some p"
  then have seat: "seated vms m p" by (rule control_ok_seated [OF ok])
  show "seated (vms(k \<mapsto> vm')) m p"
    using seat vm len slots hgatp by (intro seated_other [OF seat]) (auto simp: seated_def)
qed (use control_ok_vm [OF ok] new in \<open>auto split: if_splits\<close>)

lemma control_ok_steal:
  assumes ok: "control_ok occ vms" and vm: "vms k = Some vm" and free: "occ n = None"
    and i: "unat i < length (confidential_harts vm)" and own: "\<not> is_dummy (confidential_harts vm ! unat i)"
    and d: "is_dummy d" "confidential_hart_id d = n" "lifecycle_state d = Started"
  shows "control_ok (occ(n \<mapsto> (k, i, protector_hgatp (memory_protector vm)))) (vms(k \<mapsto> set_hart i d vm))"
    (is "control_ok ?occ ?vms")
proof (rule control_okI)
  have keep: "slot_ok ?occ k' j h" if "slot_ok occ k' j h" for k' j h
    using that free by (auto simp: slot_ok_def split: if_splits)
  have new: "vm_ok ?occ k (set_hart i d vm)"
    using control_ok_vm [OF ok vm] keep d i
    by (auto simp: vm_ok_def nth_list_update slot_ok_def [of _ _ "unat i"])
  show "vm_ok ?occ k' v" if "?vms k' = Some v" for k' v
    using that new control_ok_vm [OF ok, of k' v] keep by (auto simp: vm_ok_def split: if_splits)
  show "seated ?vms m p" if "?occ m = Some p" for m p
  proof (cases "m = n")
    case True
    with that d i show ?thesis by (auto simp: seated_def)
  next
    case False
    with that have seat: "seated vms m p" by (intro control_ok_seated [OF ok]) simp
    with vm own show ?thesis
      by (intro seated_other [OF seat]) (auto simp: seated_def, metis nth_list_update_neq)
  qed
qed

lemma control_ok_return:
  assumes ok: "control_ok occ vms" and vm: "vms k = Some vm" and run: "occ n = Some (k, i, g)"
    and h: "hart_vm_id h = Some k" "confidential_hart_id h = i"
  shows "control_ok (occ(n := None)) (vms(k \<mapsto> set_hart i h vm))"
proof (rule control_okI)
  let ?occ = "occ(n := None)"
  have i: "unat i < length (confidential_harts vm)"
    using control_ok_seated [OF ok run] vm by (auto simp: seated_def)
  have keep: "slot_ok ?occ k' j h'" if "slot_ok occ k' j h'" "k' \<noteq> k \<or> of_nat j \<noteq> i" for k' j h'
    using that run by (auto simp: slot_ok_def split: if_splits)
  have new: "vm_ok ?occ k (set_hart i h vm)"
  proof (rule vm_ok_set_hart [OF control_ok_vm [OF ok vm]])
    fix j assume j: "j < length (confidential_harts (set_hart i h vm))"
    show "slot_ok ?occ k j (confidential_harts (set_hart i h vm) ! j)"
    proof (cases "j = unat i")
      case False
      with j control_ok_vm [OF ok vm] have "of_nat j \<noteq> i" using slot_index [of j] by (auto simp: vm_ok_def)
      with False j show ?thesis using vm_ok_slot [OF control_ok_vm [OF ok vm], of j] keep by simp
    qed (use i h in \<open>simp add: slot_ok_def is_dummy_def\<close>)
  qed (use control_ok_vm [OF ok vm] in \<open>auto simp: vm_ok_def\<close>)
  show "vm_ok ?occ k' v" if "(vms(k \<mapsto> set_hart i h vm)) k' = Some v" for k' v
    using that new control_ok_vm [OF ok, of k' v] keep by (auto simp: vm_ok_def split: if_splits)
  show "seated (vms(k \<mapsto> set_hart i h vm)) m p" if "?occ m = Some p" for m p
  proof -
    from that have m: "m \<noteq> n" "occ m = Some p" by (auto split: if_splits)
    have "(fst p, fst (snd p)) \<noteq> (k, i)"
      using control_ok_injective [OF ok _ run, of m] m by (cases p) auto
    with vm show ?thesis
      by (intro seated_other [OF control_ok_seated [OF ok m(2)]])
         (auto intro!: nth_list_update_neq simp: word_unat_eq_iff)
  qed
qed

text \<open>What a hardware hart finds in the slot of the hart it runs: its own dummy hart.\<close>

lemma seated_slot:
  assumes "control_ok occ vms" and "occ n = Some (k, i, g)"
  obtains vm where "vms k = Some vm" "unat i < length (confidential_harts vm)" "vm_id vm = k"
    "is_dummy (confidential_harts vm ! unat i)" "confidential_hart_id (confidential_harts vm ! unat i) = n"
    "lifecycle_state (confidential_harts vm ! unat i) = Started"
    "protector_hgatp (memory_protector vm) = g" "inter_hart_requests vm i \<noteq> None"
proof -
  from control_ok_seated [OF assms] obtain vm where *: "vms k = Some vm"
    "unat i < length (confidential_harts vm)" "is_dummy (confidential_harts vm ! unat i)"
    "confidential_hart_id (confidential_harts vm ! unat i) = n" "protector_hgatp (memory_protector vm) = g"
    by (auto simp: seated_def)
  with control_ok_vm [OF assms(1) *(1)] have "vm_id vm = k"
    "lifecycle_state (confidential_harts vm ! unat i) = Started" "inter_hart_requests vm i \<noteq> None"
    by (auto simp: vm_ok_def slot_ok_def queues_ok_def dest!: spec [of _ "unat i"])
  with * show thesis by (intro that)
qed

lemma control_ok_insert:
  assumes ok: "control_ok occ vms" and "vms k = None" and new: "vm_ok occ k vm"
  shows "control_ok occ (vms(k \<mapsto> vm))"
proof (rule control_okI)
  show "seated (vms(k \<mapsto> vm)) m p" if "occ m = Some p" for m p
    using control_ok_seated [OF ok that] assms(2) by (cases p) (auto simp: seated_def)
qed (use control_ok_vm [OF ok] new in \<open>auto split: if_splits\<close>)

lemma control_ok_delete:
  assumes ok: "control_ok occ vms" and vm: "vms k = Some vm" and down: "are_all_harts_shutdown vm"
  shows "control_ok occ (vms(k := None))" and "occ m \<noteq> Some (k, i, g)"
proof -
  have none: "\<not> is_dummy h" if "h \<in> set (confidential_harts vm)" for h
  proof
    assume "is_dummy h"
    with that control_ok_vm [OF ok vm] have "lifecycle_state h = Started"
      by (auto simp: vm_ok_def slot_ok_def in_set_conv_nth)
    with that down show False by (auto simp: are_all_harts_shutdown_def filter_empty_conv)
  qed
  have free: "occ m \<noteq> Some (k, i, g)" for m i g
    using control_ok_seated [OF ok, of m] vm none by (force simp: seated_def)
  then show "occ m \<noteq> Some (k, i, g)" .
  show "control_ok occ (vms(k := None))"
  proof (rule control_okI)
    show "seated (vms(k := None)) m p" if "occ m = Some p" for m p
      using control_ok_seated [OF ok that] free that by (cases p) (auto simp: seated_def)
  qed (use control_ok_vm [OF ok] in \<open>auto split: if_splits\<close>)
qed

section \<open>Steps of one hardware hart\<close>

text \<open>Besides the invariant, no operation takes the PMP entry of the monitor out of use.\<close>

definition maintains :: "memory_layout \<Rightarrow> usize \<Rightarrow> 'z monitor_scheme \<Rightarrow> 'z monitor_scheme \<Rightarrow> bool" where
  "maintains l n s t \<longleftrightarrow> (\<forall>others. hart_inv l n others s \<longrightarrow> hart_inv l n others t)
     \<and> (pmp_in_use (csrs s) \<longrightarrow> pmp_in_use (csrs t))"

interpretation flow: transition "maintains l n"
  by unfold_locales (auto simp: maintains_def)

text \<open>The part of the state the invariant depends on.\<close>

definition protection_csrs :: "csr set" where
  "protection_csrs = {CSR_PMPCFG0, CSR_PMPADDR0, CSR_PMPADDR1}"

lemma protection_ok_congr:
  assumes "\<And>r. r \<in> protection_csrs \<Longrightarrow> g r = f r"
  shows "protection_ok l c g = protection_ok l c f"
  using assms
  by (simp add: protection_ok_def protection_csrs_def pmp_available_def pmp_in_use_def pmp_region_def
      pmp_open_def pmp_closed_def pmp_mode_def pmp_config_def)

definition same_view :: "'z monitor_scheme \<Rightarrow> 'z monitor_scheme \<Rightarrow> bool" where
  "same_view s t \<longleftrightarrow> assigned_hart (hardware t) = assigned_hart (hardware s)
     \<and> CONTROL_DATA t = CONTROL_DATA s
     \<and> (\<forall>r \<in> insert CSR_HGATP protection_csrs. csrs t r = csrs s r)"

interpretation view: transition same_view
  by unfold_locales (auto simp: same_view_def)

lemma same_view_running: "same_view s t \<Longrightarrow> running t = running s"
  by (simp add: same_view_def running_def)

lemma occupied_congr:
  "hart_vm_id (assigned_hart (hardware t)) = hart_vm_id (assigned_hart (hardware s)) \<Longrightarrow>
   confidential_hart_id (assigned_hart (hardware t)) = confidential_hart_id (assigned_hart (hardware s)) \<Longrightarrow>
   csrs t CSR_HGATP = csrs s CSR_HGATP \<Longrightarrow> occupied t = occupied s"
  by (simp add: occupied_def Let_def split: option.split)

lemma same_view_inv:
  assumes "same_view s t"
  shows "hart_inv l n others t = hart_inv l n others s"
proof -
  have "occupied t = occupied s" "vm_table t = vm_table s" "running t = running s"
    using assms by (auto simp: same_view_def vm_table_def running_def intro!: occupied_congr)
  moreover have "protection_ok l (running s) (csrs t) = protection_ok l (running s) (csrs s)"
    using assms by (intro protection_ok_congr) (simp add: same_view_def)
  ultimately show ?thesis
    using assms by (simp add: hart_inv_def own_hart_ok_def same_view_def)
qed

lemma pmp_in_use_congr:
  "(\<And>r. r \<in> protection_csrs \<Longrightarrow> g r = f r) \<Longrightarrow> pmp_in_use g = pmp_in_use f"
  by (rule pmp_cong) (simp add: protection_csrs_def)

lemma same_view_in_use: "same_view s t \<Longrightarrow> pmp_in_use (csrs t) = pmp_in_use (csrs s)"
  by (rule pmp_in_use_congr) (simp add: same_view_def)

lemma run_view:
  assumes "run same_view P m Q E"
    and "\<And>s a t. P s \<Longrightarrow> Q a t \<Longrightarrow> running t = running s \<Longrightarrow> Q' a t"
    and "\<And>s t. P s \<Longrightarrow> E t \<Longrightarrow> running t = running s \<Longrightarrow> E' t"
  shows "run (maintains l n) P m Q' E'"
proof (rule runI)
  show "maintains l n s t \<and> Q' a t" if "P s" "m s = (Ok a, t)" for s a t
    using run_Ok [OF assms(1) that] assms(2) [OF that(1)]
    by (auto simp: maintains_def same_view_inv same_view_running same_view_in_use)
  show "maintains l n s t \<and> E' t" if "P s" "m s = (Err e, t)" for s e t
    using run_Err [OF assms(1) that] assms(3) [OF that(1)]
    by (auto simp: maintains_def same_view_inv same_view_running same_view_in_use)
qed

lemma same_frame_view: "same_frame s t \<Longrightarrow> same_view s (t :: 'z monitor_scheme)"
  by (cases s; cases t) (simp add: same_frame_def same_view_def)

lemma view_frame: "keeps_frame m \<Longrightarrow> run same_view (\<lambda>_. True) m (\<lambda>_ _. True) (\<lambda>_. True)"
  for m :: "('z monitor_scheme, 'e, 'a) st"
  by (rule runI) (auto dest: run_Ok run_Err intro!: same_frame_view)

subsection \<open>Operations on the assigned hart\<close>

lemma assigned_hart_simps [simp]:
  "assigned_hart (hardware (set_assigned_hart h s)) = h" "csrs (set_assigned_hart h s) = csrs s"
  "CONTROL_DATA (set_assigned_hart h s) = CONTROL_DATA s" "fences (set_assigned_hart h s) = fences s"
  "non_confidential_hart_state (hardware (set_assigned_hart h s)) = hypervisor_state s"
  by (simp_all add: set_assigned_hart_def)

lemma maintains_assigned_hart:
  assumes "running s" and "hart_vm_id h = hart_vm_id (assigned_hart (hardware s))"
    and "confidential_hart_id h = confidential_hart_id (assigned_hart (hardware s))"
  shows "maintains l n s (set_assigned_hart h s) \<and> running (set_assigned_hart h s)"
proof -
  have "\<not> is_dummy h" "\<not> is_dummy (assigned_hart (hardware s))"
    using assms by (auto simp: running_def is_dummy_def)
  moreover have "occupied (set_assigned_hart h s) = occupied s"
    using assms by (intro occupied_congr) simp_all
  ultimately show ?thesis
    by (simp add: maintains_def hart_inv_def own_hart_ok_def running_def vm_table_def Let_def)
qed

lemma run_on_assigned_hart:
  assumes "\<And>h g. f h = Ok g \<Longrightarrow> hart_vm_id g = hart_vm_id h \<and> confidential_hart_id g = confidential_hart_id h"
  shows "run (maintains l n) running (on_assigned_hart f) (\<lambda>_. running) running"
proof (rule runI)
  fix s a t assume "running s" "on_assigned_hart f s = (Ok a, t)"
  then obtain h where "f (assigned_hart (hardware s)) = Ok h" "t = set_assigned_hart h s"
    by (auto simp: on_assigned_hart_def split: result.splits)
  with maintains_assigned_hart [OF \<open>running s\<close>] assms show "maintains l n s t \<and> running t" by blast
qed (auto simp: on_assigned_hart_def flow.refl split: result.splits)

lemma run_modify_view:
  "(\<And>s. same_view s (f s)) \<Longrightarrow> run same_view (\<lambda>_. True) (modify f) (\<lambda>_ _. True) (\<lambda>_. False)"
  by (rule runI) (auto simp: modify_def)

lemma apply_no_error: "ConfidentialHart_apply t h \<noteq> Err e"
  by (cases t) (auto simp: ConfidentialHart_apply_def hart_apply_defs hart_transition_defs add_usize_def
      assert_that_def)

lemma run_apply_to_assigned_hart:
  "run (maintains l n) running (apply_to_assigned_hart t) (\<lambda>_. running) (\<lambda>_. False)"
proof -
  have "run (maintains l n) running (on_assigned_hart (ConfidentialHart_apply t)) (\<lambda>_. running) (\<lambda>_. False)"
  proof (rule runI)
    show "maintains l n s u \<and> running u"
      if "running s" "on_assigned_hart (ConfidentialHart_apply t) s = (Ok a, u)" for s a u
      using run_Ok [OF run_on_assigned_hart [OF apply_identity] that] .
  qed (auto simp: on_assigned_hart_def apply_no_error split: result.splits)
  then show ?thesis
    unfolding apply_to_assigned_hart_def
    by (rule flow.bind) (rule run_view [OF run_weaken [OF run_modify_view, of _ running]],
        auto simp: same_view_def)
qed

lemma run_view_running:
  assumes "run same_view (\<lambda>_. True) m (\<lambda>_ _. True) (\<lambda>_. E)"
  shows "run (maintains l n) running m (\<lambda>_. running) (\<lambda>s. E \<and> running s)"
    and "run (maintains l n) (\<lambda>s. \<not> running s) m (\<lambda>_ s. \<not> running s) (\<lambda>s. E \<and> \<not> running s)"
  by (rule run_view [OF run_weaken [OF assms]]; simp)+

lemma run_modify:
  assumes "\<And>s. same_view s (f s)"
  shows "run (maintains l n) running (modify f) (\<lambda>_. running) (\<lambda>_. False)"
    and "run (maintains l n) (\<lambda>s. \<not> running s) (modify f) (\<lambda>_ s. \<not> running s) (\<lambda>_. False)"
  using run_view_running [OF run_modify_view [OF assms]] by simp_all

lemma same_view_volatile:
  "same_view s (s\<lparr>csrs := ConfidentialHart_load_volatile a h (csrs s)\<rparr>)"
  "same_view s (HardwareHart_load_volatile s)" "same_view s (HardwareHart_store_volatile s)"
  "same_view s (swap_mscratch s)" "same_view s (restore_original_gprs s)"
  by (auto simp: same_view_def protection_csrs_def ConfidentialHart_load_volatile_def Let_def set_csr_def
      HardwareHart_load_volatile_def HardwareHart_store_volatile_def swap_mscratch_def
      restore_original_gprs_def write_csr_def update_hypervisor_state_def)

lemma run_exit_to_confidential_hart:
  "run (maintains l n) running (exit_to_confidential_hart env t)
     (\<lambda>x s. x = ExitToConfidentialHart \<and> running s) (\<lambda>_. False)"
  unfolding exit_to_confidential_hart_def
  by (rule flow.bind [OF run_apply_to_assigned_hart], rule flow.bind [OF run_modify(1)])
     (auto intro: same_view_volatile flow.ret)

lemma CONTROL_DATA_simps [simp]:
  "CONTROL_DATA (update_hypervisor_state f s) = CONTROL_DATA s" "CONTROL_DATA (write_csr r v s) = CONTROL_DATA s"
  "CONTROL_DATA (set_csr_bit r b s) = CONTROL_DATA s" "CONTROL_DATA (clear_csr_bit r b s) = CONTROL_DATA s"
  "CONTROL_DATA (tlb_shutdown s) = CONTROL_DATA s"
  by (simp_all add: update_hypervisor_state_def write_csr_def set_csr_bit_def clear_csr_bit_def
      tlb_shutdown_def execute_fence_def)

lemma run_apply_trap: "run same_view (\<lambda>_. True) (apply_trap b) (\<lambda>_ _. True) (\<lambda>_. False)"
  by (rule runI) (auto simp: apply_trap_def Let_def same_view_def protection_csrs_def split: if_splits)

lemma run_after_view:
  assumes "run same_view (\<lambda>_. True) m (\<lambda>_ _. True) (\<lambda>_. False)" and "\<And>s. same_view s (f s)"
  shows "run same_view (\<lambda>_. True) (\<lambda>s. m (f s)) (\<lambda>_ _. True) (\<lambda>_. False)"
  by (rule runI) (use run_Ok [OF assms(1)] run_Err [OF assms(1)] assms(2) view.trans in blast)+

lemma run_HardwareHart_apply:
  "run same_view (\<lambda>_. True) (HardwareHart_apply t) (\<lambda>_ _. True) (\<lambda>_. False)"
proof (cases t)
  case (ExposeSbiRequest v)
  then show ?thesis
    unfolding HardwareHart_apply_def apply_sbi_request_def Let_def
    by (simp, intro run_after_view [OF run_apply_trap]) (auto simp: same_view_def protection_csrs_def)
next
  case (ExposeSbiVmRequest v)
  then show ?thesis
    unfolding HardwareHart_apply_def apply_sbi_vm_request_def Let_def
    by (simp, intro run_after_view [OF run_apply_trap]) (auto simp: same_view_def protection_csrs_def)
next
  case (ExposeMmioLoadRequest v)
  then show ?thesis
    unfolding HardwareHart_apply_def apply_mmio_load_request_def Let_def
    by (simp, intro run_after_view [OF run_apply_trap]) (auto simp: same_view_def protection_csrs_def)
next
  case (ExposeMmioStoreRequest v)
  then show ?thesis
    unfolding HardwareHart_apply_def apply_mmio_store_request_def Let_def
    by (simp, intro run_after_view [OF run_apply_trap]) (auto simp: same_view_def protection_csrs_def)
next
  case (ExposeInterruptRequest v)
  then show ?thesis
    unfolding HardwareHart_apply_def apply_interrupt_request_def Let_def
    by (simp, intro run_after_view [OF run_apply_trap]) (auto simp: same_view_def protection_csrs_def)
qed (rule runI; auto simp: HardwareHart_apply_def HardwareHart_apply_sbi_result_def Let_def
      apply_opensbi_result_def apply_enabled_interrupts_def same_view_def protection_csrs_def add_usize_def
      split: if_splits)+

lemma run_exit_to_hypervisor:
  "run (maintains l n) (\<lambda>s. \<not> running s) (exit_to_hypervisor t)
     (\<lambda>x s. x = ExitToHypervisor \<and> \<not> running s) (\<lambda>_. False)"
  unfolding exit_to_hypervisor_def
  by (rule flow.bind [OF run_view_running(2) [OF run_HardwareHart_apply, simplified]],
      rule flow.bind [OF run_modify(2)])
     (auto intro: same_view_volatile flow.ret)

section \<open>Operations on the table of confidential VMs\<close>

lemma vm_table_CONTROL_DATA [simp]:
  "vm_table (s\<lparr>CONTROL_DATA := Some (cd\<lparr>confidential_vms := vms\<rparr>)\<rparr>) = map_of vms"
  "own_hart_ok l n (s\<lparr>CONTROL_DATA := c\<rparr>) = own_hart_ok l n s"
  "occupied (s\<lparr>CONTROL_DATA := c\<rparr>) = occupied s" "running (s\<lparr>CONTROL_DATA := c\<rparr>) = running s"
  by (simp_all add: vm_table_def own_hart_ok_def occupied_def running_def cong: option.case_cong)

text \<open>A closure that runs under the lock of VM \<open>k\<close> has to keep the invariant with the VM it
  leaves behind put back into the table.\<close>

definition vm_step ::
    "memory_layout \<Rightarrow> usize \<Rightarrow> confidential_vm_id \<Rightarrow> confidential_vm \<times> 'z monitor_scheme
     \<Rightarrow> confidential_vm \<times> 'z monitor_scheme \<Rightarrow> bool" where
  "vm_step l n k = (\<lambda>(vm, s) (vm', t). (\<forall>others vms. vms k = Some vm \<longrightarrow> own_hart_ok l n s
     \<longrightarrow> control_ok (others(n := occupied s)) vms
     \<longrightarrow> own_hart_ok l n t \<and> control_ok (others(n := occupied t)) (vms(k \<mapsto> vm')))
     \<and> (pmp_in_use (csrs s) \<longrightarrow> pmp_in_use (csrs t)))"

interpretation vm_flow: transition "vm_step l n k"
proof
  show "vm_step l n k vs vs" for vs :: "confidential_vm \<times> 'z monitor_scheme"
    by (cases vs) (auto simp: vm_step_def map_upd_triv)
  show "vm_step l n k vs us" if "vm_step l n k vs ts" "vm_step l n k ts us"
    for vs ts us :: "confidential_vm \<times> 'z monitor_scheme"
  proof (cases vs; cases ts; cases us)
    fix vm vm' vm'' and s t u :: "'z monitor_scheme"
    assume eq: "vs = (vm, s)" "ts = (vm', t)" "us = (vm'', u)"
    show ?thesis unfolding vm_step_def eq prod.case
    proof (rule conjI; intro allI impI)
      fix others vms
      assume *: "vms k = Some vm" "own_hart_ok l n s" "control_ok (others(n := occupied s)) vms"
      with that(1) have "own_hart_ok l n t" "control_ok (others(n := occupied t)) (vms(k \<mapsto> vm'))"
        by (auto simp: vm_step_def eq)
      with that(2) show "own_hart_ok l n u \<and> control_ok (others(n := occupied u)) (vms(k \<mapsto> vm''))"
        by (auto simp: vm_step_def eq dest!: spec [of _ others] spec [of _ "vms(k \<mapsto> vm')"])
    next
      show "pmp_in_use (csrs u)" if "pmp_in_use (csrs s)"
        using that \<open>vm_step l n k vs ts\<close> \<open>vm_step l n k ts us\<close> by (auto simp: vm_step_def eq)
    qed
  qed
qed

lemma maintains_vm_step:
  assumes "vm_step l n k (vm, s) (vm', t)" "CONTROL_DATA s = Some cd" "map_of (confidential_vms cd) k = Some vm"
  shows "maintains l n s
    (t\<lparr>CONTROL_DATA := Some (cd\<lparr>confidential_vms := AList.update k vm' (confidential_vms cd)\<rparr>)\<rparr>)"
  using assms by (auto simp: maintains_def hart_inv_def vm_step_def vm_table_def update_conv')

lemma run_try_confidential_vm:
  assumes "run (vm_step l n k) (\<lambda>(_, s). P s) op (\<lambda>a (_, s). Q a s) (\<lambda>(_, s). E s)"
    and "\<And>a s c. Q a s \<Longrightarrow> Q a (s\<lparr>CONTROL_DATA := c\<rparr>)" "\<And>s c. E s \<Longrightarrow> E (s\<lparr>CONTROL_DATA := c\<rparr>)"
    and "\<And>s. P s \<Longrightarrow> E s"
  shows "run (maintains l n) P (try_confidential_vm k op) Q E"
proof (rule runI)
  fix s a u assume "P s" "try_confidential_vm k op s = (Ok a, u)"
  then obtain cd vm vm' t where "CONTROL_DATA s = Some cd" "map_of (confidential_vms cd) k = Some vm"
    "op (vm, s) = (Ok a, (vm', t))"
    "u = t\<lparr>CONTROL_DATA := Some (cd\<lparr>confidential_vms := AList.update k vm' (confidential_vms cd)\<rparr>)\<rparr>"
    by (auto simp: try_confidential_vm_def ControlData_confidential_vm_def ok_or_def
        split: option.splits result.splits prod.splits)
  with run_Ok [OF assms(1), of "(vm, s)"] \<open>P s\<close> maintains_vm_step assms(2)
  show "maintains l n s u \<and> Q a u" by auto
next
  fix s e u assume "P s" "try_confidential_vm k op s = (Err e, u)"
  then consider "u = s" | cd vm vm' t where "CONTROL_DATA s = Some cd" "map_of (confidential_vms cd) k = Some vm"
    "op (vm, s) = (Err e, (vm', t))"
    "u = t\<lparr>CONTROL_DATA := Some (cd\<lparr>confidential_vms := AList.update k vm' (confidential_vms cd)\<rparr>)\<rparr>"
    by (auto simp: try_confidential_vm_def ControlData_confidential_vm_def ok_or_def
        split: option.splits result.splits prod.splits)
  then show "maintains l n s u \<and> E u"
  proof cases
    case 2
    with run_Err [OF assms(1), of "(vm, s)"] \<open>P s\<close> maintains_vm_step assms(3) show ?thesis by auto
  qed (use assms(4) \<open>P s\<close> in \<open>simp add: flow.refl\<close>)
qed

subsection \<open>Stealing and returning a hart\<close>

lemma protection_open_close:
  assumes "protection_ok l c (csrs s)"
  shows "protection_ok l True (csrs (open_access_to_confidential_memory s))"
    and "protection_ok l False (csrs (close_access_to_confidential_memory s))"
  using assms
  by (auto simp: protection_ok_def pmp_region_def pmp_use_open_close pmp_open_close)

lemma loaded_csrs_protection: "r \<in> protection_csrs \<Longrightarrow> r \<notin> set loaded_csrs"
  by (auto simp: protection_csrs_def loaded_csrs_def)

lemma protection_ok_load:
  "protection_ok l c (load_control_status_registers h f) = protection_ok l c f"
  by (rule protection_ok_congr) (simp add: csr_after_load loaded_csrs_protection)

lemma protection_ok_hgatp [simp]: "protection_ok l c (f(CSR_HGATP := v)) = protection_ok l c f"
  by (rule protection_ok_congr) (auto simp: protection_csrs_def)

lemma protector_frame [simp]:
  "hardware (open_access_to_confidential_memory s) = hardware s"
  "hardware (close_access_to_confidential_memory s) = hardware s"
  "hardware (enable_address_translation v s) = hardware s" "hardware (tlb_shutdown s) = hardware s"
  by (simp_all add: tlb_shutdown_def execute_fence_def enable_address_translation_def write_csr_def
      open_access_to_confidential_memory_def clear_caches_def close_access_to_confidential_memory_def
      Let_def split: prod.splits)

text \<open>The control and status registers after a switch to a confidential hart, and back.\<close>

definition csrs_on_enter :: "confidential_vm_memory_protector \<Rightarrow> confidential_hart \<Rightarrow> csr_file \<Rightarrow> csr_file" where
  "csrs_on_enter mp h f =
     (load_control_status_registers (confidential_hart_state h) f)
       (CSR_PMPCFG0 := f CSR_PMPCFG0 OR (mask 3 OR push_bit 8 (mask 4)), CSR_HGATP := protector_hgatp mp)"

definition csrs_on_leave :: "hart_architectural_state \<Rightarrow> csr_file \<Rightarrow> csr_file" where
  "csrs_on_leave h f =
     (load_control_status_registers h f)
       (CSR_VSIE := f CSR_VSIE, CSR_PMPCFG0 := f CSR_PMPCFG0 AND NOT (mask 3 OR push_bit 8 (mask 3)),
        CSR_HGATP := dump h CSR_HGATP)"

lemma PMPCFG0_not_loaded [simp]: "load_control_status_registers h f CSR_PMPCFG0 = f CSR_PMPCFG0"
  by (simp add: csr_after_load loaded_csrs_protection protection_csrs_def)

lemma csrs_protector_enable:
  "csrs (protector_enable mp s) =
     (csrs s)(CSR_PMPCFG0 := csrs s CSR_PMPCFG0 OR (mask 3 OR push_bit 8 (mask 4)),
              CSR_HGATP := protector_hgatp mp)"
  by (simp add: protector_enable_def csrs_open)

lemma steal_Ok:
  assumes "steal_confidential_hart i (vm, s) = (Ok a, (vm', t))"
  defines "h \<equiv> confidential_harts vm ! unat i"
  shows "unat i < length (confidential_harts vm)" "is_executable h"
    and "vm' = set_hart i (assigned_hart (hardware s)) vm"
    and "assigned_hart (hardware t) = apply_injected_interrupts (InjectedInterrupts_new (csrs s)) h"
    and "hypervisor_state t = store_control_status_registers (csrs s) (hypervisor_state s)"
    and "csrs t = csrs_on_enter (memory_protector vm) h (csrs s)"
proof -
  from assms have u: "unat i < length (confidential_harts vm)" and e: "is_executable h"
    by (auto simp: steal_confidential_hart_def nth_hart_def split: option.splits if_splits prod.splits)
  then show "unat i < length (confidential_harts vm)" "is_executable h" by simp_all
  let ?s = "set_assigned_hart (apply_injected_interrupts (InjectedInterrupts_new (csrs s)) h)
    ((update_hypervisor_state (store_control_status_registers (csrs s)) s)
      \<lparr>csrs := load_control_status_registers (confidential_hart_state h) (csrs s)\<rparr>)"
  have "vm' = set_hart i (assigned_hart (hardware s)) vm \<and> t = protector_enable (memory_protector vm) ?s"
    using assms(1) u e unfolding h_def
    by (simp add: steal_confidential_hart_def nth_hart_def is_executable_def
        HardwareHart_store_control_status_registers_def ConfidentialHart_load_control_status_registers_def
        Let_def)
  then show "vm' = set_hart i (assigned_hart (hardware s)) vm"
    "assigned_hart (hardware t) = apply_injected_interrupts (InjectedInterrupts_new (csrs s)) h"
    "hypervisor_state t = store_control_status_registers (csrs s) (hypervisor_state s)"
    "csrs t = csrs_on_enter (memory_protector vm) h (csrs s)"
    by (simp_all add: csrs_protector_enable csrs_on_enter_def protector_enable_def set_assigned_hart_def
        csrs_open)
qed

lemma steal_Err:
  assumes "steal_confidential_hart i (vm, s) = (Err e, vs)"
  shows "vs = (vm, s)"
    and "e = (if \<not> unat i < length (confidential_harts vm) then InvalidHartId
         else if is_dummy (confidential_harts vm ! unat i) then HartAlreadyRunning else HartNotExecutable)"
  using assms
  by (auto simp: steal_confidential_hart_def nth_hart_def Let_def split: option.splits if_splits prod.splits)

lemma protection_on_enter: "protection_ok l c f \<Longrightarrow> protection_ok l True (csrs_on_enter mp h f)"
  using protection_open_close(1) [of l c "undefined\<lparr>csrs := load_control_status_registers (confidential_hart_state h) f\<rparr>"]
  by (simp add: csrs_on_enter_def csrs_open protection_ok_load)

lemma in_use_on_enter: "pmp_in_use f \<Longrightarrow> pmp_in_use (csrs_on_enter mp h f)"
  using pmp_use_open_close(5) [of "(undefined :: physical_hart)\<lparr>csrs := f\<rparr>"]
    pmp_cong(2) [of "csrs_on_enter mp h f" "csrs (open_access_to_confidential_memory ((undefined :: physical_hart)\<lparr>csrs := f\<rparr>))"]
  by (simp add: csrs_on_enter_def csrs_open)

lemma in_use_on_leave: "pmp_in_use (csrs_on_leave h f) = pmp_in_use f"
  using pmp_use_open_close(2) [of "(undefined :: physical_hart)\<lparr>csrs := f\<rparr>"]
    pmp_cong(2) [of "csrs_on_leave h f" "csrs (close_access_to_confidential_memory ((undefined :: physical_hart)\<lparr>csrs := f\<rparr>))"]
  by (simp add: csrs_on_leave_def csrs_close)

lemma protection_on_leave:
  assumes "protection_ok l c f"
  shows "protection_ok l False (csrs_on_leave h f)"
proof -
  let ?s = "(undefined :: physical_hart)\<lparr>csrs := load_control_status_registers h f\<rparr>"
  have "protection_ok l False (csrs_on_leave h f)
      = protection_ok l False (csrs (close_access_to_confidential_memory ?s))"
    by (rule protection_ok_congr) (auto simp: csrs_on_leave_def csrs_close protection_csrs_def)
  then show ?thesis using protection_open_close(2) [of l c ?s] assms by (simp add: protection_ok_load)
qed

lemma run_steal:
  "run (vm_step l n k) (\<lambda>(_, s). \<not> running s) (steal_confidential_hart i)
     (\<lambda>_ (_, s). running s) (\<lambda>(_, s). \<not> running s)"
proof (rule runI, goal_cases)
  case (1 vs a us)
  obtain vm s vm' t where vs: "vs = (vm, s)" and us: "us = (vm', t)" by (cases vs; cases us)
  note st = steal_Ok [OF 1(2) [unfolded vs us]]
  let ?h = "confidential_harts vm ! unat i"
  have idle: "is_dummy (assigned_hart (hardware s))" "occupied s = None"
    using 1(1) by (simp_all add: vs running_def occupied_def is_dummy_def)
  have h: "\<not> is_dummy ?h" using st(2) by (simp add: is_executable_def)
  have run: "running t" using h by (simp add: running_def st(4) apply_injected_interrupts_def is_dummy_def)
  have "own_hart_ok l n t \<and> control_ok (others(n := occupied t)) (vms(k \<mapsto> vm'))"
    if "vms k = Some vm" "own_hart_ok l n s" "control_ok (others(n := occupied s)) vms" for others vms
  proof
    show "own_hart_ok l n t"
      using that(2) run protection_on_enter by (auto simp: own_hart_ok_def st(6) running_def Let_def)
    have "hart_vm_id ?h = Some k" "confidential_hart_id ?h = i"
      using vm_ok_slot [OF control_ok_vm [OF that(3,1)] st(1)] h by (simp_all add: slot_ok_def)
    then have "occupied t = Some (k, i, protector_hgatp (memory_protector vm))"
      by (simp add: occupied_def st(4,6) apply_injected_interrupts_def csrs_on_enter_def
          confidential_hart_id_def)
    moreover have "confidential_hart_id (assigned_hart (hardware s)) = n"
      "lifecycle_state (assigned_hart (hardware s)) = Started"
      using that(2) idle by (simp_all add: own_hart_ok_def Let_def)
    ultimately show "control_ok (others(n := occupied t)) (vms(k \<mapsto> vm'))"
      using control_ok_steal [OF that(3,1) _ st(1) h idle(1)] idle st(3) by simp
  qed
  with run show ?case by (simp add: vs us vm_step_def st(6) in_use_on_enter)
next
  case (2 vs e us)
  then show ?case using steal_Err(1) [of i "fst vs" "snd vs" e us] by (auto simp: vm_flow.refl)
qed

lemma return_Ok:
  assumes "return_confidential_hart (vm, s) = (Ok a, (vm', t))"
  defines "h \<equiv> assigned_hart (hardware s)"
  defines "i \<equiv> confidential_hart_id h"
  shows "\<not> is_dummy h" "hart_vm_id h = Some (vm_id vm)" "unat i < length (confidential_harts vm)"
    and "vm' = set_hart i (h\<lparr>confidential_hart_state :=
        store_control_status_registers (csrs s) (confidential_hart_state h)\<rparr>) vm"
    and "assigned_hart (hardware t) = confidential_harts vm ! unat i"
    and "hypervisor_state t = hypervisor_state s"
    and "csrs t = csrs_on_leave (hypervisor_state s) (csrs s)"
proof -
  have c: "\<not> is_dummy h" "hart_vm_id h = Some (vm_id vm)" "unat i < length (confidential_harts vm)"
    using assms(1) unfolding h_def i_def
    by (auto simp: return_confidential_hart_def Let_def split: if_splits)
  then show "\<not> is_dummy h" "hart_vm_id h = Some (vm_id vm)" "unat i < length (confidential_harts vm)" by simp_all
  let ?s = "set_assigned_hart (confidential_harts vm ! unat i) s"
  have "vm' = set_hart i (h\<lparr>confidential_hart_state :=
        store_control_status_registers (csrs s) (confidential_hart_state h)\<rparr>) vm
      \<and> t = enable_hypervisor_memory_protector (apply_enabled_interrupts (EnabledInterrupts_new (csrs s))
          (?s\<lparr>csrs := load_control_status_registers (hypervisor_state s) (csrs s)\<rparr>))"
    using assms(1) c unfolding h_def i_def
    by (simp add: return_confidential_hart_def Let_def ConfidentialHart_store_control_status_registers_def
        HardwareHart_load_control_status_registers_def HardwareHart_apply_def)
  then show "vm' = set_hart i (h\<lparr>confidential_hart_state :=
        store_control_status_registers (csrs s) (confidential_hart_state h)\<rparr>) vm"
    "assigned_hart (hardware t) = confidential_harts vm ! unat i" "hypervisor_state t = hypervisor_state s"
    "csrs t = csrs_on_leave (hypervisor_state s) (csrs s)"
    by (simp_all add: enable_hypervisor_memory_protector_def HypervisorMemoryProtector_enable_def
        csrs_on_leave_def csrs_close apply_enabled_interrupts_def EnabledInterrupts_new_def read_csr_def)
qed

lemma occupied_running: "occupied s = Some (k, i, g) \<Longrightarrow> running s"
  by (auto simp: occupied_def running_def is_dummy_def Let_def split: option.splits)

lemma run_return:
  "run (vm_step l n k) (\<lambda>_. True) return_confidential_hart (\<lambda>_ _. True) (\<lambda>_. False)"
proof (rule runI, goal_cases)
  case (1 vs a us)
  obtain vm s vm' t where vs: "vs = (vm, s)" and us: "us = (vm', t)" by (cases vs; cases us)
  note rt = return_Ok [OF 1(2) [unfolded vs us]]
  let ?h = "assigned_hart (hardware s)"
  have "own_hart_ok l n t \<and> control_ok (others(n := occupied t)) (vms(k \<mapsto> vm'))"
    if vm: "vms k = Some vm" and own: "own_hart_ok l n s"
      and ok: "control_ok (others(n := occupied s)) vms" for others vms
  proof
    have id: "vm_id vm = k" using control_ok_vm [OF ok vm] by (simp add: vm_ok_def)
    have occ: "(others(n := occupied s)) n = Some (k, confidential_hart_id ?h, csrs s CSR_HGATP)"
      by (simp add: occupied_def rt(2) id)
    from seated_slot [OF ok occ] vm have slot:
      "is_dummy (confidential_harts vm ! unat (confidential_hart_id ?h))"
      "confidential_hart_id (confidential_harts vm ! unat (confidential_hart_id ?h)) = n"
      "lifecycle_state (confidential_harts vm ! unat (confidential_hart_id ?h)) = Started"
      by (metis option.inject)+
    then have t: "\<not> running t" "occupied t = None"
      by (simp_all add: running_def occupied_def rt(5) is_dummy_def)
    with own slot show "own_hart_ok l n t"
      using protection_on_leave by (auto simp: own_hart_ok_def rt(5,7) Let_def)
    have "control_ok (others(n := occupied s, n := None)) (vms(k \<mapsto> vm'))"
      unfolding rt(4)
      by (rule control_ok_return [OF ok vm occ])
         (simp_all add: rt(2) id confidential_hart_id_def)
    then show "control_ok (others(n := occupied t)) (vms(k \<mapsto> vm'))" using t by simp
  qed
  then show ?case by (simp add: vs us vm_step_def rt(7) in_use_on_leave)
next
  case (2 vs e us)
  then show ?case
    by (cases vs) (auto simp: return_confidential_hart_def Let_def HardwareHart_load_control_status_registers_def
        HardwareHart_apply_def split: if_splits prod.splits)
qed

lemma NonConfidentialFlow_create_Ok: "NonConfidentialFlow_create s = (Ok a, t) \<longleftrightarrow> t = s \<and> \<not> running s"
  by (auto simp: NonConfidentialFlow_create_def running_def res_simps)

lemma ConfidentialFlow_create_Ok: "ConfidentialFlow_create s = (Ok a, t) \<longleftrightarrow> t = s \<and> running s"
  by (auto simp: ConfidentialFlow_create_def running_def res_simps)

lemma run_flow_vm_id: "run (maintains l n) P flow_vm_id (\<lambda>_. P) E"
  by (rule runI) (auto simp: flow_vm_id_def flow.refl unwrap_option_def split: option.splits)

lemma run_into_non_confidential_flow:
  "run (maintains l n) P into_non_confidential_flow (\<lambda>_ s. \<not> running s) E"
proof -
  have create: "run (vm_step l n k) (\<lambda>_. True)
      (\<lambda>(vm, s :: 'z monitor_scheme). case NonConfidentialFlow_create s of (r, s) \<Rightarrow> (r, (vm, s)))
      (\<lambda>_ (_, s). \<not> running s) (\<lambda>_. False)" for k
    by (rule runI)
       (auto simp: NonConfidentialFlow_create_def running_def assert_that_def vm_flow.refl split: if_splits)
  have "run (maintains l n) (\<lambda>_ :: 'z monitor_scheme. True)
      (try_confidential_vm k (sbind return_confidential_hart (\<lambda>_ (vm, s).
         case NonConfidentialFlow_create s of (r, s) \<Rightarrow> (r, (vm, s)))))
      (\<lambda>_ s. \<not> running s) (\<lambda>_. True)" for k
    by (rule run_try_confidential_vm [OF run_weaken [OF vm_flow.bind [OF run_return create]]]) auto
  then show ?thesis
    unfolding into_non_confidential_flow_def
    by (intro flow.bind [OF run_flow_vm_id] flow.unwrap) (rule run_weaken, auto)
qed

subsection \<open>Operations that leave the harts in their slots\<close>

definition similar_hart :: "confidential_hart \<Rightarrow> confidential_hart \<Rightarrow> bool" where
  "similar_hart h g \<longleftrightarrow> (if is_dummy h then g = h
     else hart_vm_id g = hart_vm_id h \<and> confidential_hart_id g = confidential_hart_id h)"

definition similar_vm :: "confidential_vm \<Rightarrow> confidential_vm \<Rightarrow> bool" where
  "similar_vm vm vm' \<longleftrightarrow> vm_id vm' = vm_id vm
     \<and> list_all2 similar_hart (confidential_harts vm) (confidential_harts vm')
     \<and> protector_hgatp (memory_protector vm') = protector_hgatp (memory_protector vm)
     \<and> (queues_ok vm \<longrightarrow> queues_ok vm')"

definition same_hart :: "'z monitor_scheme \<Rightarrow> 'z monitor_scheme \<Rightarrow> bool" where
  "same_hart s t \<longleftrightarrow> similar_hart (assigned_hart (hardware s)) (assigned_hart (hardware t))
     \<and> (\<forall>r \<in> insert CSR_HGATP protection_csrs. csrs t r = csrs s r)
     \<and> CONTROL_DATA t = CONTROL_DATA s"

definition similar :: "confidential_vm \<times> 'z monitor_scheme \<Rightarrow> confidential_vm \<times> 'z monitor_scheme \<Rightarrow> bool" where
  "similar = (\<lambda>(vm, s) (vm', t). similar_vm vm vm' \<and> same_hart s t)"

lemma similar_hart_refl [simp]: "similar_hart h h"
  by (simp add: similar_hart_def)

lemma similar_hart_trans: "similar_hart h g \<Longrightarrow> similar_hart g k \<Longrightarrow> similar_hart h k"
  by (auto simp: similar_hart_def is_dummy_def split: if_splits)

lemma similar_hart_dummy: "similar_hart h g \<Longrightarrow> is_dummy g = is_dummy h"
  by (auto simp: similar_hart_def is_dummy_def split: if_splits)

lemma similar_vm_refl [simp]: "similar_vm vm vm"
  by (simp add: similar_vm_def list_all2_refl)

lemma similar_vm_trans: "similar_vm vm vm' \<Longrightarrow> similar_vm vm' vm'' \<Longrightarrow> similar_vm vm vm''"
  unfolding similar_vm_def by (auto intro: list_all2_trans [OF similar_hart_trans])

lemma same_hart_refl [simp]: "same_hart s s"
  by (simp add: same_hart_def)

lemma same_hart_trans: "same_hart s t \<Longrightarrow> same_hart t u \<Longrightarrow> same_hart s u"
  unfolding same_hart_def by (auto intro: similar_hart_trans)

interpretation similar: transition similar
  by unfold_locales (auto simp: similar_def intro: similar_vm_trans same_hart_trans)

interpretation same_hart: transition same_hart
  by unfold_locales (auto intro: same_hart_trans)

lemma same_hart_running: "same_hart s t \<Longrightarrow> running t = running s"
  by (simp add: same_hart_def running_def similar_hart_dummy)

lemma same_hart_in_use: "same_hart s t \<Longrightarrow> pmp_in_use (csrs t) = pmp_in_use (csrs s)"
  by (rule pmp_in_use_congr) (simp add: same_hart_def)

lemma same_view_hart: "same_view s t \<Longrightarrow> same_hart s t"
  by (simp add: same_view_def same_hart_def)

lemma same_hart_inv:
  assumes "same_hart s t"
  shows "occupied t = occupied s" and "own_hart_ok l n s \<Longrightarrow> own_hart_ok l n t"
proof -
  show "occupied t = occupied s"
    using assms by (intro occupied_congr) (auto simp: same_hart_def similar_hart_def split: if_splits)
  assume own: "own_hart_ok l n s"
  have prot: "protection_ok l (running t) (csrs t)"
    using own assms same_hart_running [OF assms] protection_ok_congr [of "csrs t" "csrs s"]
    by (simp add: same_hart_def own_hart_ok_def)
  show "own_hart_ok l n t"
  proof (cases "is_dummy (assigned_hart (hardware t))")
    case True
    then have "assigned_hart (hardware t) = assigned_hart (hardware s)"
      using assms similar_hart_dummy unfolding same_hart_def similar_hart_def by metis
    then show ?thesis using prot own by (simp add: own_hart_ok_def)
  qed (simp add: own_hart_ok_def prot)
qed

lemma similar_slot_ok: "similar_hart h g \<Longrightarrow> slot_ok occ k i h \<Longrightarrow> slot_ok occ k i g"
  by (auto simp: similar_hart_def slot_ok_def is_dummy_def split: if_splits)

lemma similar_vm_ok:
  assumes "similar_vm vm vm'" and "vm_ok occ k vm"
  shows "vm_ok occ k vm'"
proof (rule vm_ok_set_hart [OF assms(2)])
  show "slot_ok occ k i (confidential_harts vm' ! i)" if "i < length (confidential_harts vm')" for i
    using that assms vm_ok_slot [OF assms(2), of i]
    by (auto simp: similar_vm_def list_all2_conv_all_nth intro: similar_slot_ok)
qed (use assms in \<open>auto simp: similar_vm_def vm_ok_def dest: list_all2_lengthD\<close>)

lemma similar_vm_step:
  assumes "similar vs ts"
  shows "vm_step l n k vs ts"
proof -
  obtain vm s vm' t where eq: "vs = (vm, s)" "ts = (vm', t)" by (cases vs; cases ts)
  with assms have vm: "similar_vm vm vm'" and st: "same_hart s t" by (simp_all add: similar_def)
  have "control_ok (others(n := occupied s)) (vms(k \<mapsto> vm'))"
    if "vms k = Some vm" "control_ok (others(n := occupied s)) vms" for others vms
    using vm similar_vm_ok [OF vm control_ok_vm [OF that(2,1)]]
    by (intro control_ok_update [OF that(2,1)])
       (auto simp: similar_vm_def list_all2_conv_all_nth similar_hart_def split: if_splits)
  then show ?thesis using same_hart_inv [OF st] same_hart_in_use [OF st] by (auto simp: vm_step_def eq)
qed

lemma run_similar_running:
  assumes "run similar (\<lambda>(_, s). running s) op (\<lambda>_ _. True) (\<lambda>_. True)"
  shows "run (maintains l n) running (try_confidential_vm k op) (\<lambda>_. running) running"
proof (rule run_try_confidential_vm)
  have step: "vm_step l n k vs ts \<and> running (snd ts)" if "similar vs ts" "running (snd vs)"
    for vs ts :: "confidential_vm \<times> 'a monitor_scheme"
    using similar_vm_step [OF that(1)] that by (auto simp: similar_def same_hart_running split: prod.splits)
  show "run (vm_step l n k) (\<lambda>(_, s). running s) op (\<lambda>_ (_, s). running s) (\<lambda>(_, s). running s)"
  proof (rule runI)
    show "vm_step l n k vs ts \<and> (case ts of (_, s) \<Rightarrow> running s)"
      if "case vs of (_, s) \<Rightarrow> running s" "op vs = (Ok a, ts)" for vs a ts
      using run_Ok [OF assms that] step [of vs ts] that(1) by (simp add: split_beta)
    show "vm_step l n k vs ts \<and> (case ts of (_, s) \<Rightarrow> running s)"
      if "case vs of (_, s) \<Rightarrow> running s" "op vs = (Err e, ts)" for vs e ts
      using run_Err [OF assms that] step [of vs ts] that(1) by (simp add: split_beta)
  qed
qed auto

text \<open>The operations themselves.\<close>

lemma queues_ok_update:
  "queues_ok vm \<Longrightarrow> length q \<le> MAX_NUMBER_OF_REMOTE_HART_REQUESTS
     \<Longrightarrow> queues_ok (vm\<lparr>inter_hart_requests := (inter_hart_requests vm)(i \<mapsto> q)\<rparr>)"
  by (auto simp: queues_ok_def)

lemma similar_vm_queue:
  "(queues_ok vm \<Longrightarrow> length q \<le> MAX_NUMBER_OF_REMOTE_HART_REQUESTS)
     \<Longrightarrow> similar_vm vm (vm\<lparr>inter_hart_requests := (inter_hart_requests vm)(i \<mapsto> q)\<rparr>)"
  by (simp add: similar_vm_def list_all2_refl queues_ok_update)

lemma similar_vm_set_hart:
  "unat i < length (confidential_harts vm) \<Longrightarrow> similar_hart (confidential_harts vm ! unat i) h
     \<Longrightarrow> similar_vm vm (set_hart i h vm)"
  by (simp add: similar_vm_def list_all2_conv_all_nth nth_list_update)

lemma similar_vm_protector:
  "protector_hgatp mp = protector_hgatp (memory_protector vm) \<Longrightarrow> similar_vm vm (vm\<lparr>memory_protector := mp\<rparr>)"
  by (simp add: similar_vm_def list_all2_refl queues_ok_def)

lemma nth_hart_Some:
  "nth_hart vm i = Some h \<longleftrightarrow> unat i < length (confidential_harts vm) \<and> h = confidential_harts vm ! unat i"
  by (auto simp: nth_hart_def)

lemma start_identity:
  "transition_from_stopped_to_start_pending r h = Ok g \<Longrightarrow> \<not> is_dummy h
     \<and> hart_vm_id g = hart_vm_id h \<and> confidential_hart_id g = confidential_hart_id h"
  by (auto simp: transition_from_stopped_to_start_pending_def res_simps Let_def confidential_hart_id_def)

lemma run_transit:
  "run similar P (transit_confidential_hart_to_start_pending r) (\<lambda>_ _. True) (\<lambda>_. True)"
  by (rule runI)
     (auto simp: transit_confidential_hart_to_start_pending_def similar.refl nth_hart_Some similar_def
       split: prod.splits option.splits result.splits
       intro!: similar_vm_set_hart dest!: start_identity simp: similar_hart_def)

lemma run_send_ipi: "run same_hart P (send_ipi env i) (\<lambda>_ _. True) (\<lambda>_. True)"
  by (rule runI) (auto simp: send_ipi_def same_hart_def Let_def split: if_splits)

lemma push_request_bound:
  "push_request r q = (x, q') \<Longrightarrow> length q \<le> MAX_NUMBER_OF_REMOTE_HART_REQUESTS
     \<Longrightarrow> length q' \<le> MAX_NUMBER_OF_REMOTE_HART_REQUESTS"
  by (auto simp: push_request_def split: if_splits)

lemma similar_hart_apply: "ConfidentialHart_apply t h = Ok g \<Longrightarrow> \<not> is_dummy h \<Longrightarrow> similar_hart h g"
  by (auto simp: similar_hart_def dest: apply_identity)

end
