(* ===== verification/Flow_Invariants.thy ===== *)
theory Flow_Invariants
  imports Assignment
begin

text \<open>
  Every handler of the two flows keeps the invariant of \<open>Assignment\<close> and ends in the exit that fits the
  hart it leaves: a confidential hart is resumed only while it is assigned to the hardware hart, and
  the hypervisor only after the confidential hart was returned.
\<close>

section \<open>Closures on a confidential VM\<close>

lemma similar_pair: "similar_vm vm vm' \<Longrightarrow> same_hart s t \<Longrightarrow> similar (vm, s) (vm', t)"
  by (simp add: similar_def)

lemma same_hart_fences: "same_hart s (s\<lparr>fences := f\<rparr>)"
  by (simp add: same_hart_def)

lemma queue_bound:
  "queues_ok vm \<Longrightarrow> inter_hart_requests vm i = Some q \<Longrightarrow> length q \<le> MAX_NUMBER_OF_REMOTE_HART_REQUESTS"
  by (simp add: queues_ok_def)

lemma deliver_request_similar:
  assumes that: "deliver_request env r i (vm, s) = (x, vs)" "x \<noteq> Panic"
  shows "similar (vm, s) vs"
proof (cases "nth_hart vm i")
    case None
    with that show ?thesis by (simp add: deliver_request_def)
  next
    case (Some h)
    then have h: "unat i < length (confidential_harts vm)" "h = confidential_harts vm ! unat i"
      by (simp_all add: nth_hart_Some)
    show ?thesis
    proof (cases "is_dummy h")
      case False
      with that Some h show ?thesis
        by (auto simp: deliver_request_def Let_def similar.refl split: result.splits
            intro!: similar_pair similar_vm_set_hart same_hart_fences similar_hart_apply)
    next
      case True
      show ?thesis
      proof (cases "inter_hart_requests vm i")
        case None
        with that Some True show ?thesis
          by (auto simp: deliver_request_def try_inter_hart_requests_def similar.refl)
      next
        case (Some q)
        obtain y q' where p: "push_request r q = (y, q')" by (cases "push_request r q")
        then have vm: "similar_vm vm (vm\<lparr>inter_hart_requests := (inter_hart_requests vm)(i \<mapsto> q')\<rparr>)"
          by (intro similar_vm_queue push_request_bound [OF p] queue_bound [OF _ Some])
        obtain z t where z: "send_ipi env (confidential_hart_id h) s = (z, t)"
          by (cases "send_ipi env (confidential_hart_id h) s")
        have "z \<noteq> Panic \<Longrightarrow> same_hart s t"
          using run_Ok [OF run_send_ipi, of "\<lambda>_. True" s env "confidential_hart_id h" _ t]
            run_Err [OF run_send_ipi, of "\<lambda>_. True" s env "confidential_hart_id h" _ t] z
          by (cases z) auto
        with that \<open>nth_hart vm i = Some h\<close> True Some p z vm show ?thesis
          by (auto simp: deliver_request_def try_inter_hart_requests_def similar_def split: result.splits)
      qed
    qed
  qed

lemma run_deliver_request:
  "run similar (\<lambda>_. True) (deliver_request env r i) (\<lambda>_ _. True) (\<lambda>_. True)"
  by (rule runI) (auto dest: deliver_request_similar)

lemma run_deliver_requests:
  "run similar (\<lambda>_. True) (for_each (deliver_request env r) is) (\<lambda>_ _. True) (\<lambda>_. True)"
  by (intro similar.loop run_deliver_request)

lemma broadcast_similar:
  assumes "ConfidentialVm_broadcast_inter_hart_request env r vs = (x, us)" "x \<noteq> Panic"
  shows "similar vs us"
  using assms
  by (cases vs; cases x)
     (auto simp: ConfidentialVm_broadcast_inter_hart_request_def
       dest: run_Ok [OF run_deliver_requests, OF TrueI] run_Err [OF run_deliver_requests, OF TrueI])

lemma swap_similar: "similar (vm, s) (vm, swap_mscratch s)"
  by (intro similar_pair similar_vm_refl same_view_hart same_view_volatile)

lemma run_broadcast_closure:
  "run similar P (\<lambda>(vm, s). case ConfidentialVm_broadcast_inter_hart_request env r (vm, swap_mscratch s) of
       (Panic, vs) \<Rightarrow> (Panic, vs) | (x, (vm, s)) \<Rightarrow> (x, (vm, swap_mscratch s))) (\<lambda>_ _. True) (\<lambda>_. True)"
  by (rule runI)
     (auto split: prod.splits result.splits dest!: broadcast_similar
       intro: similar.trans [OF swap_similar similar.trans [OF _ swap_similar]])

lemma run_apply_same_hart:
  "run same_hart running (apply_to_assigned_hart t) (\<lambda>_. running) running"
proof (rule runI)
  fix s a u assume s: "running s" and "apply_to_assigned_hart t s = (Ok a, u)"
  then obtain h where h: "ConfidentialHart_apply t (assigned_hart (hardware s)) = Ok h"
    "u = (set_assigned_hart h s)\<lparr>fences := fences s @ transformation_fences t\<rparr>"
    by (auto simp: apply_to_assigned_hart_def on_assigned_hart_def modify_def res_simps split: result.splits)
  with s similar_hart_apply [OF h(1)] have "same_hart s u" by (auto simp: same_hart_def running_def)
  with s show "same_hart s u \<and> running u" by (simp add: same_hart_running)
qed (auto simp: apply_to_assigned_hart_def on_assigned_hart_def sbind_def modify_def apply_no_error
    split: result.splits prod.splits)

lemma run_apply_requests:
  "run same_hart running (for_each (\<lambda>r. apply_to_assigned_hart (into_expose_to_confidential_vm r)) q)
     (\<lambda>_. running) running"
  by (intro same_hart.loop run_apply_same_hart)

lemma try_requests_similar:
  assumes "try_inter_hart_requests i (\<lambda>q. (Ok q, [])) (vm, s) = (x, (vm', t))"
  shows "similar_vm vm vm' \<and> t = s"
  using assms by (auto simp: try_inter_hart_requests_def split: option.splits intro!: similar_vm_queue)

lemma run_process_inter_hart_requests:
  "run (maintains l n) running process_inter_hart_requests (\<lambda>_. running) (\<lambda>_. False)"
  unfolding process_inter_hart_requests_def
proof (intro flow.bind [OF run_flow_vm_id] flow.unwrap)
  fix k
  show "run (maintains l n) running (try_confidential_vm k (\<lambda>(vm, s).
       case try_inter_hart_requests (flow_hart_id s) (\<lambda>q. (Ok q, [])) (vm, s) of
         (Ok q, (vm, s)) \<Rightarrow>
           (case for_each (\<lambda>r. apply_to_assigned_hart (into_expose_to_confidential_vm r)) q s of
              (r, s) \<Rightarrow> (r, (vm, s)))
       | (Err e, vs) \<Rightarrow> (Err e, vs)
       | (Panic, vs) \<Rightarrow> (Panic, vs))) (\<lambda>_. running) (\<lambda>_. True)"
    (is "run _ _ (try_confidential_vm k ?op) _ _")
  proof (rule run_weaken [OF run_similar_running])
    show "run similar (\<lambda>(_, s). running s) ?op (\<lambda>_ _. True) (\<lambda>_. True)"
      by (rule runI)
         (auto split: prod.splits result.splits dest!: try_requests_similar run_Ok [OF run_apply_requests, rotated]
           run_Err [OF run_apply_requests, rotated] intro!: similar_pair)
  qed auto
qed

lemma map_shared_page_similar:
  assumes "protector_map_shared_page l sp (memory_protector vm) s = (x, t)" "x \<noteq> Panic"
  shows "same_hart s t" and "x = Ok p \<Longrightarrow> protector_hgatp p = protector_hgatp (memory_protector vm)"
proof -
  obtain y u where m: "RootPageTable_map_shared_page l (protector_root_page_table (memory_protector vm)) sp s = (y, u)"
    by (cases "RootPageTable_map_shared_page l (protector_root_page_table (memory_protector vm)) sp s")
  have "same_frame s u" if "y \<noteq> Panic"
    using that m run_Ok [OF keeps_frame_root_map_shared_page TrueI, of l _ sp s _ u]
      run_Err [OF keeps_frame_root_map_shared_page TrueI, of l _ sp s _ u] by (cases y) auto
  moreover have "same_hart u (tlb_shutdown u)" by (simp add: same_hart_def)
  ultimately show "same_hart s t"
    using assms m unfolding protector_map_shared_page_def sbind_def
    by (cases y) (auto dest!: same_frame_view same_view_hart intro: same_hart_trans)
  show "x = Ok p \<Longrightarrow> protector_hgatp p = protector_hgatp (memory_protector vm)"
    using assms by (auto simp: protector_map_shared_page_def res_simps)
qed

lemma run_map_shared_page:
  "run similar P (\<lambda>(vm, s). case protector_map_shared_page l sp (memory_protector vm) s of
       (Ok p, s) \<Rightarrow> (Ok (), (vm\<lparr>memory_protector := p\<rparr>, s))
     | (Err e, s) \<Rightarrow> (Err e, (vm, s)) | (Panic, s) \<Rightarrow> (Panic, (vm, s))) (\<lambda>_ _. True) (\<lambda>_. True)"
  by (rule runI)
     (auto split: prod.splits result.splits dest: map_shared_page_similar
       intro!: similar_pair similar_vm_protector)

section \<open>Handlers of the confidential flow\<close>

definition exit_ok :: "exit \<Rightarrow> 'z monitor_scheme \<Rightarrow> bool" where
  "exit_ok x s \<longleftrightarrow> (running s \<longleftrightarrow> x = ExitToConfidentialHart)"

abbreviation handles :: "memory_layout \<Rightarrow> usize \<Rightarrow> ('z monitor_scheme, error, exit) st \<Rightarrow> bool" where
  "handles l n m \<equiv> run (maintains l n) running m exit_ok (\<lambda>_. False)"

abbreviation serves :: "memory_layout \<Rightarrow> usize \<Rightarrow> ('z monitor_scheme, error, exit) st \<Rightarrow> bool" where
  "serves l n m \<equiv> run (maintains l n) (\<lambda>s. \<not> running s) m exit_ok (\<lambda>_. False)"

lemma handles_exit: "handles l n (exit_to_confidential_hart env t)"
  by (rule run_weaken [OF run_exit_to_confidential_hart]) (auto simp: exit_ok_def)

lemma serves_exit: "serves l n (exit_to_hypervisor t)"
  by (rule run_weaken [OF run_exit_to_hypervisor]) (auto simp: exit_ok_def)

lemma handles_leave: "handles l n (sbind into_non_confidential_flow (\<lambda>_. exit_to_hypervisor t))"
  by (rule flow.bind [OF run_into_non_confidential_flow serves_exit])

lemma handles_panic: "handles l n (lift Panic)"
  by (rule flow.lift) auto

text \<open>A computation with an error path, as the handlers write it.\<close>

lemma handles_case:
  assumes "run (maintains l n) running m (\<lambda>_. running) running"
    and "\<And>a. handles l n (f a)" and "\<And>e. handles l n (g e)"
  shows "handles l n (\<lambda>s. case m s of (Ok a, s) \<Rightarrow> f a s | (Err e, s) \<Rightarrow> g e s | (Panic, s) \<Rightarrow> (Panic, s))"
  using assms by (rule flow.both)

lemma handles_exit_with:
  "run (maintains l n) running m (\<lambda>_. running) running \<Longrightarrow> handles l n (exit_with env m t)"
  unfolding exit_with_def by (intro handles_case handles_exit)

lemma set_pending_identity:
  "ConfidentialHart_set_pending_request p h = Ok g \<Longrightarrow>
     hart_vm_id g = hart_vm_id h \<and> confidential_hart_id g = confidential_hart_id h"
  by (auto simp: ConfidentialHart_set_pending_request_def res_simps confidential_hart_id_def)

lemma handles_set_pending_request:
  "handles l n m \<Longrightarrow> handles l n (flow_set_pending_request env p m)"
  unfolding flow_set_pending_request_def
  by (intro handles_case run_on_assigned_hart set_pending_identity handles_exit)

lemma run_on_vm:
  assumes "run similar (\<lambda>(_, s). running s) op (\<lambda>_ _. True) (\<lambda>_. True)"
  shows "run (maintains l n) running (sbind flow_vm_id (\<lambda>k. try_confidential_vm k op)) (\<lambda>_. running) running"
  by (intro flow.bind [OF run_flow_vm_id] run_similar_running assms)

lemma run_broadcast:
  "run (maintains l n) running (broadcast_inter_hart_request env r) (\<lambda>_. running) running"
  unfolding broadcast_inter_hart_request_def by (intro run_on_vm run_broadcast_closure)

lemma transition_identity:
  "transition_from_started_to_stopped h = Ok g \<Longrightarrow>
     hart_vm_id g = hart_vm_id h \<and> confidential_hart_id g = confidential_hart_id h"
  "transition_from_started_to_suspended q h = Ok g \<Longrightarrow>
     hart_vm_id g = hart_vm_id h \<and> confidential_hart_id g = confidential_hart_id h"
  "transition_to_shutdown h = Ok g \<Longrightarrow>
     hart_vm_id g = hart_vm_id h \<and> confidential_hart_id g = confidential_hart_id h"
  by (auto simp: hart_transition_defs res_simps confidential_hart_id_def)

section \<open>Removing and creating confidential VMs\<close>

lemma run_remove_confidential_vm:
  "run (maintains l n) (\<lambda>s. \<not> running s) (remove_confidential_vm k) (\<lambda>_ s. \<not> running s) (\<lambda>s. \<not> running s)"
proof (rule runI, goal_cases)
  case (1 s vm t)
  then obtain cd where cd: "CONTROL_DATA s = Some cd" "map_of (confidential_vms cd) k = Some vm"
    "are_all_harts_shutdown vm"
    "t = s\<lparr>CONTROL_DATA := Some (cd\<lparr>confidential_vms := AList.delete k (confidential_vms cd)\<rparr>)\<rparr>"
    by (auto simp: remove_confidential_vm_def control_data_try_write_def ControlData_confidential_vm_def
        ok_or_def split: option.splits prod.splits result.splits if_splits)
  then have "maintains l n s t"
    using control_ok_delete(1) [of _ "map_of (confidential_vms cd)" k vm]
    by (auto simp: maintains_def hart_inv_def vm_table_def delete_conv')
  with 1 cd show ?case by simp
next
  case (2 s e t)
  then have "t = s\<lparr>CONTROL_DATA := CONTROL_DATA s\<rparr>"
    by (auto simp: remove_confidential_vm_def control_data_try_write_def ControlData_confidential_vm_def
        ok_or_def split: option.splits prod.splits result.splits if_splits)
  then show ?case using 2 by (simp add: flow.refl)
qed

lemma run_frame:
  assumes "keeps_frame m"
  shows "run (maintains l n) running m (\<lambda>_. running) running"
    and "run (maintains l n) (\<lambda>s. \<not> running s) m (\<lambda>_ s. \<not> running s) (\<lambda>s. \<not> running s)"
  using run_view_running [OF view_frame [OF assms]] by simp_all

lemma run_drop_vm:
  "run (maintains l n) (\<lambda>s. \<not> running s) (drop_vm vm) (\<lambda>_ s. \<not> running s) (\<lambda>s. \<not> running s)"
  unfolding drop_vm_def by (intro run_frame keeps_frame_drop)

lemma run_drop_removed_vm:
  "run (maintains l n) (\<lambda>s. \<not> running s)
     (\<lambda>s. case remove_confidential_vm k s of
        (Ok vm, s) \<Rightarrow> drop_vm vm s | (Err e, s) \<Rightarrow> (Ok (), s) | (Panic, s) \<Rightarrow> (Panic, s))
     (\<lambda>_ s. \<not> running s) (\<lambda>s. \<not> running s)"
  by (rule runI)
     (auto split: prod.splits result.splits dest!: run_Ok [OF run_remove_confidential_vm, rotated]
       run_Err [OF run_remove_confidential_vm, rotated] run_Ok [OF run_drop_vm, rotated]
       run_Err [OF run_drop_vm, rotated] intro: flow.trans)

text \<open>Dropping page tables never ends in an error: the implementations of \<^verbatim>\<open>Drop\<close> unwrap.\<close>

abbreviation no_error :: "('s, 'e, 'a) st \<Rightarrow> bool" where
  "no_error m \<equiv> run (\<lambda>_ _. True) (\<lambda>_. True) m (\<lambda>_ _. True) (\<lambda>_. False)"

interpretation anything: transition "\<lambda>_ _. True"
  by unfold_locales simp_all

lemma no_error_pages: "no_error (deallocate p)" "no_error (release_pages ps)"
proof -
  have "no_error (clear p)" unfolding clear_def
    by (intro anything.loop anything.unwrap) (rule runI, simp_all)
  then show "no_error (deallocate p)"
    unfolding deallocate_def by (intro anything.bind [where A = "\<lambda>_ _. True"] anything.ret TrueI)
  show "no_error (release_pages ps)"
    by (rule runI) (auto simp: release_pages_def try_write_def split: option.splits)
qed

lemma no_error_drop_memory: "no_error (PageTableMemory_drop mem)" "no_error (release_leaf p)"
  unfolding PageTableMemory_drop_def release_leaf_def release_page_def
  by (intro anything.bind [where A = "\<lambda>_ _. True"] anything.loop_collect no_error_pages)+

lemma no_error_drop:
  "no_error (drop_table pt :: ('z alloc_state_scheme, error, unit) st)"
  "no_error (drop_entries es :: ('z alloc_state_scheme, error, unit) st)"
  by (induction pt and es rule: drop_table_drop_entries.induct)
     (auto intro!: anything.bind [where A = "\<lambda>_ _. True"] anything.ret no_error_drop_memory
       split: page_table_entry.splits)

lemma drop_vm_no_error: "drop_vm vm s \<noteq> (Err e, t)"
  by (auto simp: drop_vm_def dest: run_Err [OF no_error_drop(1) TrueI])

subsection \<open>Promotion of a VM\<close>

lemma new_hart_id:
  "confidential_hart_id (from_vm_hart f entry i h) = i"
  "confidential_hart_id (from_vm_hart_reset entry i h) = i"
  by (simp_all add: confidential_hart_id_def from_vm_hart_def from_vm_hart_reset_def ConfidentialHart_new_def
      from_existing_def HartArchitecturalState_empty_def Let_def set_dump_def)

lemma foldl_map_upds:
  "foldl (\<lambda>m h. m(f h \<mapsto> v)) m xs k = (if k \<in> f ` set xs then Some v else m k)"
  by (induction xs arbitrary: m) auto

lemma new_vm_ok:
  assumes vm: "ConfidentialVm_new k hs ms mp = Ok vm" and len: "length hs < MAX_NUMBER_OF_HARTS_PER_VM"
    and hs: "\<And>i. i < length hs \<Longrightarrow> confidential_hart_id (hs ! i) = of_nat i"
  shows "vm_ok occ k vm"
proof -
  let ?hs = "map (ConfidentialHart_set_confidential_vm_id k) hs"
  have id: "confidential_hart_id (ConfidentialHart_set_confidential_vm_id k h) = confidential_hart_id h" for h
    by (simp add: ConfidentialHart_set_confidential_vm_id_def confidential_hart_id_def)
  from vm have v: "vm_id vm = k" "confidential_harts vm = ?hs"
    "inter_hart_requests vm = foldl (\<lambda>m h. m(confidential_hart_id h \<mapsto> [])) Map.empty ?hs"
    by (auto simp: ConfidentialVm_new_def res_simps Let_def)
  have "of_nat i \<in> confidential_hart_id ` set ?hs" if "i < length hs" for i
    using hs [OF that] that by (force simp: id in_set_conv_nth image_iff)
  then have "queues_ok vm" unfolding queues_ok_def v(3) foldl_map_upds using v(2) by auto
  moreover have "slot_ok occ k i (?hs ! i)" if "i < length hs" for i
    using that hs by (simp add: slot_ok_def id) (simp add: is_dummy_def ConfidentialHart_set_confidential_vm_id_def)
  ultimately show ?thesis using v len by (simp add: vm_ok_def)
qed

lemma run_register_confidential_vm:
  assumes len: "length hs < MAX_NUMBER_OF_HARTS_PER_VM"
    and hs: "\<And>i. i < length hs \<Longrightarrow> confidential_hart_id (hs ! i) = of_nat i"
  shows "run (maintains l n) (\<lambda>s. \<not> running s) (register_confidential_vm hs mp)
    (\<lambda>_ s. \<not> running s) (\<lambda>s. \<not> running s)"
proof (rule runI, goal_cases)
  case (1 s k t)
  then obtain cd i vm where c: "CONTROL_DATA s = Some cd" "ConfidentialVm_new i hs (replicate 4 ConfidentialVmMeasurement_empty) mp = Ok vm"
    "map_of (confidential_vms cd) (vm_id vm) = None"
    "t = s\<lparr>CONTROL_DATA := Some (cd\<lparr>confidential_vms := AList.update (vm_id vm) vm (confidential_vms cd)\<rparr>)\<rparr>"
    by (auto simp: register_confidential_vm_def control_data_try_write_def insert_confidential_vm_def Let_def
        split: option.splits prod.splits result.splits if_splits)
  have ok: "vm_ok occ (vm_id vm) vm" for occ
    using new_vm_ok [OF c(2) len hs] by (simp add: vm_ok_def)
  have "maintains l n s t"
    using c control_ok_insert [where vms = "map_of (confidential_vms cd)" and k = "vm_id vm", OF _ c(3) ok]
    by (auto simp: maintains_def hart_inv_def vm_table_def update_conv')
  with 1 c show ?case by simp
next
  case (2 s e t)
  then have "t = s\<lparr>CONTROL_DATA := CONTROL_DATA s\<rparr>"
    by (auto simp: register_confidential_vm_def control_data_try_write_def insert_confidential_vm_def Let_def
        split: option.splits prod.splits result.splits if_splits)
  then show ?case using 2 by (simp add: flow.refl)
qed

lemma run_with_state: "(\<And>s. run R P (m s) Q E) \<Longrightarrow> run R P (\<lambda>s. m s s) Q E"
  by (simp add: run_def)

lemma run_read_device_tree:
  "run (maintains l n) (\<lambda>s. \<not> running s) (read_device_tree env address)
     (\<lambda>_ s. \<not> running s) (\<lambda>s. \<not> running s)"
  by (rule runI) (auto simp: read_device_tree_def flow.refl)

lemma run_register_harts:
  "run (maintains l n) (\<lambda>s. \<not> running s)
     (sbind (lift (assure (m < MAX_NUMBER_OF_HARTS_PER_VM) ReachedMaxNumberOfHartsPerVm)) (\<lambda>_ s.
      register_confidential_vm (create_confidential_harts env (csrs s) m h) mp s))
     (\<lambda>_ s. \<not> running s) (\<lambda>s. \<not> running s)"
proof (cases "m < MAX_NUMBER_OF_HARTS_PER_VM")
  case True
  then show ?thesis
    by (simp only: assure_simps bind_lift_results)
       (rule run_with_state [where m = "\<lambda>s. register_confidential_vm
            (create_confidential_harts env (csrs s) m h) mp"],
        rule run_register_confidential_vm, auto simp: create_confidential_harts_def new_hart_id)
next
  case False
  then show ?thesis by (simp only: assure_simps bind_lift_results) (intro flow.lift)
qed

lemma run_lift_idle:
  "run (maintains l n) (\<lambda>s. \<not> running s) (lift x) (\<lambda>_ s. \<not> running s) (\<lambda>s. \<not> running s)"
  by (rule flow.lift)

lemma run_create_confidential_vm:
  "run (maintains l n) (\<lambda>s. \<not> running s) (create_confidential_vm env r) (\<lambda>_ s. \<not> running s) (\<lambda>s. \<not> running s)"
proof (cases "PromoteToConfidentialVm_into r")
  case (Pair a h)
  show ?thesis
    unfolding create_confidential_vm_def Pair prod.case
    by (rule flow.bind [OF run_frame(2) [OF keeps_frame_from_vm_state]],
        rule flow.clean_up [OF _ run_frame(2) [OF keeps_frame_drop(1)]],
        rule flow.bind [OF run_lift_idle], rule flow.bind [OF run_read_device_tree], rule run_register_harts)
qed

section \<open>All handlers\<close>

lemma run_drop_removed_vm_no_error:
  "run (maintains l n) (\<lambda>s. \<not> running s)
     (\<lambda>s. case remove_confidential_vm k s of
        (Ok vm, s) \<Rightarrow> drop_vm vm s | (Err e, s) \<Rightarrow> (Ok (), s) | (Panic, s) \<Rightarrow> (Panic, s))
     (\<lambda>_ s. \<not> running s) (\<lambda>_. False)"
proof (rule runI, goal_cases)
  case (1 s a t)
  then show ?case using run_Ok [OF run_drop_removed_vm] by blast
next
  case (2 s e t)
  then show ?case by (auto simp: drop_vm_no_error split: prod.splits result.splits)
qed

lemma run_shutdown_no_error:
  "run (maintains l n) running (on_assigned_hart transition_to_shutdown) (\<lambda>_. running) (\<lambda>_. False)"
proof (rule runI, goal_cases)
  case (1 s a t)
  then show ?case using run_Ok [OF run_on_assigned_hart [OF transition_identity(3)]] by blast
next
  case (2 s e t)
  then show ?case
    by (auto simp: on_assigned_hart_def transition_to_shutdown_def running_def split: result.splits)
qed

lemma handles_shutdown: "handles l n shutdown_confidential_hart"
  unfolding shutdown_confidential_hart_def
  by (rule flow.bind [OF run_flow_vm_id], rule flow.bind [OF run_shutdown_no_error],
      rule flow.bind [OF run_into_non_confidential_flow], rule flow.bind [OF run_drop_removed_vm_no_error],
      rule serves_exit)

lemma handles_branch:
  "handles l n m \<Longrightarrow> handles l n m' \<Longrightarrow> handles l n (\<lambda>s. if c s then m s else m' s)"
  by (simp add: run_def)

lemma handles_exit_on_interrupt: "handles l n (exit_on_interrupt mip)"
  by (simp add: exit_on_interrupt_def handles_leave)

lemma handles_interrupt: "handles l n (interrupt env)"
  unfolding interrupt_def Let_def
  by (rule run_with_state [where m = "\<lambda>s. if read_csr (csrs s) CSR_MIP AND MIE_SSIP_MASK > 0
       then sbind process_inter_hart_requests (\<lambda>_ t. if is_confidential_hart_shutdown t
         then shutdown_confidential_hart t else exit_on_interrupt (read_csr (csrs s) CSR_MIP) t)
       else exit_on_interrupt (read_csr (csrs s) CSR_MIP)"])
     (simp add: handles_exit_on_interrupt flow.bind [OF run_process_inter_hart_requests
        handles_branch [OF handles_shutdown handles_exit_on_interrupt]])

lemma handles_invalid_call: "handles l n (invalid_call env)"
  unfolding invalid_call_def
  by (rule run_with_state [where m = "\<lambda>s. exit_to_confidential_hart env
        (into_confidential_transformation (InvalidCall (read_csr (csrs s) CSR_MCAUSE)))"])
     (rule handles_exit)

lemma handles_srst: "handles l n (sbi_srst env)"
  unfolding sbi_srst_def Let_def
  by (rule run_with_state [where m = "\<lambda>s s'. case broadcast_inter_hart_request env
        (InterHartSbiSrstSystemReset \<lparr>initiating_confidential_hart_id = flow_hart_id s\<rparr>) s' of
      (Ok _, s) \<Rightarrow> shutdown_confidential_hart s
    | (Err e, s) \<Rightarrow> exit_to_confidential_hart env (into_confidential_transformation e) s
    | (Panic, s) \<Rightarrow> (Panic, s)"])
     (intro handles_case run_broadcast handles_shutdown handles_exit)

lemma run_unmap: "run similar P (\<lambda>(vm, s).
       case protector_unmap_shared_page a (memory_protector vm) s of
         (Ok p, s) \<Rightarrow> (Ok (), (vm\<lparr>memory_protector := p\<rparr>, s))
       | (Err e, s) \<Rightarrow> (Err e, (vm, s))
       | (Panic, s) \<Rightarrow> (Panic, (vm, s))) (\<lambda>_ _. True) (\<lambda>_. True)"
  by (rule runI)
     (auto simp: protector_unmap_shared_page_def RootPageTable_unmap_shared_page_def PageTable_unmap_shared_page_def
       lift_def split: prod.splits result.splits)

lemma handles_share_page: "handles l n (share_page env q)"
  unfolding share_page_def
  by (auto split: result.splits intro!: handles_set_pending_request handles_leave handles_exit handles_panic)

lemma handles_unshare_page: "handles l n (unshare_page env q)"
  unfolding unshare_page_def
  by (auto split: result.splits intro!: handles_exit_with run_on_vm run_unmap handles_exit handles_panic)

lemma handles_share_page_result: "handles l n (share_page_result_handler env r q)"
  unfolding share_page_result_handler_def
  by (rule flow.bind [OF run_flow_vm_id])
     (auto split: result.splits intro!: handles_exit handles_panic handles_exit_with run_similar_running
       run_map_shared_page)

lemma handles_page_faults:
  "handles l n (guest_load_page_fault env q)" "handles l n (guest_store_page_fault env u)"
  unfolding guest_load_page_fault_def guest_store_page_fault_def
  by (auto split: result.splits intro!: handles_set_pending_request handles_leave handles_panic)

lemma handles_calls:
  "handles l n (hypercall env r)" "handles l n (sbi_probe_extension env r)" "handles l n (sbi_rfence_nop env)"
  "handles l n (virtual_instruction_handler env v)" "handles l n (sbi_ipi_handler env q)"
  unfolding hypercall_def sbi_probe_extension_def sbi_rfence_nop_def virtual_instruction_handler_def
    sbi_ipi_handler_def Let_def
  by (auto intro!: handles_set_pending_request handles_leave handles_exit handles_exit_with run_broadcast
      handles_panic)

lemma handles_hsm_hart_start: "handles l n (sbi_hsm_hart_start_handler env r)"
  unfolding sbi_hsm_hart_start_handler_def
  by (intro handles_case run_on_vm run_transit handles_set_pending_request handles_leave handles_exit)

lemma handles_hsm_hart_stop: "handles l n (sbi_hsm_hart_stop_handler env)"
  unfolding sbi_hsm_hart_stop_handler_def
  by (intro handles_case run_on_assigned_hart [OF transition_identity(1)] handles_leave handles_exit)

lemma handles_hsm_hart_suspend: "handles l n (sbi_hsm_hart_suspend_handler env q)"
  unfolding sbi_hsm_hart_suspend_handler_def
  by (intro handles_case run_on_assigned_hart [OF transition_identity(2)] handles_leave handles_exit)

lemma handles_hsm_hart_status: "handles l n (sbi_hsm_hart_status_handler env q)"
  unfolding sbi_hsm_hart_status_handler_def
  by (intro handles_exit_with run_on_vm) (rule runI, auto simp: similar.refl)

lemmas handler_rules = handles_shutdown handles_interrupt handles_invalid_call handles_srst
  handles_share_page handles_unshare_page handles_share_page_result handles_page_faults handles_calls
  handles_hsm_hart_start handles_hsm_hart_stop handles_hsm_hart_suspend handles_hsm_hart_status handles_panic

lemma handles_confidential_trap: "handles l n (handle_confidential_trap env trap h f)"
  unfolding handle_confidential_trap_def
  by (cases trap)
     (auto intro: handler_rules split: sbi_extension.splits ace_extension.splits base_extension.splits
       ipi_extension.splits rfence_extension.splits hsm_extension.splits srst_extension.splits)

lemma take_request_identity:
  "take_request h = (p, g) \<Longrightarrow> hart_vm_id g = hart_vm_id h \<and> confidential_hart_id g = confidential_hart_id h"
  by (auto simp: take_request_def confidential_hart_id_def)

lemma handles_response: "handles l n (handle_response env p)"
proof (cases p)
  case (Some q)
  then show ?thesis
    by (cases q)
       (auto simp: run_def handle_response_def
         dest: run_Ok [OF handles_exit] run_Err [OF handles_exit] run_Ok [OF handles_share_page_result]
           run_Err [OF handles_share_page_result]
         split: prod.splits result.splits)
qed (simp add: run_def handle_response_def, use handles_exit in \<open>simp add: run_def\<close>)

lemma handles_take_request:
  assumes "\<And>p. handles l n (m p)"
  shows "handles l n (\<lambda>s. case take_request (assigned_hart (hardware s)) of (p, h) \<Rightarrow> m p (set_assigned_hart h s))"
proof (rule runI, goal_cases)
  case (1 s x t)
  obtain p h where p: "take_request (assigned_hart (hardware s)) = (p, h)"
    by (cases "take_request (assigned_hart (hardware s))")
  have step: "maintains l n s (set_assigned_hart h s)" "running (set_assigned_hart h s)"
    using maintains_assigned_hart [OF 1(1)] take_request_identity [OF p] by blast+
  with 1(2) run_Ok [OF assms step(2)] show ?case by (auto simp: p intro: flow.trans)
next
  case (2 s e t)
  obtain p h where p: "take_request (assigned_hart (hardware s)) = (p, h)"
    by (cases "take_request (assigned_hart (hardware s))")
  have "running (set_assigned_hart h s)"
    using maintains_assigned_hart [OF 2(1)] take_request_identity [OF p] by blast
  with 2(2) run_Err [OF assms] show ?case by (auto simp: p)
qed

lemma handles_resume_execution: "handles l n (resume_confidential_hart_execution env)"
proof -
  have "run (maintains l n) running ConfidentialFlow_create (\<lambda>_. running) (\<lambda>_. False)"
    by (rule runI) (auto simp: ConfidentialFlow_create_def running_def flow.refl)
  then show ?thesis
    unfolding resume_confidential_hart_execution_def
    by (rule flow.bind, intro flow.bind [OF run_process_inter_hart_requests] handles_take_request handles_response)
qed

section \<open>The two entry points\<close>

lemma store_volatile_identity:
  "hart_vm_id (ConfidentialHart_store_volatile f h) = hart_vm_id h"
  "confidential_hart_id (ConfidentialHart_store_volatile f h) = confidential_hart_id h"
  by (simp_all add: ConfidentialHart_store_volatile_def confidential_hart_id_def)

lemma handles_route_confidential_flow: "handles l n (route_confidential_flow env)"
proof -
  have store: "run (maintains l n) running
      (\<lambda>s. on_assigned_hart (\<lambda>h. Ok (ConfidentialHart_store_volatile (csrs s) h)) s) (\<lambda>_. running) (\<lambda>_. False)"
    by (rule runI) (auto simp: on_assigned_hart_def store_volatile_identity
        intro: maintains_assigned_hart [THEN conjunct1] maintains_assigned_hart [THEN conjunct2])
  have create: "run (maintains l n) running ConfidentialFlow_create (\<lambda>_. running) (\<lambda>_. False)"
    by (rule runI) (auto simp: ConfidentialFlow_create_def running_def flow.refl)
  have trap: "handles l n (\<lambda>s. handle_confidential_trap env
      (ConfidentialHart_trap_reason (csrs s) (assigned_hart (hardware s))) (assigned_hart (hardware s)) (csrs s) s)"
    by (rule run_with_state) (rule handles_confidential_trap)
  show ?thesis
    unfolding route_confidential_flow_def Let_def
    by (rule flow.bind [OF store], rule flow.bind [OF create], rule trap)
qed

subsection \<open>Requests of the hypervisor\<close>

text \<open>What the monitor relies on when it delegates a trap to OpenSBI, which runs in machine mode as well:
  the handler does not reconfigure the PMP entries of the monitor.\<close>

definition opensbi_keeps_protection :: "environment \<Rightarrow> bool" where
  "opensbi_keeps_protection env \<longleftrightarrow>
     (\<forall>regs f. \<forall>r \<in> protection_csrs. snd (sbi_trap_handler env regs f) r = f r)"

lemma serves_case:
  assumes "run (maintains l n) (\<lambda>s. \<not> running s) m (\<lambda>_. A) (\<lambda>s. \<not> running s)"
    and "\<And>a. run (maintains l n) A (f a) exit_ok (\<lambda>_. False)" and "\<And>e. serves l n (g e)"
  shows "serves l n (\<lambda>s. case m s of (Ok a, s) \<Rightarrow> f a s | (Err e, s) \<Rightarrow> g e s | (Panic, s) \<Rightarrow> (Panic, s))"
proof (rule runI, goal_cases)
  case (1 s x t)
  then consider a u where "m s = (Ok a, u)" "f a u = (Ok x, t)" | e u where "m s = (Err e, u)" "g e u = (Ok x, t)"
    by (auto split: prod.splits result.splits)
  then show ?case
    by cases (use run_Ok [OF assms(1) 1(1)] run_Err [OF assms(1) 1(1)] run_Ok [OF assms(2)] run_Ok [OF assms(3)]
        in \<open>blast intro: flow.trans\<close>)+
next
  case (2 s e t)
  then consider a u where "m s = (Ok a, u)" "f a u = (Err e, t)" | e' u where "m s = (Err e', u)" "g e' u = (Err e, t)"
    by (auto split: prod.splits result.splits)
  then show ?case
    by cases (use run_Ok [OF assms(1) 2(1)] run_Err [OF assms(1) 2(1)] run_Err [OF assms(2)] run_Err [OF assms(3)]
        in blast)+
qed

lemma run_steal_vm:
  "run (maintains l n) (\<lambda>s. \<not> running s) (try_confidential_vm k (steal_confidential_hart i))
     (\<lambda>_. running) (\<lambda>s. \<not> running s)"
  by (rule run_try_confidential_vm [OF run_steal]) auto

lemma serves_resume: "serves l n (resume_confidential_hart env r)"
  unfolding resume_confidential_hart_def
  by (rule serves_case [OF run_steal_vm handles_resume_execution serves_exit])

lemma serves_terminate: "serves l n (terminate_confidential_vm r)"
  unfolding terminate_confidential_vm_def
  by (rule serves_case [OF flow.bind [OF run_remove_confidential_vm run_drop_vm]]) (rule serves_exit)+

lemma serves_promote: "serves l n (promote_to_confidential_vm_handler env r)"
  unfolding promote_to_confidential_vm_handler_def
  by (rule serves_case [OF run_create_confidential_vm]) (rule serves_exit)+

lemma idle_same_protection:
  assumes "\<not> running s" and "assigned_hart (hardware t) = assigned_hart (hardware s)"
    and "CONTROL_DATA t = CONTROL_DATA s" and "\<And>r. r \<in> protection_csrs \<Longrightarrow> csrs t r = csrs s r"
  shows "maintains l n s t \<and> \<not> running t"
proof -
  have idle: "\<not> running t" "hart_vm_id (assigned_hart (hardware s)) = None"
    using assms(1,2) by (simp_all add: running_def is_dummy_def)
  then have "occupied t = occupied s" "vm_table t = vm_table s"
    using assms by (simp_all add: occupied_def vm_table_def)
  moreover have "protection_ok l False (csrs t) = protection_ok l False (csrs s)"
    by (rule protection_ok_congr) (rule assms(4))
  moreover have "pmp_in_use (csrs t) = pmp_in_use (csrs s)"
    by (rule pmp_in_use_congr) (rule assms(4))
  ultimately show ?thesis
    using assms(1,2) idle(1) by (simp add: maintains_def hart_inv_def own_hart_ok_def)
qed

lemma serves_after:
  assumes "\<And>s. \<not> running s \<Longrightarrow> maintains l n s (g s) \<and> \<not> running (g s)" and "\<And>s. serves l n (m s)"
  shows "serves l n (\<lambda>s. m s (g s))"
proof (rule runI, goal_cases)
  case (1 s x t)
  with run_Ok [OF assms(2)] assms(1) [OF 1(1)] show ?case by (blast intro: flow.trans)
next
  case (2 s e t)
  with run_Err [OF assms(2), of "g s" s e t] assms(1) [OF 2(1)] show ?case by simp
qed

lemma serves_delegate_to_opensbi:
  assumes "opensbi_keeps_protection env"
  shows "serves l n (delegate_to_opensbi env r :: ('z monitor_scheme, error, exit) st)"
proof -
  define pass :: "'z monitor_scheme \<Rightarrow> 'z monitor_scheme" where
    "pass s = swap_mscratch ((swap_mscratch s)\<lparr>csrs :=
       snd (sbi_trap_handler env (opensbi_regs r) (csrs (swap_mscratch s)))\<rparr>)" for s
  have pass: "maintains l n s (pass s) \<and> \<not> running (pass s)" if "\<not> running s" for s
    using that assms
    by (intro idle_same_protection)
       (auto simp: pass_def swap_mscratch_def Let_def protection_csrs_def opensbi_keeps_protection_def)
  have eq: "delegate_to_opensbi env r s = exit_to_hypervisor (ExposeOpensbiResult
      \<lparr>result_trap_regs = fst (sbi_trap_handler env (opensbi_regs r) (csrs (swap_mscratch s)))\<rparr>) (pass s)" for s
    by (simp add: delegate_to_opensbi_def pass_def Let_def split_beta)
  show ?thesis
    unfolding eq [abs_def] by (rule serves_after [OF pass serves_exit])
qed

lemma serves_delegate_hypercall: "serves l n (delegate_hypercall r)"
  unfolding delegate_hypercall_def by (rule serves_exit)

lemma serves_panic: "serves l n (\<lambda>s. (Panic, s))"
  by (rule runI) auto

lemma serves_non_confidential_trap:
  assumes "opensbi_keeps_protection env"
  shows "serves l n (handle_non_confidential_trap env trap)"
proof -
  show ?thesis
    by (rule runI)
       (auto simp: handle_non_confidential_trap_def
         split: trap_cause.splits sbi_extension.splits ace_extension.splits
         dest: run_Ok [OF serves_delegate_to_opensbi [OF assms]] run_Err [OF serves_delegate_to_opensbi [OF assms]]
           run_Ok [OF serves_resume] run_Err [OF serves_resume] run_Ok [OF serves_terminate]
           run_Err [OF serves_terminate] run_Ok [OF serves_promote] run_Err [OF serves_promote]
           run_Ok [OF serves_delegate_hypercall] run_Err [OF serves_delegate_hypercall])
qed

lemma trap_reason_view:
  "same_view s (snd (HardwareHart_trap_reason s))"
  using same_view_volatile(5) [of s]
  by (auto simp: HardwareHart_trap_reason_def Let_def view.refl split: trap_cause.splits sbi_extension.splits)

lemma same_view_maintains: "same_view s t \<Longrightarrow> \<not> running s \<Longrightarrow> maintains l n s t \<and> \<not> running t"
  by (simp add: maintains_def same_view_inv same_view_running same_view_in_use)

lemma serves_route_non_confidential_flow:
  assumes "opensbi_keeps_protection env"
  shows "serves l n (route_non_confidential_flow env)"
proof -
  have trap: "serves l n (\<lambda>s. case HardwareHart_trap_reason s of (trap, s) \<Rightarrow> handle_non_confidential_trap env trap s)"
    unfolding split_beta
    by (rule serves_after [where g = "\<lambda>s. snd (HardwareHart_trap_reason s)"])
       (rule same_view_maintains [OF trap_reason_view], assumption, rule serves_non_confidential_trap [OF assms])
  have create: "run (maintains l n) (\<lambda>s. \<not> running s) NonConfidentialFlow_create (\<lambda>_ s. \<not> running s) (\<lambda>_. False)"
    by (rule runI) (auto simp: NonConfidentialFlow_create_def running_def flow.refl)
  show ?thesis
    unfolding route_non_confidential_flow_def
    by (rule flow.bind [OF run_modify(2) [OF same_view_volatile(3)]], rule flow.bind [OF create], rule trap)
qed

end
