(* ===== verification/Machine.thy ===== *)
theory Machine
  imports Flow_Invariants
begin

text \<open>
  A machine with many hardware harts that share memory, the page allocator and the control data.

  \<^item> \<open>local_hart\<close> is what each hardware hart has for itself; \<open>global\<close> is a monitor state of which the
    shared fields count. \<open>view_of\<close> is the state the monitor works on when it runs on a hart.
  \<^item> \<open>machine_step\<close>: the hypervisor or a confidential VM executes on a hart, with arbitrary effects on
    its registers except the CSRs its privilege mode cannot write: the PMP and \<^verbatim>\<open>mscratch\<close> belong to machine mode,
    and what a VM takes for \<^verbatim>\<open>sscratch\<close> is \<^verbatim>\<open>vsscratch\<close> (a VM writes confidential memory
    as well, in \<open>machine_step\<close> anywhere, in \<open>machine_step_writing may_write\<close> where \<open>may_write\<close> says so); or a hart
    traps, and the monitor handles the trap. Invocations of the monitor
    on different harts are interleaved one after the other.
  \<^item> An invocation that panics stops the machine: it has no successor.
\<close>

record local_hart =
  local_csrs :: csr_file
  local_fences :: "fence list"
  local_hardware :: hardware_hart

record machine =
  local_harts :: "usize \<Rightarrow> local_hart"
  global :: monitor

definition view_of :: "machine \<Rightarrow> usize \<Rightarrow> monitor" where
  "view_of m n = (let h = local_harts m n in
     (global m)\<lparr>csrs := local_csrs h, fences := local_fences h, hardware := local_hardware h\<rparr>)"

definition put_view :: "usize \<Rightarrow> monitor \<Rightarrow> machine \<Rightarrow> machine" where
  "put_view n s m = \<lparr>local_harts = (local_harts m)
     (n := \<lparr>local_csrs = csrs s, local_fences = fences s, local_hardware = hardware s\<rparr>), global = s\<rparr>"

definition hypervisor_runs :: "csr_file \<Rightarrow> general_purpose_registers \<Rightarrow> monitor \<Rightarrow> monitor" where
  "hypervisor_runs f g s = update_hypervisor_state (\<lambda>h. h\<lparr>gprs := g\<rparr>) (s\<lparr>csrs := f\<rparr>)"

definition vm_runs :: "csr_file \<Rightarrow> general_purpose_registers \<Rightarrow> (usize \<Rightarrow> usize) \<Rightarrow> monitor \<Rightarrow> monitor" where
  "vm_runs f g mem s = set_assigned_hart (update_hart_state (\<lambda>h. h\<lparr>gprs := g\<rparr>) (assigned_hart (hardware s)))
     (s\<lparr>csrs := f, confidential_memory := mem\<rparr>)"

inductive machine_step_writing ::
    "(monitor \<Rightarrow> (usize \<Rightarrow> usize) \<Rightarrow> bool) \<Rightarrow> environment \<Rightarrow> machine \<Rightarrow> machine \<Rightarrow> bool" for may_write env where
  hypervisor: "\<not> running (view_of m n) \<Longrightarrow> 
    (\<And>r. r \<in> insert CSR_MSCRATCH protection_csrs \<Longrightarrow> f r = csrs (view_of m n) r) \<Longrightarrow>
    machine_step_writing may_write env m (put_view n (hypervisor_runs f g (view_of m n)) m)"
| confidential_vm: "running (view_of m n) \<Longrightarrow> may_write (view_of m n) mem \<Longrightarrow>
    (\<And>r. r \<in> {CSR_HGATP, CSR_MSCRATCH, CSR_SSCRATCH} \<union> protection_csrs \<Longrightarrow> f r = csrs (view_of m n) r) \<Longrightarrow>
    machine_step_writing may_write env m (put_view n (vm_runs f g mem (view_of m n)) m)"
| trap_of_hypervisor: "\<not> running (view_of m n) \<Longrightarrow>
    route_non_confidential_flow env (view_of m n) = (Ok x, t) \<Longrightarrow>
    machine_step_writing may_write env m (put_view n t m)"
| trap_of_confidential_vm: "running (view_of m n) \<Longrightarrow>
    route_confidential_flow env (view_of m n) = (Ok x, t) \<Longrightarrow>
    machine_step_writing may_write env m (put_view n t m)"

abbreviation machine_step :: "environment \<Rightarrow> machine \<Rightarrow> machine \<Rightarrow> bool" where
  "machine_step \<equiv> machine_step_writing (\<lambda>_ _. True)"

text \<open>The machine after initialization: no confidential VM, every hardware hart with its dummy hart, the PMP
  entries of the monitor set to the confidential memory and without permissions. From reset the entries
  are still off; \<open>booted\<close> is such a machine where they are in use on every hart already.\<close>

definition idle_machine :: "environment \<Rightarrow> machine \<Rightarrow> bool" where
  "idle_machine env m \<longleftrightarrow> CONTROL_DATA (global m) = Some ControlData_new
     \<and> (\<forall>n. assigned_hart (hardware (view_of m n)) = dummy (enter_from_confidential_hart_asm env) n
          \<and> protection_ok (layout env) False (csrs (view_of m n)))"

definition booted :: "environment \<Rightarrow> machine \<Rightarrow> bool" where
  "booted env m \<longleftrightarrow> idle_machine env m \<and> (\<forall>n. pmp_in_use (csrs (view_of m n)))"

definition machine_inv :: "memory_layout \<Rightarrow> machine \<Rightarrow> bool" where
  "machine_inv l m \<longleftrightarrow> (\<forall>n. own_hart_ok l n (view_of m n))
     \<and> control_ok (\<lambda>n. occupied (view_of m n)) (vm_table (global m))"

lemma view_simps [simp]:
  "csrs (view_of m n) = local_csrs (local_harts m n)" "hardware (view_of m n) = local_hardware (local_harts m n)"
  "CONTROL_DATA (view_of m n) = CONTROL_DATA (global m)"
  by (simp_all add: view_of_def Let_def)

lemma view_put [simp]: "view_of (put_view n s m) n = s" "global (put_view n s m) = s"
  by (simp_all add: view_of_def put_view_def)

lemma view_put_other:
  assumes "k \<noteq> n"
  shows "own_hart_ok l k (view_of (put_view n s m) k) = own_hart_ok l k (view_of m k)"
    and "occupied (view_of (put_view n s m) k) = occupied (view_of m k)"
  using assms by (simp_all add: own_hart_ok_def running_def occupied_def put_view_def cong: option.case_cong)

lemma machine_inv_hart:
  "machine_inv l m \<Longrightarrow> hart_inv l n (\<lambda>n. occupied (view_of m n)) (view_of m n)"
  by (simp add: machine_inv_def hart_inv_def vm_table_def fun_upd_idem)

lemma machine_inv_step:
  assumes "machine_inv l m" and "maintains l n (view_of m n) t"
  shows "machine_inv l (put_view n t m)"
proof -
  have t: "hart_inv l n (\<lambda>n. occupied (view_of m n)) t"
    using machine_inv_hart [OF assms(1)] assms(2) by (simp add: maintains_def)
  have "own_hart_ok l k (view_of (put_view n t m) k)" for k
    using t assms(1) by (cases "k = n") (simp_all add: hart_inv_def machine_inv_def view_put_other)
  moreover have "(\<lambda>k. occupied (view_of (put_view n t m) k)) = (\<lambda>k. occupied (view_of m k))(n := occupied t)"
    by (rule ext) (simp add: view_put_other)
  ultimately show ?thesis using t by (simp add: machine_inv_def hart_inv_def)
qed

lemma same_hart_maintains: "same_hart s t \<Longrightarrow> maintains l n s t"
  using same_hart_inv [of s t] same_hart_in_use [of s t]
  by (simp add: maintains_def hart_inv_def vm_table_def same_hart_def)

lemma idle_machine_inv: "idle_machine env m \<Longrightarrow> machine_inv (layout env) m"
  by (auto simp: idle_machine_def machine_inv_def own_hart_ok_def control_ok_def vm_table_def ControlData_new_def
      running_def occupied_def is_dummy_def dummy_def ConfidentialHart_new_def confidential_hart_id_def
      HartArchitecturalState_empty_def set_dump_def Let_def)

lemma machine_step_inv:
  assumes "machine_step_writing may_write env m m'" and "opensbi_keeps_protection env" and "machine_inv l m"
  shows "machine_inv l m'"
  using assms
proof (induction rule: machine_step_writing.induct)
  case (hypervisor m n f g)
  then show ?case
    by (intro machine_inv_step idle_same_protection [THEN conjunct1]) (auto simp: hypervisor_runs_def)
next
  case (confidential_vm m n mem f g)
  then have "same_hart (view_of m n) (vm_runs f g mem (view_of m n))"
    by (auto simp: same_hart_def vm_runs_def similar_hart_def running_def update_hart_state_def
        confidential_hart_id_def)
  with confidential_vm show ?case by (intro machine_inv_step same_hart_maintains)
next
  case (trap_of_hypervisor m n x t)
  then show ?case
    by (intro machine_inv_step) (blast dest: run_Ok [OF serves_route_non_confidential_flow])+
next
  case (trap_of_confidential_vm m n x t)
  then show ?case
    by (intro machine_inv_step) (blast dest: run_Ok [OF handles_route_confidential_flow])+
qed

lemma machine_steps_inv:
  assumes "(machine_step_writing may_write env)\<^sup>*\<^sup>* m m'" and "opensbi_keeps_protection env"
    and "machine_inv l m"
  shows "machine_inv l m'"
  using assms by (induction rule: rtranclp_induct) (auto intro: machine_step_inv)

text \<open>What the invariant says of the running machine. A hart whose PMP entry is in use keeps it in use.\<close>

lemma put_view_in_use:
  assumes "maintains l n (view_of m n) t" and "pmp_in_use (csrs (view_of m k))"
  shows "pmp_in_use (csrs (view_of (put_view n t m) k))"
  using assms by (cases "k = n") (simp_all add: maintains_def, simp add: put_view_def)

lemma machine_step_in_use:
  assumes "machine_step_writing may_write env m m'" and "opensbi_keeps_protection env"
    and "pmp_in_use (csrs (view_of m k))"
  shows "pmp_in_use (csrs (view_of m' k))"
  using assms
proof (induction rule: machine_step_writing.induct)
  case (hypervisor m n f g)
  then show ?case
    by (intro put_view_in_use idle_same_protection [THEN conjunct1]) (auto simp: hypervisor_runs_def)
next
  case (confidential_vm m n mem f g)
  then have "same_hart (view_of m n) (vm_runs f g mem (view_of m n))"
    by (auto simp: same_hart_def vm_runs_def similar_hart_def running_def update_hart_state_def
        confidential_hart_id_def)
  with confidential_vm show ?case by (intro put_view_in_use same_hart_maintains)
next
  case (trap_of_hypervisor m n x t)
  then show ?case
    by (intro put_view_in_use) (blast dest: run_Ok [OF serves_route_non_confidential_flow])+
next
  case (trap_of_confidential_vm m n x t)
  then show ?case
    by (intro put_view_in_use) (blast dest: run_Ok [OF handles_route_confidential_flow])+
qed

lemma machine_steps_in_use:
  assumes "(machine_step_writing may_write env)\<^sup>*\<^sup>* m m'" and "opensbi_keeps_protection env"
    and "pmp_in_use (csrs (view_of m k))"
  shows "pmp_in_use (csrs (view_of m' k))"
  using assms by (induction rule: rtranclp_induct) (blast intro: machine_step_in_use)+

lemma running_in_use: "machine_inv l m \<Longrightarrow> running (view_of m n) \<Longrightarrow> pmp_in_use (csrs (view_of m n))"
  by (auto simp: machine_inv_def own_hart_ok_def protection_ok_def)

lemma closed_memory:
  assumes "machine_inv l m" and "\<not> running (view_of m n)"
    and "unat (confidential_memory_start l) mod 4 = 0" and "unat (confidential_memory_end l) mod 4 = 0"
  shows "pmp_decision (csrs (view_of m n)) a = (if pmp_in_use (csrs (view_of m n))
      \<and> confidential_memory_start l \<le> a \<and> a < confidential_memory_end l
    then Some (False, False, False) else None)"
proof -
  have "own_hart_ok l n (view_of m n)" using assms(1) by (simp add: machine_inv_def)
  with assms(2) have "protection_ok l False (csrs (view_of m n))" by (simp add: own_hart_ok_def)
  then show ?thesis
    using pmp_decision_available [OF _ _ assms(3,4), of "csrs (view_of m n)" a]
    by (simp add: protection_ok_def pmp_closed_def)
qed

lemma occupied_Some:
  assumes "hart_vm_id (assigned_hart (hardware s)) = Some k"
  shows "occupied s = Some (k, confidential_hart_id (assigned_hart (hardware s)), csrs s CSR_HGATP)"
  by (simp add: occupied_def assms)

section \<open>Properties\<close>

text \<open>C3: Once the PMP entries of the monitor are in use on every hart (\<open>booted\<close>; the setup alone does not switch them on),
  whatever the hypervisor and the confidential VMs do on any number of harts: a hart that
  serves the hypervisor cannot read, write or execute confidential memory; a hart that executes a
  confidential VM runs under the page table of exactly that VM, which is still in the control data; and
  no two harts ever execute the same confidential hart. The code relies on OpenSBI not to reconfigure
  the PMP entries of the monitor.\<close>

theorem machine_isolates_confidential_vms:
  assumes "booted env m" and "(machine_step env)\<^sup>*\<^sup>* m m'" and "opensbi_keeps_protection env"
    and "unat (confidential_memory_start (layout env)) mod 4 = 0"
    and "unat (confidential_memory_end (layout env)) mod 4 = 0"
  shows "(\<forall>n a. \<not> running (view_of m' n) \<and> confidential_memory_start (layout env) \<le> a
        \<and> a < confidential_memory_end (layout env)
        \<longrightarrow> pmp_decision (csrs (view_of m' n)) a = Some (False, False, False))
    \<and> (\<forall>n k. hart_vm_id (assigned_hart (hardware (view_of m' n))) = Some k
        \<longrightarrow> (\<exists>vm. vm_table (global m') k = Some vm
              \<and> csrs (view_of m' n) CSR_HGATP = protector_hgatp (memory_protector vm)))
    \<and> (\<forall>n n' k. hart_vm_id (assigned_hart (hardware (view_of m' n))) = Some k
        \<and> hart_vm_id (assigned_hart (hardware (view_of m' n'))) = Some k
        \<and> confidential_hart_id (assigned_hart (hardware (view_of m' n)))
          = confidential_hart_id (assigned_hart (hardware (view_of m' n')))
        \<longrightarrow> n = n')"
proof -
  have inv: "machine_inv (layout env) m'"
    using machine_steps_inv [OF assms(2,3) idle_machine_inv] assms(1) by (simp add: booted_def)
  have use: "pmp_in_use (csrs (view_of m' n))" for n
    using machine_steps_in_use [OF assms(2,3)] assms(1) by (simp add: booted_def)
  from inv have ok: "control_ok (\<lambda>n. occupied (view_of m' n)) (vm_table (global m'))"
    by (simp add: machine_inv_def)
  show ?thesis
  proof (intro conjI allI impI; (elim conjE)?)
    fix n k assume "hart_vm_id (assigned_hart (hardware (view_of m' n))) = Some k"
    from seated_slot [OF ok occupied_Some [OF this]]
    show "\<exists>vm. vm_table (global m') k = Some vm
        \<and> csrs (view_of m' n) CSR_HGATP = protector_hgatp (memory_protector vm)" by metis
  next
    fix n n' k
    assume *: "hart_vm_id (assigned_hart (hardware (view_of m' n))) = Some k"
      "hart_vm_id (assigned_hart (hardware (view_of m' n'))) = Some k"
      "confidential_hart_id (assigned_hart (hardware (view_of m' n)))
        = confidential_hart_id (assigned_hart (hardware (view_of m' n')))"
    show "n = n'"
      using control_ok_injective [OF ok occupied_Some [OF *(1)]] occupied_Some [OF *(2)] *(3) by simp
  qed (use closed_memory [OF inv _ assms(4,5)] use in simp)
qed

definition example_environment :: environment where
  "example_environment = \<lparr>layout = example_layout, riscv_decode = (\<lambda>_. None), instruction_length = (\<lambda>_. 4),
     sbi_ipi_send_smode = (\<lambda>_. 0), sbi_trap_handler = (\<lambda>regs f. (regs, f)),
     parse_device_tree = (\<lambda>_ _. None), enter_from_confidential_hart_asm = 0x8000,
     enter_from_hypervisor_or_vm_asm = 0x9000, hardware_hart_address = (\<lambda>n. n), confidential_hart_address = (\<lambda>n. n)\<rparr>"

definition example_hardware_hart :: "usize \<Rightarrow> hardware_hart" where
  "example_hardware_hart n = \<lparr>non_confidential_hart_state = HartArchitecturalState_empty n, stack = example_page,
     stack_address = 0, previous_mscratch = 0, assigned_hart = dummy 0x8000 n\<rparr>"

definition example_csrs :: csr_file where
  "example_csrs = (\<lambda>_. 0)(CSR_PMPCFG0 := 0x800,
     CSR_PMPADDR0 := drop_bit 2 (confidential_memory_start example_layout),
     CSR_PMPADDR1 := drop_bit 2 (confidential_memory_end example_layout))"

definition example_monitor :: monitor where
  "example_monitor = \<lparr>confidential_memory = (\<lambda>_. 0), non_confidential_memory = (\<lambda>_ _. 0), now = 0,
     global_allocator = Some example_allocator, csrs = example_csrs, fences = [],
     hardware = example_hardware_hart 0, CONTROL_DATA = Some ControlData_new, INTERRUPT_CONTROLLER = True,
     ipis = []\<rparr>"

definition example_machine :: machine where
  "example_machine = \<lparr>local_harts = (\<lambda>n. \<lparr>local_csrs = example_csrs, local_fences = [],
     local_hardware = example_hardware_hart n\<rparr>), global = example_monitor\<rparr>"

lemma example_protection: "protection_ok example_layout False example_csrs"
  by (simp add: protection_ok_def example_csrs_def pmp_available_def pmp_in_use_def pmp_mode_def bit_pmp_config
      pmp_region_def pmp_closed_def bit_numeral_rec)

lemma example_in_use: "pmp_in_use example_csrs"
  by (simp add: example_csrs_def pmp_in_use_def pmp_mode_def bit_pmp_config bit_numeral_rec)

lemma example_booted: "booted example_environment example_machine"
  using example_protection example_in_use
  by (simp add: booted_def idle_machine_def example_machine_def example_monitor_def example_environment_def example_hardware_hart_def)

lemma example_opensbi: "opensbi_keeps_protection example_environment"
  by (simp add: opensbi_keeps_protection_def example_environment_def)

theorem machine_isolates_confidential_vms_witness:
  "\<not> running (view_of example_machine 3)
   \<and> pmp_decision (csrs (view_of example_machine 3)) 0x4000 = Some (False, False, False)"
proof
  show idle: "\<not> running (view_of example_machine 3)"
    by (simp add: running_def example_machine_def example_hardware_hart_def is_dummy_def dummy_def
        ConfidentialHart_new_def Let_def)
  have "unat (confidential_memory_start (layout example_environment)) mod 4 = 0"
    "unat (confidential_memory_end (layout example_environment)) mod 4 = 0"
    "confidential_memory_start (layout example_environment) \<le> 0x4000"
    "0x4000 < confidential_memory_end (layout example_environment)"
    by (simp_all add: example_environment_def example_layout_def)
  with idle machine_isolates_confidential_vms [OF example_booted rtranclp.rtrancl_refl example_opensbi]
  show "pmp_decision (csrs (view_of example_machine 3)) 0x4000 = Some (False, False, False)" by blast
qed

text \<open>C7: The invariant of the machine, which holds after boot, holds in every state reachable from it: each confidential VM of the control data is stored under its own id, has
  fewer than 1024 harts, and for each of its harts a queue of at most 64 requests; the slot of a hart
  holds that hart, or the idle dummy hart of the one hardware hart that executes it.\<close>

theorem control_data_well_formed:
  assumes "machine_inv (layout env) m" and "(machine_step env)\<^sup>*\<^sup>* m m'" and "opensbi_keeps_protection env"
    and "vm_table (global m') k = Some vm"
  shows "vm_id vm = k \<and> length (confidential_harts vm) < MAX_NUMBER_OF_HARTS_PER_VM
    \<and> (\<forall>i < length (confidential_harts vm). \<exists>q. inter_hart_requests vm (of_nat i) = Some q
         \<and> length q \<le> MAX_NUMBER_OF_REMOTE_HART_REQUESTS)
    \<and> (\<forall>i < length (confidential_harts vm). let h = confidential_harts vm ! i in
         if is_dummy h
         then lifecycle_state h = Started
           \<and> hart_vm_id (assigned_hart (hardware (view_of m' (confidential_hart_id h)))) = Some k
           \<and> confidential_hart_id (assigned_hart (hardware (view_of m' (confidential_hart_id h)))) = of_nat i
         else hart_vm_id h = Some k \<and> confidential_hart_id h = of_nat i)"
proof -
  have "machine_inv (layout env) m'"
    using machine_steps_inv [OF assms(2,3) assms(1)] .
  then have vm: "vm_ok (\<lambda>n. occupied (view_of m' n)) k vm"
    using assms(4) by (auto simp: machine_inv_def intro: control_ok_vm)
  have slot: "let h = confidential_harts vm ! i in
      if is_dummy h
      then lifecycle_state h = Started
        \<and> hart_vm_id (assigned_hart (hardware (view_of m' (confidential_hart_id h)))) = Some k
        \<and> confidential_hart_id (assigned_hart (hardware (view_of m' (confidential_hart_id h)))) = of_nat i
      else hart_vm_id h = Some k \<and> confidential_hart_id h = of_nat i"
    if "i < length (confidential_harts vm)" for i
    using vm_ok_slot [OF vm that]
    by (auto simp: slot_ok_def Let_def occupied_def split: if_splits option.splits)
  have queue: "\<exists>q. inter_hart_requests vm (of_nat i) = Some q \<and> length q \<le> MAX_NUMBER_OF_REMOTE_HART_REQUESTS"
    if "i < length (confidential_harts vm)" for i
    using vm that by (auto simp: vm_ok_def queues_ok_def)
  show ?thesis using vm slot queue by (simp add: vm_ok_def)
qed

text \<open>A machine on which hardware hart 3 executes hart 1 of VM 7.\<close>

definition example_home_hart :: confidential_hart where
  "example_home_hart = ConfidentialHart_set_confidential_vm_id 7
     (ConfidentialHart_new 0x8000 (HartArchitecturalState_empty 0) Started)"

definition example_vm :: confidential_vm where
  "example_vm = \<lparr>vm_id = 7, measurements = [],
     confidential_harts = [example_home_hart, dummy 0x8000 3],
     memory_protector = \<lparr>protector_root_page_table = \<lparr>root_paging_system = Sv57x4,
       root_table = PageTable Level5 \<lparr>memory_pages = [], number_of_entries = 0, memory_entry_size = 8\<rparr> []\<rparr>,
       protector_hgatp = 0xA000\<rparr>,
     inter_hart_requests = [0 \<mapsto> [], 1 \<mapsto> []]\<rparr>"

definition example_running_hart :: hardware_hart where
  "example_running_hart = (example_hardware_hart 3)\<lparr>assigned_hart := example_confidential_hart\<rparr>"

definition example_vm_machine :: machine where
  "example_vm_machine = put_view 3
     (example_monitor\<lparr>CONTROL_DATA := Some \<lparr>confidential_vms = [(7, example_vm)]\<rparr>,
        hardware := example_running_hart,
        csrs := example_csrs(CSR_PMPCFG0 := 0xF00, CSR_HGATP := 0xA000)\<rparr>) example_machine"

lemma example_hart_ids:
  "hart_vm_id example_confidential_hart = Some 7" "confidential_hart_id example_confidential_hart = 1"
  "hart_vm_id example_home_hart = Some 7" "confidential_hart_id example_home_hart = 0"
  "hart_vm_id (dummy e n) = None" "confidential_hart_id (dummy e n) = n" "lifecycle_state (dummy e n) = Started"
  by (simp_all add: example_confidential_hart_def example_home_hart_def ConfidentialHart_set_confidential_vm_id_def dummy_def
      ConfidentialHart_new_def is_dummy_def confidential_hart_id_def HartArchitecturalState_empty_def set_dump_def
      Let_def)

lemma example_open_protection:
  "protection_ok example_layout True (example_csrs(CSR_PMPCFG0 := 0xF00, CSR_HGATP := 0xA000))"
  by (simp add: protection_ok_def example_csrs_def pmp_available_def pmp_in_use_def pmp_mode_def bit_pmp_config
      pmp_region_def pmp_open_def bit_numeral_rec)

lemma example_occupied:
  "occupied (view_of example_vm_machine n) = (if n = 3 then Some (7, 1, 0xA000) else None)"
  by (simp add: example_vm_machine_def put_view_def occupied_def example_running_hart_def example_hart_ids
      example_machine_def example_hardware_hart_def)

lemma example_vm_table: "vm_table (global example_vm_machine) = [7 \<mapsto> example_vm]"
  by (simp add: vm_table_def example_vm_machine_def)

lemma example_vm_ok: "vm_ok (\<lambda>n. if n = 3 then Some (7, 1, 0xA000) else None) 7 example_vm"
  by (auto simp: vm_ok_def example_vm_def queues_ok_def slot_ok_def example_hart_ids MAX_NUMBER_OF_HARTS_PER_VM_def
      MAX_NUMBER_OF_REMOTE_HART_REQUESTS_def less_Suc_eq nth_Cons is_dummy_def split: if_splits)

lemma example_vm_machine_inv: "machine_inv (layout example_environment) example_vm_machine"
  unfolding machine_inv_def
proof (intro conjI allI)
  fix n
  show "own_hart_ok (layout example_environment) n (view_of example_vm_machine n)"
    using example_protection example_open_protection
    by (cases "n = 3")
       (simp_all add: own_hart_ok_def running_def example_vm_machine_def put_view_def example_running_hart_def
          example_machine_def example_hardware_hart_def example_hart_ids example_environment_def Let_def
          is_dummy_def)
  show "control_ok (\<lambda>n. occupied (view_of example_vm_machine n)) (vm_table (global example_vm_machine))"
    unfolding example_occupied example_vm_table
    by (rule control_okI)
       (use example_vm_ok in \<open>auto simp: seated_def example_vm_def example_hart_ids is_dummy_def split: if_splits\<close>)
qed

theorem control_data_well_formed_witness:
  "machine_inv (layout example_environment) example_vm_machine
   \<and> vm_table (global example_vm_machine) 7 = Some example_vm
   \<and> hart_vm_id (assigned_hart (hardware (view_of example_vm_machine 3))) = Some 7"
proof -
  have vm: "vm_table (global example_vm_machine) 7 = Some example_vm" by (simp add: example_vm_table)
  have "1 < length (confidential_harts example_vm)" "confidential_harts example_vm ! 1 = dummy 0x8000 3"
    by (simp_all add: example_vm_def)
  with control_data_well_formed [OF example_vm_machine_inv rtranclp.rtrancl_refl example_opensbi vm]
  have "hart_vm_id (assigned_hart (hardware (view_of example_vm_machine 3))) = Some 7"
    by (simp only: Let_def, metis example_hart_ids(5,6) is_dummy_def)
  with vm example_vm_machine_inv show ?thesis by blast
qed

end
