(* ===== verification/Page_Table_Inv.thy ===== *)
theory Page_Table_Inv
  imports Page_Table
begin

text \<open>
  What a page table owns and what the memory behind it holds.

  \<^item> \<open>table_pages\<close>: all page tokens in a table tree; \<open>table_ok\<close>: the shape of the tree.
  \<^item> \<open>synced\<close>: the raw entries in confidential memory are the encodings of the tree's entries. A
    raw entry whose valid bit is clear stands for \<open>NotValid\<close>, whatever its other bits are.
  \<^item> \<open>evolves l s t\<close>: going from \<open>s\<close> to \<open>t\<close> took memory from the free pool only and wrote only
    to memory that was free in \<open>s\<close>. \<open>releases l ps s t\<close>: the pages \<open>ps\<close> went back to the pool
    and only their content changed.
\<close>

section \<open>Shape, ownership and synchronisation\<close>

fun entry_pages :: "page_table_entry \<Rightarrow> page list"
and table_pages :: "page_table \<Rightarrow> page list" where
  "entry_pages (Pointer pt _) = table_pages pt"
| "entry_pages (Leaf p _ _) = [p]"
| "entry_pages (Shared _ _ _) = []"
| "entry_pages NotValid = []"
| "table_pages (PageTable _ mem es) = concat (map entry_pages es) @ memory_pages mem"

primrec table_level :: "page_table \<Rightarrow> page_table_level" where
  "table_level (PageTable level _ _) = level"

definition memory_ok :: "memory_layout \<Rightarrow> paging_system \<Rightarrow> page_table_level \<Rightarrow> page_table_memory \<Rightarrow> bool" where
  "memory_ok l ps level mem \<longleftrightarrow>
     length (memory_pages mem) = unat (configuration_pages ps level)
   \<and> list_all (\<lambda>p. page_size p = Size4KiB \<and> page_ok l p) (memory_pages mem)
   \<and> contiguous (memory_pages mem)
   \<and> number_of_entries mem = entries ps level \<and> memory_entry_size mem = 8"

definition shared_ok :: "memory_layout \<Rightarrow> shared_page \<Rightarrow> bool" where
  "shared_ok l sp \<longleftrightarrow> is_in_non_confidential_range l (hypervisor_address sp)
   \<and> unat (hypervisor_address sp) + bytes (shared_page_size sp) \<le> unat (non_confidential_memory_end l)"

definition has_permission :: "page_table_permission \<Rightarrow> bool" where
  "has_permission p \<longleftrightarrow> can_read p \<or> can_write p \<or> can_execute p"

fun entry_ok :: "memory_layout \<Rightarrow> paging_system \<Rightarrow> page_table_level \<Rightarrow> page_table_entry \<Rightarrow> bool"
and table_ok :: "memory_layout \<Rightarrow> paging_system \<Rightarrow> page_table \<Rightarrow> bool" where
  "entry_ok l ps level (Pointer pt _) \<longleftrightarrow> lower level = Some (table_level pt) \<and> table_ok l ps pt"
| "entry_ok l ps level (Leaf p _ perm) \<longleftrightarrow>
     page_ok l p \<and> page_size p = level_page_size ps level \<and> has_permission perm"
| "entry_ok l ps level (Shared sp _ perm) \<longleftrightarrow> shared_ok l sp \<and> has_permission perm"
| "entry_ok l ps level NotValid \<longleftrightarrow> True"
| "table_ok l ps (PageTable level mem es) \<longleftrightarrow>
     memory_ok l ps level mem \<and> length es = table_entries ps level
   \<and> (\<forall>e \<in> set es. entry_ok l ps level e)"

text \<open>A table without shared pages.\<close>

fun entry_unshared :: "page_table_entry \<Rightarrow> bool"
and table_unshared :: "page_table \<Rightarrow> bool" where
  "entry_unshared (Pointer pt _) \<longleftrightarrow> table_unshared pt"
| "entry_unshared (Leaf _ _ _) \<longleftrightarrow> True"
| "entry_unshared (Shared _ _ _) \<longleftrightarrow> False"
| "entry_unshared NotValid \<longleftrightarrow> True"
| "table_unshared (PageTable _ _ es) \<longleftrightarrow> (\<forall>e \<in> set es. entry_unshared e)"

text \<open>The address of the \<open>i\<close>-th raw entry; a page holds 512 of them.\<close>

definition entry_word :: "page_table_memory \<Rightarrow> nat \<Rightarrow> usize" where
  "entry_word mem i = word_at (memory_pages mem ! (i div 512)) (i mod 512)"

definition represents :: "usize \<Rightarrow> page_table_entry \<Rightarrow> bool" where
  "represents raw e \<longleftrightarrow>
     (if e = NotValid then \<not> is_valid raw else PageTableEntry_encode e = Ok raw)"

fun entry_synced :: "(usize \<Rightarrow> usize) \<Rightarrow> page_table_entry \<Rightarrow> bool"
and synced :: "(usize \<Rightarrow> usize) \<Rightarrow> page_table \<Rightarrow> bool" where
  "entry_synced m (Pointer pt _) \<longleftrightarrow> synced m pt"
| "entry_synced m (Leaf _ _ _) \<longleftrightarrow> True"
| "entry_synced m (Shared _ _ _) \<longleftrightarrow> True"
| "entry_synced m NotValid \<longleftrightarrow> True"
| "synced m (PageTable _ mem es) \<longleftrightarrow>
     (\<forall>i < length es. represents (m (entry_word mem i)) (es ! i)) \<and> (\<forall>e \<in> set es. entry_synced m e)"

section \<open>Accesses to the raw entries of one table\<close>

lemma memory_ok_page:
  assumes "memory_ok l ps level mem" and "i < table_entries ps level"
  shows "i div 512 < length (memory_pages mem)"
    and "page_ok l (memory_pages mem ! (i div 512))"
    and "page_size (memory_pages mem ! (i div 512)) = Size4KiB"
    and "i mod 512 < words_in (memory_pages mem ! (i div 512))"
proof -
  show i: "i div 512 < length (memory_pages mem)"
    using assms by (simp add: memory_ok_def table_geometry(1) less_mult_imp_div_less mult.commute)
  then have "memory_pages mem ! (i div 512) \<in> set (memory_pages mem)" by simp
  then show "page_ok l (memory_pages mem ! (i div 512))"
    and sz: "page_size (memory_pages mem ! (i div 512)) = Size4KiB"
    using assms(1) by (auto simp: memory_ok_def list_all_iff)
  show "i mod 512 < words_in (memory_pages mem ! (i div 512))" by (simp add: words_in_def sz)
qed

lemma resolve_index_eq:
  assumes "memory_ok l ps level mem" and "i < table_entries ps level"
  shows "resolve_index mem (of_nat i) = Some (of_nat (i div 512), of_nat (i mod 512))"
    and "unat (of_nat i :: usize) = i" and "unat (of_nat (i div 512) :: usize) = i div 512"
    and "unat (of_nat (i mod 512) :: usize) = i mod 512"
proof -
  have small: "i < 2048" using assms(2) by (simp add: table_geometry split: if_splits)
  then show u: "unat (of_nat i :: usize) = i" and d: "unat (of_nat (i div 512) :: usize) = i div 512"
    and r: "unat (of_nat (i mod 512) :: usize) = i mod 512"
    by (simp_all add: unat_of_nat)
  have "in_bytes Size4KiB div memory_entry_size mem = 512"
    using assms(1) by (simp add: memory_ok_def in_bytes_def)
  moreover have "(of_nat i :: usize) < number_of_entries mem"
    using assms u by (simp add: memory_ok_def word_less_nat_alt)
  moreover have "(of_nat i :: usize) div 512 = of_nat (i div 512)"
    "(of_nat i :: usize) mod 512 = of_nat (i mod 512)"
    using u d r by (simp_all add: word_unat_eq_iff unat_div unat_mod)
  ultimately show "resolve_index mem (of_nat i) = Some (of_nat (i div 512), of_nat (i mod 512))"
    by (simp add: resolve_index_def)
qed

lemma entry_offset:
  assumes "memory_ok l ps level mem" and "i < table_entries ps level"
  shows "mul_usize (memory_entry_size mem) (of_nat (i mod 512)) = Ok (of_nat (8 * (i mod 512)))"
proof -
  have "unat (of_nat (i mod 512) :: usize) = i mod 512" by (rule resolve_index_eq(4) [OF assms])
  moreover have "i mod 512 < 512" by simp
  ultimately show ?thesis
    using assms(1) by (simp add: mul_usize_def memory_ok_def)
qed

lemma PageTableMemory_entry_eq:
  assumes "memory_ok l ps level mem" and "i < table_entries ps level"
  shows "PageTableMemory_entry mem (of_nat i) s =
    (Ok (Some (confidential_memory s (entry_word mem i))), s)"
  using memory_ok_page [OF assms]
  by (simp add: PageTableMemory_entry_def resolve_index_eq [OF assms] entry_offset [OF assms]
      sbind_lift get_page_def ok_def Page_read_word entry_word_def del: of_nat_mult)

lemma PageTableMemory_set_entry_eq:
  assumes "memory_ok l ps level mem" and "i < table_entries ps level"
    and "PageTableEntry_encode e = Ok v"
  shows "PageTableMemory_set_entry mem (of_nat i) e s =
    (Ok (), if v = 0 then s
            else s\<lparr>confidential_memory := (confidential_memory s)(entry_word mem i := v)\<rparr>)"
  using memory_ok_page [OF assms(1,2)]
  by (simp add: PageTableMemory_set_entry_def resolve_index_eq [OF assms(1,2)] ret_def
      entry_offset [OF assms(1,2)] sbind_lift get_page_def ok_def Page_write_word entry_word_def
      assms(3) sbind_def lift_def del: of_nat_mult)

lemma entry_word_in_table:
  assumes "memory_ok l ps level mem" and "i < table_entries ps level"
  shows "unat (entry_word mem i) \<in> page_range (memory_pages mem ! (i div 512))"
    and "memory_pages mem ! (i div 512) \<in> set (memory_pages mem)"
  using memory_ok_page [OF assms] by (simp_all add: entry_word_def word_at_in_page)

lemma contiguous_start:
  assumes "contiguous ps" and "list_all (\<lambda>p. page_size p = sz) ps" and "i < length ps"
  shows "unat (page_address (ps ! i)) = unat (page_address (ps ! 0)) + i * bytes sz"
  using assms(3)
proof (induction i)
  case (Suc i)
  then have "page_size (ps ! i) = sz" using assms(2) by (simp add: list_all_length)
  moreover have "unat (page_address (ps ! i)) + bytes (page_size (ps ! i)) =
      unat (page_address (ps ! Suc i))" using assms(1) Suc.prems by (simp add: contiguous_def)
  ultimately show ?case using Suc by simp
qed simp

text \<open>The pages of a table are adjacent, so its raw entries form one array.\<close>

lemma unat_entry_word:
  assumes "memory_ok l ps level mem" and "i < table_entries ps level"
  shows "unat (entry_word mem i) = unat (page_address (memory_pages mem ! 0)) + 8 * i"
proof -
  note p = memory_ok_page [OF assms]
  have "list_all (\<lambda>p. page_size p = Size4KiB) (memory_pages mem)" and "contiguous (memory_pages mem)"
    using assms(1) by (auto simp: memory_ok_def list_all_iff)
  from contiguous_start [OF this(2,1) p(1)] unat_word_at [OF p(2,4)]
  have "unat (entry_word mem i) =
      unat (page_address (memory_pages mem ! 0)) + (i div 512 * 4096 + 8 * (i mod 512))"
    by (simp add: entry_word_def)
  moreover have "i div 512 * 512 + i mod 512 = i" by simp
  ultimately show ?thesis by linarith
qed

lemma entry_word_inject:
  assumes "memory_ok l ps level mem" and "i < table_entries ps level" and "j < table_entries ps level"
  shows "entry_word mem i = entry_word mem j \<longleftrightarrow> i = j"
  using unat_entry_word [OF assms(1,2)] unat_entry_word [OF assms(1,3)] by (auto simp: word_unat_eq_iff)

section \<open>Giving pages back\<close>

definition releases :: "memory_layout \<Rightarrow> page list \<Rightarrow> 'z alloc_state_scheme \<Rightarrow> 'z alloc_state_scheme \<Rightarrow> bool" where
  "releases l ps s t \<longleftrightarrow> alloc_inv l t \<and> (\<forall>x. free_in t x = free_in s x + owned ps x)
   \<and> (\<forall>a. owned ps (unat a) = 0 \<longrightarrow> confidential_memory t a = confidential_memory s a)"

lemma releases_Nil: "alloc_inv l s \<Longrightarrow> releases l [] s s"
  by (simp add: releases_def)

lemma releases_trans: "releases l ps s t \<Longrightarrow> releases l qs t u \<Longrightarrow> releases l (ps @ qs) s u"
  by (simp add: releases_def)

lemma releases_inv: "releases l ps s t \<Longrightarrow> alloc_inv l t"
  by (simp add: releases_def)

lemma free_in_memory [simp]:
  "free_in (s\<lparr>confidential_memory := m\<rparr>) = free_in s"
  "free_in (s\<lparr>now := n\<rparr>) = free_in s"
  by (simp_all add: free_in_def fun_eq_iff)

lemma alloc_inv_memory [simp]:
  "alloc_inv l (s\<lparr>confidential_memory := m\<rparr>) = alloc_inv l s"
  "alloc_inv l (s\<lparr>now := n\<rparr>) = alloc_inv l s"
  by (simp_all add: alloc_inv_def)

lemma fill_frame:
  assumes "page_ok l p" and "n \<le> words_in p" and "owned [p] (unat a) = 0"
  shows "fill p n f m a = m a"
  using assms(3) by (intro fill_outside [OF assms(1,2)]) (simp split: if_splits)

lemma traverse_deallocate:
  assumes "list_all (page_ok l) ps"
  shows "\<exists>m. traverse deallocate ps s = (Ok ps, s\<lparr>confidential_memory := m\<rparr>)
    \<and> (\<forall>a. owned ps (unat a) = 0 \<longrightarrow> m a = confidential_memory s a)"
  using assms
proof (induction ps arbitrary: s)
  case Nil
  show ?case by (intro exI [of _ "confidential_memory s"]) (simp add: ret_def)
next
  case (Cons p ps)
  then have p: "page_ok l p" by simp
  let ?s = "s\<lparr>confidential_memory := fill p (words_in p) (\<lambda>_. 0) (confidential_memory s)\<rparr>"
  obtain m where m: "traverse deallocate ps ?s = (Ok ps, ?s\<lparr>confidential_memory := m\<rparr>)"
    "\<And>a. owned ps (unat a) = 0 \<Longrightarrow> m a = confidential_memory ?s a"
    using Cons.IH [of ?s] Cons.prems by auto
  have "m a = confidential_memory s a" if "owned (p # ps) (unat a) = 0" for a
    using that m(2) [of a] fill_frame [OF p order_refl, of a] by simp
  then show ?case
    using m(1) by (auto simp: deallocate_eq [OF p] sbind_Ok ret_def)
qed

lemma release_pages_releases:
  assumes "alloc_inv l s" and "list_all (page_ok l) ps"
  shows "\<exists>t. release_pages ps s = (Ok (), t) \<and> alloc_inv l t
    \<and> (\<forall>x. free_in t x = free_in s x + owned ps x) \<and> confidential_memory t = confidential_memory s"
proof -
  obtain r t where rt: "release_pages ps s = (r, t)" by fastforce
  note ok = allocator.rel_ok [OF assms rt]
  have "confidential_memory (t\<lparr>global_allocator := None\<rparr>) = confidential_memory (s\<lparr>global_allocator := None\<rparr>)"
    using ok by simp
  then have "confidential_memory t = confidential_memory s" by simp
  with ok rt show ?thesis by auto
qed

lemma deallocate_release:
  assumes "alloc_inv l s" and "list_all (page_ok l) ps"
  shows "\<exists>t. sbind (traverse deallocate ps) release_pages s = (Ok (), t) \<and> releases l ps s t"
proof -
  obtain m where m: "traverse deallocate ps s = (Ok ps, s\<lparr>confidential_memory := m\<rparr>)"
    "\<forall>a. owned ps (unat a) = 0 \<longrightarrow> m a = confidential_memory s a"
    using traverse_deallocate [OF assms(2)] by blast
  moreover have "alloc_inv l (s\<lparr>confidential_memory := m\<rparr>)" using assms(1) by simp
  from release_pages_releases [OF this assms(2)] obtain t where
    "release_pages ps (s\<lparr>confidential_memory := m\<rparr>) = (Ok (), t)" "alloc_inv l t"
    "\<forall>x. free_in t x = free_in s x + owned ps x" "confidential_memory t = m" by auto
  ultimately show ?thesis by (auto simp: sbind_Ok releases_def)
qed

lemma PageTableMemory_drop_releases:
  assumes "alloc_inv l s" and "list_all (page_ok l) (memory_pages mem)"
  shows "\<exists>t. PageTableMemory_drop mem s = (Ok (), t) \<and> releases l (memory_pages mem) s t"
  using deallocate_release [OF assms] by (simp add: PageTableMemory_drop_def)

lemma release_leaf_releases:
  assumes "alloc_inv l s" and "page_ok l p"
  shows "\<exists>t. release_leaf p s = (Ok (), t) \<and> releases l [p] s t"
proof -
  have "release_leaf p s = sbind (traverse deallocate [p]) release_pages s"
    by (simp add: release_leaf_def release_page_def sbind_def deallocate_eq [OF assms(2)] ret_def)
  then show ?thesis using deallocate_release [OF assms(1), of "[p]"] assms(2) by simp
qed

lemma drop_table_releases:
  "alloc_inv l s \<Longrightarrow> list_all (page_ok l) (table_pages pt) \<Longrightarrow>
     \<exists>t. drop_table pt s = (Ok (), t) \<and> releases l (table_pages pt) s t"
  "alloc_inv l s \<Longrightarrow> list_all (page_ok l) (concat (map entry_pages es)) \<Longrightarrow>
     \<exists>t. drop_entries es s = (Ok (), t) \<and> releases l (concat (map entry_pages es)) s t"
proof (induction pt and es arbitrary: s and s rule: drop_table_drop_entries.induct)
  case (1 level mem es)
  then obtain t where t: "drop_entries es s = (Ok (), t)" "releases l (concat (map entry_pages es)) s t"
    using 1(1) [OF 1(2)] by auto
  obtain u where "PageTableMemory_drop mem t = (Ok (), u)" "releases l (memory_pages mem) t u"
    using PageTableMemory_drop_releases [OF releases_inv [OF t(2)], of mem] 1(3) by auto
  with t show ?case by (auto simp: sbind_Ok intro: releases_trans)
next
  case 2
  then show ?case by (auto simp: ret_def releases_Nil)
next
  case (3 e es)
  have "\<exists>t. (case e of Leaf p _ _ \<Rightarrow> release_leaf p | Pointer pt _ \<Rightarrow> drop_table pt | _ \<Rightarrow> ret ()) s
      = (Ok (), t) \<and> releases l (entry_pages e) s t"
    using 3(1) [of _ _ s] 3(3,4) release_leaf_releases [OF 3(3)]
    by (cases e) (auto simp: ret_def releases_Nil)
  then obtain t where t: "(case e of Leaf p _ _ \<Rightarrow> release_leaf p | Pointer pt _ \<Rightarrow> drop_table pt
      | _ \<Rightarrow> ret ()) s = (Ok (), t)" "releases l (entry_pages e) s t" by blast
  obtain u where "drop_entries es t = (Ok (), u)" "releases l (concat (map entry_pages es)) t u"
    using 3(2) [of t] 3(4) releases_inv [OF t(2)] by auto
  with t show ?case by (auto simp: sbind_Ok intro: releases_trans)
qed

text \<open>Discarding a vector of entries releases what its pointers own; leaf pages are not released.\<close>

definition pointer_pages :: "page_table_entry list \<Rightarrow> page list" where
  "pointer_pages es =
     concat (map (\<lambda>e. case e of Pointer pt _ \<Rightarrow> table_pages pt | _ \<Rightarrow> []) es)"

lemma pointer_pages_le: "owned (pointer_pages es) x \<le> owned (concat (map entry_pages es)) x"
  by (induction es) (auto simp: pointer_pages_def split: page_table_entry.splits)

lemma discard_entries_releases:
  assumes "alloc_inv l s" and "list_all (page_ok l) (concat (map entry_pages es))"
  shows "\<exists>t. discard_entries es s = (Ok (), t) \<and> releases l (pointer_pages es) s t"
  using assms
proof (induction es arbitrary: s)
  case Nil
  then show ?case by (simp add: ret_def releases_Nil pointer_pages_def)
next
  case (Cons e es)
  have "\<exists>t. (case e of Pointer pt _ \<Rightarrow> drop_table pt | _ \<Rightarrow> ret ()) s = (Ok (), t)
      \<and> releases l (pointer_pages [e]) s t"
    using drop_table_releases(1) [OF Cons.prems(1)] Cons.prems
    by (cases e) (auto simp: ret_def releases_Nil pointer_pages_def)
  then obtain t where t: "(case e of Pointer pt _ \<Rightarrow> drop_table pt | _ \<Rightarrow> ret ()) s = (Ok (), t)"
    "releases l (pointer_pages [e]) s t" by blast
  obtain u where u: "discard_entries es t = (Ok (), u)" "releases l (pointer_pages es) t u"
    using Cons.IH [OF releases_inv [OF t(2)]] Cons.prems(2) by auto
  have "pointer_pages (e # es) = pointer_pages [e] @ pointer_pages es" by (simp add: pointer_pages_def)
  with t u releases_trans [OF t(2) u(2)] show ?case by (auto simp: sbind_Ok)
qed

section \<open>Evolution of the pool and the memory\<close>

definition evolves :: "memory_layout \<Rightarrow> 'z alloc_state_scheme \<Rightarrow> 'z alloc_state_scheme \<Rightarrow> bool" where
  "evolves l s t \<longleftrightarrow> alloc_inv l t \<and> (\<forall>x. free_in t x \<le> free_in s x)
   \<and> (\<forall>a. free_in s (unat a) = 0 \<longrightarrow> confidential_memory t a = confidential_memory s a)"

lemma evolves_refl: "alloc_inv l s \<Longrightarrow> evolves l s s"
  by (simp add: evolves_def)

lemma evolves_trans:
  assumes "evolves l s t" and "evolves l t u"
  shows "evolves l s u"
proof -
  have "free_in u x \<le> free_in s x" for x using assms unfolding evolves_def by (meson le_trans)
  moreover have "confidential_memory u a = confidential_memory s a" if "free_in s (unat a) = 0" for a
  proof -
    have "free_in t (unat a) = 0" using assms(1) that unfolding evolves_def by (metis le_zero_eq)
    then show ?thesis using assms that unfolding evolves_def by metis
  qed
  ultimately show ?thesis using assms(2) by (simp add: evolves_def)
qed

lemma evolves_inv: "evolves l s t \<Longrightarrow> alloc_inv l t"
  by (simp add: evolves_def)

text \<open>Writing to a page that was free at the start.\<close>

lemma evolves_write:
  assumes "evolves l s t" and "\<And>x. x \<in> page_range p \<Longrightarrow> free_in s x \<noteq> 0"
    and "\<And>a. unat a \<notin> page_range p \<Longrightarrow> confidential_memory u a = confidential_memory t a"
    and "alloc_inv l u" and "free_in u = free_in t"
  shows "evolves l s u"
  using assms unfolding evolves_def by metis

lemma evolves_release:
  assumes "evolves l s t" and "releases l ps t u"
    and "\<And>x. free_in t x + owned ps x \<le> free_in s x"
  shows "evolves l s u"
proof -
  have "owned ps (unat a) = 0" if "free_in s (unat a) = 0" for a
    using assms(3) [of "unat a"] that by simp
  then show ?thesis using assms unfolding evolves_def releases_def by metis
qed

lemma acquire_evolves:
  assumes "alloc_inv l s" and "0 < n" and "acquire_continous_pages l n sz s = (r, t)"
  shows "evolves l s t" and "confidential_memory t = confidential_memory s" and "r \<noteq> Panic"
    and "r = Ok ps \<Longrightarrow> free_in s x = owned ps x + free_in t x"
    and "r = Ok ps \<Longrightarrow> length ps = n"
    and "r = Ok ps \<Longrightarrow> list_all (\<lambda>p. page_size p = sz \<and> page_ok l p) ps"
    and "r = Ok ps \<Longrightarrow> contiguous ps"
proof -
  note inv = allocator.acq_inv [OF assms]
  have "confidential_memory (t\<lparr>global_allocator := None\<rparr>) = confidential_memory (s\<lparr>global_allocator := None\<rparr>)"
    using inv by simp
  then show m: "confidential_memory t = confidential_memory s" by simp
  show np: "r \<noteq> Panic" using allocator.acq_no_panic [OF assms(1,2), of sz] assms(3) by auto
  have "free_in t x \<le> free_in s x" for x
    using np allocator.acq_ok [OF assms(1,2), of sz _ t x] allocator.acq_err [OF assms(1,2), of sz _ t x]
      assms(3) by (cases r) auto
  then show "evolves l s t" using inv m by (simp add: evolves_def)
  show "free_in s x = owned ps x + free_in t x" "length ps = n"
    "list_all (\<lambda>p. page_size p = sz \<and> page_ok l p) ps" "contiguous ps" if "r = Ok ps"
    using allocator.acq_ok [OF assms(1,2), of sz ps t x] assms(3) that by auto
qed

end
