(* ===== verification/Page_Table_Copy.thy ===== *)
theory Page_Table_Copy
  imports Page_Table_Inv
begin

text \<open>
  Copying a page table hierarchy out of untrusted memory
  (\<^verbatim>\<open>PageTable::copy_from_non_confidential_memory\<close>): whatever bits the untrusted memory holds, the
  result is a tree over freshly acquired, disjoint confidential pages whose raw entries agree with
  it, and a failing copy harms nobody else.
\<close>

section \<open>The memory of one table\<close>

lemma copy_evolves:
  assumes "evolves l s t" and "page_ok l p" and "\<And>x. x \<in> page_range p \<Longrightarrow> free_in s x \<noteq> 0"
    and "copy_from_non_confidential_memory l p a t = (r, u)"
  shows "evolves l s u" and "free_in u = free_in t"
    and "r = Ok p \<or> r = Err MemoryAccessAuthorization"
proof -
  have out: "snd (copy_from_non_confidential_memory l p a t) = u"
    "fst (copy_from_non_confidential_memory l p a t) = r" by (simp_all add: assms(4))
  obtain n where n: "n \<le> words_in p"
    "u = t\<lparr>confidential_memory := fill p n (copied t a) (confidential_memory t), now := now t + n\<rparr>"
    and r: "r = Ok p \<or> r = Err MemoryAccessAuthorization"
    by (rule copy_outcome [OF assms(2), of a t, unfolded out])
  show "r = Ok p \<or> r = Err MemoryAccessAuthorization" by (rule r)
  show f: "free_in u = free_in t" by (simp add: n(2))
  show "evolves l s u"
  proof (rule evolves_write [OF assms(1,3)])
    show "confidential_memory u a = confidential_memory t a" if "unat a \<notin> page_range p" for a
      using fill_outside [OF assms(2) n(1) that] by (simp add: n(2))
    show "alloc_inv l u" using evolves_inv [OF assms(1)] by (simp add: n(2))
  qed (use f in auto)
qed

lemma copy_memory_page_result:
  assumes "evolves l s t" and "page_size p = Size4KiB" and "page_ok l p" and "k < 4"
    and "\<And>x. x \<in> page_range p \<Longrightarrow> free_in s x \<noteq> 0"
    and "copy_memory_page l a (k, p) t = (r, u)"
  shows "evolves l s u \<and> free_in u = free_in t
    \<and> (r = Ok p \<or> r = Err MemoryAccessAuthorization)"
proof -
  have "mul_usize (of_nat k) (in_bytes (page_size p)) = (Ok (of_nat k * 0x1000) :: usize res)"
    using assms(2,4) by (auto simp: mul_usize_def in_bytes_def unat_of_nat)
  then have run: "copy_memory_page l a (k, p) t =
      sbind (lift (non_confidential_address_at_offset l a (of_nat k * 0x1000)))
        (copy_from_non_confidential_memory l p) t"
    by (simp add: copy_memory_page_def sbind_lift)
  show ?thesis
    using copy_evolves [OF assms(1,3,5), of _ r u] assms(1,6) unfolding run
    by (auto simp: sbind_lift non_confidential_address_at_offset_cases split: if_splits)
qed

lemma traverse_copy:
  assumes "evolves l s t"
    and "\<And>p. p \<in> set pages \<Longrightarrow> page_size p = Size4KiB \<and> page_ok l p"
    and "\<And>p x. p \<in> set pages \<Longrightarrow> x \<in> page_range p \<Longrightarrow> free_in s x \<noteq> 0"
    and "k + length pages \<le> 4"
    and "traverse (copy_memory_page l a) (enumerate k pages) t = (r, u)"
  shows "evolves l s u \<and> free_in u = free_in t \<and> r \<noteq> Panic \<and> (\<forall>qs. r = Ok qs \<longrightarrow> qs = pages)"
  using assms
proof (induction pages arbitrary: k t r u)
  case Nil
  then show ?case by (auto simp: ret_def)
next
  case (Cons p pages)
  obtain q v where c: "copy_memory_page l a (k, p) t = (q, v)" by fastforce
  have step: "evolves l s v" "free_in v = free_in t" "q = Ok p \<or> q = Err MemoryAccessAuthorization"
    using copy_memory_page_result [OF Cons.prems(1) _ _ _ _ c] Cons.prems(2-4) by auto
  obtain r' w where rest: "traverse (copy_memory_page l a) (enumerate (Suc k) pages) v = (r', w)"
    by fastforce
  have IH: "evolves l s w \<and> free_in w = free_in v \<and> r' \<noteq> Panic \<and> (\<forall>qs. r' = Ok qs \<longrightarrow> qs = pages)"
    using Cons.prems(2-4) by (intro Cons.IH [OF step(1) _ _ _ rest]) auto
  show ?case
    using Cons.prems(5) step IH
    by (cases r') (auto simp: sbind_run c rest ret_def)
qed

lemma config_pages_pos: "0 < unat (configuration_pages ps level)"
  by (simp add: table_geometry)

lemma memory_copy_result:
  assumes "alloc_inv l s"
    and "PageTableMemory_copy_from_non_confidential_memory l ps level a s = (r, t)"
  shows "evolves l s t" and "r \<noteq> Panic"
    and "r = Ok mem \<Longrightarrow> memory_ok l ps level mem \<and> (\<forall>x. free_in s x = owned (memory_pages mem) x + free_in t x)"
proof -
  obtain q u where acq: "acquire_continous_pages l (unat (configuration_pages ps level)) Size4KiB s = (q, u)"
    by fastforce
  note A = acquire_evolves [OF assms(1) config_pages_pos acq]
  have "evolves l s t \<and> r \<noteq> Panic \<and> (\<forall>mem. r = Ok mem \<longrightarrow> memory_ok l ps level mem
      \<and> (\<forall>x. free_in s x = owned (memory_pages mem) x + free_in t x))"
  proof (cases q)
    case (Ok pages)
    note P = A(4) [OF Ok] A(5-7) [OF Ok]
    obtain r' v where tr: "traverse (copy_memory_page l a) (enumerate 0 pages) u = (r', v)" by fastforce
    have "free_in s x \<noteq> 0" if "p \<in> set pages" "x \<in> page_range p" for p x
      using P(1) [of x] that owned_pos_iff [of pages x] by auto
    moreover have "0 + length pages \<le> 4" using P(2) by (simp add: table_geometry)
    ultimately have "evolves l s v \<and> free_in v = free_in u \<and> r' \<noteq> Panic \<and> (\<forall>qs. r' = Ok qs \<longrightarrow> qs = pages)"
      using P(3) by (intro traverse_copy [OF A(1) _ _ _ tr]) (auto simp: list_all_iff)
    then show ?thesis
      using assms(2) Ok P
      by (cases r') (auto simp: PageTableMemory_copy_from_non_confidential_memory_def
          sbind_run acq tr ret_def new_memory_def memory_ok_def table_geometry(3))
  qed (use assms(2) A in \<open>auto simp: PageTableMemory_copy_from_non_confidential_memory_def sbind_run acq\<close>)
  then show "evolves l s t" "r \<noteq> Panic"
    "r = Ok mem \<Longrightarrow> memory_ok l ps level mem \<and> (\<forall>x. free_in s x = owned (memory_pages mem) x + free_in t x)"
    by auto
qed

section \<open>Entries\<close>

lemma table_address:
  assumes "table_ok l ps pt"
  obtains p where "PageTable_address pt = Ok (page_address p)" "p \<in> set (table_pages pt)" "page_ok l p"
    "page_size p = Size4KiB"
proof (cases pt)
  case (PageTable level mem es)
  with assms have mem: "memory_ok l ps level mem" by simp
  have z: "0 < table_entries ps level" by (simp add: table_geometry)
  note p = memory_ok_page [OF mem z]
  show ?thesis
    by (rule that [of "memory_pages mem ! 0"])
       (use p PageTable in \<open>auto simp: PageTableMemory_start_address_def vec_index_def start_address_def\<close>)
qed

lemma page_ok_aligned: "page_ok l p \<Longrightarrow> unat (page_address p) mod 4096 = 0"
  using smallest_dvd_bytes [of "page_size p"] by (auto simp: page_ok_def mod_eq_0_iff_dvd intro: dvd_trans)

lemma valid_bit_nonzero: "pte_mask Valid OR x \<noteq> 0"
proof
  assume "pte_mask Valid OR x = 0"
  then have "\<not> bit (pte_mask Valid OR x) 0" by simp
  then show False by (simp add: bit_or_iff bit_pte_mask)
qed

lemma encode_entry:
  assumes "entry_ok l ps level e"
  shows "\<exists>v. PageTableEntry_encode e = Ok v \<and> (v = 0 \<longleftrightarrow> e = NotValid)"
proof (cases e)
  case (Pointer pt c)
  then obtain a where "PageTable_address pt = Ok a"
    using assms table_address [of l ps pt] by auto
  then show ?thesis
    using Pointer by (simp add: PageTableEntry_encode_def or.assoc valid_bit_nonzero)
qed (simp_all add: PageTableEntry_encode_def or.assoc valid_bit_nonzero)

lemma entry_synced_frame:
  "entry_ok l ps level e \<Longrightarrow> entry_synced m e \<Longrightarrow>
     (\<And>a. owned (entry_pages e) (unat a) \<noteq> 0 \<Longrightarrow> m' a = m a) \<Longrightarrow> entry_synced m' e"
  "table_ok l ps pt \<Longrightarrow> synced m pt \<Longrightarrow>
     (\<And>a. owned (table_pages pt) (unat a) \<noteq> 0 \<Longrightarrow> m' a = m a) \<Longrightarrow> synced m' pt"
proof (induction l ps level e and l ps pt rule: entry_ok_table_ok.induct)
  case (5 l ps level mem es)
  have mem: "memory_ok l ps level mem" and len: "length es = table_entries ps level"
    using 5(2) by simp_all
  have "m' (entry_word mem i) = m (entry_word mem i)" if "i < length es" for i
  proof (rule 5(4))
    note w = entry_word_in_table [OF mem that [unfolded len]]
    then show "owned (table_pages (PageTable level mem es)) (unat (entry_word mem i)) \<noteq> 0"
      using owned_pos_iff [of "memory_pages mem" "unat (entry_word mem i)"] by auto
  qed
  moreover have "entry_synced m' e" if e: "e \<in> set es" for e
  proof (rule 5(1) [OF e])
    show "entry_ok l ps level e" "entry_synced m e" using 5(2,3) e by auto
    show "m' a = m a" if "owned (entry_pages e) (unat a) \<noteq> 0" for a
    proof (rule 5(4))
      from that obtain p where "p \<in> set (entry_pages e)" "unat a \<in> page_range p"
        using owned_pos_iff [of "entry_pages e" "unat a"] by auto
      then have "0 < owned (table_pages (PageTable level mem es)) (unat a)"
        using e unfolding owned_pos_iff by auto
      then show "owned (table_pages (PageTable level mem es)) (unat a) \<noteq> 0" by simp
    qed
  qed
  ultimately show ?case using 5(3) by simp
qed auto

text \<open>The contract of copying one table at a level, for any starting state.\<close>

definition copies_table ::
    "memory_layout \<Rightarrow> paging_system \<Rightarrow> page_table_level
     \<Rightarrow> (non_confidential_memory_address \<Rightarrow> ('z alloc_state_scheme, error, page_table) st) \<Rightarrow> bool" where
  "copies_table l ps level f \<longleftrightarrow> (\<forall>a s r t. alloc_inv l s \<longrightarrow> exclusive (free_in s) \<longrightarrow> f a s = (r, t) \<longrightarrow>
     evolves l s t \<and> r \<noteq> Panic \<and> (\<forall>pt. r = Ok pt \<longrightarrow>
       table_ok l ps pt \<and> table_level pt = level \<and> synced (confidential_memory t) pt \<and> table_unshared pt
       \<and> (\<forall>x. free_in s x = owned (table_pages pt) x + free_in t x)))"

definition copies_lower ::
    "memory_layout \<Rightarrow> paging_system \<Rightarrow> page_table_level
     \<Rightarrow> (non_confidential_memory_address \<Rightarrow> ('z alloc_state_scheme, error, page_table) st) option \<Rightarrow> bool" where
  "copies_lower l ps level sub \<longleftrightarrow>
     (\<forall>f. sub = Some f \<longrightarrow> (\<exists>lo. lower level = Some lo \<and> copies_table l ps lo f))"

definition converted ::
    "memory_layout \<Rightarrow> paging_system \<Rightarrow> page_table_level \<Rightarrow> usize
     \<Rightarrow> 'z alloc_state_scheme \<Rightarrow> page_table_entry res \<times> 'z alloc_state_scheme \<Rightarrow> bool" where
  "converted l ps level raw s = (\<lambda>(r, t). evolves l s t \<and> r \<noteq> Panic \<and> (\<forall>e. r = Ok e \<longrightarrow>
     entry_ok l ps level e \<and> entry_synced (confidential_memory t) e \<and> entry_unshared e
     \<and> (e = NotValid \<longrightarrow> \<not> is_valid raw)
     \<and> (\<forall>x. free_in s x = owned (entry_pages e) x + free_in t x)))"

lemma convert_leaf:
  assumes "alloc_inv l s" and "is_leaf raw"
  shows "converted l ps level raw s
    (sbind (acquire_continous_pages l 1 (level_page_size ps level)) (\<lambda>pages.
     sbind (lift (vec_remove 0 pages)) (\<lambda>(p, _).
     sbind (smap_err (\<lambda>_. PageTableCorrupted) (copy_from_non_confidential_memory l p a)) (\<lambda>p.
     ret (Leaf p (PageTableConfiguration_decode raw) (PageTablePermission_decode raw))))) s)"
    (is "converted l ps level raw s (?m s)")
proof -
  obtain q u where acq: "acquire_continous_pages l 1 (level_page_size ps level) s = (q, u)" by fastforce
  note A = acquire_evolves [OF assms(1) zero_less_one acq]
  have perm: "has_permission (PageTablePermission_decode raw)"
    using assms(2) by (simp add: has_permission_def PageTablePermission_decode_def is_leaf_def)
  show ?thesis
  proof (cases q)
    case (Ok pages)
    with A(5) [OF Ok] obtain p where p: "pages = [p]" by (auto simp: length_Suc_conv)
    have pok: "page_ok l p" "page_size p = level_page_size ps level"
      and own: "\<And>x. free_in s x = owned [p] x + free_in u x"
      using A(4,6) [OF Ok] by (auto simp: p)
    obtain r v where c: "copy_from_non_confidential_memory l p a u = (r, v)" by fastforce
    have "free_in s x \<noteq> 0" if "x \<in> page_range p" for x using own [of x] that by simp
    note E = copy_evolves [OF A(1) pok(1) this c]
    have run: "?m s = (case r of
        Ok p \<Rightarrow> (Ok (Leaf p (PageTableConfiguration_decode raw) (PageTablePermission_decode raw)), v)
      | Err e \<Rightarrow> (Err PageTableCorrupted, v) | Panic \<Rightarrow> (Panic, v))"
      using Ok by (simp add: sbind_run acq p vec_remove_def sbind_lift smap_err_def c ret_def
          split: result.splits del: One_nat_def)
    show ?thesis unfolding run using E pok perm own by (auto simp: converted_def)
  qed (use A in \<open>auto simp: converted_def sbind_run acq simp del: One_nat_def\<close>)
qed

lemma NonConfidentialMemoryAddress_new_cases:
  "NonConfidentialMemoryAddress_new l a = Ok a \<or>
   NonConfidentialMemoryAddress_new l a = Err MemoryAccessAuthorization"
  by (simp add: NonConfidentialMemoryAddress_new_def)

lemma convert_entry_converted:
  assumes "alloc_inv l s" and "exclusive (free_in s)"
    and "copies_lower l ps level sub"
  shows "converted l ps level raw s (convert_entry l ps level sub raw s)"
proof -
  let ?a = "PageTableAddress_decode raw"
  have refused: "converted l ps level raw s (Err e, s)" for e
    by (simp add: converted_def evolves_refl [OF assms(1)])
  consider "\<not> is_valid raw" | "is_valid raw" "is_leaf raw" | "is_valid raw" "\<not> is_leaf raw" by blast
  then show ?thesis
  proof cases
    case 1
    then show ?thesis by (simp add: convert_entry_def converted_def ret_def evolves_refl [OF assms(1)])
  next
    case 2
    note leaf = convert_leaf [OF assms(1) 2(2), of ps level ?a]
    show ?thesis
    proof (cases "NonConfidentialMemoryAddress_new l ?a = Ok ?a")
      case True
      then show ?thesis using 2 leaf by (simp add: convert_entry_def sbind_lift)
    next
      case False
      then have "NonConfidentialMemoryAddress_new l ?a = Err MemoryAccessAuthorization"
        using NonConfidentialMemoryAddress_new_cases [of l ?a] by blast
      then show ?thesis using 2 by (simp add: convert_entry_def sbind_lift refused)
    qed
  next
    case 3
    show ?thesis
    proof (cases "sub = None \<or> NonConfidentialMemoryAddress_new l ?a \<noteq> Ok ?a")
      case True
      with 3 NonConfidentialMemoryAddress_new_cases [of l ?a] show ?thesis
        by (cases sub) (auto simp: convert_entry_def sbind_lift refused)
    next
      case False
      then obtain f where f: "sub = Some f" and na: "NonConfidentialMemoryAddress_new l ?a = Ok ?a" by auto
      from assms(3) f obtain lo where lo: "lower level = Some lo" "copies_table l ps lo f"
        by (auto simp: copies_lower_def)
      obtain r t where rt: "f ?a s = (r, t)" by fastforce
      from lo(2) [unfolded copies_table_def, rule_format, OF assms(1,2) rt] lo(1) show ?thesis
        using 3 f na
        by (cases r) (auto simp: convert_entry_def sbind_lift sbind_run rt converted_def ret_def)
    qed
  qed
qed

section \<open>All entries of a table\<close>

text \<open>The state of the loop over the entries: the first \<open>length es\<close> entries are converted, their
  raw form is in place, and the pages they and the table own came out of the pool of \<open>s\<close>.\<close>

definition partly_copied ::
    "memory_layout \<Rightarrow> paging_system \<Rightarrow> page_table_level \<Rightarrow> page_table_memory \<Rightarrow> 'z alloc_state_scheme
     \<Rightarrow> page_table_entry list \<Rightarrow> 'z alloc_state_scheme \<Rightarrow> bool" where
  "partly_copied l ps level mem s es t \<longleftrightarrow> evolves l s t
   \<and> (\<forall>x. free_in s x = owned (concat (map entry_pages es)) x + owned (memory_pages mem) x + free_in t x)
   \<and> (\<forall>i < length es. represents (confidential_memory t (entry_word mem i)) (es ! i))
   \<and> (\<forall>e \<in> set es. entry_ok l ps level e \<and> entry_synced (confidential_memory t) e \<and> entry_unshared e)"

lemma entry_pages_owned_le:
  "e \<in> set es \<Longrightarrow> owned (entry_pages e) x \<le> owned (concat (map entry_pages es)) x"
  by (induction es) auto

lemma converted_keeps:
  assumes "partly_copied l ps level mem s es t" and "exclusive (free_in s)"
    and "memory_ok l ps level mem" and "evolves l t u" and "e \<in> set es"
  shows "entry_synced (confidential_memory u) e"
proof (rule entry_synced_frame(1))
  show "entry_ok l ps level e" "entry_synced (confidential_memory t) e"
    using assms(1,5) by (simp_all add: partly_copied_def)
  show "confidential_memory u a = confidential_memory t a" if "owned (entry_pages e) (unat a) \<noteq> 0" for a
  proof -
    have "free_in s (unat a) \<le> 1" using assms(2) by (simp add: exclusive_def)
    moreover have "free_in s (unat a) = owned (concat (map entry_pages es)) (unat a)
        + owned (memory_pages mem) (unat a) + free_in t (unat a)"
      using assms(1) by (simp add: partly_copied_def)
    ultimately have "free_in t (unat a) = 0"
      using that entry_pages_owned_le [OF assms(5), of "unat a"] by linarith
    then show ?thesis using assms(4) by (simp add: evolves_def)
  qed
qed

lemma entry_word_owned:
  assumes "memory_ok l ps level mem" and "i < table_entries ps level"
  shows "0 < owned (memory_pages mem) (unat (entry_word mem i))"
  using entry_word_in_table [OF assms] unfolding owned_pos_iff by blast

lemma copy_entry_Ok:
  assumes inv: "partly_copied l ps level mem s es t" and ex: "exclusive (free_in s)"
    and mem: "memory_ok l ps level mem" and len: "length es < table_entries ps level"
    and conv: "converted l ps level (confidential_memory t (entry_word mem (length es))) t (Ok e, u)"
    and v: "PageTableEntry_encode e = Ok v" "v = 0 \<longleftrightarrow> e = NotValid"
  shows "partly_copied l ps level mem s (es @ [e])
    (if v = 0 then u
     else u\<lparr>confidential_memory := (confidential_memory u)(entry_word mem (length es) := v)\<rparr>)"
    (is "partly_copied l ps level mem s _ ?w")
proof -
  let ?k = "length es" and ?m = "owned (memory_pages mem)" and ?es = "owned (concat (map entry_pages es))"
  have ev: "evolves l t u" and us: "entry_unshared e"
    and e: "entry_ok l ps level e" "entry_synced (confidential_memory u) e"
    "e = NotValid \<Longrightarrow> \<not> is_valid (confidential_memory t (entry_word mem ?k))"
    and own_e: "\<And>x. free_in t x = owned (entry_pages e) x + free_in u x"
    using conv by (auto simp: converted_def)
  have own: "free_in s x = ?es x + ?m x + free_in t x" for x
    using inv by (simp add: partly_copied_def)
  have le1: "?es x + ?m x + free_in t x \<le> 1" for x
    using ex own [of x] unfolding exclusive_def by metis
  have wordk: "0 < ?m (unat (entry_word mem ?k))" by (rule entry_word_owned [OF mem len])
  have table_word: "confidential_memory u (entry_word mem i) = confidential_memory t (entry_word mem i)"
    if "i < table_entries ps level" for i
  proof -
    have "free_in t (unat (entry_word mem i)) = 0"
      using le1 [of "unat (entry_word mem i)"] entry_word_owned [OF mem that] by linarith
    then show ?thesis using ev by (simp add: evolves_def)
  qed
  have w: "free_in ?w = free_in u" "alloc_inv l ?w"
    "\<And>a. a \<noteq> entry_word mem ?k \<Longrightarrow> confidential_memory ?w a = confidential_memory u a"
    using evolves_inv [OF ev] by (auto split: if_splits)
  have off_table: "a \<noteq> entry_word mem ?k" if "owned (entry_pages d) (unat a) \<noteq> 0" "d \<in> set es \<or> d = e" for a d
    using that le1 [of "unat a"] wordk own_e [of "unat a"] entry_pages_owned_le [of d es "unat a"] by auto
  have "evolves l s ?w"
  proof (rule evolves_write)
    show "evolves l s u" using inv ev by (auto simp: partly_copied_def intro: evolves_trans)
    note in_page = entry_word_in_table [OF mem len]
    show "free_in s x \<noteq> 0" if "x \<in> page_range (memory_pages mem ! (?k div 512))" for x
    proof -
      have "0 < ?m x" using that in_page(2) unfolding owned_pos_iff by blast
      then show ?thesis using own [of x] by simp
    qed
    show "confidential_memory ?w a = confidential_memory u a"
      if "unat a \<notin> page_range (memory_pages mem ! (?k div 512))" for a
      using that in_page(1) by (intro w(3)) auto
  qed (use w in auto)
  moreover have "free_in s x = owned (concat (map entry_pages (es @ [e]))) x + ?m x + free_in ?w x" for x
    using own [of x] own_e [of x] w(1) by (simp del: owned_simps(2))
  moreover have "represents (confidential_memory ?w (entry_word mem i)) ((es @ [e]) ! i)"
    if "i < length (es @ [e])" for i
  proof (cases "i = ?k")
    case True
    then show ?thesis
      using e(3) v table_word [OF len] by (auto simp: represents_def)
  next
    case False
    with that have i: "i < ?k" by simp
    then have ne: "entry_word mem i \<noteq> entry_word mem ?k"
      using entry_word_inject [OF mem _ len, of i] len by simp
    have "represents (confidential_memory t (entry_word mem i)) (es ! i)"
      using inv i by (simp add: partly_copied_def)
    with i show ?thesis using w(3) [OF ne] table_word [of i] len by (simp add: nth_append)
  qed
  moreover have "entry_ok l ps level d \<and> entry_synced (confidential_memory ?w) d \<and> entry_unshared d"
    if "d \<in> set (es @ [e])" for d
  proof -
    have d: "entry_ok l ps level d" "entry_synced (confidential_memory u) d" "entry_unshared d"
      using that e us converted_keeps [OF inv ex mem ev, of d] inv by (auto simp: partly_copied_def)
    show ?thesis
      using d that w(3) off_table [of d] by (intro conjI entry_synced_frame(1) [OF d(1,2)]) auto
  qed
  ultimately show ?thesis unfolding partly_copied_def by blast
qed

lemma copy_entry_step:
  assumes inv: "partly_copied l ps level mem s es t" and ex: "exclusive (free_in s)"
    and mem: "memory_ok l ps level mem" and len: "length es < table_entries ps level"
    and sub: "copies_lower l ps level sub"
    and run: "copy_entry l ps level sub mem (of_nat (length es)) t = (r, w)"
  shows "r \<noteq> Panic" and "r = Ok e \<Longrightarrow> partly_copied l ps level mem s (es @ [e]) w"
    and "r = Err err \<Longrightarrow> evolves l t w"
proof -
  let ?raw = "confidential_memory t (entry_word mem (length es))"
  obtain q u where c: "convert_entry l ps level sub ?raw t = (q, u)" by fastforce
  have "free_in t x \<le> free_in s x" for x using inv by (simp add: partly_copied_def)
  then have "exclusive (free_in t)" using ex unfolding exclusive_def by (meson le_trans)
  moreover have "alloc_inv l t" using inv by (auto simp: partly_copied_def evolves_def)
  ultimately have conv: "converted l ps level ?raw t (q, u)"
    using convert_entry_converted [where raw = ?raw and s = t, OF _ _ sub] c by simp
  have unfold: "copy_entry l ps level sub mem (of_nat (length es)) t =
      sbind (convert_entry l ps level sub ?raw) (\<lambda>e.
      sbind (PageTableMemory_set_entry mem (of_nat (length es)) e) (\<lambda>_. ret e)) t"
    by (simp add: copy_entry_def sbind_run PageTableMemory_entry_eq [OF mem len] sbind_lift)
  have "r \<noteq> Panic \<and> (\<forall>e. r = Ok e \<longrightarrow> partly_copied l ps level mem s (es @ [e]) w)
      \<and> (\<forall>err. r = Err err \<longrightarrow> evolves l t w)"
  proof (cases q)
    case (Ok e)
    with conv have "entry_ok l ps level e" by (simp add: converted_def)
    then obtain v where v: "PageTableEntry_encode e = Ok v" "v = 0 \<longleftrightarrow> e = NotValid"
      using encode_entry by blast
    show ?thesis
      using run copy_entry_Ok [OF inv ex mem len conv [unfolded Ok] v] Ok
      unfolding unfold by (auto simp: sbind_run c PageTableMemory_set_entry_eq [OF mem len v(1)] ret_def)
  qed (use run conv in \<open>auto simp: unfold sbind_run c converted_def\<close>)
  then show "r \<noteq> Panic" "r = Ok e \<Longrightarrow> partly_copied l ps level mem s (es @ [e]) w"
    "r = Err err \<Longrightarrow> evolves l t w" by blast+
qed

definition abandoned ::
    "memory_layout \<Rightarrow> page_table_memory \<Rightarrow> 'z alloc_state_scheme \<Rightarrow> 'z alloc_state_scheme \<Rightarrow> bool" where
  "abandoned l mem s t \<longleftrightarrow> evolves l s t \<and> (\<forall>x. free_in t x + owned (memory_pages mem) x \<le> free_in s x)"

lemma entry_pages_ok:
  "entry_ok l ps level e \<Longrightarrow> list_all (page_ok l) (entry_pages e)"
  "table_ok l ps pt \<Longrightarrow> list_all (page_ok l) (table_pages pt)"
  by (induction l ps level e and l ps pt rule: entry_ok_table_ok.induct)
     (auto simp: list_all_iff memory_ok_def)

lemma discard_abandons:
  assumes inv: "partly_copied l ps level mem s es t" and ev: "evolves l t u"
  shows "\<exists>w. discard_entries es u = (Ok (), w) \<and> abandoned l mem s w"
proof -
  have "list_all (page_ok l) (concat (map entry_pages es))"
    using inv entry_pages_ok(1) by (fastforce simp: partly_copied_def list_all_iff)
  then obtain w where w: "discard_entries es u = (Ok (), w)" "releases l (pointer_pages es) u w"
    using discard_entries_releases [OF evolves_inv [OF ev]] by blast
  have le: "free_in u x + owned (pointer_pages es) x + owned (memory_pages mem) x \<le> free_in s x" for x
  proof -
    have "free_in u x \<le> free_in t x" using ev by (simp add: evolves_def)
    moreover have "free_in s x = owned (concat (map entry_pages es)) x + owned (memory_pages mem) x
        + free_in t x" using inv by (simp add: partly_copied_def)
    ultimately show ?thesis using pointer_pages_le [of es x] by linarith
  qed
  have "evolves l s u" using inv ev by (auto simp: partly_copied_def intro: evolves_trans)
  then have "evolves l s w"
    by (rule evolves_release [OF _ w(2)]) (meson le add_leD1)
  moreover have "free_in w x + owned (memory_pages mem) x \<le> free_in s x" for x
    using le [of x] w(2) by (simp add: releases_def)
  ultimately show ?thesis using w(1) by (auto simp: abandoned_def)
qed

lemma collect_entries_result:
  assumes "partly_copied l ps level mem s es t" and ex: "exclusive (free_in s)"
    and mem: "memory_ok l ps level mem" and "length es + d = table_entries ps level"
    and sub: "copies_lower l ps level sub"
    and "collect_entries (copy_entry l ps level sub mem)
           (map of_nat [length es..<table_entries ps level]) es t = (r, u)"
  shows "r \<noteq> Panic \<and> (\<forall>es'. r = Ok es' \<longrightarrow> partly_copied l ps level mem s es' u
      \<and> length es' = table_entries ps level) \<and> (\<forall>err. r = Err err \<longrightarrow> abandoned l mem s u)"
  using assms(1,4,6)
proof (induction d arbitrary: es t)
  case 0
  then show ?case by (auto simp: ret_def)
next
  case (Suc d)
  have len: "length es < table_entries ps level" using Suc.prems(2) by simp
  obtain q v where c: "copy_entry l ps level sub mem (of_nat (length es)) t = (q, v)" by fastforce
  note step = copy_entry_step [OF Suc.prems(1) ex mem len sub c]
  have unfold: "collect_entries (copy_entry l ps level sub mem)
        (map of_nat [length es..<table_entries ps level]) es t =
      sbind (on_error (copy_entry l ps level sub mem (of_nat (length es))) (discard_entries es)) (\<lambda>e.
        collect_entries (copy_entry l ps level sub mem)
          (map of_nat [Suc (length es)..<table_entries ps level]) (es @ [e])) t"
    using len by (simp add: upt_conv_Cons)
  have first: "on_error (copy_entry l ps level sub mem (of_nat (length es))) (discard_entries es) t =
      (case q of Ok e \<Rightarrow> Ok e | Panic \<Rightarrow> Panic
        | Err e \<Rightarrow> (case fst (discard_entries es v) of Panic \<Rightarrow> Panic | _ \<Rightarrow> Err e),
       case q of Err e \<Rightarrow> snd (discard_entries es v) | _ \<Rightarrow> v)"
    unfolding on_error_def c by (auto split: result.splits prod.splits)
  show ?case
  proof (cases q)
    case (Ok e)
    have "collect_entries (copy_entry l ps level sub mem)
        (map of_nat [length (es @ [e])..<table_entries ps level]) (es @ [e]) v = (r, u)"
      using Suc.prems(3) unfolding unfold 
        sbind_run [of "on_error (copy_entry l ps level sub mem (of_nat (length es)))
          (discard_entries es)" t, OF first] Ok by simp
    moreover have "length (es @ [e]) + d = table_entries ps level" using Suc.prems(2) by simp
    ultimately show ?thesis using Suc.IH [OF step(2) [OF Ok]] by blast
  next
    case (Err err)
    then obtain w where "discard_entries es v = (Ok (), w)" "abandoned l mem s w"
      using discard_abandons [OF Suc.prems(1) step(3)] by blast
    with Err show ?thesis
      using Suc.prems(3) unfolding unfold 
        sbind_run [of "on_error (copy_entry l ps level sub mem (of_nat (length es)))
          (discard_entries es)" t, OF first] by auto
  qed (use step(1) in simp)
qed

section \<open>Whole page tables\<close>

lemma copy_one_table_copies:
  assumes sub: "copies_lower l ps level sub"
  shows "copies_table l ps level (copy_one_table l ps level sub)"
  unfolding copies_table_def
proof (intro allI impI)
  fix a and s t :: "'a alloc_state_scheme" and r
  assume inv: "alloc_inv l s" and ex: "exclusive (free_in s)"
    and run: "copy_one_table l ps level sub a s = (r, t)"
  obtain q u where m: "PageTableMemory_copy_from_non_confidential_memory l ps level a s = (q, u)" by fastforce
  note M = memory_copy_result [OF inv m]
  show "evolves l s t \<and> r \<noteq> Panic \<and> (\<forall>pt. r = Ok pt \<longrightarrow>
       table_ok l ps pt \<and> table_level pt = level \<and> synced (confidential_memory t) pt \<and> table_unshared pt
       \<and> (\<forall>x. free_in s x = owned (table_pages pt) x + free_in t x))"
  proof (cases q)
    case (Ok mem)
    have mem: "memory_ok l ps level mem" and own: "\<And>x. free_in s x = owned (memory_pages mem) x + free_in u x"
      using M(3) [OF Ok] by auto
    have start: "partly_copied l ps level mem s [] u"
      using M(1) own by (simp add: partly_copied_def)
    let ?es = "[] :: page_table_entry list"
    obtain c v where coll: "collect_entries (copy_entry l ps level sub mem)
        (map of_nat [length ?es..<table_entries ps level]) ?es u = (c, v)" by (rule prod.exhaust)
    have "length ?es + table_entries ps level = table_entries ps level" by simp
    note C = collect_entries_result [OF start ex mem this sub coll]
    note coll = coll [unfolded list.size]
    have unfold: "copy_one_table l ps level sub a s =
        on_error (sbind (collect_entries (copy_entry l ps level sub mem)
          (map of_nat [0..<table_entries ps level]) []) (\<lambda>es. ret (PageTable level mem es)))
          (PageTableMemory_drop mem) u"
      using mem Ok by (simp add: copy_one_table_def sbind_run m memory_ok_def del: unat_lt_usize)
    show ?thesis
    proof (cases c)
      case (Ok es)
      have "r = Ok (PageTable level mem es)" "t = v"
        using run unfolding unfold on_error_def by (simp_all add: sbind_run coll Ok ret_def)
      moreover have "partly_copied l ps level mem s es v" "length es = table_entries ps level"
        using C Ok by blast+
      ultimately show ?thesis using mem by (simp add: partly_copied_def)
    next
      case (Err err)
      then have ab: "abandoned l mem s v" using C by blast
      have pages: "list_all (page_ok l) (memory_pages mem)"
        using mem by (auto simp: memory_ok_def list_all_iff)
      obtain w where w: "PageTableMemory_drop mem v = (Ok (), w)" "releases l (memory_pages mem) v w"
        using PageTableMemory_drop_releases [OF evolves_inv pages, of s v] ab
        unfolding abandoned_def by blast
      have "evolves l s w"
        by (rule evolves_release [OF _ w(2)]) (use ab in \<open>simp_all add: abandoned_def\<close>)
      moreover have "r = Err err" "t = w"
        using run unfolding unfold on_error_def by (simp_all add: sbind_run coll Err w(1))
      ultimately show ?thesis by simp
    qed (use C in blast)
  qed (use M(1,2) run in \<open>auto simp: copy_one_table_def sbind_run m\<close>)
qed

lemma PageTable_copy_copies:
  "copies_table l ps level (PageTable_copy_from_non_confidential_memory l ps level)"
proof (induction "depth level" arbitrary: level rule: less_induct)
  case less
  show ?case
    unfolding PageTable_copy_from_non_confidential_memory.simps [of l ps level]
    by (rule copy_one_table_copies)
       (use less in \<open>auto simp: copies_lower_def split: option.splits dest: depth_lower\<close>)
qed

lemma levels_depth: "levels ps = Level5"
  by (cases ps) (simp add: levels_def)

end
