(* ===== verification/Page_Table_Share.thy ===== *)
theory Page_Table_Share
  imports Page_Table_Copy
begin

text \<open>
  Mapping a shared page into a page table (\<^verbatim>\<open>PageTable::map_shared_page\<close>): on success the tree and
  the raw entries agree again, the replaced leaf page is wiped and back in the pool, and memory that
  does not belong to the table is untouched; on failure nothing that is owned has changed.
\<close>

section \<open>Updating one entry\<close>

lemma owned_entries_update:
  "i < length es \<Longrightarrow>
     owned (concat (map entry_pages (es[i := e]))) x + owned (entry_pages (es ! i)) x =
     owned (concat (map entry_pages es)) x + owned (entry_pages e) x"
proof (induction es arbitrary: i)
  case (Cons d es)
  then show ?case by (cases i) auto
qed simp

lemma owned_nth_le:
  assumes "i < length es" and "j < length es" and "i \<noteq> j"
  shows "owned (entry_pages (es ! i)) x + owned (entry_pages (es ! j)) x
    \<le> owned (concat (map entry_pages es)) x"
proof -
  have "owned (concat (map entry_pages (es[i := NotValid]))) x + owned (entry_pages (es ! i)) x =
      owned (concat (map entry_pages es)) x"
    using owned_entries_update [OF assms(1), of NotValid x] by simp
  moreover have "owned (entry_pages (es[i := NotValid] ! j)) x
      \<le> owned (concat (map entry_pages (es[i := NotValid]))) x"
    using assms(2) by (intro entry_pages_owned_le) simp
  ultimately show ?thesis using assms(3) by simp
qed

text \<open>\<open>remaps\<close> is the effect of a successful change of a table. What happens to the pages does not depend on
  the raw entries; if they agreed with the tree before, they agree with it afterwards.\<close>

definition remaps ::
    "memory_layout \<Rightarrow> paging_system \<Rightarrow> page_table \<Rightarrow> 'z alloc_state_scheme
     \<Rightarrow> page_table \<Rightarrow> 'z alloc_state_scheme \<Rightarrow> bool" where
  "remaps l ps pt s pt' t \<longleftrightarrow> alloc_inv l t \<and> table_ok l ps pt'
   \<and> (synced (confidential_memory s) pt \<longrightarrow> synced (confidential_memory t) pt')
   \<and> table_level pt' = table_level pt \<and> PageTable_address pt' = PageTable_address pt
   \<and> (\<forall>x. free_in t x + owned (table_pages pt') x = free_in s x + owned (table_pages pt) x)
   \<and> (\<forall>x. owned (table_pages pt') x \<le> owned (table_pages pt) x)
   \<and> (\<forall>a. owned (table_pages pt) (unat a) = 0 \<longrightarrow> confidential_memory t a = confidential_memory s a)"

lemma represents_congr:
  "(\<And>i. i < length es \<Longrightarrow> m (entry_word mem i) = m' (entry_word mem i)) \<Longrightarrow>
   (\<forall>i < length es. represents (m (entry_word mem i)) (es ! i)) =
   (\<forall>i < length es. represents (m' (entry_word mem i)) (es ! i))"
  by auto

lemma replace_entry_ok:
  "table_ok l ps (PageTable level mem es) \<Longrightarrow> entry_ok l ps level e
     \<Longrightarrow> table_ok l ps (PageTable level mem (es[i := e]))"
  by (auto dest: set_update_subset_insert [THEN subsetD])

lemma replace_entry_synced:
  assumes ok: "table_ok l ps (PageTable level mem es)" and sync: "synced m (PageTable level mem es)"
    and ex: "\<And>x. owned (table_pages (PageTable level mem es)) x \<le> 1"
    and i: "i < length es" and e: "entry_synced m' e"
    and rep: "represents (m' (entry_word mem i)) e"
    and frame: "\<And>a. a \<noteq> entry_word mem i \<Longrightarrow> owned (entry_pages (es ! i)) (unat a) = 0 \<Longrightarrow> m' a = m a"
  shows "synced m' (PageTable level mem (es[i := e]))"
proof -
  have mem: "memory_ok l ps level mem" and len: "length es = table_entries ps level" using ok by simp_all
  let ?all = "owned (concat (map entry_pages es))" and ?m = "owned (memory_pages mem)"
  have le1: "?all x + ?m x \<le> 1" for x using ex [of x] by simp
  have word: "0 < ?m (unat (entry_word mem j))" if "j < length es" for j
    using entry_word_owned [OF mem] that len by simp
  have others: "m' (entry_word mem j) = m (entry_word mem j)" if "j < length es" "j \<noteq> i" for j
  proof (rule frame)
    show "entry_word mem j \<noteq> entry_word mem i"
      using entry_word_inject [OF mem, of j i] that i len by simp
    show "owned (entry_pages (es ! i)) (unat (entry_word mem j)) = 0"
      using word [OF that(1)] le1 [of "unat (entry_word mem j)"]
        entry_pages_owned_le [of "es ! i" es "unat (entry_word mem j)"] i by simp
  qed
  have "represents (m' (entry_word mem j)) (es[i := e] ! j)" if "j < length (es[i := e])" for j
    using that others [of j] rep sync by (cases "j = i") auto
  moreover have "entry_synced m' d" if d: "d \<in> set (es[i := e])" for d
  proof -
    from d obtain j where j: "j < length es" "d = es[i := e] ! j" by (auto simp: in_set_conv_nth)
    show ?thesis
    proof (cases "j = i")
      case False
      then have dj: "d = es ! j" using j by simp
      then have "entry_ok l ps level d" "entry_synced m d" using ok sync j(1) by auto
      then show ?thesis
      proof (rule entry_synced_frame(1))
        fix a :: usize assume a: "owned (entry_pages d) (unat a) \<noteq> 0"
        show "m' a = m a"
        proof (rule frame)
          show "a \<noteq> entry_word mem i"
            using a word [OF i] le1 [of "unat a"] entry_pages_owned_le [of "es ! j" es "unat a"] j(1) dj
            by auto
          show "owned (entry_pages (es ! i)) (unat a) = 0"
            using a dj owned_nth_le [OF i j(1), of "unat a"] False le1 [of "unat a"] by auto
        qed
      qed
    qed (use j e i in simp)
  qed
  ultimately show "synced m' (PageTable level mem (es[i := e]))" by simp
qed

lemma set_entry_remaps:
  assumes ok: "table_ok l ps (PageTable level mem es)" and inv: "alloc_inv l s"
    and ex: "\<And>x. owned (table_pages (PageTable level mem es)) x \<le> 1"
    and i: "unat index < length es" and leaf: "\<And>pt c. es ! unat index \<noteq> Pointer pt c"
    and e: "entry_ok l ps level e" "entry_pages e = []" "e = Shared sp c perm"
  shows "\<exists>t. PageTable_set_entry (PageTable level mem es) index e s =
      (Ok (PageTable level mem (es[unat index := e])), t)
    \<and> remaps l ps (PageTable level mem es) s (PageTable level mem (es[unat index := e])) t"
proof -
  let ?i = "unat index" and ?w = "entry_word mem (unat index)"
  have mem: "memory_ok l ps level mem" and len: "length es = table_entries ps level" using ok by simp_all
  obtain v where v: "PageTableEntry_encode e = Ok v" "v \<noteq> 0" using encode_entry [OF e(1)] e(3) by blast
  let ?s = "s\<lparr>confidential_memory := (confidential_memory s)(?w := v)\<rparr>"
  have set: "PageTableMemory_set_entry mem index e s = (Ok (), ?s)"
    using PageTableMemory_set_entry_eq [OF mem _ v(1), of ?i s] i len v(2) by simp
  have old: "entry_ok l ps level (es ! ?i)" using ok i by simp
  have "\<exists>t. (case es ! ?i of Leaf p _ _ \<Rightarrow> release_leaf p | Pointer old _ \<Rightarrow> drop_table old | _ \<Rightarrow> ret ()) ?s
      = (Ok (), t) \<and> releases l (entry_pages (es ! ?i)) ?s t"
    using old leaf release_leaf_releases [of l ?s] inv
    by (cases "es ! ?i") (auto simp: ret_def releases_Nil)
  then obtain t where rel: "(case es ! ?i of Leaf p _ _ \<Rightarrow> release_leaf p | Pointer old _ \<Rightarrow> drop_table old
      | _ \<Rightarrow> ret ()) ?s = (Ok (), t)" and t: "releases l (entry_pages (es ! ?i)) ?s t" by blast
  have run: "PageTable_set_entry (PageTable level mem es) index e s =
      (Ok (PageTable level mem (es[?i := e])), t)"
    using i by (simp add: PageTable_set_entry_def sbind_run set vec_index_def sbind_lift rel ret_def)
  have mt: "confidential_memory t a = (if a = ?w then v else confidential_memory s a)"
    if "owned (entry_pages (es ! ?i)) (unat a) = 0" for a
    using t that by (simp add: releases_def)
  have w_off: "owned (entry_pages (es ! ?i)) (unat ?w) = 0"
    using entry_word_owned [OF mem, of ?i] i len ex [of "unat ?w"]
      entry_pages_owned_le [of "es ! ?i" es "unat ?w"] by simp
  have e_sync: "entry_synced m e" for m by (simp add: e(3))
  have rep: "represents (confidential_memory t ?w) e"
    using mt [OF w_off] v e(3) by (simp add: represents_def)
  have frame: "confidential_memory t a = confidential_memory s a"
    if "a \<noteq> ?w" "owned (entry_pages (es ! ?i)) (unat a) = 0" for a using mt [OF that(2)] that(1) by simp
  note replace_entry_ok [OF ok e(1)]
  moreover have "synced (confidential_memory t) (PageTable level mem (es[?i := e]))"
    if "synced (confidential_memory s) (PageTable level mem es)"
    by (rule replace_entry_synced [OF ok that ex i e_sync rep frame])
  moreover have "free_in t x + owned (table_pages (PageTable level mem (es[?i := e]))) x =
      free_in s x + owned (table_pages (PageTable level mem es)) x" for x
    using t owned_entries_update [OF i, of e x] e(2) by (simp add: releases_def)
  moreover have "owned (table_pages (PageTable level mem (es[?i := e]))) x
      \<le> owned (table_pages (PageTable level mem es)) x" for x
    using owned_entries_update [OF i, of e x] e(2) by simp
  moreover have "confidential_memory t a = confidential_memory s a"
    if "owned (table_pages (PageTable level mem es)) (unat a) = 0" for a
  proof -
    have "owned (entry_pages (es ! ?i)) (unat a) = 0"
      using that entry_pages_owned_le [of "es ! ?i" es "unat a"] i by simp
    moreover have "a \<noteq> ?w" using that entry_word_owned [OF mem, of ?i] i len by auto
    ultimately show ?thesis using mt [of a] by simp
  qed
  ultimately show ?thesis
    using run releases_inv [OF t] by (auto simp: remaps_def)
qed

section \<open>Mapping a shared page\<close>

text \<open>The entry an address leads to, with the level at which the walk ends, for a given numbering
  of the entries.\<close>

function walk :: "(page_table_level \<Rightarrow> nat) \<Rightarrow> page_table \<Rightarrow> (page_table_level \<times> page_table_entry) option" where
  "walk index (PageTable level mem es) =
     (if index level < length es then
        (case es ! index level of
           Pointer pt _ \<Rightarrow> walk index pt
         | e \<Rightarrow> Some (level, e))
      else None)"
  by pat_completeness auto
termination
  by (relation "measure (\<lambda>(_, pt). size pt)") (auto simp: nth_entry_size)

declare walk.simps [simp del]

definition vpn_index :: "paging_system \<Rightarrow> usize \<Rightarrow> page_table_level \<Rightarrow> nat" where
  "vpn_index ps address level = unat (vpn ps address level)"

definition failed :: "memory_layout \<Rightarrow> 'z alloc_state_scheme \<Rightarrow> 'z alloc_state_scheme \<Rightarrow> bool" where
  "failed l s t \<longleftrightarrow> alloc_inv l t \<and> (\<forall>x. free_in t x = free_in s x)
   \<and> (\<forall>a. free_in s (unat a) = 0 \<longrightarrow> confidential_memory t a = confidential_memory s a)"

lemma traverse_zeroize: "traverse zeroize ps s = traverse deallocate ps s"
proof -
  have "zeroize = (deallocate :: page \<Rightarrow> ('a mem_state_scheme, error, page) st)"
    by (rule ext) (simp add: zeroize_def deallocate_def)
  then show ?thesis by simp
qed

lemma empty_table_fails:
  assumes "alloc_inv l s"
  shows "\<exists>e t. sbind (PageTableMemory_empty l ps level) (\<lambda>next_memory.
      sbind (on_error (PageTable_map_shared_page l ps sp (PageTable level next_memory []))
               (drop_table (PageTable level next_memory []))) g) s = (Err e, t) \<and> failed l s t"
proof -
  obtain q u where acq: "acquire_continous_pages l (unat (configuration_pages ps level)) Size4KiB s = (q, u)"
    by fastforce
  note A = acquire_evolves [OF assms config_pages_pos acq]
  show ?thesis
  proof (cases q)
    case (Ok pages)
    have pages: "list_all (page_ok l) pages" using A(6) [OF Ok] by (auto simp: list_all_iff)
    obtain m where m: "traverse deallocate pages u = (Ok pages, u\<lparr>confidential_memory := m\<rparr>)"
      "\<And>a. owned pages (unat a) = 0 \<Longrightarrow> m a = confidential_memory u a"
      using traverse_deallocate [OF pages] by blast
    let ?u = "u\<lparr>confidential_memory := m\<rparr>" and ?mem = "new_memory ps level pages"
    have empty: "PageTableMemory_empty l ps level s = (Ok ?mem, ?u)"
      using Ok by (simp add: PageTableMemory_empty_def sbind_run acq traverse_zeroize m(1) ret_def)
    have map: "PageTable_map_shared_page l ps sp (PageTable level ?mem []) ?u =
        (Err PageTableConfigurationError, ?u)"
      by (simp add: PageTable_map_shared_page.simps lift_def)
    have "alloc_inv l ?u" using evolves_inv [OF A(1)] by simp
    then obtain t where t: "drop_table (PageTable level ?mem []) ?u = (Ok (), t)" "releases l pages ?u t"
      using PageTableMemory_drop_releases [of l ?u ?mem] pages
      by (auto simp: sbind_run ret_def new_memory_def)
    have "failed l s t"
      unfolding failed_def
    proof (intro conjI allI impI)
      show "alloc_inv l t" by (rule releases_inv [OF t(2)])
      show "free_in t x = free_in s x" for x using t(2) A(4) [OF Ok, of x] by (simp add: releases_def)
      show "confidential_memory t a = confidential_memory s a" if "free_in s (unat a) = 0" for a
      proof -
        have "owned pages (unat a) = 0" using A(4) [OF Ok, of "unat a"] that by simp
        then show ?thesis using t(2) m(2) [of a] A(2) by (simp add: releases_def)
      qed
    qed
    then show ?thesis by (simp add: sbind_run empty on_error_run map t(1) del: drop_table.simps)
  next
    case (Err e)
    have "failed l s u"
      using A(2) evolves_inv [OF A(1)] allocator.acq_err [OF assms config_pages_pos acq [unfolded Err]]
      by (auto simp: failed_def)
    then show ?thesis using Err by (simp add: PageTableMemory_empty_def sbind_run acq)
  qed (use A(3) in simp)
qed

definition mapped ::
    "memory_layout \<Rightarrow> paging_system \<Rightarrow> shared_page \<Rightarrow> page_table \<Rightarrow> 'z alloc_state_scheme
     \<Rightarrow> page_table res \<times> 'z alloc_state_scheme \<Rightarrow> bool" where
  "mapped l ps sp pt s = (\<lambda>(r, t). case r of
      Ok pt' \<Rightarrow> remaps l ps pt s pt' t
        \<and> (\<exists>level. walk (vpn_index ps (confidential_vm_virtual_address sp)) pt' = Some (level, shared_entry sp))
    | Err e \<Rightarrow> failed l s t
    | Panic \<Rightarrow> False)"

lemma shared_entry_ok: "shared_ok l sp \<Longrightarrow> entry_ok l ps level (shared_entry sp)"
  by (simp add: shared_entry_def shared_page_permission_def has_permission_def)

lemma set_shared_mapped:
  assumes "table_ok l ps (PageTable level mem es)" and "alloc_inv l s"
    and "\<And>x. free_in s x + owned (table_pages (PageTable level mem es)) x \<le> 1"
    and "shared_ok l sp" and "vpn_index ps (confidential_vm_virtual_address sp) level < length es"
    and "\<And>pt c. es ! vpn_index ps (confidential_vm_virtual_address sp) level \<noteq> Pointer pt c"
  shows "mapped l ps sp (PageTable level mem es) s
    (PageTable_set_entry (PageTable level mem es)
       (vpn ps (confidential_vm_virtual_address sp) level) (shared_entry sp) s)"
proof -
  let ?v = "vpn ps (confidential_vm_virtual_address sp) level"
  have ex: "owned (table_pages (PageTable level mem es)) x \<le> 1" for x
    using assms(3) [of x] by linarith
  have i: "unat ?v < length es" and leaf: "\<And>pt c. es ! unat ?v \<noteq> Pointer pt c"
    using assms(5,6) by (simp_all add: vpn_index_def)
  obtain t where "PageTable_set_entry (PageTable level mem es) ?v (shared_entry sp) s =
      (Ok (PageTable level mem (es[unat ?v := shared_entry sp])), t)"
    "remaps l ps (PageTable level mem es) s (PageTable level mem (es[unat ?v := shared_entry sp])) t"
    using set_entry_remaps [OF assms(1,2) ex i leaf shared_entry_ok [OF assms(4)] _ shared_entry_def]
    by (auto simp: shared_entry_def)
  moreover have "walk (vpn_index ps (confidential_vm_virtual_address sp))
      (PageTable level mem (es[unat ?v := shared_entry sp])) = Some (level, shared_entry sp)"
    using i by (simp add: walk.simps vpn_index_def shared_entry_def)
  ultimately show ?thesis by (auto simp: mapped_def)
qed

lemma pointer_remaps:
  assumes ok: "table_ok l ps (PageTable level mem es)"
    and ex: "\<And>x. owned (table_pages (PageTable level mem es)) x \<le> 1"
    and i: "i < length es" and p: "es ! i = Pointer pt c" and sub: "remaps l ps pt s pt' t"
  shows "remaps l ps (PageTable level mem es) s (PageTable level mem (es[i := Pointer pt' c])) t"
proof -
  have mem: "memory_ok l ps level mem" and len: "length es = table_entries ps level"
    and old: "entry_ok l ps level (Pointer pt c)" using ok i p [symmetric] by auto
  note S = sub [unfolded remaps_def]
  let ?w = "entry_word mem i"
  have pages: "owned (table_pages pt) x \<le> owned (concat (map entry_pages es)) x" for x
    using entry_pages_owned_le [OF nth_mem [OF i], of x] p by simp
  have off: "owned (table_pages pt) (unat ?w) = 0"
    using entry_word_owned [OF mem, of i] i len ex [of "unat ?w"] pages [of "unat ?w"] by simp
  have e: "entry_ok l ps level (Pointer pt' c)" using S old by auto
  have frame: "confidential_memory t a = confidential_memory s a"
    if "a \<noteq> ?w" "owned (entry_pages (es ! i)) (unat a) = 0" for a using S that p by simp
  have "synced (confidential_memory t) (PageTable level mem (es[i := Pointer pt' c]))"
    if sync: "synced (confidential_memory s) (PageTable level mem es)"
  proof (rule replace_entry_synced [OF ok sync ex i _ _ frame])
    have "synced (confidential_memory s) pt"
      using sync i p nth_mem [OF i] by (metis entry_synced.simps(1) synced.simps)
    then show "entry_synced (confidential_memory t) (Pointer pt' c)" using S by simp
    have "represents (confidential_memory s ?w) (Pointer pt c)"
      using sync i p by (metis synced.simps)
    then show "represents (confidential_memory t ?w) (Pointer pt' c)"
      using S off by (simp add: represents_def PageTableEntry_encode_def)
  qed
  moreover have "free_in t x + owned (table_pages (PageTable level mem (es[i := Pointer pt' c]))) x =
      free_in s x + owned (table_pages (PageTable level mem es)) x" for x
  proof -
    have "free_in t x + owned (table_pages pt') x = free_in s x + owned (table_pages pt) x" using S by simp
    then show ?thesis using owned_entries_update [OF i, of "Pointer pt' c" x] p by simp
  qed
  moreover have "owned (table_pages (PageTable level mem (es[i := Pointer pt' c]))) x
      \<le> owned (table_pages (PageTable level mem es)) x" for x
  proof -
    have "owned (table_pages pt') x \<le> owned (table_pages pt) x" using S by simp
    then show ?thesis using owned_entries_update [OF i, of "Pointer pt' c" x] p by simp
  qed
  moreover have "confidential_memory t a = confidential_memory s a"
    if "owned (table_pages (PageTable level mem es)) (unat a) = 0" for a
  proof -
    have "owned (table_pages pt) (unat a) = 0" using that pages [of "unat a"] by simp
    then show ?thesis using S by simp
  qed
  ultimately show ?thesis using replace_entry_ok [OF ok e] S by (auto simp: remaps_def)
qed

lemma map_shared_page_mapped:
  assumes "table_ok l ps pt" and "alloc_inv l s"
    and "\<And>x. free_in s x + owned (table_pages pt) x \<le> 1" and "shared_ok l sp"
  shows "mapped l ps sp pt s (PageTable_map_shared_page l ps sp pt s)"
  using assms
proof (induction pt arbitrary: s rule: measure_induct_rule [of size])
  case (less pt)
  obtain level mem es where pt: "pt = PageTable level mem es" by (cases pt)
  let ?i = "vpn_index ps (confidential_vm_virtual_address sp) level"
  have len: "length es = table_entries ps level" and es: "\<And>e. e \<in> set es \<Longrightarrow> entry_ok l ps level e"
    using less.prems(1) pt by auto
  note unfold = PageTable_map_shared_page.simps [of l ps sp level mem es, unfolded Let_def, folded vpn_index_def]
  note set = set_shared_mapped [OF less.prems [unfolded pt]]
  have failed_refl: "failed l s s" using less.prems(2) by (simp add: failed_def)
  show ?case
  proof (cases "?i < length es")
    case False
    then show ?thesis
      unfolding pt unfold by (simp add: lift_def mapped_def failed_refl)
  next
    case True
    show ?thesis
    proof (cases "es ! ?i")
      case (Pointer npt c)
      have n: "table_ok l ps npt" using es [OF nth_mem [OF True]] Pointer by simp
      have pages: "owned (table_pages npt) x \<le> owned (table_pages pt) x" for x
        using entry_pages_owned_le [OF nth_mem [OF True], of x] Pointer pt by simp
      have "mapped l ps sp npt s (PageTable_map_shared_page l ps sp npt s)"
      proof (rule less.IH)
        show "size npt < size pt" using nth_entry_size [OF Pointer True] pt by simp
        show "free_in s x + owned (table_pages npt) x \<le> 1" for x
          using less.prems(3) [of x] pages [of x] by linarith
      qed (use n less.prems in auto)
      then obtain r t where rt: "PageTable_map_shared_page l ps sp npt s = (r, t)"
        and m: "mapped l ps sp npt s (r, t)" by (metis surj_pair)
      have ex: "owned (table_pages (PageTable level mem es)) x \<le> 1" for x
        using less.prems(3) [of x] unfolding pt by linarith
      show ?thesis
      proof (cases r)
        case (Ok npt')
        have "remaps l ps pt s (PageTable level mem (es[?i := Pointer npt' c])) t"
          unfolding pt using m Ok less.prems(1)
          by (intro pointer_remaps [OF _ ex True Pointer]) (auto simp: mapped_def pt)
        moreover have "\<exists>lv. walk (vpn_index ps (confidential_vm_virtual_address sp))
            (PageTable level mem (es[?i := Pointer npt' c])) = Some (lv, shared_entry sp)"
          using m Ok True by (simp add: mapped_def walk.simps [of _ level])
        ultimately show ?thesis
          unfolding pt unfold using True Pointer Ok by (simp add: sbind_run rt ret_def mapped_def pt [symmetric])
      qed (use True Pointer m in \<open>simp_all add: pt unfold sbind_run rt mapped_def\<close>)
    next
      case (Leaf p c perm)
      then show ?thesis unfolding pt unfold using set True by simp
    next
      case (Shared sp' c perm)
      then show ?thesis unfolding pt unfold using set True by simp
    next
      case NotValid
      show ?thesis
      proof (cases "level = Level1")
        case True
        then show ?thesis unfolding pt unfold using set \<open>?i < length es\<close> NotValid by simp
      next
        case False
        then show ?thesis
          unfolding pt unfold using \<open>?i < length es\<close> NotValid
            empty_table_fails [OF less.prems(2), of ps level sp "\<lambda>next_page_table.
              PageTable_set_entry (PageTable level mem es)
                (vpn ps (confidential_vm_virtual_address sp) level)
                (Pointer next_page_table PageTableConfiguration_empty)"]
          by (auto simp: mapped_def)
      qed
    qed
  qed
qed

end
