(* ===== verification/Isolation.thy ===== *)
theory Isolation
  imports Page_Table_Share
begin

text \<open>
  What the hardware makes of the page tables the monitor writes.

  \<open>mmu_walk\<close> is the G-stage address translation of the RISC-V privileged specification for Sv57x4:
  starting from the table at \<open>base\<close> it reads raw entries from memory, faults on an invalid entry, on
  a misaligned superpage and on a pointer at the last level. It is the specification against which
  the monitor's trees are related (\<open>mmu_walk_refines\<close>); the monitor itself never runs it.
\<close>

section \<open>Address translation by the hardware\<close>

primrec span_bits :: "page_table_level \<Rightarrow> nat" where
  "span_bits Level5 = 48"
| "span_bits Level4 = 39"
| "span_bits Level3 = 30"
| "span_bits Level2 = 21"
| "span_bits Level1 = 12"

definition hw_index :: "usize \<Rightarrow> page_table_level \<Rightarrow> nat" where
  "hw_index gpa level =
     unat gpa div 2 ^ span_bits level mod (if level = Level5 then 2048 else 512)"

definition leaf_target :: "page_table_level \<Rightarrow> usize \<Rightarrow> usize \<Rightarrow> usize option" where
  "leaf_target level target gpa =
     (if unat target mod 2 ^ span_bits level = 0
      then Some (target + of_nat (unat gpa mod 2 ^ span_bits level)) else None)"

function mmu_walk :: "(usize \<Rightarrow> usize) \<Rightarrow> usize \<Rightarrow> page_table_level \<Rightarrow> usize \<Rightarrow> usize option" where
  "mmu_walk m gpa level base =
     (let raw = m (base + of_nat (8 * hw_index gpa level))
      in if \<not> is_valid raw then None
         else if is_leaf raw then leaf_target level (PageTableAddress_decode raw) gpa
         else case lower level of
                None \<Rightarrow> None
              | Some lower_level \<Rightarrow> mmu_walk m gpa lower_level (PageTableAddress_decode raw))"
  by pat_completeness auto
termination
  by (relation "measure (\<lambda>(_, _, level, _). depth level)") (auto dest: depth_lower)

declare mmu_walk.simps [simp del]

lemma hw_index_bound: "hw_index gpa level < table_entries ps level"
  by (simp add: hw_index_def table_geometry)

section \<open>The hardware follows the tree\<close>

definition entry_target :: "page_table_entry \<Rightarrow> usize option" where
  "entry_target e = (case e of
      Leaf p _ _ \<Rightarrow> Some (page_address p)
    | Shared sp _ _ \<Rightarrow> Some (hypervisor_address sp AND NOT (mask 12))
    | _ \<Rightarrow> None)"

lemma entry_word_base:
  assumes "memory_ok l ps level mem" and "i < table_entries ps level"
  shows "entry_word mem i = page_address (memory_pages mem ! 0) + of_nat (8 * i)"
proof -
  have i: "8 * i < 2 ^ 64"
    using assms(2) by (simp add: table_geometry split: if_splits)
  have eq: "unat (entry_word mem i) = unat (page_address (memory_pages mem ! 0)) + 8 * i"
    by (rule unat_entry_word [OF assms])
  moreover have "unat (of_nat (8 * i) :: usize) = 8 * i" using i by (simp add: unat_of_nat del: of_nat_mult)
  ultimately show ?thesis
    using unat_lt_usize [of "entry_word mem i"]
    by (simp add: word_unat_eq_iff unat_add_usize del: of_nat_mult unat_lt_usize)
qed

lemma represented_leaf:
  assumes "entry_ok l ps level e" and "represents raw e" and "entry_target e = Some a"
  shows "is_valid raw" and "is_leaf raw" and "PageTableAddress_decode raw = a"
proof -
  have "\<exists>b c p. raw = pte b c p \<and> has_permission p \<and> a = b AND NOT (mask 12)"
  proof (cases e)
    case (Leaf p c perm)
    then have "unat (page_address p) mod 4096 = 0" "has_permission perm"
      using assms(1) page_ok_aligned by auto
    moreover from this(1) have "page_address p AND NOT (mask 12) = page_address p"
      using pte_decode(5) [of "page_address p" c perm] pte_any_address(3) [of "page_address p" c perm] by simp
    ultimately show ?thesis
      using Leaf assms(2,3)
      by (intro exI [of _ "page_address p"] exI [of _ c] exI [of _ perm])
         (simp add: represents_def PageTableEntry_encode_def entry_target_def pte_def start_address_def)
  next
    case (Shared sp c perm)
    then show ?thesis
      using assms
      by (intro exI [of _ "hypervisor_address sp"] exI [of _ c] exI [of _ perm])
         (simp add: represents_def PageTableEntry_encode_def entry_target_def pte_def
           non_confidential_address_def)
  qed (use assms(3) in \<open>simp_all add: entry_target_def\<close>)
  then show "is_valid raw" "is_leaf raw" "PageTableAddress_decode raw = a"
    using pte_any_address by (auto simp: has_permission_def)
qed

lemma represented_pointer:
  assumes "table_ok l ps pt" and "represents raw (Pointer pt c)" and "PageTable_address pt = Ok base"
  shows "is_valid raw" and "\<not> is_leaf raw" and "PageTableAddress_decode raw = base"
proof -
  obtain p where "PageTable_address pt = Ok (page_address p)" "page_ok l p"
    using table_address [OF assms(1)] by metis
  then have al: "unat base mod 4096 = 0" using assms(3) page_ok_aligned by auto
  have "raw = pte base c no_permission"
    using assms(2,3) by (simp add: represents_def PageTableEntry_encode_def pte_def permission_encode_none)
  then show "is_valid raw" "\<not> is_leaf raw" "PageTableAddress_decode raw = base"
    using pte_decode [OF al, of c no_permission] by (simp_all add: no_permission_def)
qed

lemma mmu_walk_tree:
  assumes "table_ok l ps pt" and "synced m pt" and "PageTable_address pt = Ok base"
  shows "mmu_walk m gpa (table_level pt) base =
    (case walk (hw_index gpa) pt of
       None \<Rightarrow> None
     | Some (level, e) \<Rightarrow> (case entry_target e of
         None \<Rightarrow> None | Some target \<Rightarrow> leaf_target level target gpa))"
  using assms
proof (induction pt arbitrary: base rule: measure_induct_rule [of size])
  case (less pt)
  obtain level mem es where pt: "pt = PageTable level mem es" by (cases pt)
  let ?i = "hw_index gpa level"
  have mem: "memory_ok l ps level mem" and len: "length es = table_entries ps level"
    using less.prems(1) pt by simp_all
  have i: "?i < length es" using hw_index_bound [of gpa level ps] len by simp
  have ok: "entry_ok l ps level (es ! ?i)" using less.prems(1) pt nth_mem [OF i] by simp
  have base: "base = page_address (memory_pages mem ! 0)"
    using less.prems(3) pt
    by (auto simp: PageTableMemory_start_address_def vec_index_def start_address_def split: if_splits)
  let ?raw = "m (base + of_nat (8 * ?i))"
  have "represents (m (entry_word mem ?i)) (es ! ?i)" using less.prems(2) pt i by simp
  then have rep: "represents ?raw (es ! ?i)"
    unfolding entry_word_base [OF mem i [unfolded len]] base .
  note step = mmu_walk.simps [of m gpa level base, unfolded Let_def]
  show ?case
  proof (cases "es ! ?i")
    case (Pointer npt c)
    have "entry_synced m (es ! ?i)" using less.prems(2) pt nth_mem [OF i] by simp
    then have n: "table_ok l ps npt" "lower level = Some (table_level npt)" "synced m npt"
      using ok Pointer by simp_all
    obtain nbase where nb: "PageTable_address npt = Ok nbase" using table_address [OF n(1)] by metis
    note R = represented_pointer [OF n(1) rep [unfolded Pointer] nb]
    have "size npt < size pt" using nth_entry_size [OF Pointer i] pt by simp
    from less.IH [OF this n(1,3) nb] show ?thesis
      using R n(2) Pointer i by (simp add: pt step walk.simps [of _ level])
  next
    case (Leaf p c perm)
    note R = represented_leaf [OF ok rep, of "page_address p"]
    show ?thesis using R Leaf i by (simp add: pt step walk.simps entry_target_def)
  next
    case (Shared sp c perm)
    note R = represented_leaf [OF ok rep, of "hypervisor_address sp AND NOT (mask 12)"]
    show ?thesis using R Shared i by (simp add: pt step walk.simps entry_target_def)
  next
    case NotValid
    then show ?thesis using rep i by (simp add: pt step walk.simps represents_def entry_target_def)
  qed
qed

section \<open>Where a walk can end\<close>

fun entry_leaf_pages :: "page_table_entry \<Rightarrow> page list"
and leaf_pages :: "page_table \<Rightarrow> page list" where
  "entry_leaf_pages (Pointer pt _) = leaf_pages pt"
| "entry_leaf_pages (Leaf p _ _) = [p]"
| "entry_leaf_pages (Shared _ _ _) = []"
| "entry_leaf_pages NotValid = []"
| "leaf_pages (PageTable _ _ es) = concat (map entry_leaf_pages es)"

lemma walk_entry:
  assumes "table_ok l ps pt" and "walk index pt = Some (level, e)"
  shows "entry_ok l ps level e \<and> (\<forall>pt c. e \<noteq> Pointer pt c)
    \<and> set (entry_leaf_pages e) \<subseteq> set (leaf_pages pt) \<and> (table_unshared pt \<longrightarrow> entry_unshared e)"
  using assms
proof (induction index pt rule: walk.induct)
  case (1 index lv mem es)
  then have i: "index lv < length es" by (auto simp: walk.simps split: if_splits)
  have sub: "set (entry_leaf_pages (es ! index lv)) \<subseteq> set (leaf_pages (PageTable lv mem es))"
    using nth_mem [OF i] by auto
  have ok: "entry_ok l ps lv (es ! index lv)" using 1(2) nth_mem [OF i] by simp
  have us: "table_unshared (PageTable lv mem es) \<Longrightarrow> entry_unshared (es ! index lv)" using nth_mem [OF i] by simp
  show ?case
  proof (cases "es ! index lv")
    case (Pointer npt c)
    then have w: "walk index npt = Some (level, e)" using 1(3) i by (simp add: walk.simps [of _ lv])
    have "table_ok l ps npt" using ok Pointer by simp
    from 1(1) [OF i Pointer this w] show ?thesis using sub us Pointer by auto
  qed (use 1(3) i ok sub us in \<open>auto simp: walk.simps\<close>)
qed

lemma span_page_size: "level \<noteq> Level5 \<Longrightarrow> 2 ^ span_bits level = bytes (level_page_size ps level)"
  by (cases level) (simp_all add: level_page_size_def)

lemma leaf_target_unat:
  assumes "leaf_target level target gpa = Some pa"
    and "unat target + 2 ^ span_bits level < 2 ^ 64"
  shows "unat target \<le> unat pa \<and> unat pa < unat target + 2 ^ span_bits level"
proof -
  have "2 ^ span_bits level < (2 :: nat) ^ 64" by (cases level) simp_all
  moreover have lt: "unat gpa mod 2 ^ span_bits level < 2 ^ span_bits level" by simp
  ultimately have "unat gpa mod 2 ^ span_bits level < 2 ^ 64" by (rule less_trans [rotated])
  then have u: "unat (of_nat (unat gpa mod 2 ^ span_bits level) :: usize) = unat gpa mod 2 ^ span_bits level"
    by (simp add: unat_of_nat)
  have "unat target + unat (of_nat (unat gpa mod 2 ^ span_bits level) :: usize) < 2 ^ 64"
    using lt assms(2) unfolding u by linarith
  from unat_add_usize [OF this] show ?thesis
    using assms(1) lt unfolding u leaf_target_def by (auto split: if_splits)
qed

definition small_confidential_memory :: "memory_layout \<Rightarrow> bool" where
  "small_confidential_memory l \<longleftrightarrow>
     unat (confidential_memory_end l) - unat (confidential_memory_start l) < bytes Size128TiB"

lemma small_memory_level:
  assumes "small_confidential_memory l" and "page_ok l p" and "page_size p = level_page_size ps level"
  shows "level \<noteq> Level5"
proof
  assume "level = Level5"
  then have "bytes (page_size p) = bytes Size128TiB" using assms(3) by (simp add: level_page_size_def)
  with assms(1,2) show False
    unfolding small_confidential_memory_def page_ok_def word_le_nat_alt by linarith
qed

lemma leaf_reached:
  assumes "small_confidential_memory l" and "entry_ok l ps level (Leaf p c perm)"
    and "leaf_target level (page_address p) gpa = Some pa"
  shows "unat pa \<in> page_range p"
proof -
  have p: "page_ok l p" "page_size p = level_page_size ps level" using assms(2) by simp_all
  have span: "2 ^ span_bits level = bytes (page_size p)"
    using span_page_size [OF small_memory_level [OF assms(1) p]] p(2) by simp
  from leaf_target_unat [OF assms(3)] show ?thesis
    using page_ok_no_overflow [OF p(1)] unfolding span by (simp add: page_range_def)
qed

lemma shared_reached:
  assumes "shared_ok l sp" and "leaf_target Level1 (hypervisor_address sp AND NOT (mask 12)) gpa = Some pa"
  shows "unat pa < unat (non_confidential_memory_end l)"
proof -
  let ?h = "hypervisor_address sp" and ?t = "hypervisor_address sp AND NOT (mask 12)"
  have le: "unat ?t \<le> unat ?h"
  proof -
    have "?t \<le> ?h" by (rule word_and_le2)
    then show ?thesis by (simp add: word_le_nat_alt)
  qed
  have h: "unat ?h + 4096 \<le> unat (non_confidential_memory_end l)"
    using assms(1) bytes_lower [of "shared_page_size sp"] unfolding shared_ok_def by linarith
  have "unat ?t + 2 ^ span_bits Level1 < 2 ^ 64"
    using le h unat_lt_usize [of "non_confidential_memory_end l"] by (simp del: unat_lt_usize)
  from leaf_target_unat [OF assms(2) this] le h show ?thesis by simp
qed

section \<open>Software translation\<close>

lemma translate_walk:
  "PageTable_translate ps address pt =
     (case walk (vpn_index ps address) pt of
        None \<Rightarrow> Err PageTableConfigurationError
      | Some (_, Leaf p _ _) \<Rightarrow> Ok (page_address p)
      | Some _ \<Rightarrow> Err AddressTranslationFailed)"
proof (induction ps address pt rule: PageTable_translate.induct)
  case (1 ps address level mem es)
  then show ?case
    by (cases "es ! vpn_index ps address level")
       (auto simp: PageTable_translate.simps [of ps address level] walk.simps [of _ level]
         vpn_index_def Let_def)
qed

lemma vpn_hw_index:
  assumes "unat gpa < 2 ^ 58"
  shows "vpn_index ps gpa level = hw_index gpa level"
proof -
  have m10: "(0x3ff :: usize) = mask 10" and m9: "(0x1ff :: usize) = mask 9"
    by (simp_all add: mask_eq_exp_minus_1)
  have drop: "unat (drop_bit n gpa AND mask k) = unat gpa div 2 ^ n mod 2 ^ k" for n k
    unfolding take_bit_eq_mask [symmetric] unsigned_take_bit_eq unat_drop_bit_eq
    by (simp add: take_bit_eq_mod drop_bit_eq_div)
  have "unat gpa div 2 ^ 48 mod 2048 = unat gpa div 2 ^ 48 mod 1024"
  proof -
    have "unat gpa div 2 ^ 48 < 1024" using assms by (simp add: less_mult_imp_div_less)
    then show ?thesis by simp
  qed
  then show ?thesis
    by (cases ps; cases level) (simp_all add: vpn_index_def vpn_def hw_index_def m10 m9 drop)
qed

section \<open>A small table\<close>

text \<open>A last-level table whose first entry maps one page; it serves as the concrete instance of the
  statements below.\<close>

definition example_leaf :: page where
  "example_leaf = Page_init 0x5000 Size4KiB"

definition example_leaf_entry :: page_table_entry where
  "example_leaf_entry = Leaf example_leaf shared_page_configuration shared_page_permission"

definition example_table :: page_table where
  "example_table = PageTable Level1 (new_memory Sv57x4 Level1 [example_page])
     (example_leaf_entry # replicate 511 NotValid)"

definition example_raw :: usize where
  "example_raw = pte 0x5000 shared_page_configuration shared_page_permission"

definition example_table_state :: alloc_state where
  "example_table_state = \<lparr>confidential_memory = (\<lambda>a. if a = 0x4000 then example_raw else 0),
     non_confidential_memory = (\<lambda>_ _. 0), now = 0,
     global_allocator = Some \<lparr>allocator_map = (allocator_map empty)
       (Size2MiB \<mapsto> [Page_init 0x200000 Size2MiB])\<rparr>\<rparr>"

lemma example_entries: "i < 512 \<Longrightarrow>
    (example_leaf_entry # replicate 511 NotValid) ! i = (if i = 0 then example_leaf_entry else NotValid)"
  by (cases i) simp_all

lemma example_memory_ok:
  "memory_ok example_layout Sv57x4 Level1 (new_memory Sv57x4 Level1 [example_page])"
  using example_page_ok
  by (simp add: memory_ok_def new_memory_def table_geometry contiguous_def)
     (simp add: example_page_def)

lemma example_table_ok: "table_ok example_layout Sv57x4 example_table"
proof -
  have "page_ok example_layout example_leaf"
    by (simp add: page_ok_def example_layout_def example_leaf_def)
  then show ?thesis
    using example_memory_ok
    by (simp add: example_table_def example_leaf_entry_def table_geometry level_page_size_def
        has_permission_def shared_page_permission_def)
       (simp add: example_leaf_def)
qed

lemma example_table_address: "PageTable_address example_table = Ok 0x4000"
  by (simp add: example_table_def PageTableMemory_start_address_def new_memory_def vec_index_def
      start_address_def example_page_def)

lemma example_table_synced: "synced (confidential_memory example_table_state) example_table"
proof -
  let ?mem = "new_memory Sv57x4 Level1 [example_page]"
  have rep: "represents (confidential_memory example_table_state (entry_word ?mem i))
      ((example_leaf_entry # replicate 511 NotValid) ! i)" if "i < 512" for i
  proof (cases "i = 0")
    case True
    have "entry_word ?mem 0 = 0x4000"
      by (simp add: entry_word_def new_memory_def word_at_def example_page_def)
    then show ?thesis
      using True by (simp add: represents_def example_leaf_entry_def PageTableEntry_encode_def
          example_table_state_def example_raw_def pte_def start_address_def example_leaf_def)
  next
    case False
    have "unat (entry_word ?mem i) = 0x4000 + 8 * i"
      using unat_entry_word [OF example_memory_ok, of i] that
      by (simp add: table_geometry new_memory_def example_page_def)
    with False have "entry_word ?mem i \<noteq> 0x4000" by (auto simp: word_unat_eq_iff)
    then show ?thesis
      using False that by (simp add: example_entries represents_def example_table_state_def
          is_valid_def is_set_def)
  qed
  have "\<forall>e \<in> set (example_leaf_entry # replicate 511 NotValid). entry_synced m e" for m
    by (simp add: example_leaf_entry_def)
  with rep show ?thesis by (simp add: example_table_def)
qed

lemma example_table_pool:
  "alloc_inv example_layout example_table_state"
  "exclusive (\<lambda>x. free_in example_table_state x + owned (table_pages example_table) x)"
proof -
  let ?pa = "\<lparr>allocator_map = (allocator_map empty)(Size2MiB \<mapsto> [Page_init 0x200000 Size2MiB])\<rparr>"
  have map: "allocator_map ?pa sz = (if sz = Size2MiB then Some [Page_init 0x200000 Size2MiB] else Some [])" for sz
    by (cases sz) (simp_all add: empty_def all_from_largest_to_smallest_def)
  then have tok: "tokens_of ?pa sz = (if sz = Size2MiB then [Page_init 0x200000 Size2MiB] else [])" for sz
    by (simp add: tokens_of_def del: page_allocator.simps)
  have "allocator_wf example_layout ?pa"
    using map tok by (simp add: allocator_wf_def page_ok_def example_layout_def del: page_allocator.simps)
  then show "alloc_inv example_layout example_table_state"
    by (simp add: alloc_inv_def example_table_state_def)
  have "free_in example_table_state x = owned [Page_init 0x200000 Size2MiB] x" for x
    using tok by (simp add: free_in_def example_table_state_def free_owned_def)
  then show "exclusive (\<lambda>x. free_in example_table_state x + owned (table_pages example_table) x)"
    by (simp add: exclusive_def example_table_def example_leaf_entry_def new_memory_def page_range_def
        example_page_def example_leaf_def)
qed

subsection \<open>Tables with one entry\<close>

definition single_table :: "page_table_level \<Rightarrow> page list \<Rightarrow> page_table_entry \<Rightarrow> page_table" where
  "single_table level pages e = PageTable level (new_memory Sv57x4 level pages)
     (e # replicate (table_entries Sv57x4 level - 1) NotValid)"

lemma single_table_simps [simp]:
  "table_level (single_table level pages e) = level"
  "PageTable_address (single_table level (q # pages) e) = Ok (page_address q)"
  "table_pages (single_table level pages e) = entry_pages e @ pages"
  "leaf_pages (single_table level pages e) = entry_leaf_pages e"
  by (simp_all add: single_table_def new_memory_def PageTableMemory_start_address_def vec_index_def start_address_def)

lemma single_table_ok:
  assumes "memory_ok l Sv57x4 level (new_memory Sv57x4 level pages)" and "entry_ok l Sv57x4 level e"
  shows "table_ok l Sv57x4 (single_table level pages e)"
  using assms by (auto simp: single_table_def table_geometry)

lemma single_table_synced:
  assumes mem: "memory_ok l Sv57x4 level (new_memory Sv57x4 level (q # pages))"
    and raw: "represents (m (page_address q)) e" and sub: "entry_synced m e"
    and rest: "\<And>a. unat (page_address q) < unat a \<Longrightarrow>
      unat a < unat (page_address q) + 8 * table_entries Sv57x4 level \<Longrightarrow> m a = 0"
  shows "synced m (single_table level (q # pages) e)"
proof -
  let ?mem = "new_memory Sv57x4 level (q # pages)"
  have word: "unat (entry_word ?mem i) = unat (page_address q) + 8 * i" if "i < table_entries Sv57x4 level" for i
    using unat_entry_word [OF mem that] by (simp add: new_memory_def)
  have zero: "entry_word ?mem 0 = page_address q"
    using word [of 0] by (simp add: table_geometry word_unat_eq_iff)
  have "represents (m (entry_word ?mem i)) ((e # replicate (table_entries Sv57x4 level - 1) NotValid) ! i)"
    if i: "i < table_entries Sv57x4 level" for i
  proof (cases i)
    case 0
    with raw zero show ?thesis by simp
  next
    case (Suc j)
    then have "m (entry_word ?mem i) = 0" using word [OF i] i by (intro rest) simp_all
    moreover have "j < table_entries Sv57x4 level - 1" using Suc i by simp
    ultimately show ?thesis using Suc by (simp add: represents_def is_valid_def is_set_def)
  qed
  moreover have "length (e # replicate (table_entries Sv57x4 level - 1) NotValid) = table_entries Sv57x4 level"
    by (simp add: table_geometry)
  ultimately show ?thesis
    using sub unfolding single_table_def synced.simps by (auto split: if_splits)
qed

lemma walk_single_table:
  "index level = 0 \<Longrightarrow> walk index (single_table level pages e) =
     (case e of Pointer pt _ \<Rightarrow> walk index pt | _ \<Rightarrow> Some (level, e))"
  by (simp add: single_table_def walk.simps [of _ level] split: page_table_entry.splits)

section \<open>Copying a blank table\<close>

lemma copy_blank_page:
  assumes "page_ok l p" and "page_size p = Size4KiB" and "k < 4"
    and "unat a + 4096 * Suc k \<le> unat (non_confidential_memory_end l)"
    and "non_confidential_memory t = (\<lambda>_ _. 0)"
  shows "copy_memory_page l a (k, p) t = (Ok p,
    t\<lparr>confidential_memory := fill p (words_in p) (\<lambda>_. 0) (confidential_memory t), now := now t + words_in p\<rparr>)"
proof -
  have k: "unat (of_nat k * 0x1000 :: usize) = k * 4096"
    using assms(3) unat_mul_usize [of "of_nat k" "0x1000"] by (simp add: unat_of_nat)
  have "unat a + unat (of_nat k * 0x1000 :: usize) < unat (non_confidential_memory_end l)"
    using assms(4) unfolding k by simp
  then have at: "non_confidential_address_at_offset l a (of_nat k * 0x1000) = Ok (a + of_nat k * 0x1000)"
    and ua: "unat (a + of_nat k * 0x1000) = unat a + k * 4096"
    by (simp_all add: non_confidential_address_at_offset_cases unat_add_below k)
  have mul: "mul_usize (of_nat k) (in_bytes (page_size p)) = (Ok (of_nat k * 0x1000) :: usize res)"
    using assms(2,3) by (auto simp: mul_usize_def in_bytes_def unat_of_nat)
  have "unat (a + of_nat k * 0x1000) + bytes (page_size p) \<le> unat (non_confidential_memory_end l) + 7"
    using assms(2,4) by (simp add: ua)
  from copy_Ok [OF assms(1) this, of t] show ?thesis
    using assms(5) by (simp add: copy_memory_page_def mul at sbind_lift)
qed

lemma fill_zero: "m x = 0 \<Longrightarrow> fill p n (\<lambda>_. 0) m x = 0"
  by (induction n) simp_all

lemma traverse_blank:
  assumes "list_all (\<lambda>p. page_size p = Size4KiB \<and> page_ok l p) pages" and "k + length pages \<le> 4"
    and "unat a + 4096 * (k + length pages) \<le> unat (non_confidential_memory_end l)"
    and "non_confidential_memory t = (\<lambda>_ _. 0)"
  shows "\<exists>u. traverse (copy_memory_page l a) (enumerate k pages) t = (Ok pages, u)
    \<and> (\<forall>x. confidential_memory t x = 0 \<longrightarrow> confidential_memory u x = 0)
    \<and> (\<forall>p \<in> set pages. \<forall>i < words_in p. confidential_memory u (word_at p i) = 0)"
  using assms
proof (induction pages arbitrary: k t)
  case Nil
  then show ?case by (auto simp: ret_def)
next
  case (Cons p pages)
  let ?t = "t\<lparr>confidential_memory := fill p (words_in p) (\<lambda>_. 0) (confidential_memory t), now := now t + words_in p\<rparr>"
  have p: "page_ok l p" "page_size p = Size4KiB" using Cons.prems(1) by simp_all
  have "copy_memory_page l a (k, p) t = (Ok p, ?t)"
    using Cons.prems by (intro copy_blank_page [OF p]) auto
  moreover obtain u where u: "traverse (copy_memory_page l a) (enumerate (Suc k) pages) ?t = (Ok pages, u)"
    "\<forall>x. confidential_memory ?t x = 0 \<longrightarrow> confidential_memory u x = 0"
    "\<forall>p \<in> set pages. \<forall>i < words_in p. confidential_memory u (word_at p i) = 0"
    using Cons.IH [of "Suc k" ?t] Cons.prems by auto
  moreover have "confidential_memory ?t x = 0" if "confidential_memory t x = 0" for x
    using that by (simp add: fill_zero)
  moreover have "confidential_memory ?t (word_at p i) = 0" if "i < words_in p" for i
    using fill_word [OF p(1) order_refl that] by simp
  ultimately show ?case by (auto simp: sbind_run ret_def)
qed

lemma collect_blank:
  assumes "memory_ok l ps level mem"
    and "\<And>i. i < table_entries ps level \<Longrightarrow> confidential_memory t (entry_word mem i) = 0"
    and "k + d = table_entries ps level"
  shows "collect_entries (copy_entry l ps level sub mem) (map of_nat [k..<table_entries ps level]) es t =
    (Ok (es @ replicate d NotValid), t)"
  using assms(3)
proof (induction d arbitrary: k es)
  case (Suc d)
  have k: "k < table_entries ps level" using Suc.prems by simp
  have "copy_entry l ps level sub mem (of_nat k) t = (Ok NotValid, t)"
    using assms(2) [OF k]
    by (simp add: copy_entry_def sbind_run PageTableMemory_entry_eq [OF assms(1) k] sbind_lift
        convert_entry_def is_valid_def is_set_def ret_def
        PageTableMemory_set_entry_eq [OF assms(1) k, of NotValid 0] PageTableEntry_encode_def)
  then show ?case
    using Suc.IH [of "Suc k" "es @ [NotValid]"] Suc.prems k
    by (simp add: upt_conv_Cons sbind_run on_error_run replicate_app_Cons_same)
qed (simp add: ret_def)

lemma copy_blank_table:
  assumes "acquire_continous_pages l (unat (configuration_pages ps level)) Size4KiB s = (Ok pages, u)"
    and "alloc_inv l s"
    and "unat a + 0x4000 \<le> unat (non_confidential_memory_end l)"
    and "non_confidential_memory s = (\<lambda>_ _. 0)" and "non_confidential_memory u = (\<lambda>_ _. 0)"
  shows "\<exists>t. PageTable_copy_from_non_confidential_memory l ps level a s =
    (Ok (PageTable level (new_memory ps level pages) (replicate (table_entries ps level) NotValid)), t)"
proof -
  note A = acquire_evolves(5-7) [OF assms(2) config_pages_pos assms(1) refl]
  have len: "length pages \<le> 4" using A(1) by (simp add: table_geometry)
  have "unat a + 4096 * (0 + length pages) \<le> unat (non_confidential_memory_end l)"
    using mult_le_mono2 [OF len, of 4096] assms(3) by simp
  from traverse_blank [OF _ _ this assms(5)] A(2) len
  obtain t where t: "traverse (copy_memory_page l a) (enumerate 0 pages) u = (Ok pages, t)"
    "\<forall>p \<in> set pages. \<forall>i < words_in p. confidential_memory t (word_at p i) = 0" by auto
  let ?mem = "new_memory ps level pages"
  have mem: "memory_ok l ps level ?mem"
    using A by (simp add: memory_ok_def new_memory_def table_geometry(3))
  have "confidential_memory t (entry_word ?mem i) = 0" if "i < table_entries ps level" for i
    using memory_ok_page [OF mem that] t(2) by (simp add: entry_word_def new_memory_def)
  note C = collect_blank [OF mem this, of 0 "table_entries ps level"]
  have m: "PageTableMemory_copy_from_non_confidential_memory l ps level a s = (Ok ?mem, t)"
    by (simp add: PageTableMemory_copy_from_non_confidential_memory_def sbind_run assms(1) t(1) ret_def)
  have n: "unat (number_of_entries ?mem) = table_entries ps level" by (simp add: new_memory_def)
  show ?thesis
    by (simp add: PageTable_copy_from_non_confidential_memory.simps copy_one_table_def sbind_run m
        on_error_def n C ret_def)
qed

definition boot_layout :: memory_layout where
  "boot_layout = \<lparr>non_confidential_memory_start = 0x1000, non_confidential_memory_end = 0x100000,
     confidential_memory_start = 0x100000, confidential_memory_end = 0x800000\<rparr>"

definition boot_state :: alloc_state where
  "boot_state = \<lparr>confidential_memory = (\<lambda>_. 0), non_confidential_memory = (\<lambda>_ _. 0), now = 0,
     global_allocator = Some \<lparr>allocator_map = (allocator_map empty)
       (Size2MiB \<mapsto> [Page_init 0x200000 Size2MiB])\<rparr>\<rparr>"

lemma boot_state_ok:
  "layout_wf boot_layout" "small_confidential_memory boot_layout"
  "alloc_inv boot_layout boot_state" "exclusive (free_in boot_state)"
  "\<exists>pages u. acquire_continous_pages boot_layout 4 Size4KiB boot_state = (Ok pages, u)"
proof -
  let ?pa = "\<lparr>allocator_map = (allocator_map empty)(Size2MiB \<mapsto> [Page_init 0x200000 Size2MiB])\<rparr>"
  show "layout_wf boot_layout" "small_confidential_memory boot_layout"
    by (simp_all add: layout_wf_def boot_layout_def is_aligned_to_def smallest_def in_bytes_def
        small_confidential_memory_def)
  have map: "allocator_map ?pa sz = (if sz = Size2MiB then Some [Page_init 0x200000 Size2MiB] else Some [])" for sz
    by (cases sz) (simp_all add: empty_def all_from_largest_to_smallest_def)
  then have tok: "tokens_of ?pa sz = (if sz = Size2MiB then [Page_init 0x200000 Size2MiB] else [])" for sz
    by (simp add: tokens_of_def del: page_allocator.simps)
  have wf: "allocator_wf boot_layout ?pa"
    using map tok by (simp add: allocator_wf_def page_ok_def boot_layout_def del: page_allocator.simps)
  then show "alloc_inv boot_layout boot_state" by (simp add: alloc_inv_def boot_state_def)
  have "free_in boot_state x = owned [Page_init 0x200000 Size2MiB] x" for x
    using tok by (simp add: free_in_def boot_state_def free_owned_def)
  then show "exclusive (free_in boot_state)" by (simp add: exclusive_def)
  have "\<exists>ps pa'. acquire boot_layout 4 Size4KiB ?pa = Ok (ps, pa') \<and> ps \<noteq> []"
    using tok by (intro acquire_succeeds [OF wf, of _ _ Size2MiB]) (simp_all add: less_page_size_def)
  then show "\<exists>pages u. acquire_continous_pages boot_layout 4 Size4KiB boot_state = (Ok pages, u)"
    by (auto simp: acquire_continous_pages_def sbind_def try_write_def lift_def ret_def boot_state_def)
qed

section \<open>Properties\<close>

lemma leaf_pages_table_pages:
  "set (entry_leaf_pages e) \<subseteq> set (entry_pages e)"
  "set (leaf_pages pt) \<subseteq> set (table_pages pt)"
  by (induction e and pt rule: entry_leaf_pages_leaf_pages.induct) auto

lemma mmu_walk_reaches:
  assumes "layout_wf l" and "small_confidential_memory l"
    and "table_ok l ps pt" and "synced m pt" and "PageTable_address pt = Ok base"
    and "mmu_walk m gpa (table_level pt) base = Some pa"
  shows "(\<exists>p \<in> set (leaf_pages pt). unat pa \<in> page_range p)
    \<or> \<not> table_unshared pt \<and> (\<exists>level sp c perm. walk (hw_index gpa) pt = Some (level, Shared sp c perm)
        \<and> leaf_target level (hypervisor_address sp AND NOT (mask 12)) gpa = Some pa)"
proof -
  obtain level e target where w: "walk (hw_index gpa) pt = Some (level, e)"
    and e: "entry_target e = Some target" "leaf_target level target gpa = Some pa"
    using assms(6) unfolding mmu_walk_tree [OF assms(3-5)] by (auto split: option.splits)
  note W = walk_entry [OF assms(3) w]
  from e(1) show ?thesis
  proof (cases e)
    case (Leaf p c perm)
    then have "unat pa \<in> page_range p"
      using leaf_reached [OF assms(2), of ps level p c perm gpa pa] W e by (simp add: entry_target_def)
    then show ?thesis using W Leaf by auto
  next
    case (Shared sp c perm)
    then show ?thesis using W w e by (auto simp: entry_target_def)
  qed (auto simp: entry_target_def)
qed

text \<open>C4: the page table copied for a confidential VM confines it. After a successful
  \<^verbatim>\<open>RootPageTable::copy_from_non_confidential_memory\<close>, whatever the untrusted page tables contained and
  however they changed during the copy, every address the hardware translates through the new root
  table lies in a confidential page that was free before, is not free now, is a leaf of this
  table, and is not part of the table itself.\<close>

theorem confidential_vm_memory_isolated:
  assumes "layout_wf l" and "small_confidential_memory l" and "alloc_inv l s" and "exclusive (free_in s)"
    and "RootPageTable_copy_from_non_confidential_memory l a ps s = (Ok root, t)"
    and "RootPageTable_address root = Ok base"
  shows "\<forall>gpa pa. mmu_walk (confidential_memory t) gpa (levels ps) base = Some pa \<longrightarrow>
    in_confidential_range l pa \<and> free_in s (unat pa) = 1 \<and> free_in t (unat pa) = 0
    \<and> (\<exists>p \<in> set (leaf_pages (root_table root)). unat pa \<in> page_range p)
    \<and> owned (table_pages (root_table root)) (unat pa) = 1"
proof (intro allI impI)
  fix gpa pa
  assume walk: "mmu_walk (confidential_memory t) gpa (levels ps) base = Some pa"
  obtain pt where copy: "PageTable_copy_from_non_confidential_memory l ps (levels ps) a s = (Ok pt, t)"
    and root: "root = \<lparr>root_paging_system = ps, root_table = pt\<rparr>"
    using assms(5) by (auto simp: RootPageTable_copy_from_non_confidential_memory_def res_simps)
  have pt: "table_ok l ps pt" "table_level pt = levels ps" "synced (confidential_memory t) pt" "table_unshared pt"
    and own: "\<And>x. free_in s x = owned (table_pages pt) x + free_in t x"
    using PageTable_copy_copies [of l ps "levels ps", unfolded copies_table_def, rule_format,
        OF assms(3,4) copy] by auto
  have "PageTable_address pt = Ok base" using assms(6) root by (simp add: RootPageTable_address_def)
  from mmu_walk_reaches [OF assms(1,2) pt(1,3) this] walk pt(2,4)
  obtain p where p: "p \<in> set (leaf_pages pt)" "unat pa \<in> page_range p" by auto
  then have pp: "p \<in> set (table_pages pt)" using leaf_pages_table_pages(2) by blast
  then have "page_ok l p" using entry_pages_ok(2) [OF pt(1)] by (simp add: list_all_iff)
  from page_ok_range [OF this p(2)] have "in_confidential_range l pa"
    by (simp add: in_confidential_range_def word_le_nat_alt word_less_nat_alt)
  moreover have "0 < owned (table_pages pt) (unat pa)" using pp p(2) unfolding owned_pos_iff by blast
  ultimately show "in_confidential_range l pa \<and> free_in s (unat pa) = 1 \<and> free_in t (unat pa) = 0
    \<and> (\<exists>p \<in> set (leaf_pages (root_table root)). unat pa \<in> page_range p)
    \<and> owned (table_pages (root_table root)) (unat pa) = 1"
    using own [of "unat pa"] assms(4) [unfolded exclusive_def, rule_format, of "unat pa"] p root by auto
qed

theorem confidential_vm_memory_isolated_witness:
  "\<exists>root t base. RootPageTable_copy_from_non_confidential_memory boot_layout 0x1000 Sv57x4 boot_state = (Ok root, t)
    \<and> RootPageTable_address root = Ok base
    \<and> (\<forall>gpa pa. mmu_walk (confidential_memory t) gpa (levels Sv57x4) base = Some pa \<longrightarrow>
         in_confidential_range boot_layout pa)"
proof -
  obtain pages u where acq: "acquire_continous_pages boot_layout 4 Size4KiB boot_state = (Ok pages, u)"
    using boot_state_ok(5) by blast
  have pages: "unat (configuration_pages Sv57x4 (levels Sv57x4)) = 4"
    by (simp add: table_geometry levels_def)
  have "u\<lparr>global_allocator := None\<rparr> = boot_state\<lparr>global_allocator := None\<rparr>"
    using allocator.acq_inv [OF boot_state_ok(3) _ acq] by simp
  then have "non_confidential_memory (u\<lparr>global_allocator := None\<rparr>) =
      non_confidential_memory (boot_state\<lparr>global_allocator := None\<rparr>)" by simp
  then have zero: "non_confidential_memory u = (\<lambda>_ _. 0)" by (simp add: boot_state_def)
  obtain pt t where copy: "PageTable_copy_from_non_confidential_memory boot_layout Sv57x4 (levels Sv57x4)
      0x1000 boot_state = (Ok pt, t)"
    using copy_blank_table [OF acq [folded pages] boot_state_ok(3) _ _ zero, of "0x1000"]
    by (auto simp: boot_layout_def boot_state_def)
  have "table_ok boot_layout Sv57x4 pt"
    using PageTable_copy_copies [of boot_layout Sv57x4 "levels Sv57x4", unfolded copies_table_def,
        rule_format, OF boot_state_ok(3,4) copy] by simp
  then obtain base where base: "PageTable_address pt = Ok base" using table_address by metis
  let ?root = "\<lparr>root_paging_system = Sv57x4, root_table = pt\<rparr>"
  have run: "RootPageTable_copy_from_non_confidential_memory boot_layout 0x1000 Sv57x4 boot_state = (Ok ?root, t)"
    by (simp add: RootPageTable_copy_from_non_confidential_memory_def sbind_run copy ret_def)
  have "RootPageTable_address ?root = Ok base" using base by (simp add: RootPageTable_address_def)
  from confidential_vm_memory_isolated [OF boot_state_ok(1-4) run this] run this show ?thesis by blast
qed

text \<open>C8: copying a page table hierarchy of any shape and content never panics and never loops. If it
  succeeds, the tree has the shape of the paging system, its raw entries in confidential memory are
  the encodings of the tree, and the pages it owns are exactly the bytes that left the free pool. In
  every outcome the pool stays well-formed, never grows, and no byte outside the pool of free pages has
  been written.\<close>

theorem page_table_copy_sound:
  assumes "alloc_inv l s" and "exclusive (free_in s)"
  shows "\<exists>r t. PageTable_copy_from_non_confidential_memory l ps level a s = (r, t)
    \<and> alloc_inv l t \<and> (\<forall>x. free_in t x \<le> free_in s x)
    \<and> (\<forall>x. free_in s (unat x) = 0 \<longrightarrow> confidential_memory t x = confidential_memory s x)
    \<and> (case r of
         Ok pt \<Rightarrow> table_ok l ps pt \<and> table_level pt = level \<and> synced (confidential_memory t) pt
           \<and> table_unshared pt \<and> (\<forall>x. free_in s x = owned (table_pages pt) x + free_in t x)
       | Err e \<Rightarrow> True
       | Panic \<Rightarrow> False)"
proof -
  obtain r t where rt: "PageTable_copy_from_non_confidential_memory l ps level a s = (r, t)" by fastforce
  from PageTable_copy_copies [of l ps level, unfolded copies_table_def, rule_format, OF assms rt]
  show ?thesis using rt by (cases r) (auto simp: evolves_def)
qed

theorem page_table_copy_sound_witness:
  "\<exists>r t. PageTable_copy_from_non_confidential_memory example_layout Sv57x4 Level5 0x1000 example_state = (r, t)
    \<and> alloc_inv example_layout t \<and> r \<noteq> Panic"
proof -
  obtain r t where "PageTable_copy_from_non_confidential_memory example_layout Sv57x4 Level5 0x1000
      example_state = (r, t)" "alloc_inv example_layout t"
    "case r of Ok pt \<Rightarrow> True | Err e \<Rightarrow> True | Panic \<Rightarrow> False"
    using page_table_copy_sound [OF example_state_inv example_state_exclusive, of Sv57x4 Level5 "0x1000"]
    by (fastforce split: result.splits)
  then show ?thesis by (cases r) auto
qed

text \<open>C17: the raw page tables in memory refine the monitor's tree: for every synchronised table the
  hardware walk over the raw entries ends where the walk over the tree ends, in the same leaf or shared
  page at the same level, and faults exactly when the tree has no mapping or a misaligned superpage.\<close>

theorem mmu_walk_refines:
  assumes "table_ok l ps pt" and "synced m pt" and "PageTable_address pt = Ok base"
  shows "mmu_walk m gpa (table_level pt) base =
    (case walk (hw_index gpa) pt of
       None \<Rightarrow> None
     | Some (level, e) \<Rightarrow> (case entry_target e of
         None \<Rightarrow> None | Some target \<Rightarrow> leaf_target level target gpa))"
  by (rule mmu_walk_tree [OF assms])

theorem mmu_walk_refines_witness:
  "mmu_walk (confidential_memory example_table_state) 0x123 Level1 0x4000 = Some 0x5123"
proof -
  have lv: "table_level example_table = Level1" by (simp add: example_table_def)
  show ?thesis
    using mmu_walk_refines [OF example_table_ok example_table_synced example_table_address, of "0x123"]
    unfolding lv by (simp add: example_table_def walk.simps hw_index_def example_leaf_entry_def
        entry_target_def example_leaf_def leaf_target_def)
qed

text \<open>C18: \<^verbatim>\<open>map_shared_page\<close> on a synchronised table that owns its pages exclusively never panics. On
  success the tree is well-formed and synchronised again, the requested address now leads to the
  shared page, no page was gained, what the table lost is back in the pool, and no memory outside
  the table's own pages was written. On an error the pool and all memory in use are unchanged.\<close>

theorem map_shared_page_sound:
  assumes "table_ok l ps pt" and "synced (confidential_memory s) pt" and "alloc_inv l s"
    and "exclusive (\<lambda>x. free_in s x + owned (table_pages pt) x)" and "shared_ok l sp"
  shows "\<exists>r t. PageTable_map_shared_page l ps sp pt s = (r, t) \<and> alloc_inv l t
    \<and> (case r of
         Ok pt' \<Rightarrow> table_ok l ps pt' \<and> synced (confidential_memory t) pt'
           \<and> (\<exists>level. walk (vpn_index ps (confidential_vm_virtual_address sp)) pt' = Some (level, shared_entry sp))
           \<and> (\<forall>x. free_in t x + owned (table_pages pt') x = free_in s x + owned (table_pages pt) x)
           \<and> (\<forall>x. owned (table_pages pt') x \<le> owned (table_pages pt) x)
           \<and> (\<forall>x. owned (table_pages pt) (unat x) = 0 \<longrightarrow> confidential_memory t x = confidential_memory s x)
       | Err e \<Rightarrow> (\<forall>x. free_in t x = free_in s x)
           \<and> (\<forall>x. free_in s (unat x) = 0 \<longrightarrow> confidential_memory t x = confidential_memory s x)
       | Panic \<Rightarrow> False)"
proof -
  obtain r t where rt: "PageTable_map_shared_page l ps sp pt s = (r, t)" by fastforce
  have "mapped l ps sp pt s (r, t)"
    using map_shared_page_mapped [OF assms(1,3) _ assms(5)] assms(4) rt by (simp add: exclusive_def)
  then show ?thesis
    using rt assms(2) by (cases r) (auto simp: mapped_def remaps_def failed_def)
qed

theorem map_shared_page_sound_witness:
  "\<exists>r t. PageTable_map_shared_page example_layout Sv57x4
      \<lparr>hypervisor_address = 0x1000, confidential_vm_virtual_address = 0, shared_page_size = Size4KiB\<rparr>
      example_table example_table_state = (r, t) \<and> alloc_inv example_layout t"
proof -
  have "shared_ok example_layout
      \<lparr>hypervisor_address = 0x1000, confidential_vm_virtual_address = 0, shared_page_size = Size4KiB\<rparr>"
    by (simp add: shared_ok_def is_in_non_confidential_range_def example_layout_def)
  from map_shared_page_sound [OF example_table_ok example_table_synced example_table_pool this]
  show ?thesis by blast
qed

text \<open>C27: software and hardware translation compared, for guest physical addresses below \<open>2\<^sup>5\<^sup>8\<close>. Where the hardware walk
  faults, \<^verbatim>\<open>translate\<close> returns an error. Where the walk reaches a page of the VM, \<^verbatim>\<open>translate\<close> returns the start of this
  page, and the hardware the start plus the offset of the address in the page (so \<^verbatim>\<open>translate\<close> drops the offset, although its documentation
  promises the physical address of the given address). Where the walk reaches a page shared with the
  hypervisor, \<^verbatim>\<open>translate\<close> returns an error, as documented. It never panics.\<close>

theorem translate_agrees_with_hardware:
  assumes "small_confidential_memory l" and "table_ok l ps pt" and "synced m pt"
    and "PageTable_address pt = Ok base" and "unat gpa < 2 ^ 58"
  shows "case mmu_walk m gpa (table_level pt) base of
      None \<Rightarrow> \<exists>e. PageTable_translate ps gpa pt = Err e
    | Some pa \<Rightarrow> (\<exists>p \<in> set (leaf_pages pt). PageTable_translate ps gpa pt = Ok (page_address p)
          \<and> unat pa = unat (page_address p) + unat gpa mod bytes (page_size p) \<and> unat pa \<in> page_range p)
        \<or> (\<exists>level sp c perm. walk (hw_index gpa) pt = Some (level, Shared sp c perm)
          \<and> PageTable_translate ps gpa pt = Err AddressTranslationFailed)"
proof (cases "walk (hw_index gpa) pt")
  case None
  then show ?thesis
    by (simp add: mmu_walk_tree [OF assms(2-4)] translate_walk vpn_hw_index [OF assms(5), abs_def])
next
  case (Some x)
  obtain level e where w: "walk (hw_index gpa) pt = Some (level, e)" using Some by (cases x) simp
  have hw: "mmu_walk m gpa (table_level pt) base =
      (case entry_target e of None \<Rightarrow> None | Some target \<Rightarrow> leaf_target level target gpa)"
    using w by (simp add: mmu_walk_tree [OF assms(2-4)])
  have sw: "PageTable_translate ps gpa pt =
      (case e of Leaf p _ _ \<Rightarrow> Ok (page_address p) | _ \<Rightarrow> Err AddressTranslationFailed)"
    using w by (simp add: translate_walk vpn_hw_index [OF assms(5), abs_def])
  note W = walk_entry [OF assms(2) w]
  show ?thesis
  proof (cases e)
    case (Leaf p c perm)
    then have p: "page_ok l p" "page_size p = level_page_size ps level" "p \<in> set (leaf_pages pt)" using W by simp_all
    note span = span_page_size [OF small_memory_level [OF assms(1) p(1,2)], of ps, folded p(2)]
    then have target: "leaf_target level (page_address p) gpa
        = Some (page_address p + of_nat (unat gpa mod bytes (page_size p)))"
      using p(1) by (simp add: leaf_target_def page_ok_def)
    have "unat gpa mod bytes (page_size p) < bytes (page_size p)" by simp
    then have "unat (page_address p) + unat gpa mod bytes (page_size p) < 2 ^ 64"
      using page_ok_no_overflow [OF p(1)] by linarith
    then have "unat (page_address p + of_nat (unat gpa mod bytes (page_size p)))
        = unat (page_address p) + unat gpa mod bytes (page_size p)"
      by (simp add: unat_add_usize unat_of_nat)
    then show ?thesis
      using p(3) target hw sw Leaf leaf_reached [OF assms(1) _ target, of ps c perm] W by (auto simp: entry_target_def)
  qed (use hw sw w in \<open>auto simp: entry_target_def split: option.splits\<close>)
qed

theorem translate_agrees_with_hardware_witness:
  "mmu_walk (confidential_memory example_table_state) 0x123 (table_level example_table) 0x4000 = Some 0x5123
   \<and> PageTable_translate Sv57x4 0x123 example_table = Ok 0x5000
   \<and> (\<exists>e. PageTable_translate Sv57x4 0x1123 example_table = Err e)"
proof -
  have small: "small_confidential_memory example_layout"
    by (simp add: small_confidential_memory_def example_layout_def)
  have leaf: "leaf_pages example_table = [Page_init 0x5000 Size4KiB]"
    by (simp add: example_table_def example_leaf_entry_def example_leaf_def)
  note compare = translate_agrees_with_hardware [OF small example_table_ok example_table_synced example_table_address]
  have w: "walk (hw_index 0x123) example_table = Some (Level1, example_leaf_entry)"
    "walk (hw_index 0x1123) example_table = Some (Level1, NotValid)"
    by (simp_all add: example_table_def walk.simps hw_index_def example_leaf_entry_def)
  have "vpn_index Sv57x4 0x123 = hw_index 0x123" by (rule ext) (rule vpn_hw_index, simp)
  then have sw: "PageTable_translate Sv57x4 0x123 example_table = Ok 0x5000"
    using w(1) by (simp add: translate_walk example_leaf_entry_def example_leaf_def)
  obtain pa where "mmu_walk (confidential_memory example_table_state) 0x123 (table_level example_table) 0x4000 = Some pa"
    "unat pa = 0x5123"
    using compare [of "0x123"] sw by (auto simp: leaf split: option.splits)
  moreover from this have "pa = 0x5123" by (simp add: word_unat_eq_iff)
  moreover have "mmu_walk (confidential_memory example_table_state) 0x1123 (table_level example_table) 0x4000 = None"
    using w(2) by (simp add: mmu_walk_tree [OF example_table_ok example_table_synced example_table_address] entry_target_def)
  ultimately show ?thesis using sw compare [of "0x1123"] by simp
qed

text \<open>C30: page table entries survive encoding: for a page-aligned address, the raw entry of a leaf
  has its valid bit set, is recognised as a leaf iff some permission is set, and decodes to exactly
  the address, configuration and permissions it was encoded from.\<close>

theorem pte_roundtrip:
  assumes "page_ok l p"
  shows "\<exists>raw. PageTableEntry_encode (Leaf p c perm) = Ok raw \<and> is_valid raw
    \<and> (is_leaf raw \<longleftrightarrow> has_permission perm)
    \<and> PageTableAddress_decode raw = start_address p
    \<and> PageTableConfiguration_decode raw = c \<and> PageTablePermission_decode raw = perm"
  using pte_decode [OF page_ok_aligned [OF assms], of c perm]
  by (simp add: PageTableEntry_encode_def pte_def start_address_def has_permission_def)

theorem pte_roundtrip_witness:
  "\<exists>raw. PageTableEntry_encode (Leaf example_page shared_page_configuration shared_page_permission) = Ok raw
     \<and> PageTableAddress_decode raw = 0x4000"
  using pte_roundtrip [OF example_page_ok, of shared_page_configuration shared_page_permission]
  by (auto simp: start_address_def example_page_def)

text \<open>C34: \<^verbatim>\<open>map_shared_page\<close> cannot create intermediate page tables: on an address whose entry is not
  valid above the last level it always returns an error (the fresh table has no entries at all), the
  pages it acquired are back in the pool, and memory in use is unchanged.\<close>

theorem intermediate_table_never_created:
  assumes "alloc_inv l s" and "level \<noteq> Level1"
    and "vpn_index ps (confidential_vm_virtual_address sp) level < length es"
    and "es ! vpn_index ps (confidential_vm_virtual_address sp) level = NotValid"
  shows "\<exists>e t. PageTable_map_shared_page l ps sp (PageTable level mem es) s = (Err e, t)
    \<and> alloc_inv l t \<and> (\<forall>x. free_in t x = free_in s x)
    \<and> (\<forall>x. free_in s (unat x) = 0 \<longrightarrow> confidential_memory t x = confidential_memory s x)"
  using empty_table_fails [OF assms(1), of ps level sp "\<lambda>next_page_table.
      PageTable_set_entry (PageTable level mem es) (vpn ps (confidential_vm_virtual_address sp) level)
        (Pointer next_page_table PageTableConfiguration_empty)"] assms(2-4)
  by (simp add: PageTable_map_shared_page.simps [of _ _ _ level mem es] Let_def vpn_index_def failed_def)

theorem intermediate_table_never_created_witness:
  "\<exists>e t. PageTable_map_shared_page example_layout Sv57x4
      \<lparr>hypervisor_address = 0x1000, confidential_vm_virtual_address = 0, shared_page_size = Size4KiB\<rparr>
      (PageTable Level2 (new_memory Sv57x4 Level2 [example_page]) (replicate 512 NotValid)) example_state
      = (Err e, t) \<and> alloc_inv example_layout t"
proof -
  have "vpn_index Sv57x4 (confidential_vm_virtual_address \<lparr>hypervisor_address = 0x1000,
      confidential_vm_virtual_address = 0, shared_page_size = Size4KiB\<rparr>) Level2 = 0"
    by (simp add: vpn_index_def vpn_def)
  then show ?thesis
    using intermediate_table_never_created [OF example_state_inv, of Level2 Sv57x4 "\<lparr>hypervisor_address = 0x1000,
        confidential_vm_virtual_address = 0, shared_page_size = Size4KiB\<rparr>" "replicate 512 NotValid"
        "new_memory Sv57x4 Level2 [example_page]"]
    by auto
qed

text \<open>\<^verbatim>\<open>SharedPage::new\<close> does not require the hypervisor's address to be page aligned, and the
  address bits 2 to 11 end up in the flags of the entry: the address \<open>0x1020\<close> yields a mapping with the
  execute permission, which shared pages are not meant to have.\<close>

lemma unaligned_shared_page_gains_permission:
  "\<exists>request sp raw. SharePageRequest_new 0 = Ok request \<and> SharedPage_new example_layout 0x1020 request = Ok sp
    \<and> PageTableEntry_encode (shared_entry sp) = Ok raw
    \<and> \<not> can_execute shared_page_permission \<and> can_execute (PageTablePermission_decode raw)"
  by (simp add: SharePageRequest_new_def SharedPage_new_def Let_def NonConfidentialMemoryAddress_new_def
      is_in_non_confidential_range_def example_layout_def sub_usize_def in_bytes_def
      non_confidential_address_at_offset_cases PageTableEntry_encode_def shared_entry_def
      shared_page_permission_def PageTablePermission_decode_def is_set_bit bit_or_iff bit_pte_mask
      bit_address_encode non_confidential_address_def bit_permission bit_configuration)

text \<open>A shared page that is mapped where the table has a leaf replaces the leaf at its level.\<close>

lemma walk_depth:
  "table_ok l ps pt \<Longrightarrow> walk index pt = Some (level, e) \<Longrightarrow> depth level \<le> depth (table_level pt)"
proof (induction index pt rule: walk.induct)
  case (1 index lv mem es)
  then have i: "index lv < length es" by (auto simp: walk.simps split: if_splits)
  have ok: "entry_ok l ps lv (es ! index lv)" using 1(2) nth_mem [OF i] by simp
  show ?case
  proof (cases "es ! index lv")
    case (Pointer npt c)
    then have "walk index npt = Some (level, e)" "table_ok l ps npt" "lower lv = Some (table_level npt)"
      using 1(3) i ok by (simp_all add: walk.simps [of _ lv])
    with 1(1) [OF i Pointer] show ?thesis by (auto dest: depth_lower)
  qed (use 1(3) i in \<open>auto simp: walk.simps\<close>)
qed

lemma map_over_leaf:
  assumes "table_ok l ps pt" and "alloc_inv l s" and "\<And>x. owned (table_pages pt) x \<le> 1" and "shared_ok l sp"
    and "walk (vpn_index ps (confidential_vm_virtual_address sp)) pt = Some (level, Leaf p c perm)"
  shows "\<exists>pt' t. PageTable_map_shared_page l ps sp pt s = (Ok pt', t)
    \<and> (\<forall>index. (\<forall>lv. depth level \<le> depth lv \<longrightarrow> index lv = vpn_index ps (confidential_vm_virtual_address sp) lv)
         \<longrightarrow> walk index pt' = Some (level, shared_entry sp))"
  using assms
proof (induction "vpn_index ps (confidential_vm_virtual_address sp)" pt rule: walk.induct)
  case (1 lv mem es)
  let ?f = "vpn_index ps (confidential_vm_virtual_address sp)"
  note unfold = PageTable_map_shared_page.simps [of l ps sp lv mem es, unfolded Let_def, folded vpn_index_def]
  have i: "?f lv < length es" using 1(6) by (auto simp: walk.simps split: if_splits)
  have ok: "entry_ok l ps lv (es ! ?f lv)" using 1(2) nth_mem [OF i] by simp
  have deep: "depth level \<le> depth lv" using walk_depth [OF 1(2,6)] by simp
  show ?case
  proof (cases "es ! ?f lv")
    case (Pointer npt d)
    have sub: "table_ok l ps npt" "walk ?f npt = Some (level, Leaf p c perm)"
      using ok Pointer 1(6) i by (simp_all add: walk.simps [of _ lv])
    have "owned (table_pages npt) x \<le> 1" for x
      using entry_pages_owned_le [OF nth_mem [OF i], of x] Pointer 1(4) [of x] by simp
    from 1(1) [OF i Pointer sub(1) 1(3) this 1(5) sub(2)] obtain npt' t where
      "PageTable_map_shared_page l ps sp npt s = (Ok npt', t)"
      and "\<forall>index. (\<forall>lv. depth level \<le> depth lv \<longrightarrow> index lv = ?f lv) \<longrightarrow> walk index npt' = Some (level, shared_entry sp)"
      by blast
    then show ?thesis
      using i Pointer deep by (auto simp: unfold sbind_run ret_def walk.simps [of _ lv])
  next
    case (Leaf q d perm')
    have level: "level = lv" using 1(6) i Leaf by (simp add: walk.simps)
    have leaf: "es ! unat (vpn ps (confidential_vm_virtual_address sp) lv) \<noteq> Pointer pt c" for pt c
      using Leaf by (simp add: vpn_index_def)
    obtain t where "PageTable_set_entry (PageTable lv mem es) (vpn ps (confidential_vm_virtual_address sp) lv) (shared_entry sp) s =
        (Ok (PageTable lv mem (es[?f lv := shared_entry sp])), t)"
      using set_entry_remaps [OF 1(2,3,4) _ leaf shared_entry_ok [OF 1(5)] _ shared_entry_def] i
      by (auto simp: vpn_index_def shared_entry_def)
    then show ?thesis
      using i Leaf by (auto simp: unfold level walk.simps shared_entry_def)
  qed (use 1(6) i in \<open>simp_all add: walk.simps\<close>)
qed

lemma hw_index_superpage:
  assumes "unat gpa div 2 ^ span_bits level = unat a div 2 ^ span_bits level" and "depth level \<le> depth lv"
  shows "hw_index gpa lv = hw_index a lv"
proof -
  have le: "span_bits level \<le> span_bits lv" using assms(2) by (cases level; cases lv) simp_all
  have "x div 2 ^ span_bits lv = x div 2 ^ span_bits level div 2 ^ (span_bits lv - span_bits level)" for x :: nat
    using le by (simp add: div_mult2_eq [symmetric] power_add [symmetric])
  then show ?thesis using assms(1) by (simp add: hw_index_def)
qed


text \<open>A table of level 2 that maps the huge page at 6 MiB; the hypervisor offers its page at 2 MiB, in front of the
  confidential memory.\<close>

definition example_share_layout :: memory_layout where
  "example_share_layout = \<lparr>non_confidential_memory_start = 0x100000, non_confidential_memory_end = 0x300000,
     confidential_memory_start = 0x300000, confidential_memory_end = 0x800000\<rparr>"

definition example_shared_page :: shared_page where
  "example_shared_page = \<lparr>hypervisor_address = 0x200000, confidential_vm_virtual_address = 0, shared_page_size = Size4KiB\<rparr>"

definition example_huge_table :: page_table where
  "example_huge_table = single_table Level2 [Page_init 0x400000 Size4KiB]
     (Leaf (Page_init 0x600000 Size2MiB) shared_page_configuration shared_page_permission)"

definition example_huge_state :: alloc_state where
  "example_huge_state = \<lparr>confidential_memory = (\<lambda>_. 0)(0x400000 := pte 0x600000 shared_page_configuration shared_page_permission),
     non_confidential_memory = (\<lambda>_ _. 0), now = 0, global_allocator = Some empty\<rparr>"

lemma example_huge_ok:
  "table_ok example_share_layout Sv57x4 example_huge_table"
  "synced (confidential_memory example_huge_state) example_huge_table"
  "alloc_inv example_share_layout example_huge_state"
  "exclusive (\<lambda>x. free_in example_huge_state x + owned (table_pages example_huge_table) x)"
proof -
  have mem: "memory_ok example_share_layout Sv57x4 Level2 (new_memory Sv57x4 Level2 [Page_init 0x400000 Size4KiB])"
    by (simp add: memory_ok_def new_memory_def table_geometry contiguous_def page_ok_def example_share_layout_def)
  show "table_ok example_share_layout Sv57x4 example_huge_table"
    unfolding example_huge_table_def
    by (rule single_table_ok [OF mem])
       (simp add: page_ok_def example_share_layout_def level_page_size_def has_permission_def shared_page_permission_def)
  show "synced (confidential_memory example_huge_state) example_huge_table"
    unfolding example_huge_table_def
  proof (rule single_table_synced [OF mem])
    show "represents (confidential_memory example_huge_state (page_address (Page_init 0x400000 Size4KiB)))
        (Leaf (Page_init 0x600000 Size2MiB) shared_page_configuration shared_page_permission)"
      by (simp add: represents_def example_huge_state_def PageTableEntry_encode_def pte_def start_address_def)
    show "confidential_memory example_huge_state a = 0" if "unat (page_address (Page_init 0x400000 Size4KiB)) < unat a" for a
      using that by (auto simp: example_huge_state_def)
  qed simp
  show "alloc_inv example_share_layout example_huge_state"
    using empty_wf(1) by (simp add: alloc_inv_def example_huge_state_def)
  show "exclusive (\<lambda>x. free_in example_huge_state x + owned (table_pages example_huge_table) x)"
    using empty_wf(2) by (simp add: exclusive_def free_in_def example_huge_state_def example_huge_table_def page_range_def)
qed


end
