(* ===== verification/Promotion.thy ===== *)
theory Promotion
  imports Flow_Invariants
begin

text \<open>What the promotion of a VM to a confidential VM registers: \<^verbatim>\<open>create_confidential_vm\<close> of
  non_confidential_flow/handlers/promote_to_confidential_vm.rs adds one well-formed VM under a fresh
  identifier to the control data, or leaves the control data alone.\<close>

section \<open>Promotion of a VM\<close>

lemma create_confidential_harts_states:
  "map lifecycle_state (create_confidential_harts env f n h) = take n (Started # replicate (n - 1) Stopped)"
  "map hart_pending_request (create_confidential_harts env f n h)
     = take n (Some PendingSbiRequest # replicate (n - 1) None)"
  "map confidential_hart_id (create_confidential_harts env f n h) = map of_nat [0..<n]"
  by (cases n; simp add: create_confidential_harts_def list_eq_iff_nth_eq nth_append nth_Cons' new_hart_id;
      simp add: from_vm_hart_def from_vm_hart_reset_def ConfidentialHart_new_def Let_def)+

lemma vm_table_view: "same_view s t \<Longrightarrow> vm_table t = vm_table s"
  by (simp add: same_view_def vm_table_def)

lemma fold_max_ge: "x \<in> insert k (set ks) \<Longrightarrow> x \<le> fold max ks (k :: usize)"
proof (induction ks arbitrary: k x)
  case (Cons y ks)
  have "max y k \<le> fold max ks (max y k)" by (rule Cons.IH) simp
  then have "y \<le> fold max ks (max y k)" "k \<le> fold max ks (max y k)" by (meson max.boundedE)+
  moreover have "x \<le> fold max ks (max y k)" if "x \<in> set ks" by (rule Cons.IH) (simp add: that)
  ultimately show ?case using Cons.prems by auto
qed simp

lemma unique_id_fresh:
  assumes "unique_id cd = Ok k"
  shows "map_of (confidential_vms cd) k = None"
proof (cases "map fst (confidential_vms cd)")
  case (Cons j js)
  with assms have k: "checked_add (fold max js j) 1 = Some k" by (simp add: unique_id_def res_simps)
  have "i < k" if "i \<in> fst ` set (confidential_vms cd)" for i
  proof -
    have "i \<in> set (j # js)" using that Cons by (metis list.set_map)
    then have "i \<le> fold max js j" by (intro fold_max_ge) auto
    moreover have "unat k = unat (fold max js j) + 1"
      using k by (auto simp: checked_add_def unat_add_usize split: if_splits)
    ultimately show ?thesis by (simp add: word_less_nat_alt word_le_nat_alt)
  qed
  then show ?thesis by (auto simp: map_of_eq_None_iff)
qed (use assms in simp)

definition promoted_vm :: "confidential_vm_id \<Rightarrow> nat \<Rightarrow> confidential_vm \<Rightarrow> bool" where
  "promoted_vm k n vm \<longleftrightarrow> vm_id vm = k
     \<and> map lifecycle_state (confidential_harts vm) = take n (Started # replicate (n - 1) Stopped)
     \<and> map hart_pending_request (confidential_harts vm) = take n (Some PendingSbiRequest # replicate (n - 1) None)
     \<and> map hart_vm_id (confidential_harts vm) = replicate n (Some k)
     \<and> map confidential_hart_id (confidential_harts vm) = map of_nat [0..<n]
     \<and> (\<exists>address. RootPageTable_address (protector_root_page_table (memory_protector vm)) = Ok address
          \<and> protector_hgatp (memory_protector vm) = hgatp_bits (Hgatp_new address
              (hgatp_mode_of (root_paging_system (protector_root_page_table (memory_protector vm)))) k))"

definition registered ::
    "(confidential_vm_id \<rightharpoonup> confidential_vm) \<Rightarrow> confidential_vm_id \<Rightarrow> 'z monitor_scheme \<Rightarrow> bool" where
  "registered table k t \<longleftrightarrow> table k = None
     \<and> (\<exists>n < MAX_NUMBER_OF_HARTS_PER_VM. \<exists>vm. promoted_vm k n vm \<and> vm_table t = table(k \<mapsto> vm))"

lemma register_registers:
  assumes n: "n < MAX_NUMBER_OF_HARTS_PER_VM"
  shows "run (\<lambda>_ _. True) (\<lambda>s. vm_table s = table)
    (\<lambda>s. register_confidential_vm (create_confidential_harts env (csrs s) n h) mp s)
    (registered table) (\<lambda>s. vm_table s = table)"
proof (rule runI, goal_cases)
  case (1 s k t)
  let ?hs = "create_confidential_harts env (csrs s) n h"
  have vm_id: "vm_id vm = i" if "ConfidentialVm_new i hs ms mp = Ok vm" for i hs ms vm
    using that by (auto simp: ConfidentialVm_new_def Let_def res_simps)
  from 1(2) obtain cd vm where c: "CONTROL_DATA s = Some cd" "unique_id cd = Ok k"
    "ConfidentialVm_new k ?hs (replicate 4 ConfidentialVmMeasurement_empty) mp = Ok vm" "k = vm_id vm"
    "t = s\<lparr>CONTROL_DATA := Some (cd\<lparr>confidential_vms := AList.update k vm (confidential_vms cd)\<rparr>)\<rparr>"
    by (auto simp: register_confidential_vm_def control_data_try_write_def insert_confidential_vm_def Let_def
        dest: vm_id split: option.splits prod.splits result.splits if_splits)
  obtain address where v: "confidential_harts vm = map (ConfidentialHart_set_confidential_vm_id k) ?hs"
    "RootPageTable_address (protector_root_page_table mp) = Ok address"
    "memory_protector vm = mp\<lparr>protector_hgatp := hgatp_bits (Hgatp_new address
         (hgatp_mode_of (root_paging_system (protector_root_page_table mp))) k)\<rparr>"
    using c(3) by (auto simp: ConfidentialVm_new_def protector_set_confidential_vm_id_def res_simps Let_def)
  have set_id: "lifecycle_state (ConfidentialHart_set_confidential_vm_id i g) = lifecycle_state g"
    "hart_pending_request (ConfidentialHart_set_confidential_vm_id i g) = hart_pending_request g"
    "confidential_hart_id (ConfidentialHart_set_confidential_vm_id i g) = confidential_hart_id g"
    "hart_vm_id (ConfidentialHart_set_confidential_vm_id i g) = Some i" for i g
    by (simp_all add: ConfidentialHart_set_confidential_vm_id_def confidential_hart_id_def)
  have "map hart_vm_id (confidential_harts vm) = replicate n (Some k)"
    by (simp add: v(1) set_id map_replicate_const comp_def create_confidential_harts_def)
  then have "promoted_vm k n vm"
    using v c(4) create_confidential_harts_states [of env "csrs s" n h] by (simp add: promoted_vm_def set_id comp_def)
  moreover have "table k = None"
    using unique_id_fresh [OF c(2)] 1(1) c(1,4) by (auto simp: vm_table_def)
  moreover have "vm_table t = table(k \<mapsto> vm)" using 1(1) c(1,4,5) by (auto simp: vm_table_def update_conv')
  ultimately show ?case using n by (auto simp: registered_def)
next
  case (2 s e t)
  then have "t = s\<lparr>CONTROL_DATA := CONTROL_DATA s\<rparr>"
    by (auto simp: register_confidential_vm_def control_data_try_write_def insert_confidential_vm_def Let_def
        split: option.splits prod.splits result.splits if_splits)
  with 2 show ?case by simp
qed

lemma frame_keeps_table:
  assumes "keeps_frame m"
  shows "run (\<lambda>_ _. True) (\<lambda>s. vm_table s = table) m (\<lambda>_ s. vm_table s = table) (\<lambda>s. vm_table s = table)"
proof (rule runI, goal_cases)
  case (1 s a t)
  with vm_table_view [of s t] run_Ok [OF view_frame [OF assms] _ 1(2)] show ?case by simp
next
  case (2 s e t)
  with vm_table_view [of s t] run_Err [OF view_frame [OF assms] _ 2(2)] show ?case by simp
qed

lemma read_device_tree_keeps_table:
  "run (\<lambda>_ _. True) (\<lambda>s. vm_table s = table) (read_device_tree env address)
     (\<lambda>_ s. vm_table s = table) (\<lambda>s. vm_table s = table)"
  by (rule runI) (auto simp: read_device_tree_def)

lemma register_harts_registers:
  "run (\<lambda>_ _. True) (\<lambda>s. vm_table s = table)
     (sbind (lift (assure (n < MAX_NUMBER_OF_HARTS_PER_VM) ReachedMaxNumberOfHartsPerVm)) (\<lambda>_ s.
        register_confidential_vm (create_confidential_harts env (csrs s) n h) mp s))
     (registered table) (\<lambda>s. vm_table s = table)"
proof (cases "n < MAX_NUMBER_OF_HARTS_PER_VM")
  case True
  then show ?thesis by (simp only: assure_simps bind_lift_results register_registers)
next
  case False
  then show ?thesis by (simp only: assure_simps bind_lift_results) (rule anything.lift; simp)
qed

lemma create_registers:
  "run (\<lambda>_ _. True) (\<lambda>s. vm_table s = table) (create_confidential_vm env r) (registered table) (\<lambda>s. vm_table s = table)"
proof (cases "PromoteToConfidentialVm_into r")
  case (Pair a h)
  have lift: "run (\<lambda>_ _. True) (\<lambda>s. vm_table s = table) (lift x) (\<lambda>_ s. vm_table s = table) (\<lambda>s. vm_table s = table)"
    for x :: "usize res" by (rule anything.lift)
  show ?thesis
    unfolding create_confidential_vm_def Pair prod.case
    by (rule anything.bind [OF frame_keeps_table [OF keeps_frame_from_vm_state]],
        rule anything.clean_up [OF _ frame_keeps_table [OF keeps_frame_drop(1)]],
        rule anything.bind [OF lift], rule anything.bind [OF read_device_tree_keeps_table],
        rule register_harts_registers)
qed

text \<open>C16: A promotion that succeeds registers exactly one new VM, under an identifier that no registered VM
  has: its harts number fewer than the maximum, carry the identifiers 0, 1, \<dots>, belong to that VM, the
  boot hart is started and waits for the answer to its promotion request, every other hart is stopped, and
  the memory protector configures the root page table and the VM's identifier. A promotion that fails
  leaves the table of confidential VMs as it was.\<close>

theorem promotion_registers_fresh_vm:
  "case create_confidential_vm env request s of
     (Ok k, t) \<Rightarrow> registered (vm_table s) k t
   | (Err e, t) \<Rightarrow> vm_table t = vm_table s
   | (Panic, t) \<Rightarrow> True"
proof (cases "create_confidential_vm env request s")
  case (Pair r t)
  show ?thesis
  proof (cases r)
    case (Ok k)
    with run_Ok [OF create_registers refl Pair [unfolded Ok]] Pair show ?thesis by simp
  next
    case (Err e)
    with run_Err [OF create_registers refl Pair [unfolded Err]] Pair show ?thesis by simp
  qed (simp add: Pair)
qed

end
