(* ===== verification/Memory_Ownership.thy ===== *)
theory Memory_Ownership
  imports Machine Isolation Promotion
begin

text \<open>
  The memory of all confidential VMs together: which pages belong to which VM while VMs are promoted, share
  pages, run and are terminated on any number of harts.

  \<^item> \<open>tables_ok\<close> says of a family of root page tables that they are well-formed and own disjoint sets
    of pages, none of which is free; \<open>tables_synced\<close> that the raw entries in memory agree with the trees.
  \<^item> \<open>memory_inv\<close> states both of the tables of the control data, of the \<open>hgatp\<close> value of each VM, and
    of a table that is \<open>pending\<close> between its creation and the registration of its VM.
  \<^item> Every handler preserves \<open>memory_inv\<close>; the properties at the end state what that means for the
    pages a VM owns and for the addresses the hardware translates for it.
\<close>

section \<open>Families of page tables\<close>

abbreviation root_pages :: "root_page_table \<Rightarrow> page list" where
  "root_pages r \<equiv> table_pages (root_table r)"

definition tables_ok ::
    "memory_layout \<Rightarrow> 'z alloc_state_scheme \<Rightarrow> ('i \<rightharpoonup> root_page_table) \<Rightarrow> bool" where
  "tables_ok l s T \<longleftrightarrow> alloc_inv l s \<and> (\<forall>x. free_in s x \<le> 1)
     \<and> (\<forall>i r. T i = Some r \<longrightarrow> table_ok l (root_paging_system r) (root_table r) \<and> table_level (root_table r) = Level5
          \<and> (\<forall>x. free_in s x + owned (root_pages r) x \<le> 1))
     \<and> (\<forall>i j r q x. T i = Some r \<longrightarrow> T j = Some q \<longrightarrow> i \<noteq> j \<longrightarrow> owned (root_pages r) x + owned (root_pages q) x \<le> 1)"

definition tables_synced :: "(usize \<Rightarrow> usize) \<Rightarrow> ('i \<rightharpoonup> root_page_table) \<Rightarrow> bool" where
  "tables_synced m T \<longleftrightarrow> (\<forall>i r. T i = Some r \<longrightarrow> synced m (root_table r))"

definition holds_tables ::
    "memory_layout \<Rightarrow> bool \<Rightarrow> 'z alloc_state_scheme \<Rightarrow> ('i \<rightharpoonup> root_page_table) \<Rightarrow> bool" where
  "holds_tables l translated s T \<longleftrightarrow> tables_ok l s T \<and> (translated \<longrightarrow> tables_synced (confidential_memory s) T)"

lemma tables_okD:
  assumes "tables_ok l s T"
  shows "alloc_inv l s" "free_in s x \<le> 1"
    and "T i = Some r \<Longrightarrow> table_ok l (root_paging_system r) (root_table r)"
    and "T i = Some r \<Longrightarrow> table_level (root_table r) = Level5"
    and "T i = Some r \<Longrightarrow> free_in s x + owned (root_pages r) x \<le> 1"
    and "T i = Some r \<Longrightarrow> T j = Some q \<Longrightarrow> i \<noteq> j \<Longrightarrow> owned (root_pages r) x + owned (root_pages q) x \<le> 1"
  using assms unfolding tables_ok_def by blast+

lemma tables_okI:
  assumes "alloc_inv l s" "\<And>x. free_in s x \<le> 1"
    and "\<And>i r. T i = Some r \<Longrightarrow> table_ok l (root_paging_system r) (root_table r) \<and> table_level (root_table r) = Level5"
    and "\<And>i r x. T i = Some r \<Longrightarrow> free_in s x + owned (root_pages r) x \<le> 1"
    and "\<And>i j r q x. T i = Some r \<Longrightarrow> T j = Some q \<Longrightarrow> i \<noteq> j \<Longrightarrow> owned (root_pages r) x + owned (root_pages q) x \<le> 1"
  shows "tables_ok l s T"
  using assms unfolding tables_ok_def by blast

text \<open>A table stays synchronised while only memory of others is written.\<close>

lemma table_stays_synced:
  assumes "tables_ok l s T" "T i = Some r" "synced m (root_table r)"
    and "\<And>a. owned (root_pages r) (unat a) = 1 \<Longrightarrow> m' a = m a"
  shows "synced m' (root_table r)"
proof (rule entry_synced_frame(2) [OF tables_okD(3) [OF assms(1,2)] assms(3)])
  fix a :: usize assume "owned (root_pages r) (unat a) \<noteq> 0"
  with tables_okD(5) [OF assms(1,2), of "unat a"] have "owned (root_pages r) (unat a) = 1" by linarith
  then show "m' a = m a" by (rule assms(4))
qed

text \<open>The pool may shrink, and free memory may be written.\<close>

lemma holds_evolves:
  assumes "holds_tables l b s T" and "evolves l s t"
  shows "holds_tables l b t T"
proof -
  have ok0: "tables_ok l s T" using assms(1) by (simp add: holds_tables_def)
  note ok = tables_okD [OF ok0]
  have le: "free_in t x \<le> free_in s x" for x using assms(2) by (simp add: evolves_def)
  have "tables_ok l t T"
  proof (rule tables_okI)
    show "free_in t x \<le> 1" for x using le [of x] ok(2) [of x] by linarith
    show "free_in t x + owned (root_pages r) x \<le> 1" if "T i = Some r" for i r x
      using le [of x] ok(5) [OF that, of x] by linarith
  qed (use ok evolves_inv [OF assms(2)] in auto)
  moreover have "synced (confidential_memory t) (root_table r)"
    if "T i = Some r" "synced (confidential_memory s) (root_table r)" for i r
  proof (rule table_stays_synced [OF ok0 that])
    show "confidential_memory t a = confidential_memory s a" if "owned (root_pages r) (unat a) = 1" for a
      using that ok(5) [OF \<open>T i = Some r\<close>, of "unat a"] assms(2) by (simp add: evolves_def)
  qed
  ultimately show ?thesis using assms(1) by (auto simp: holds_tables_def tables_synced_def)
qed

lemma failed_evolves: "failed l s t \<Longrightarrow> evolves l s t"
  by (simp add: failed_def evolves_def)

text \<open>A new table takes its pages out of the pool.\<close>

lemma holds_insert:
  assumes holds: "holds_tables l b s T" and "evolves l s t" and "T i = None"
    and r: "table_ok l (root_paging_system r) (root_table r)" "table_level (root_table r) = Level5"
      "synced (confidential_memory t) (root_table r)"
    and own: "\<And>x. free_in s x = owned (root_pages r) x + free_in t x"
  shows "holds_tables l b t (T(i \<mapsto> r))"
proof -
  note ok = tables_okD [OF holds [unfolded holds_tables_def, THEN conjunct1]]
  note ok' = holds_evolves [OF assms(1,2), unfolded holds_tables_def]
  have both: "owned (root_pages r) x + owned (root_pages q) x \<le> 1" if "T j = Some q" for j q x
    using own [of x] ok(5) [OF that, of x] by linarith
  have "tables_ok l t (T(i \<mapsto> r))"
  proof (rule tables_okI)
    show "free_in t x + owned (root_pages q) x \<le> 1" if "(T(i \<mapsto> r)) j = Some q" for j q x
      using that tables_okD(5) [OF ok' [THEN conjunct1], of j q x] own [of x] ok(2) [of x]
      by (auto split: if_splits)
    show "owned (root_pages p) x + owned (root_pages q) x \<le> 1"
      if "(T(i \<mapsto> r)) j = Some p" "(T(i \<mapsto> r)) k = Some q" "j \<noteq> k" for j k p q x
      using that both [of j p x] both [of k q x] ok(6) [of j p k q x] by (auto simp: add.commute split: if_splits)
  qed (use r tables_okD [OF ok' [THEN conjunct1]] in \<open>auto split: if_splits\<close>)
  with ok' r(3) show ?thesis by (auto simp: holds_tables_def tables_synced_def)
qed

text \<open>A dropped table gives its pages back.\<close>

lemma holds_delete:
  assumes holds: "holds_tables l b s T" and i: "T i = Some r" and rel: "releases l (root_pages r) s t"
  shows "holds_tables l b t (T(i := None))"
proof -
  have ok0: "tables_ok l s T" using holds by (simp add: holds_tables_def)
  note ok = tables_okD [OF ok0]
  have free: "free_in t x = free_in s x + owned (root_pages r) x" for x using rel by (simp add: releases_def)
  have "tables_ok l t (T(i := None))"
  proof (rule tables_okI)
    show "free_in t x \<le> 1" for x using free [of x] ok(5) [OF i, of x] by simp
    show "free_in t x + owned (root_pages q) x \<le> 1" if "(T(i := None)) j = Some q" for j q x
      using that free [of x] ok(5) [OF i, of x] ok(5) [of j q x] ok(6) [OF i, of j q x]
      by (auto split: if_splits)
  qed (use ok releases_inv [OF rel] in \<open>auto split: if_splits\<close>)
  moreover have "synced (confidential_memory t) (root_table q)"
    if "T j = Some q" "synced (confidential_memory s) (root_table q)" "i \<noteq> j" for j q
  proof (rule table_stays_synced [OF ok0 that(1,2)])
    show "confidential_memory t a = confidential_memory s a" if "owned (root_pages q) (unat a) = 1" for a
      using that ok(6) [OF i \<open>T j = Some q\<close> \<open>i \<noteq> j\<close>, of "unat a"] rel by (simp add: releases_def)
  qed
  ultimately show ?thesis using holds by (auto simp: holds_tables_def tables_synced_def split: if_splits)
qed

text \<open>A table that maps a shared page gives the replaced page back.\<close>

lemma holds_remap:
  assumes holds: "holds_tables l b s T" and i: "T i = Some r"
    and map: "remaps l (root_paging_system r) (root_table r) s pt t"
  shows "holds_tables l b t (T(i \<mapsto> r\<lparr>root_table := pt\<rparr>))"
proof -
  have ok0: "tables_ok l s T" using holds by (simp add: holds_tables_def)
  note ok = tables_okD [OF ok0]
  note m = map [unfolded remaps_def]
  have free: "free_in t x + owned (table_pages pt) x = free_in s x + owned (root_pages r) x"
    and le: "owned (table_pages pt) x \<le> owned (root_pages r) x" for x using m by auto
  have three: "free_in t x + owned (root_pages q) x \<le> 1 \<and> owned (table_pages pt) x + owned (root_pages q) x \<le> 1"
    if "T j = Some q" "j \<noteq> i" for j q x
  proof -
    have "free_in s x + owned (root_pages q) x \<le> 1" "owned (root_pages q) x + owned (root_pages r) x \<le> 1"
      "free_in s x + owned (root_pages r) x \<le> 1"
      using ok(5) [OF that(1), of x] ok(5) [OF i, of x] ok(6) [OF that(1) i that(2), of x] by auto
    with free [of x] le [of x] show ?thesis by linarith
  qed
  let ?T = "T(i \<mapsto> r\<lparr>root_table := pt\<rparr>)"
  have "tables_ok l t ?T"
  proof (rule tables_okI)
    show "free_in t x \<le> 1" for x using free [of x] ok(5) [OF i, of x] by linarith
    show "free_in t x + owned (root_pages q) x \<le> 1" if "?T j = Some q" for j q x
      using that free [of x] ok(5) [OF i, of x] three [of j q x] by (auto split: if_splits)
    show "owned (root_pages p) x + owned (root_pages q) x \<le> 1"
      if "?T j = Some p" "?T k = Some q" "j \<noteq> k" for j k p q x
      using that three [of j p x] three [of k q x] ok(6) [of j p k q x] by (auto simp: add.commute split: if_splits)
  qed (use ok m i in \<open>auto split: if_splits\<close>)
  moreover have "synced (confidential_memory t) (root_table q)"
    if "T j = Some q" "synced (confidential_memory s) (root_table q)" "i \<noteq> j" for j q
  proof (rule table_stays_synced [OF ok0 that(1,2)])
    show "confidential_memory t a = confidential_memory s a" if "owned (root_pages q) (unat a) = 1" for a
      using that ok(6) [OF i \<open>T j = Some q\<close> \<open>i \<noteq> j\<close>, of "unat a"] m by simp
  qed
  ultimately show ?thesis using holds m i by (auto simp: holds_tables_def tables_synced_def split: if_splits)
qed

text \<open>The names of the tables do not matter.\<close>

lemma holds_rename:
  assumes "holds_tables l b s T" and "\<And>i j r. U i = Some r \<Longrightarrow> U j \<noteq> None \<Longrightarrow> f i = f j \<Longrightarrow> i = j"
    and "\<And>i r. U i = Some r \<Longrightarrow> T (f i) = Some r"
  shows "holds_tables l b s U"
proof -
  note ok = tables_okD [OF assms(1) [unfolded holds_tables_def, THEN conjunct1]]
  have "tables_ok l s U"
    by (rule tables_okI) (use ok assms(2,3) in \<open>blast | metis option.distinct(1)\<close>)+
  then show ?thesis using assms(1,3) by (auto simp: holds_tables_def tables_synced_def)
qed

section \<open>The tables of the control data\<close>

definition vm_root :: "confidential_vm \<Rightarrow> root_page_table" where
  "vm_root vm = protector_root_page_table (memory_protector vm)"

definition roots ::
    "root_page_table option \<Rightarrow> (confidential_vm_id \<rightharpoonup> confidential_vm) \<Rightarrow> confidential_vm_id option \<rightharpoonup> root_page_table" where
  "roots pending vms i = (case i of None \<Rightarrow> pending | Some k \<Rightarrow> map_option vm_root (vms k))"

text \<open>The value of \<open>hgatp\<close> the monitor installs for a VM names its root page table.\<close>

definition activates_root :: "confidential_vm_id \<Rightarrow> confidential_vm_memory_protector \<Rightarrow> bool" where
  "activates_root k mp \<longleftrightarrow> (\<exists>address. RootPageTable_address (protector_root_page_table mp) = Ok address
     \<and> protector_hgatp mp = hgatp_bits (Hgatp_new address
         (hgatp_mode_of (root_paging_system (protector_root_page_table mp))) k))"

definition memory_inv ::
    "memory_layout \<Rightarrow> bool \<Rightarrow> root_page_table option \<Rightarrow> 'z monitor_scheme \<Rightarrow> bool" where
  "memory_inv l translated pending s \<longleftrightarrow> holds_tables l translated s (roots pending (vm_table s))
     \<and> (\<forall>k vm. vm_table s k = Some vm \<longrightarrow> activates_root k (memory_protector vm))"

abbreviation preserves :: "memory_layout \<Rightarrow> bool \<Rightarrow> ('z monitor_scheme, 'e, 'a) st \<Rightarrow> bool" where
  "preserves l b m \<equiv> run (\<lambda>_ _. True) (memory_inv l b None) m (\<lambda>_. memory_inv l b None) (memory_inv l b None)"

lemma roots_simps [simp]:
  "roots p vms None = p" "roots p vms (Some k) = map_option vm_root (vms k)"
  by (simp_all add: roots_def)

lemma roots_update:
  "(roots p vms)(Some k \<mapsto> r) = roots p (vms(k \<mapsto> vm))" if "vm_root vm = r" for vm
  using that by (auto simp: roots_def fun_eq_iff split: option.splits)

lemma roots_delete: "(roots p vms)(Some k := None) = roots p (vms(k := None))"
  by (auto simp: roots_def fun_eq_iff split: option.splits)

lemma roots_pending: "(roots p vms)(None := q) = roots q vms"
  by (auto simp: roots_def fun_eq_iff split: option.splits)

text \<open>What the invariant depends on.\<close>

definition same_memory :: "'z monitor_scheme \<Rightarrow> 'z monitor_scheme \<Rightarrow> bool" where
  "same_memory s t \<longleftrightarrow> confidential_memory t = confidential_memory s
     \<and> global_allocator t = global_allocator s \<and> CONTROL_DATA t = CONTROL_DATA s"

interpretation same_memory: transition same_memory
  by unfold_locales (auto simp: same_memory_def)

lemma holds_tables_congr:
  assumes "confidential_memory t = confidential_memory s" "global_allocator t = global_allocator s"
  shows "holds_tables l b t T = holds_tables l b s T"
  using assms by (simp add: holds_tables_def tables_ok_def alloc_inv_def free_in_def)

lemma memory_inv_congr:
  assumes "confidential_memory t = confidential_memory s" "global_allocator t = global_allocator s"
    and "vm_table t = vm_table s"
  shows "memory_inv l b p t = memory_inv l b p s"
  unfolding memory_inv_def assms(3) holds_tables_congr [OF assms(1,2)] by (rule refl)

lemma same_memory_inv: "same_memory s t \<Longrightarrow> memory_inv l b p t = memory_inv l b p s"
  by (rule memory_inv_congr) (simp_all add: same_memory_def vm_table_def)

lemma keeps_inv:
  assumes "run same_memory (\<lambda>_. True) m (\<lambda>_ _. True) (\<lambda>_. True)"
  shows "run (\<lambda>_ _. True) (memory_inv l b p) m (\<lambda>_. memory_inv l b p) (memory_inv l b p)"
  by (rule runI) (use run_Ok [OF assms] run_Err [OF assms] same_memory_inv in blast)+

abbreviation keeps_memory :: "('z monitor_scheme, 'e, 'a) st \<Rightarrow> bool" where
  "keeps_memory m \<equiv> run same_memory (\<lambda>_. True) m (\<lambda>_ _. True) (\<lambda>_. True)"

lemma memory_simps [simp]:
  "confidential_memory (set_assigned_hart h s) = confidential_memory s"
  "global_allocator (set_assigned_hart h s) = global_allocator s"
  "confidential_memory (update_hypervisor_state f s) = confidential_memory s"
  "global_allocator (update_hypervisor_state f s) = global_allocator s"
  "confidential_memory (write_csr r v s) = confidential_memory s"
  "global_allocator (write_csr r v s) = global_allocator s"
  "confidential_memory (set_csr_bit r n s) = confidential_memory s"
  "global_allocator (set_csr_bit r n s) = global_allocator s"
  "confidential_memory (clear_csr_bit r n s) = confidential_memory s"
  "global_allocator (clear_csr_bit r n s) = global_allocator s"
  "confidential_memory (swap_mscratch s) = confidential_memory s"
  "global_allocator (swap_mscratch s) = global_allocator s"
  "confidential_memory (tlb_shutdown s) = confidential_memory s"
  "global_allocator (tlb_shutdown s) = global_allocator s"
  by (simp_all add: set_assigned_hart_def update_hypervisor_state_def write_csr_def set_csr_bit_def clear_csr_bit_def
      swap_mscratch_def tlb_shutdown_def execute_fence_def Let_def)

lemma same_memory_simps [simp]:
  "same_memory s (set_assigned_hart h s)" "same_memory s (update_hypervisor_state f s)"
  "same_memory s (write_csr r v s)" "same_memory s (swap_mscratch s)"
  "same_memory s (s\<lparr>csrs := c\<rparr>)" "same_memory s (s\<lparr>fences := q\<rparr>)"
  by (simp_all add: same_memory_def swap_mscratch_def Let_def)

section \<open>Steps that touch neither memory nor page tables\<close>

lemma keeps_on_assigned_hart: "keeps_memory (on_assigned_hart f)"
  by (rule runI) (auto simp: on_assigned_hart_def same_memory.refl split: result.splits)

lemma keeps_modify: "(\<And>s. same_memory s (f s)) \<Longrightarrow> keeps_memory (modify f)"
  by (rule runI) (auto simp: modify_def)

lemma keeps_apply: "keeps_memory (apply_to_assigned_hart t)"
  unfolding apply_to_assigned_hart_def by (intro same_memory.keep keeps_on_assigned_hart keeps_modify) simp

lemma keeps_exit_to_confidential_hart: "keeps_memory (exit_to_confidential_hart env t)"
  unfolding exit_to_confidential_hart_def by (intro same_memory.keep keeps_apply keeps_modify) simp

lemma same_memory_volatile:
  "same_memory s (HardwareHart_load_volatile s)" "same_memory s (HardwareHart_store_volatile s)"
  "same_memory s (restore_original_gprs s)"
  by (auto simp: same_memory_def HardwareHart_load_volatile_def HardwareHart_store_volatile_def
      restore_original_gprs_def Let_def)

lemma keeps_HardwareHart_apply: "keeps_memory (HardwareHart_apply t)"
  by (cases t)
     (auto simp: HardwareHart_apply_def apply_sbi_request_def apply_sbi_vm_request_def apply_mmio_load_request_def
       apply_mmio_store_request_def apply_interrupt_request_def Let_def same_memory_def run_def
       HardwareHart_apply_sbi_result_def apply_opensbi_result_def apply_enabled_interrupts_def add_usize_def
       apply_trap_def split: if_splits)

lemma keeps_exit_to_hypervisor: "keeps_memory (exit_to_hypervisor t)"
  unfolding exit_to_hypervisor_def
  by (intro same_memory.keep keeps_HardwareHart_apply keeps_modify same_memory_volatile)

lemma keeps_flow: "keeps_memory flow_vm_id" "keeps_memory NonConfidentialFlow_create" "keeps_memory ConfidentialFlow_create"
  by (rule runI; auto simp: flow_vm_id_def NonConfidentialFlow_create_def ConfidentialFlow_create_def same_memory.refl)+

section \<open>Closures on a confidential VM\<close>

definition vm_inv ::
    "memory_layout \<Rightarrow> bool \<Rightarrow> control_data \<Rightarrow> confidential_vm_id \<Rightarrow> confidential_vm \<times> 'z monitor_scheme \<Rightarrow> bool" where
  "vm_inv l b cd k = (\<lambda>(vm, s). memory_inv l b None
     (s\<lparr>CONTROL_DATA := Some (cd\<lparr>confidential_vms := AList.update k vm (confidential_vms cd)\<rparr>)\<rparr>))"

lemma vm_inv_start:
  assumes "memory_inv l b None s" "CONTROL_DATA s = Some cd" "map_of (confidential_vms cd) k = Some vm"
  shows "vm_inv l b cd k (vm, s)"
proof -
  have "vm_table (s\<lparr>CONTROL_DATA := Some (cd\<lparr>confidential_vms := AList.update k vm (confidential_vms cd)\<rparr>)\<rparr>) = vm_table s"
    using assms(2,3) by (simp add: vm_table_def update_conv' map_upd_triv)
  from memory_inv_congr [OF _ _ this] assms(1) show ?thesis by (simp add: vm_inv_def)
qed

lemma preserves_try_confidential_vm:
  assumes "\<And>cd. run (\<lambda>_ _. True) (vm_inv l b cd k) op (\<lambda>_. vm_inv l b cd k) (vm_inv l b cd k)"
  shows "preserves l b (try_confidential_vm k op)"
proof (rule runI, goal_cases)
  case (1 s a u)
  then obtain cd vm vm' t where cd: "CONTROL_DATA s = Some cd" "map_of (confidential_vms cd) k = Some vm"
    "op (vm, s) = (Ok a, (vm', t))"
    "u = t\<lparr>CONTROL_DATA := Some (cd\<lparr>confidential_vms := AList.update k vm' (confidential_vms cd)\<rparr>)\<rparr>"
    by (auto simp: try_confidential_vm_def ControlData_confidential_vm_def ok_or_def
        split: option.splits result.splits prod.splits)
  from run_Ok [OF assms vm_inv_start [OF 1(1) cd(1,2)] cd(3)] cd(4) show ?case by (simp add: vm_inv_def)
next
  case (2 s e u)
  then consider "u = s" | cd vm vm' t where "CONTROL_DATA s = Some cd" "map_of (confidential_vms cd) k = Some vm"
    "op (vm, s) = (Err e, (vm', t))"
    "u = t\<lparr>CONTROL_DATA := Some (cd\<lparr>confidential_vms := AList.update k vm' (confidential_vms cd)\<rparr>)\<rparr>"
    by (auto simp: try_confidential_vm_def ControlData_confidential_vm_def ok_or_def
        split: option.splits result.splits prod.splits)
  then show ?case
  proof cases
    case 2
    from run_Err [OF assms vm_inv_start [OF \<open>memory_inv l b None s\<close> 2(1,2)] 2(3)] 2(4) show ?thesis
      by (simp add: vm_inv_def)
  qed (use 2(1) in simp)
qed

definition same_vm_memory ::
    "confidential_vm \<times> 'z monitor_scheme \<Rightarrow> confidential_vm \<times> 'z monitor_scheme \<Rightarrow> bool" where
  "same_vm_memory = (\<lambda>(vm, s) (vm', t). memory_protector vm' = memory_protector vm
     \<and> confidential_memory t = confidential_memory s \<and> global_allocator t = global_allocator s)"

interpretation same_vm_memory: transition same_vm_memory
  by unfold_locales (auto simp: same_vm_memory_def)

abbreviation keeps_vm_memory :: "(confidential_vm \<times> 'z monitor_scheme, 'e, 'a) st \<Rightarrow> bool" where
  "keeps_vm_memory m \<equiv> run same_vm_memory (\<lambda>_. True) m (\<lambda>_ _. True) (\<lambda>_. True)"

lemma same_vm_memory_inv:
  assumes "same_vm_memory vs us" "vm_inv l b cd k vs"
  shows "vm_inv l b cd k us"
proof -
  obtain vm s vm' t where eq: "vs = (vm, s)" "us = (vm', t)" by (cases vs; cases us)
  have same: "memory_protector vm' = memory_protector vm" "confidential_memory t = confidential_memory s"
    "global_allocator t = global_allocator s" using assms(1) by (auto simp: same_vm_memory_def eq)
  have r: "roots None ((map_of (confidential_vms cd))(k \<mapsto> vm')) = roots None ((map_of (confidential_vms cd))(k \<mapsto> vm))"
    using same(1) by (auto simp: roots_def fun_eq_iff vm_root_def split: option.splits)
  have "holds_tables l b (t\<lparr>CONTROL_DATA := c\<rparr>) T = holds_tables l b (s\<lparr>CONTROL_DATA := d\<rparr>) T"
    for c d and T :: "confidential_vm_id option \<rightharpoonup> root_page_table"
    using same by (intro holds_tables_congr) simp_all
  with assms(2) same(1) r show ?thesis
    by (auto simp: vm_inv_def eq memory_inv_def update_conv' split: if_splits)
qed

lemma preserves_vm_closure:
  assumes "keeps_vm_memory op"
  shows "preserves l b (try_confidential_vm k op)"
  by (rule preserves_try_confidential_vm, rule runI)
     (use run_Ok [OF assms] run_Err [OF assms] same_vm_memory_inv in blast)+

lemma same_memory_vm: "same_memory s t \<Longrightarrow> memory_protector vm' = memory_protector vm \<Longrightarrow> same_vm_memory (vm, s) (vm', t)"
  by (simp add: same_memory_def same_vm_memory_def)

lemma memory_switch_simps [simp]:
  "confidential_memory (open_access_to_confidential_memory s) = confidential_memory s"
  "global_allocator (open_access_to_confidential_memory s) = global_allocator s"
  "confidential_memory (close_access_to_confidential_memory s) = confidential_memory s"
  "global_allocator (close_access_to_confidential_memory s) = global_allocator s"
  "confidential_memory (enable_address_translation v s) = confidential_memory s"
  "global_allocator (enable_address_translation v s) = global_allocator s"
  by (simp_all add: open_access_to_confidential_memory_def close_access_to_confidential_memory_def clear_caches_def
      enable_address_translation_def write_csr_def execute_fence_def Let_def split: prod.splits)

lemma keeps_steal: "keeps_vm_memory (steal_confidential_hart i)"
  by (rule runI)
     (auto simp: steal_confidential_hart_def same_vm_memory_def HardwareHart_store_control_status_registers_def
       ConfidentialHart_load_control_status_registers_def protector_enable_def Let_def
       split: prod.splits option.splits if_splits)

lemma keeps_return: "keeps_vm_memory return_confidential_hart"
  by (rule runI)
     (auto simp: return_confidential_hart_def same_vm_memory_def Let_def
       HardwareHart_load_control_status_registers_def HardwareHart_apply_def apply_enabled_interrupts_def
       enable_hypervisor_memory_protector_def HypervisorMemoryProtector_enable_def
       split: prod.splits if_splits)

lemma keeps_transit: "keeps_vm_memory (transit_confidential_hart_to_start_pending r)"
  by (rule runI)
     (auto simp: transit_confidential_hart_to_start_pending_def same_vm_memory_def
       split: prod.splits option.splits result.splits)

lemma keeps_deliver: "keeps_vm_memory (deliver_request env r i)"
  by (rule runI)
     (auto simp: deliver_request_def same_vm_memory_def try_inter_hart_requests_def send_ipi_def Let_def
       split: prod.splits option.splits result.splits if_splits)

lemma keeps_deliver_all: "keeps_vm_memory (for_each (deliver_request env r) is)"
  by (intro same_vm_memory.loop keeps_deliver)

lemma keeps_broadcast: "keeps_vm_memory (ConfidentialVm_broadcast_inter_hart_request env r)"
  by (rule runI)
     (auto simp: ConfidentialVm_broadcast_inter_hart_request_def dest: run_Ok [OF keeps_deliver_all TrueI]
       run_Err [OF keeps_deliver_all TrueI])

section \<open>Handlers\<close>

lemma preserves_keep: "keeps_memory m \<Longrightarrow> preserves l b m"
  by (rule keeps_inv)

lemma preserves_bind: "preserves l b m \<Longrightarrow> (\<And>a. preserves l b (f a)) \<Longrightarrow> preserves l b (sbind m f)"
  by (rule anything.bind)

lemma preserves_lift: "preserves l b (lift r)"
  by (intro preserves_keep same_memory.keep_lift)

lemma preserves_unwrap: "preserves l b m \<Longrightarrow> preserves l b (sunwrap m)"
  by (rule anything.unwrap) (erule run_weaken, simp_all)

lemma preserves_case:
  assumes "preserves l b m" and "\<And>a. preserves l b (f a)" and "\<And>e. preserves l b (g e)"
  shows "preserves l b (\<lambda>s. case m s of (Ok a, s) \<Rightarrow> f a s | (Err e, s) \<Rightarrow> g e s | (Panic, s) \<Rightarrow> (Panic, s))"
  using assms by (rule anything.both)

lemmas preserves_exit = preserves_keep [OF keeps_exit_to_confidential_hart] preserves_keep [OF keeps_exit_to_hypervisor]

lemma preserves_leave: "preserves l b into_non_confidential_flow"
proof -
  have "keeps_vm_memory (sbind return_confidential_hart (\<lambda>_. (\<lambda>(vm, s). case NonConfidentialFlow_create s of (r, s) \<Rightarrow> (r, (vm, s)))))"
    by (intro same_vm_memory.keep keeps_return)
       (rule runI, auto simp: NonConfidentialFlow_create_def same_vm_memory.refl)
  then show ?thesis
    unfolding into_non_confidential_flow_def
    by (intro preserves_bind preserves_unwrap preserves_vm_closure preserves_keep [OF keeps_flow(1)])
qed

lemmas preserves_basic = preserves_bind preserves_exit preserves_leave preserves_lift
  preserves_keep [OF keeps_on_assigned_hart] preserves_keep [OF keeps_flow(1)]

lemma preserves_exit_with: "preserves l b m \<Longrightarrow> preserves l b (exit_with env m t)"
  unfolding exit_with_def by (intro preserves_case preserves_exit)

lemma preserves_set_pending: "preserves l b m \<Longrightarrow> preserves l b (flow_set_pending_request env p m)"
  unfolding flow_set_pending_request_def by (intro preserves_case preserves_basic)

lemma preserves_broadcast: "preserves l b (broadcast_inter_hart_request env r)"
proof -
  have "keeps_vm_memory (\<lambda>(vm, s). case ConfidentialVm_broadcast_inter_hart_request env r (vm, swap_mscratch s) of
       (Panic, vs) \<Rightarrow> (Panic, vs) | (x, (vm, s)) \<Rightarrow> (x, (vm, swap_mscratch s)))"
    by (rule runI)
       (auto split: prod.splits result.splits simp: same_vm_memory_def
         dest!: run_Ok [OF keeps_broadcast TrueI] run_Err [OF keeps_broadcast TrueI])
  then show ?thesis
    unfolding broadcast_inter_hart_request_def by (intro preserves_basic preserves_vm_closure)
qed

lemma preserves_process: "preserves l b process_inter_hart_requests"
proof -
  have loop: "keeps_memory (for_each (\<lambda>r. apply_to_assigned_hart (into_expose_to_confidential_vm r)) q)" for q
    by (intro same_memory.loop keeps_apply)
  have "keeps_vm_memory (\<lambda>(vm, s).
       case try_inter_hart_requests (flow_hart_id s) (\<lambda>q. (Ok q, [])) (vm, s) of
         (Ok q, (vm, s)) \<Rightarrow>
           (case for_each (\<lambda>r. apply_to_assigned_hart (into_expose_to_confidential_vm r)) q s of
              (r, s) \<Rightarrow> (r, (vm, s)))
       | (Err e, vs) \<Rightarrow> (Err e, vs)
       | (Panic, vs) \<Rightarrow> (Panic, vs))"
    by (rule runI)
       (auto split: prod.splits result.splits option.splits simp: try_inter_hart_requests_def same_vm_memory.refl
         dest!: run_Ok [OF loop TrueI] run_Err [OF loop TrueI] intro!: same_memory_vm)
  then show ?thesis
    unfolding process_inter_hart_requests_def by (intro preserves_basic preserves_unwrap preserves_vm_closure)
qed

section \<open>Sharing a page\<close>

lemma SharedPage_new_ok:
  assumes "SharedPage_new l a q = Ok sp"
  shows "shared_ok l sp"
proof -
  let ?sz = "request_page_size q"
  have one: "unat (in_bytes ?sz - 1) = bytes ?sz - 1"
    by (cases ?sz) (simp_all add: in_bytes_def)
  have pos: "0 < bytes ?sz" by (cases ?sz) simp_all
  from assms have "is_in_non_confidential_range l a"
    "unat a + unat (in_bytes ?sz - 1) < unat (non_confidential_memory_end l)"
    "sp = \<lparr>hypervisor_address = a, confidential_vm_virtual_address = request_virtual_address q, shared_page_size = ?sz\<rparr>"
    by (auto simp: SharedPage_new_def Let_def res_simps NonConfidentialMemoryAddress_new_def
        non_confidential_address_at_offset_cases sub_usize_def split: if_splits)
  with one pos show ?thesis by (simp add: shared_ok_def)
qed

lemma vm_inv_iff:
  "vm_inv l b cd k (vm, s) \<longleftrightarrow> holds_tables l b s (roots None ((map_of (confidential_vms cd))(k \<mapsto> vm)))
     \<and> (\<forall>j v. ((map_of (confidential_vms cd))(k \<mapsto> vm)) j = Some v \<longrightarrow> activates_root j (memory_protector v))"
proof -
  have "holds_tables l b (s\<lparr>CONTROL_DATA := c\<rparr>) T = holds_tables l b s T"
    for c and T :: "confidential_vm_id option \<rightharpoonup> root_page_table"
    by (intro holds_tables_congr) simp_all
  then show ?thesis by (simp add: vm_inv_def memory_inv_def update_conv')
qed

lemma vm_inv_map_shared_page:
  assumes inv: "vm_inv l b cd k (vm, s)" and sp: "shared_ok l sp"
    and map: "protector_map_shared_page l sp (memory_protector vm) s = (x, u)"
  shows "case x of Ok p \<Rightarrow> vm_inv l b cd k (vm\<lparr>memory_protector := p\<rparr>, u) | Err e \<Rightarrow> vm_inv l b cd k (vm, u) | Panic \<Rightarrow> False"
proof -
  let ?vms = "(map_of (confidential_vms cd))(k \<mapsto> vm)" and ?r = "vm_root vm"
  note holds = inv [unfolded vm_inv_iff, THEN conjunct1]
  note ok = tables_okD [OF holds [unfolded holds_tables_def, THEN conjunct1]]
  have r: "roots None ?vms (Some k) = Some ?r" by simp
  obtain y t where m: "PageTable_map_shared_page l (root_paging_system ?r) sp (root_table ?r) s = (y, t)"
    by fastforce
  have mapped: "mapped l (root_paging_system ?r) sp (root_table ?r) s (y, t)"
    using map_shared_page_mapped [OF ok(3) [OF r] ok(1) ok(5) [OF r] sp] m by simp
  show ?thesis
  proof (cases y)
    case (Ok pt)
    with mapped have re: "remaps l (root_paging_system ?r) (root_table ?r) s pt t" by (simp add: mapped_def)
    let ?p = "(memory_protector vm)\<lparr>protector_root_page_table := ?r\<lparr>root_table := pt\<rparr>\<rparr>"
    have x: "x = Ok ?p" "u = tlb_shutdown t"
      using map m Ok by (auto simp: protector_map_shared_page_def RootPageTable_map_shared_page_def sbind_run ret_def vm_root_def)
    have "activates_root k (memory_protector vm)" using inv by (simp add: vm_inv_iff)
    with re have "activates_root k ?p"
      by (simp add: activates_root_def RootPageTable_address_def remaps_def vm_root_def)
    moreover have "(roots None ?vms)(Some k \<mapsto> ?r\<lparr>root_table := pt\<rparr>) = roots None (?vms(k \<mapsto> vm\<lparr>memory_protector := ?p\<rparr>))"
      by (rule roots_update) (simp add: vm_root_def)
    then have "holds_tables l b t (roots None (?vms(k \<mapsto> vm\<lparr>memory_protector := ?p\<rparr>)))"
      using holds_remap [OF holds r re] by (simp only:)
    then have "holds_tables l b u (roots None (?vms(k \<mapsto> vm\<lparr>memory_protector := ?p\<rparr>)))"
      by (subst holds_tables_congr [of u t]) (simp_all add: x)
    ultimately show ?thesis using inv by (simp add: x vm_inv_iff)
  next
    case (Err e)
    then have x: "x = Err e" "u = t" and "failed l s t"
      using map m mapped by (auto simp: protector_map_shared_page_def RootPageTable_map_shared_page_def sbind_run
          vm_root_def mapped_def)
    with holds_evolves [OF holds failed_evolves] inv show ?thesis by (simp add: vm_inv_iff)
  qed (use mapped in \<open>simp add: mapped_def\<close>)
qed

lemma preserves_map_shared_page:
  assumes "shared_ok l sp"
  shows "preserves l b (try_confidential_vm k (\<lambda>(vm, s).
       case protector_map_shared_page l sp (memory_protector vm) s of
         (Ok p, s) \<Rightarrow> (Ok (), (vm\<lparr>memory_protector := p\<rparr>, s))
       | (Err e, s) \<Rightarrow> (Err e, (vm, s))
       | (Panic, s) \<Rightarrow> (Panic, (vm, s))))"
  by (rule preserves_try_confidential_vm, rule runI)
     (auto split: prod.splits result.splits dest!: vm_inv_map_shared_page [OF _ assms])

section \<open>Removing and creating confidential VMs\<close>

text \<open>The table of a removed VM is pending until it is dropped.\<close>

lemma remove_pending:
  "run (\<lambda>_ _. True) (memory_inv l b None) (remove_confidential_vm k)
     (\<lambda>vm. memory_inv l b (Some (vm_root vm))) (memory_inv l b None)"
proof (rule runI, goal_cases)
  case (1 s vm t)
  then obtain cd where cd: "CONTROL_DATA s = Some cd" "map_of (confidential_vms cd) k = Some vm"
    "t = s\<lparr>CONTROL_DATA := Some (cd\<lparr>confidential_vms := AList.delete k (confidential_vms cd)\<rparr>)\<rparr>"
    by (auto simp: remove_confidential_vm_def control_data_try_write_def ControlData_confidential_vm_def
        ok_or_def split: option.splits prod.splits result.splits if_splits)
  then have tables: "vm_table t = (vm_table s)(k := None)" "vm_table s k = Some vm"
    by (simp_all add: vm_table_def delete_conv')
  have "holds_tables l b s (roots (Some (vm_root vm)) (vm_table t))"
    by (rule holds_rename [of l b s "roots None (vm_table s)" _ "case_option (Some k) Some"])
       (use 1(1) tables in \<open>auto simp: memory_inv_def roots_def split: option.splits if_splits\<close>)
  then have "holds_tables l b t (roots (Some (vm_root vm)) (vm_table t))"
    by (subst holds_tables_congr [of t s]) (simp_all add: cd(3))
  with 1(1) tables show ?case by (auto simp: memory_inv_def split: if_splits)
next
  case (2 s e t)
  then have "t = s\<lparr>CONTROL_DATA := CONTROL_DATA s\<rparr>"
    by (auto simp: remove_confidential_vm_def control_data_try_write_def ControlData_confidential_vm_def
        ok_or_def split: option.splits prod.splits result.splits if_splits)
  then show ?case using 2 by simp
qed

lemma drop_pending:
  "run (\<lambda>_ _. True) (memory_inv l b (Some r)) (drop_table (root_table r))
     (\<lambda>_. memory_inv l b None) (memory_inv l b None)"
proof (rule runI, goal_cases)
  case (1 s a t)
  have holds: "holds_tables l b s (roots (Some r) (vm_table s))" using 1(1) by (simp add: memory_inv_def)
  note ok = tables_okD [OF holds [unfolded holds_tables_def, THEN conjunct1]]
  have r: "roots (Some r) (vm_table s) None = Some r" by simp
  have "list_all (page_ok l) (root_pages r)" by (rule entry_pages_ok(2) [OF ok(3) [OF r]])
  from drop_table_releases(1) [OF ok(1) this] 1(2) have "releases l (root_pages r) s t" by auto
  from holds_delete [OF holds r this] have "holds_tables l b t (roots None (vm_table s))" by (simp add: roots_pending)
  moreover have "vm_table t = vm_table s"
    using vm_table_view run_Ok [OF view_frame [OF keeps_frame_drop(1)] TrueI 1(2)] by blast
  ultimately show ?case using 1(1) by (simp add: memory_inv_def)
qed (auto dest: run_Err [OF no_error_drop(1) TrueI])

lemma preserves_remove_and_drop: "preserves l b (sbind (remove_confidential_vm k) drop_vm)"
  by (rule anything.bind [OF remove_pending])
     (use drop_pending [of l b] in \<open>simp add: drop_vm_def [abs_def] vm_root_def\<close>)

lemma preserves_drop_removed_vm:
  "preserves l b (\<lambda>s. case remove_confidential_vm k s of
     (Ok vm, s) \<Rightarrow> drop_vm vm s | (Err e, s) \<Rightarrow> (Ok (), s) | (Panic, s) \<Rightarrow> (Panic, s))"
proof -
  have drop: "run (\<lambda>_ _. True) (memory_inv l b (Some (vm_root vm))) (drop_vm vm) (\<lambda>_. memory_inv l b None)
      (memory_inv l b None)" for vm
    using drop_pending [of l b "vm_root vm"] by (simp add: drop_vm_def vm_root_def)
  show ?thesis
  proof (rule runI, goal_cases)
    case (1 s a t)
    then consider vm u where "remove_confidential_vm k s = (Ok vm, u)" "drop_vm vm u = (Ok a, t)"
      | e where "remove_confidential_vm k s = (Err e, t)"
      by (auto split: prod.splits result.splits)
    then show ?case
      by cases (use run_Ok [OF remove_pending 1(1)] run_Err [OF remove_pending 1(1)] run_Ok [OF drop] in blast)+
  next
    case (2 s e t)
    then show ?case by (auto split: prod.splits result.splits simp: drop_vm_no_error)
  qed
qed

text \<open>The copied table is pending until its VM is registered.\<close>

lemma copy_pending:
  "run (\<lambda>_ _. True) (memory_inv l b None) (RootPageTable_copy_from_non_confidential_memory l a ps)
     (\<lambda>r. memory_inv l b (Some r)) (memory_inv l b None)"
proof (rule runI, goal_cases)
  case (1 s r t)
  then obtain pt where copy: "PageTable_copy_from_non_confidential_memory l ps (levels ps) a s = (Ok pt, t)"
    and r: "r = \<lparr>root_paging_system = ps, root_table = pt\<rparr>"
    by (auto simp: RootPageTable_copy_from_non_confidential_memory_def res_simps)
  have holds: "holds_tables l b s (roots None (vm_table s))" using 1(1) by (simp add: memory_inv_def)
  note ok = tables_okD [OF holds [unfolded holds_tables_def, THEN conjunct1]]
  have ex: "exclusive (free_in s)" using ok(2) by (simp add: exclusive_def)
  note C = PageTable_copy_copies [of l ps "levels ps", unfolded copies_table_def, rule_format, OF ok(1) ex copy]
  have "holds_tables l b t ((roots None (vm_table s))(None \<mapsto> r))"
    by (rule holds_insert [OF holds]) (use C r in \<open>auto simp: levels_depth\<close>)
  moreover have "vm_table t = vm_table s"
    using vm_table_view run_Ok [OF view_frame [OF keeps_frame_copy_table] TrueI copy] by blast
  ultimately show ?case using 1(1) by (simp add: memory_inv_def roots_pending)
next
  case (2 s e t)
  then have copy: "PageTable_copy_from_non_confidential_memory l ps (levels ps) a s = (Err e, t)"
    by (auto simp: RootPageTable_copy_from_non_confidential_memory_def sbind_def ret_def split: prod.splits result.splits)
  have holds: "holds_tables l b s (roots None (vm_table s))" using 2(1) by (simp add: memory_inv_def)
  note ok = tables_okD [OF holds [unfolded holds_tables_def, THEN conjunct1]]
  have ex: "exclusive (free_in s)" using ok(2) by (simp add: exclusive_def)
  note C = PageTable_copy_copies [of l ps "levels ps", unfolded copies_table_def, rule_format, OF ok(1) ex copy]
  have "vm_table t = vm_table s"
    using vm_table_view run_Err [OF view_frame [OF keeps_frame_copy_table] TrueI copy] by blast
  with holds_evolves [OF holds] C 2(1) show ?case by (simp add: memory_inv_def)
qed

lemma from_vm_state_pending:
  "run (\<lambda>_ _. True) (memory_inv l b None) (from_vm_state l h)
     (\<lambda>mp. memory_inv l b (Some (protector_root_page_table mp))) (memory_inv l b None)"
proof -
  have copy: "run (\<lambda>_ _. True) (memory_inv l b None) (copy_mmu_configuration_from_non_confidential_memory l g)
      (\<lambda>r. memory_inv l b (Some r)) (memory_inv l b None)" for g
    unfolding copy_mmu_configuration_from_non_confidential_memory_def
    by (rule anything.bind [OF preserves_lift] anything.bind [OF copy_pending] anything.ret | assumption)+
  show ?thesis
    unfolding from_vm_state_def by (rule anything.bind [OF copy], rule anything.ret) simp
qed

lemma register_pending:
  "run (\<lambda>_ _. True) (memory_inv l b (Some (protector_root_page_table mp))) (register_confidential_vm hs mp)
     (\<lambda>_. memory_inv l b None) (memory_inv l b (Some (protector_root_page_table mp)))"
proof (rule runI, goal_cases)
  case (1 s k t)
  let ?r = "protector_root_page_table mp"
  from 1(2) obtain cd vm i where c: "CONTROL_DATA s = Some cd" "unique_id cd = Ok i"
    "ConfidentialVm_new i hs (replicate 4 ConfidentialVmMeasurement_empty) mp = Ok vm"
    "t = s\<lparr>CONTROL_DATA := Some (cd\<lparr>confidential_vms := AList.update (vm_id vm) vm (confidential_vms cd)\<rparr>)\<rparr>"
    by (auto simp: register_confidential_vm_def control_data_try_write_def insert_confidential_vm_def Let_def
        split: option.splits prod.splits result.splits if_splits)
  from c(3) have vm: "vm_id vm = i" "vm_root vm = ?r" "activates_root i (memory_protector vm)"
    by (auto simp: ConfidentialVm_new_def protector_set_confidential_vm_id_def activates_root_def vm_root_def
        Let_def res_simps)
  have tables: "vm_table t = (vm_table s)(i \<mapsto> vm)" "vm_table s i = None"
    using c(1,4) vm(1) unique_id_fresh [OF c(2)] by (auto simp: vm_table_def update_conv')
  have "holds_tables l b s (roots None (vm_table t))"
    by (rule holds_rename [of l b s "roots (Some ?r) (vm_table s)" _
          "case_option None (\<lambda>j. if j = i then None else Some j)"])
       (use 1(1) tables vm(2) in \<open>auto simp: memory_inv_def roots_def split: option.splits if_splits\<close>)
  then have "holds_tables l b t (roots None (vm_table t))"
    by (subst holds_tables_congr [of t s]) (simp_all add: c(4))
  with 1(1) tables vm(3) show ?case by (auto simp: memory_inv_def split: if_splits)
next
  case (2 s e t)
  then have "t = s\<lparr>CONTROL_DATA := CONTROL_DATA s\<rparr>"
    by (auto simp: register_confidential_vm_def control_data_try_write_def insert_confidential_vm_def Let_def
        split: option.splits prod.splits result.splits if_splits)
  then show ?case using 2 by simp
qed

lemma preserves_create: "preserves l b (create_confidential_vm env q)" if "l = layout env"
proof (cases "PromoteToConfidentialVm_into q")
  case (Pair a h)
  have register: "run (\<lambda>_ _. True) (memory_inv l b (Some (protector_root_page_table mp)))
      (\<lambda>s. register_confidential_vm (create_confidential_harts env (csrs s) n h) mp s)
      (\<lambda>_. memory_inv l b None) (memory_inv l b (Some (protector_root_page_table mp)))" for mp n
    by (rule run_with_state [where m = "\<lambda>s. register_confidential_vm (create_confidential_harts env (csrs s) n h) mp"])
       (rule register_pending)
  have tree: "keeps_memory (read_device_tree env x)" for x
    by (rule runI) (auto simp: read_device_tree_def same_memory.refl)
  show ?thesis
    unfolding create_confidential_vm_def Pair prod.case that [symmetric]
    by (rule anything.bind [OF from_vm_state_pending], rule anything.clean_up [OF _ drop_pending],
        rule anything.bind [OF keeps_inv [OF same_memory.keep_lift]], rule anything.bind [OF keeps_inv [OF tree]],
        rule anything.bind [OF keeps_inv [OF same_memory.keep_lift]], rule register)
qed

section \<open>The handlers preserve the invariant\<close>

lemma preserves_state: "(\<And>s. preserves l b (m s)) \<Longrightarrow> preserves l b (\<lambda>s. m s s)"
  by (rule run_with_state)

lemma preserves_after:
  assumes "\<And>s. same_memory s (g s)" and "\<And>s. preserves l b (m s)"
  shows "preserves l b (\<lambda>s. m s (g s))"
  by (rule runI)
     (use run_Ok [OF assms(2)] run_Err [OF assms(2)] same_memory_inv [OF assms(1), of l b None] in blast)+

lemma preserves_shutdown: "preserves l b shutdown_confidential_hart"
  unfolding shutdown_confidential_hart_def by (intro preserves_basic preserves_drop_removed_vm)

lemma preserves_exit_on_interrupt: "preserves l b (exit_on_interrupt mip)"
  unfolding exit_on_interrupt_def by (simp add: preserves_basic)

lemma preserves_shutdown_or_exit:
  "preserves l b (\<lambda>s. if is_confidential_hart_shutdown s then shutdown_confidential_hart s else exit_on_interrupt mip s)"
  by (rule runI)
     (auto split: if_splits dest: run_Ok [OF preserves_shutdown] run_Err [OF preserves_shutdown]
       run_Ok [OF preserves_exit_on_interrupt] run_Err [OF preserves_exit_on_interrupt])

lemma preserves_interrupt: "preserves l b (interrupt env)"
  unfolding interrupt_def Let_def
  by (rule preserves_state [where m = "\<lambda>s. if read_csr (csrs s) CSR_MIP AND MIE_SSIP_MASK > 0
        then sbind process_inter_hart_requests (\<lambda>_ u. if is_confidential_hart_shutdown u
          then shutdown_confidential_hart u else exit_on_interrupt (read_csr (csrs s) CSR_MIP) u)
        else exit_on_interrupt (read_csr (csrs s) CSR_MIP)"])
     (simp add: preserves_exit_on_interrupt preserves_bind preserves_process preserves_shutdown_or_exit)

lemma preserves_invalid_call: "preserves l b (invalid_call env)"
  unfolding invalid_call_def
  by (rule preserves_state [where m = "\<lambda>s. exit_to_confidential_hart env
        (into_confidential_transformation (InvalidCall (read_csr (csrs s) CSR_MCAUSE)))"])
     (rule preserves_exit)

lemma preserves_srst: "preserves l b (sbi_srst env)"
  unfolding sbi_srst_def Let_def
  by (rule preserves_state [where m = "\<lambda>s s'. case broadcast_inter_hart_request env
        (InterHartSbiSrstSystemReset \<lparr>initiating_confidential_hart_id = flow_hart_id s\<rparr>) s' of
      (Ok _, s) \<Rightarrow> shutdown_confidential_hart s
    | (Err e, s) \<Rightarrow> exit_to_confidential_hart env (into_confidential_transformation e) s
    | (Panic, s) \<Rightarrow> (Panic, s)"])
     (intro preserves_case preserves_broadcast preserves_shutdown preserves_exit)

lemma preserves_share_page: "preserves l b (share_page env q)"
  unfolding share_page_def
  by (auto split: result.splits intro!: preserves_set_pending preserves_basic)

lemma preserves_unshare_page: "preserves l b (unshare_page env q)"
proof -
  have "keeps_vm_memory (\<lambda>(vm, s :: 'a monitor_scheme).
       case protector_unmap_shared_page a (memory_protector vm) s of
         (Ok p, s) \<Rightarrow> (Ok (), (vm\<lparr>memory_protector := p\<rparr>, s))
       | (Err e, s) \<Rightarrow> (Err e, (vm, s))
       | (Panic, s) \<Rightarrow> (Panic, (vm, s)))" for a
    by (rule runI)
       (auto simp: protector_unmap_shared_page_def RootPageTable_unmap_shared_page_def
         PageTable_unmap_shared_page_def lift_def split: prod.splits result.splits)
  then show ?thesis
    unfolding unshare_page_def
    by (auto split: result.splits intro!: preserves_exit_with preserves_vm_closure preserves_basic)
qed

lemma preserves_share_page_result: "preserves (layout env) b (share_page_result_handler env r q)"
  unfolding share_page_result_handler_def
  by (auto split: result.splits dest!: SharedPage_new_ok
      intro!: preserves_exit_with preserves_map_shared_page preserves_basic)

lemma preserves_page_faults:
  "preserves l b (guest_load_page_fault env q)" "preserves l b (guest_store_page_fault env u)"
  unfolding guest_load_page_fault_def guest_store_page_fault_def
  by (auto split: result.splits intro!: preserves_set_pending preserves_basic)

lemma preserves_calls:
  "preserves l b (hypercall env r)" "preserves l b (sbi_probe_extension env r)" "preserves l b (sbi_rfence_nop env)"
  "preserves l b (virtual_instruction_handler env v)" "preserves l b (sbi_ipi_handler env q)"
  unfolding hypercall_def sbi_probe_extension_def sbi_rfence_nop_def virtual_instruction_handler_def
    sbi_ipi_handler_def Let_def
  by (auto intro!: preserves_set_pending preserves_exit_with preserves_broadcast preserves_basic)

lemma preserves_hsm:
  "preserves l b (sbi_hsm_hart_start_handler env start)" "preserves l b (sbi_hsm_hart_stop_handler env)"
  "preserves l b (sbi_hsm_hart_suspend_handler env suspend)" "preserves l b (sbi_hsm_hart_status_handler env status)"
proof -
  show "preserves l b (sbi_hsm_hart_start_handler env start)" "preserves l b (sbi_hsm_hart_stop_handler env)"
    "preserves l b (sbi_hsm_hart_suspend_handler env suspend)"
    unfolding sbi_hsm_hart_start_handler_def sbi_hsm_hart_stop_handler_def sbi_hsm_hart_suspend_handler_def
    by (intro preserves_case preserves_set_pending preserves_vm_closure keeps_transit preserves_basic)+
  show "preserves l b (sbi_hsm_hart_status_handler env status)"
    unfolding sbi_hsm_hart_status_handler_def
    by (intro preserves_exit_with preserves_basic preserves_vm_closure)
       (rule runI, auto simp: same_vm_memory.refl)
qed

lemmas preserves_rules = preserves_shutdown preserves_interrupt preserves_invalid_call preserves_srst
  preserves_share_page preserves_unshare_page preserves_page_faults preserves_calls preserves_hsm preserves_lift

lemma preserves_confidential_trap: "preserves l b (handle_confidential_trap env trap h f)"
  unfolding handle_confidential_trap_def
  by (cases trap)
     (auto intro: preserves_rules split: sbi_extension.splits ace_extension.splits base_extension.splits
       ipi_extension.splits rfence_extension.splits hsm_extension.splits srst_extension.splits)

lemma preserves_response: "preserves (layout env) b (handle_response env p)"
  unfolding handle_response_def
  by (rule preserves_state)
     (auto intro: preserves_exit preserves_share_page_result split: option.splits pending_request.splits)

lemma preserves_resume_execution: "preserves (layout env) b (resume_confidential_hart_execution env)"
proof -
  have "preserves (layout env) b (\<lambda>s. case take_request (assigned_hart (hardware s)) of
      (p, h) \<Rightarrow> handle_response env p (set_assigned_hart h s))"
    unfolding split_beta
    by (rule preserves_after [where g = "\<lambda>s. set_assigned_hart (snd (take_request (assigned_hart (hardware s)))) s"])
       (simp, rule preserves_response)
  then show ?thesis
    unfolding resume_confidential_hart_execution_def
    by (intro preserves_bind preserves_keep [OF keeps_flow(3)] preserves_process)
qed

lemma preserves_route_confidential_flow: "preserves l b (route_confidential_flow env)"
proof -
  have store: "keeps_memory (\<lambda>s. on_assigned_hart (\<lambda>h. Ok (ConfidentialHart_store_volatile (csrs s) h)) s)"
    by (rule run_with_state) (rule keeps_on_assigned_hart)
  show ?thesis
    unfolding route_confidential_flow_def Let_def
    by (intro preserves_bind preserves_keep [OF store] preserves_keep [OF keeps_flow(3)]
        preserves_state [OF preserves_confidential_trap])
qed

lemma preserves_resume: "preserves (layout env) b (resume_confidential_hart env r)"
  unfolding resume_confidential_hart_def
  by (intro preserves_case preserves_vm_closure keeps_steal preserves_resume_execution preserves_exit)

lemma preserves_terminate: "preserves l b (terminate_confidential_vm r)"
  unfolding terminate_confidential_vm_def
  by (intro preserves_case preserves_remove_and_drop preserves_exit)

lemma preserves_promote: "preserves (layout env) b (promote_to_confidential_vm_handler env r)"
  unfolding promote_to_confidential_vm_handler_def
  by (intro preserves_case preserves_create [OF refl] preserves_exit)

lemma preserves_delegate: "preserves l b (delegate_to_opensbi env r)" "preserves l b (delegate_hypercall q)"
proof -
  show "preserves l b (delegate_to_opensbi env r)"
    unfolding delegate_to_opensbi_def Let_def split_beta
    by (rule preserves_after [where g = "\<lambda>s. swap_mscratch ((swap_mscratch s)\<lparr>csrs :=
            snd (sbi_trap_handler env (opensbi_regs r) (csrs (swap_mscratch s)))\<rparr>)"])
       (simp add: same_memory_def swap_mscratch_def Let_def, rule preserves_exit)
qed (simp add: delegate_hypercall_def preserves_exit)

lemma preserves_non_confidential_trap: "preserves (layout env) b (handle_non_confidential_trap env trap)"
  by (rule runI)
     (auto simp: handle_non_confidential_trap_def
       split: trap_cause.splits sbi_extension.splits ace_extension.splits
       dest: run_Ok [OF preserves_delegate(1)] run_Err [OF preserves_delegate(1)]
         run_Ok [OF preserves_resume] run_Err [OF preserves_resume] run_Ok [OF preserves_terminate]
         run_Err [OF preserves_terminate] run_Ok [OF preserves_promote] run_Err [OF preserves_promote]
         run_Ok [OF preserves_delegate(2)] run_Err [OF preserves_delegate(2)])

lemma preserves_route_non_confidential_flow: "preserves (layout env) b (route_non_confidential_flow env)"
proof -
  have reason: "same_memory s (snd (HardwareHart_trap_reason s))" for s
    using same_memory_volatile(3) [of s]
    by (auto simp: HardwareHart_trap_reason_def Let_def same_memory.refl split: trap_cause.splits sbi_extension.splits)
  have trap: "preserves (layout env) b (\<lambda>s. case HardwareHart_trap_reason s of
      (trap, s) \<Rightarrow> handle_non_confidential_trap env trap s)"
    unfolding split_beta
    by (rule preserves_after [where g = "\<lambda>s. snd (HardwareHart_trap_reason s)"])
       (rule reason, rule preserves_non_confidential_trap)
  show ?thesis
    unfolding route_non_confidential_flow_def
    by (intro preserves_bind preserves_keep [OF keeps_flow(2)] preserves_keep [OF keeps_modify]
        same_memory_volatile trap)
qed

end
