(* ===== verification/Flow_Properties.thy ===== *)
theory Flow_Properties
  imports Machine
begin

text \<open>
  Properties of the two flows: which exit the monitor takes, that it can always leave the confidential
  flow, what a context switch restores and what the hypervisor learns.

  \<^item> \<open>hypervisor_readable\<close> are the registers of the model that supervisor mode can read; it is defined from the
    numbers of the registers, not from what the code loads.
  \<^item> \<open>unrestored_csrs\<close> are those among them that the code does not write when it returns to the hypervisor.
  \<^item> The floating-point registers are not part of \<open>csr_file\<close> and \<open>hardware_hart\<close>: no code saves, clears or
    restores them, so they are outside these statements.
\<close>

section \<open>Exits\<close>

lemma route_confidential_flow_idle: "\<not> running s \<Longrightarrow> fst (route_confidential_flow env s) = Panic"
  by (simp add: route_confidential_flow_def sbind_def on_assigned_hart_def ConfidentialFlow_create_def running_def
      is_dummy_def ConfidentialHart_store_volatile_def)

lemma route_non_confidential_flow_running: "running s \<Longrightarrow> fst (route_non_confidential_flow env s) = Panic"
  by (simp add: route_non_confidential_flow_def sbind_def modify_def NonConfidentialFlow_create_def running_def
      HardwareHart_store_volatile_def update_hypervisor_state_def)

lemma exit_cases:
  assumes "run R P m exit_ok (\<lambda>_. False)" and "P s"
  shows "fst (m s) = Panic \<or> fst (m s) = Ok ExitToConfidentialHart \<and> running (snd (m s))
    \<or> fst (m s) = Ok ExitToHypervisor \<and> \<not> running (snd (m s))"
proof (cases "m s")
  case (Pair r t)
  show ?thesis
  proof (cases r)
    case (Ok x)
    then show ?thesis using run_Ok [OF assms(1,2), of x t] Pair by (cases x) (auto simp: exit_ok_def)
  next
    case (Err e)
    then show ?thesis using run_Err [OF assms(1,2), of e t] Pair by simp
  qed (simp add: Pair)
qed

text \<open>The monitor can always leave the confidential flow.\<close>

lemma into_non_confidential_flow_total:
  assumes "hart_inv l n others s" and "running s"
  shows "\<exists>t. into_non_confidential_flow s = (Ok (), t)"
proof -
  let ?h = "assigned_hart (hardware s)"
  obtain k where k: "hart_vm_id ?h = Some k" using assms(2) by (auto simp: running_def is_dummy_def)
  have ok: "control_ok (others(n := occupied s)) (vm_table s)" using assms(1) by (simp add: hart_inv_def)
  have occ: "(others(n := occupied s)) n = Some (k, confidential_hart_id ?h, csrs s CSR_HGATP)"
    by (simp add: occupied_Some [OF k])
  from seated_slot [OF ok occ] obtain vm where vm: "vm_table s k = Some vm" "vm_id vm = k"
    "unat (confidential_hart_id ?h) < length (confidential_harts vm)"
    "is_dummy (confidential_harts vm ! unat (confidential_hart_id ?h))" by metis
  then obtain cd where cd: "CONTROL_DATA s = Some cd" "map_of (confidential_vms cd) k = Some vm"
    by (auto simp: vm_table_def split: option.splits)
  obtain vm' t where ret: "return_confidential_hart (vm, s) = (Ok (), (vm', t))"
    "assigned_hart (hardware t) = confidential_harts vm ! unat (confidential_hart_id ?h)"
    using vm k assms(2)
    by (simp add: return_confidential_hart_def Let_def running_def HardwareHart_load_control_status_registers_def
        HardwareHart_apply_def ConfidentialHart_store_control_status_registers_def
        enable_hypervisor_memory_protector_def HypervisorMemoryProtector_enable_def apply_enabled_interrupts_def)
  then show ?thesis
    using vm cd k
    by (simp add: into_non_confidential_flow_def flow_vm_id_def sbind_def sunwrap_def try_confidential_vm_def
        ControlData_confidential_vm_def NonConfidentialFlow_create_def)
qed

lemma try_confidential_vm_eq_Ok:
  "try_confidential_vm k op s = (Ok a, t) \<longleftrightarrow> (\<exists>cd vm vm' u. CONTROL_DATA s = Some cd
     \<and> map_of (confidential_vms cd) k = Some vm \<and> op (vm, s) = (Ok a, (vm', u))
     \<and> t = u\<lparr>CONTROL_DATA := Some (cd\<lparr>confidential_vms := AList.update k vm' (confidential_vms cd)\<rparr>)\<rparr>)"
  by (auto simp: try_confidential_vm_def ControlData_confidential_vm_def ok_or_def
      split: option.splits result.splits prod.splits)

lemma into_non_confidential_flow_Ok:
  assumes "into_non_confidential_flow s = (Ok a, t)"
  shows "hypervisor_state t = hypervisor_state s" and "csrs t = csrs_on_leave (hypervisor_state s) (csrs s)"
proof -
  from assms obtain vm vm' u where "return_confidential_hart (vm, s) = (Ok (), (vm', u))"
    "hypervisor_state t = hypervisor_state u" "csrs t = csrs u"
    by (auto simp: into_non_confidential_flow_def flow_vm_id_def res_simps try_confidential_vm_eq_Ok
        NonConfidentialFlow_create_def)
  with return_Ok show "hypervisor_state t = hypervisor_state s" "csrs t = csrs_on_leave (hypervisor_state s) (csrs s)"
    by fastforce+
qed

text \<open>Runs that take each of the exits.\<close>

lemma steal_succeeds:
  assumes "unat i < length (confidential_harts vm)" and "is_executable (confidential_harts vm ! unat i)"
  shows "\<exists>vm' t. steal_confidential_hart i (vm, s) = (Ok (), (vm', t))"
  using assms by (simp add: steal_confidential_hart_def nth_hart_def is_executable_def Let_def split_beta)

lemma return_succeeds:
  assumes "hart_vm_id (assigned_hart (hardware s)) = Some (vm_id vm)"
    and "unat (confidential_hart_id (assigned_hart (hardware s))) < length (confidential_harts vm)"
  shows "\<exists>vm' t. return_confidential_hart (vm, s) = (Ok (), (vm', t))"
  using assms
  by (simp add: return_confidential_hart_def Let_def is_dummy_def HardwareHart_load_control_status_registers_def
      HardwareHart_apply_def ConfidentialHart_store_control_status_registers_def)

lemma route_confidential_flow_running:
  assumes "running s"
  defines "h \<equiv> ConfidentialHart_store_volatile (csrs s) (assigned_hart (hardware s))"
  shows "route_confidential_flow env s =
    handle_confidential_trap env (ConfidentialHart_trap_reason (csrs s) h) h (csrs s) (set_assigned_hart h s)"
  using assms(1)
  by (simp add: route_confidential_flow_def sbind_def on_assigned_hart_def ConfidentialFlow_create_def running_def h_def
      is_dummy_def store_volatile_identity Let_def)

lemma interrupt_leaves:
  assumes "hart_inv l n others s" and "running s" and "is_bit_enabled (csrs s CSR_MCAUSE) CAUSE_INTERRUPT_BIT"
    and "csrs s CSR_MIP = 0" and "dump (hypervisor_state s) CSR_MEPC = 0"
  shows "\<exists>t. route_confidential_flow env s = (Ok ExitToHypervisor, t)"
proof -
  let ?u = "set_assigned_hart (ConfidentialHart_store_volatile (csrs s) (assigned_hart (hardware s))) s"
  have u: "hart_inv l n others ?u" "running ?u"
    using maintains_assigned_hart [OF assms(2), of _ l n] store_volatile_identity assms(1)
    by (auto simp: maintains_def)
  obtain v where v: "into_non_confidential_flow ?u = (Ok (), v)" using into_non_confidential_flow_total [OF u] by blast
  have "dump (hypervisor_state v) CSR_MEPC = 0" using into_non_confidential_flow_Ok(1) [OF v] assms(5) by simp
  then have "\<exists>t. exit_to_hypervisor (ExposeSbiResult (SbiResult_success 0)) v = (Ok ExitToHypervisor, t)"
    by (simp add: exit_to_hypervisor_def sbind_def HardwareHart_apply_def HardwareHart_apply_sbi_result_def Let_def
        modify_def ret_def add_usize_def SbiResult_success_def set_gpr_def)
  with v assms(3,4) show ?thesis
    by (simp add: route_confidential_flow_running [OF assms(2)] handle_confidential_trap_def ConfidentialHart_trap_reason_def
        TrapCause_from_def interrupt_def exit_on_interrupt_def read_csr_def sbind_def)
qed

lemma fence_stays:
  assumes "running s" and "csrs s CSR_MCAUSE = 10" and "csrs s CSR_MEPC = 0"
    and "gpr (confidential_hart_state (assigned_hart (hardware s))) gpr_a7 = RfenceExtension_EXTID"
    and "gpr (confidential_hart_state (assigned_hart (hardware s))) gpr_a6 = 4"
  shows "\<exists>t. route_confidential_flow env s = (Ok ExitToConfidentialHart, t)"
proof -
  let ?h = "ConfidentialHart_store_volatile (csrs s) (assigned_hart (hardware s))"
  have "ConfidentialHart_trap_reason (csrs s) ?h = VsEcall (Rfence RemoteHfenceGvma)"
    using assms(2,4,5)
    by (simp add: ConfidentialHart_trap_reason_def ConfidentialHart_store_volatile_def TrapCause_from_def read_csr_def
        SbiExtension_decode_def extid_defs fid_defs is_bit_enabled_def cause_defs CAUSE_INTERRUPT_BIT_def Let_def gpr_def set_dump_def)
  moreover have "\<exists>g. ConfidentialHart_apply (ApplySbiResult (SbiResult_success 0)) ?h = Ok g"
    using assms(1,3)
    by (simp add: ConfidentialHart_apply_def hart_apply_defs running_def is_dummy_def add_usize_def set_dump_def read_csr_def
        ConfidentialHart_store_volatile_def SbiResult_success_def Let_def set_gpr_def)
  ultimately show ?thesis
    by (auto simp: route_confidential_flow_running [OF assms(1)] handle_confidential_trap_def sbi_rfence_nop_def
        exit_to_confidential_hart_def apply_to_assigned_hart_def on_assigned_hart_def sbind_def modify_def ret_def)
qed

lemma resume_enters:
  assumes "\<not> running s" and "csrs s CSR_MCAUSE = 9" and "gpr (hypervisor_state s) gpr_a7 = AceExtension_EXTID"
    and "gpr (hypervisor_state s) gpr_a6 = 1010" and "CONTROL_DATA s = Some cd" and "map_of (confidential_vms cd) (csrs s CSR_VSTVEC) = Some vm"
    and "unat (csrs s CSR_VSSCRATCH) < length (confidential_harts vm)"
    and h: "is_executable (confidential_harts vm ! unat (csrs s CSR_VSSCRATCH))"
      "hart_vm_id (confidential_harts vm ! unat (csrs s CSR_VSSCRATCH)) = Some (csrs s CSR_VSTVEC)"
      "confidential_hart_id (confidential_harts vm ! unat (csrs s CSR_VSSCRATCH)) = csrs s CSR_VSSCRATCH"
      "hart_pending_request (confidential_harts vm ! unat (csrs s CSR_VSSCRATCH)) = None"
    and "inter_hart_requests vm (csrs s CSR_VSSCRATCH) = Some []"
  shows "\<exists>t. route_non_confidential_flow env s = (Ok ExitToConfidentialHart, t)"
proof -
  define u where "u = restore_original_gprs (HardwareHart_store_volatile s)"
  have u: "csrs u = csrs s" "CONTROL_DATA u = CONTROL_DATA s"
    by (simp_all add: u_def restore_original_gprs_def HardwareHart_store_volatile_def)
  have "HardwareHart_trap_reason (HardwareHart_store_volatile s) = (HsEcall (Ace ResumeConfidentialHart), u)"
    using assms(2-4)
    by (simp add: HardwareHart_trap_reason_def HardwareHart_store_volatile_def u_def TrapCause_from_def read_csr_def
        SbiExtension_decode_def extid_defs fid_defs is_bit_enabled_def cause_defs CAUSE_INTERRUPT_BIT_def Let_def gpr_def set_dump_def)
  then have route: "route_non_confidential_flow env s = resume_confidential_hart env
      \<lparr>resume_confidential_vm_id = csrs s CSR_VSTVEC, resume_confidential_hart_id = csrs s CSR_VSSCRATCH\<rparr> u"
    using assms(1) u(1)
    by (simp add: route_non_confidential_flow_def sbind_def modify_def NonConfidentialFlow_create_def running_def
        HardwareHart_store_volatile_def handle_non_confidential_trap_def HardwareHart_resume_request_def
        read_security_monitor_call_arguments_def read_csr_def)
  let ?i = "csrs s CSR_VSSCRATCH"
  obtain vm' t where st: "steal_confidential_hart ?i (vm, u) = (Ok (), (vm', t))"
    using steal_succeeds [OF assms(7) h(1), of u] by blast
  note steal = steal_Ok [OF st]
  let ?t = "t\<lparr>CONTROL_DATA := Some (cd\<lparr>confidential_vms := AList.update (csrs s CSR_VSTVEC) vm' (confidential_vms cd)\<rparr>)\<rparr>"
  have "try_confidential_vm (csrs s CSR_VSTVEC) (steal_confidential_hart ?i) u = (Ok (), ?t)"
    using st assms(5,6) u(2) by (simp add: try_confidential_vm_eq_Ok)
  moreover have "\<exists>v. resume_confidential_hart_execution env ?t = (Ok ExitToConfidentialHart, v)"
    using steal h assms(12)
    by (simp add: resume_confidential_hart_execution_def process_inter_hart_requests_def flow_vm_id_def flow_hart_id_def
        sbind_def ConfidentialFlow_create_def is_dummy_def sunwrap_def try_confidential_vm_def update_conv'
        ControlData_confidential_vm_def try_inter_hart_requests_def apply_injected_interrupts_def confidential_hart_id_def
        take_request_def handle_response_def exit_to_confidential_hart_def apply_to_assigned_hart_def
        on_assigned_hart_def ConfidentialHart_apply_def modify_def ret_def lift_def)
  ultimately show ?thesis unfolding route resume_confidential_hart_def by auto
qed

lemma interrupt_delegated:
  assumes "\<not> running s" and "is_bit_enabled (csrs s CSR_MCAUSE) CAUSE_INTERRUPT_BIT"
  shows "\<exists>t. route_non_confidential_flow env s = (Ok ExitToHypervisor, t)"
  using assms
  by (simp add: route_non_confidential_flow_def sbind_def modify_def NonConfidentialFlow_create_def running_def
      HardwareHart_store_volatile_def HardwareHart_trap_reason_def TrapCause_from_def handle_non_confidential_trap_def
      delegate_to_opensbi_def exit_to_hypervisor_def HardwareHart_apply_def ret_def read_csr_def split_beta Let_def)

text \<open>C13: Both entry points of the monitor end in one of the two exits or panic, never in an error that
  nobody handles: the exit to a confidential hart is taken only while a confidential hart is assigned to
  the hardware hart, and the exit to the hypervisor only when none is.\<close>

theorem exits_match_assigned_hart:
  assumes "opensbi_keeps_protection env"
  shows "(fst (route_confidential_flow env s) = Panic
      \<or> fst (route_confidential_flow env s) = Ok ExitToConfidentialHart \<and> running (snd (route_confidential_flow env s))
      \<or> fst (route_confidential_flow env s) = Ok ExitToHypervisor \<and> \<not> running (snd (route_confidential_flow env s)))
    \<and> (fst (route_non_confidential_flow env s) = Panic
      \<or> fst (route_non_confidential_flow env s) = Ok ExitToConfidentialHart
          \<and> running (snd (route_non_confidential_flow env s))
      \<or> fst (route_non_confidential_flow env s) = Ok ExitToHypervisor
          \<and> \<not> running (snd (route_non_confidential_flow env s)))"
  using exit_cases [OF handles_route_confidential_flow, of s env]
    exit_cases [OF serves_route_non_confidential_flow [OF assms], of s]
    route_confidential_flow_idle route_non_confidential_flow_running
  by blast

definition example_fence_state :: monitor where
  "example_fence_state = set_assigned_hart (update_hart_state (\<lambda>h. set_gpr gpr_a7 RfenceExtension_EXTID (set_gpr gpr_a6 4 h))
     example_confidential_hart) (example_monitor\<lparr>csrs := example_csrs(CSR_MCAUSE := 10)\<rparr>)"

definition example_interrupt_state :: "usize \<Rightarrow> monitor" where
  "example_interrupt_state n = (view_of example_vm_machine n)
     \<lparr>csrs := (csrs (view_of example_vm_machine n))(CSR_MCAUSE := push_bit CAUSE_INTERRUPT_BIT 1)\<rparr>"

definition example_resume_state :: monitor where
  "example_resume_state = update_hypervisor_state (\<lambda>h. set_gpr gpr_a7 AceExtension_EXTID (set_gpr gpr_a6 1010 h))
     (example_monitor\<lparr>CONTROL_DATA := Some \<lparr>confidential_vms = [(7, example_vm)]\<rparr>,
        csrs := example_csrs(CSR_MCAUSE := 9, CSR_VSTVEC := 7, CSR_VSSCRATCH := 0)\<rparr>)"

theorem exits_match_assigned_hart_witness:
  "fst (route_confidential_flow example_environment example_fence_state) = Ok ExitToConfidentialHart
   \<and> running (snd (route_confidential_flow example_environment example_fence_state))
   \<and> fst (route_confidential_flow example_environment (example_interrupt_state 3)) = Ok ExitToHypervisor
   \<and> \<not> running (snd (route_confidential_flow example_environment (example_interrupt_state 3)))
   \<and> fst (route_non_confidential_flow example_environment (example_interrupt_state 0)) = Ok ExitToHypervisor
   \<and> \<not> running (snd (route_non_confidential_flow example_environment (example_interrupt_state 0)))
   \<and> fst (route_non_confidential_flow example_environment example_resume_state) = Ok ExitToConfidentialHart
   \<and> running (snd (route_non_confidential_flow example_environment example_resume_state))"
proof -
  let ?env = example_environment
  have run: "running example_fence_state"
    by (simp add: example_fence_state_def running_def update_hart_state_def is_dummy_def)
  have fence: "fst (route_confidential_flow ?env example_fence_state) = Ok ExitToConfidentialHart"
    using fence_stays [OF run, of ?env]
    by (auto simp: example_fence_state_def example_csrs_def update_hart_state_def gpr_def set_gpr_def
        GeneralPurposeRegisters_get_def GeneralPurposeRegisters_set_def)
  have same: "same_view (view_of example_vm_machine n) (example_interrupt_state n)" for n
    by (simp add: same_view_def example_interrupt_state_def protection_csrs_def)
  have interrupt: "fst (route_confidential_flow ?env (example_interrupt_state 3)) = Ok ExitToHypervisor"
    using interrupt_leaves [OF machine_inv_hart [OF example_vm_machine_inv, of 3, folded same_view_inv [OF same]], of ?env]
      same_view_running [OF same, of 3]
    by (auto simp: example_interrupt_state_def running_def example_vm_machine_def put_view_def example_running_hart_def
        is_dummy_def is_bit_enabled_def cause_defs CAUSE_INTERRUPT_BIT_def example_csrs_def example_hardware_hart_def HartArchitecturalState_empty_def)
  have delegated: "fst (route_non_confidential_flow ?env (example_interrupt_state 0)) = Ok ExitToHypervisor"
    using interrupt_delegated [of "example_interrupt_state 0" ?env]
    by (auto simp: example_interrupt_state_def running_def example_vm_machine_def put_view_def example_machine_def
        example_hardware_hart_def is_dummy_def example_hart_ids is_bit_enabled_def cause_defs CAUSE_INTERRUPT_BIT_def)
  have home: "lifecycle_state example_home_hart = Started" "hart_pending_request example_home_hart = None"
    by (simp_all add: example_home_hart_def ConfidentialHart_set_confidential_vm_id_def ConfidentialHart_new_def Let_def)
  have "fst (route_non_confidential_flow ?env example_resume_state) = Ok ExitToConfidentialHart"
    using resume_enters [of example_resume_state "\<lparr>confidential_vms = [(7, example_vm)]\<rparr>" example_vm ?env]
    by (auto simp: example_resume_state_def running_def example_hardware_hart_def is_dummy_def example_hart_ids
        example_vm_def home is_executable_def gpr_def set_gpr_def GeneralPurposeRegisters_get_def GeneralPurposeRegisters_set_def
        update_hypervisor_state_def example_monitor_def)
  with fence interrupt delegated show ?thesis
    using exits_match_assigned_hart [OF example_opensbi, of example_fence_state]
      exits_match_assigned_hart [OF example_opensbi, of "example_interrupt_state 3"]
      exits_match_assigned_hart [OF example_opensbi, of "example_interrupt_state 0"]
      exits_match_assigned_hart [OF example_opensbi, of example_resume_state]
    by simp
qed

section \<open>Leaving the confidential flow\<close>

text \<open>C15: The monitor can always return a confidential hart to its VM and leave the confidential flow: under the
  invariant none of the assertions and unwraps of \<^verbatim>\<open>into_non_confidential_flow\<close> and
  \<^verbatim>\<open>return_confidential_hart\<close> fails, afterwards no confidential hart is assigned, the invariant holds,
  and confidential memory is closed.\<close>

theorem leaving_never_panics:
  assumes "hart_inv l n others s" and "running s"
  shows "\<exists>t. into_non_confidential_flow s = (Ok (), t) \<and> \<not> running t \<and> hart_inv l n others t
    \<and> pmp_closed (csrs t)"
proof -
  obtain t where t: "into_non_confidential_flow s = (Ok (), t)"
    using into_non_confidential_flow_total [OF assms] by blast
  with run_Ok [OF run_into_non_confidential_flow, of "\<lambda>_. True" s "()" t l n] assms(1)
  have "\<not> running t" "hart_inv l n others t" by (auto simp: maintains_def)
  then show ?thesis using t by (simp add: hart_inv_def own_hart_ok_def protection_ok_def)
qed

theorem leaving_never_panics_witness:
  "\<exists>t. into_non_confidential_flow (view_of example_vm_machine 3) = (Ok (), t) \<and> \<not> running t \<and> pmp_closed (csrs t)"
proof -
  have "running (view_of example_vm_machine 3)"
    by (simp add: running_def example_vm_machine_def put_view_def example_running_hart_def is_dummy_def example_hart_ids)
  from leaving_never_panics [OF machine_inv_hart [OF example_vm_machine_inv] this] show ?thesis by blast
qed

section \<open>What a context switch restores\<close>

text \<open>Bits 9 and 8 of the number of a control and status register are the lowest privilege mode that can read it; 3 is
  machine mode. Of the registers that the hypervisor can read, the load of \<open>hvip\<close> is commented out, \<open>hip\<close> and \<open>hgeip\<close> are
  stored only and \<open>stimecmp\<close> is never touched; \<open>vsie\<close> is meant to report the interrupts enabled by the guest.\<close>

definition hypervisor_readable :: "csr set" where
  "hypervisor_readable = {r. csr_number r AND 0x300 \<noteq> 0x300}"

definition unrestored_csrs :: "csr set" where
  "unrestored_csrs = {CSR_HVIP, CSR_HIP, CSR_HGEIP, CSR_STIMECMP}"

definition hypervisor_csrs :: "csr set" where
  "hypervisor_csrs = hypervisor_readable - insert CSR_VSIE unrestored_csrs"

lemma hypervisor_csrs_loaded: "r \<in> hypervisor_csrs \<Longrightarrow> r \<in> set loaded_csrs \<and> r \<noteq> CSR_VSIE"
  by (cases r) (simp_all add: hypervisor_csrs_def hypervisor_readable_def unrestored_csrs_def loaded_csrs_def)

lemma unrestored_not_loaded: "r \<in> unrestored_csrs \<Longrightarrow> r \<notin> set loaded_csrs"
  by (auto simp: unrestored_csrs_def loaded_csrs_def)

lemma csrs_left:
  "r \<in> hypervisor_csrs \<Longrightarrow> csrs_on_leave h f r = dump h r"
  "r \<in> insert CSR_VSIE unrestored_csrs \<Longrightarrow> csrs_on_leave h f r = f r"
  using hypervisor_csrs_loaded [of r] loaded_csrs_protection [of r] unrestored_not_loaded [of r]
  by (auto simp: csrs_on_leave_def csr_after_load protection_csrs_def unrestored_csrs_def)

text \<open>C14: When a confidential hart is stolen, executes for any time and is returned, the hypervisor finds
  its general purpose registers as the monitor kept them and confidential memory closed, and every control and status register that it can
  read (whatever the code stores and loads) as it was before, with five exceptions: \<open>vsie\<close> reports the interrupts enabled
  by the guest, and \<open>hvip\<close>, \<open>hip\<close>, \<open>hgeip\<close> and \<open>stimecmp\<close> keep the value they had when the hart was returned.\<close>

theorem context_switch_restores_hypervisor:
  assumes "steal_confidential_hart i (vm, s) = (Ok (), (vm1, s1))"
    and "hypervisor_state s2 = hypervisor_state s1"
    and "return_confidential_hart (vm2, s2) = (Ok (), (vm3, s3))"
  shows "(\<forall>r. csr_number r AND 0x300 \<noteq> 0x300 \<longrightarrow> csrs s3 r =
        (if r \<in> {CSR_VSIE, CSR_HVIP, CSR_HIP, CSR_HGEIP, CSR_STIMECMP} then csrs s2 r else csrs s r))
    \<and> gprs (hypervisor_state s3) = gprs (hypervisor_state s) \<and> pmp_closed (csrs s3)"
proof -
  note st = steal_Ok [OF assms(1)] and rt = return_Ok [OF assms(3)]
  have h: "hypervisor_state s2 = store_control_status_registers (csrs s) (hypervisor_state s)"
    using assms(2) st(5) by simp
  have "csrs s3 r = csrs s r" if "r \<in> hypervisor_csrs" for r
    using hypervisor_csrs_loaded [OF that] loaded_subset_stored csrs_left(1) [OF that]
    by (auto simp: rt(7) h dump_store)
  moreover have "csrs s3 r = csrs s2 r" if "r \<in> insert CSR_VSIE unrestored_csrs" for r
    using csrs_left(2) [OF that] by (simp add: rt(7))
  ultimately have "csrs s3 r = (if r \<in> {CSR_VSIE, CSR_HVIP, CSR_HIP, CSR_HGEIP, CSR_STIMECMP} then csrs s2 r else csrs s r)"
    if "csr_number r AND 0x300 \<noteq> 0x300" for r
    using that by (auto simp: hypervisor_csrs_def hypervisor_readable_def unrestored_csrs_def)
  moreover have "pmp_closed (csrs s3)"
    by (simp add: rt(7) csrs_on_leave_def pmp_closed_def bit_simps)
  ultimately show ?thesis by (simp add: rt(6) h)
qed

theorem context_switch_restores_hypervisor_witness:
  "\<exists>vm1 s1 vm3 s3. steal_confidential_hart 0 (example_vm, example_monitor) = (Ok (), (vm1, s1))
     \<and> return_confidential_hart (vm1, s1) = (Ok (), (vm3, s3))
     \<and> csrs s3 CSR_STVEC = csrs example_monitor CSR_STVEC \<and> csrs s3 CSR_VSSCRATCH = csrs example_monitor CSR_VSSCRATCH
     \<and> csrs s3 CSR_HVIP = csrs s1 CSR_HVIP \<and> pmp_closed (csrs s3)"
proof -
  have h: "confidential_harts example_vm ! 0 = example_home_hart" "length (confidential_harts example_vm) = 2"
    "vm_id example_vm = 7" by (simp_all add: example_vm_def)
  have exec: "is_executable example_home_hart"
    by (simp add: is_executable_def is_dummy_def example_hart_ids)
       (simp add: example_home_hart_def ConfidentialHart_set_confidential_vm_id_def ConfidentialHart_new_def Let_def)
  obtain vm1 s1 where st: "steal_confidential_hart 0 (example_vm, example_monitor) = (Ok (), (vm1, s1))"
    using steal_succeeds [of 0 example_vm example_monitor] h exec by auto
  have a: "hart_vm_id (assigned_hart (hardware s1)) = Some 7" "confidential_hart_id (assigned_hart (hardware s1)) = 0"
    using steal_Ok(4) [OF st] example_hart_ids h
    by (simp_all add: apply_injected_interrupts_def confidential_hart_id_def)
  obtain vm3 s3 where rt: "return_confidential_hart (vm1, s1) = (Ok (), (vm3, s3))"
    using return_succeeds [of s1 vm1] a h steal_Ok(3) [OF st] by auto
  have "csrs s3 CSR_STVEC = csrs example_monitor CSR_STVEC" "csrs s3 CSR_VSSCRATCH = csrs example_monitor CSR_VSSCRATCH"
    "csrs s3 CSR_HVIP = csrs s1 CSR_HVIP" "pmp_closed (csrs s3)"
    using context_switch_restores_hypervisor [OF st refl rt] by simp_all
  with st rt show ?thesis by blast
qed

section \<open>What the hypervisor learns\<close>

text \<open>The state of the hypervisor after an exit: its general purpose registers and dumped state, and
  the control and status registers that it can read.\<close>

definition hypervisor_equal :: "'z monitor_scheme \<Rightarrow> 'z monitor_scheme \<Rightarrow> bool" where
  "hypervisor_equal s t \<longleftrightarrow> hypervisor_state s = hypervisor_state t
     \<and> (\<forall>r \<in> hypervisor_csrs. csrs s r = csrs t r)"

lemma hypervisor_csrs_read:
  "CSR_STVEC \<in> hypervisor_csrs" "CSR_HSTATUS \<in> hypervisor_csrs" "CSR_SSTATUS \<in> hypervisor_csrs"
  by (simp_all add: hypervisor_csrs_def hypervisor_readable_def unrestored_csrs_def)

lemma hypervisor_equal_write: "hypervisor_equal s t \<Longrightarrow> hypervisor_equal (write_csr r v s) (write_csr r v t)"
  by (simp add: hypervisor_equal_def)

lemma hypervisor_equal_update:
  "hypervisor_equal s t \<Longrightarrow> hypervisor_equal (update_hypervisor_state f s) (update_hypervisor_state f t)"
  by (simp add: hypervisor_equal_def)

lemma apply_trap_equal:
  assumes "hypervisor_equal s t" and "apply_trap b s = (Ok u, s')" and "apply_trap b t = (Ok u', t')"
  shows "hypervisor_equal s' t'"
  using assms hypervisor_csrs_read
  by (auto simp: apply_trap_def hypervisor_equal_def Let_def read_csr_def split: if_splits)

lemma HardwareHart_apply_equal:
  assumes "hypervisor_equal s t" and "HardwareHart_apply x s = (Ok u, s')" and "HardwareHart_apply x t = (Ok u', t')"
  shows "hypervisor_equal s' t'"
proof (cases x)
  case (ExposeSbiResult v)
  then show ?thesis using assms
    by (auto simp: HardwareHart_apply_def HardwareHart_apply_sbi_result_def Let_def hypervisor_equal_def
        split: result.splits)
next
  case (ExposeOpensbiResult v)
  then show ?thesis using assms
    by (auto simp: HardwareHart_apply_def apply_opensbi_result_def Let_def hypervisor_equal_def)
next
  case (ExposeEnabledInterrupts v)
  then show ?thesis using assms
    by (auto simp: HardwareHart_apply_def apply_enabled_interrupts_def intro: hypervisor_equal_write)
qed (use assms in \<open>auto simp: HardwareHart_apply_def apply_sbi_request_def apply_sbi_vm_request_def
      apply_mmio_load_request_def apply_mmio_store_request_def apply_interrupt_request_def Let_def
      elim!: apply_trap_equal [rotated] intro!: hypervisor_equal_write hypervisor_equal_update\<close>)

lemma exit_to_hypervisor_equal:
  assumes "hypervisor_equal s t" and "exit_to_hypervisor x s = (Ok a, s')" and "exit_to_hypervisor x t = (Ok b, t')"
  shows "hypervisor_equal s' t'"
proof -
  from assms obtain u v where "HardwareHart_apply x s = (Ok (), u)" "HardwareHart_apply x t = (Ok (), v)"
    "s' = HardwareHart_load_volatile u" "t' = HardwareHart_load_volatile v"
    by (auto simp: exit_to_hypervisor_def res_simps modify_def)
  with HardwareHart_apply_equal [OF assms(1)] show ?thesis
    by (auto simp: HardwareHart_load_volatile_def hypervisor_equal_def)
qed

text \<open>A transformation writes none of the registers that are not restored, and \<open>vsie\<close> only to report it.\<close>

lemma apply_trap_frame:
  "apply_trap b s = (Ok u, t) \<Longrightarrow> r \<in> insert CSR_VSIE unrestored_csrs \<Longrightarrow> csrs t r = csrs s r"
  by (auto simp: apply_trap_def Let_def unrestored_csrs_def split: if_splits)

lemma HardwareHart_apply_frame:
  assumes "HardwareHart_apply x s = (Ok u, t)" and "r \<in> insert CSR_VSIE unrestored_csrs"
  shows "csrs t r = (case x of ExposeEnabledInterrupts v \<Rightarrow> if r = CSR_VSIE then enabled_vsie v else csrs s r | _ \<Rightarrow> csrs s r)"
  using assms
  by (cases x)
     (auto simp: HardwareHart_apply_def apply_sbi_request_def apply_sbi_vm_request_def HardwareHart_apply_sbi_result_def
       apply_opensbi_result_def apply_enabled_interrupts_def apply_mmio_load_request_def apply_mmio_store_request_def
       apply_interrupt_request_def Let_def split: result.splits dest!: apply_trap_frame [OF _ assms(2)], auto simp: unrestored_csrs_def)

lemma exit_to_hypervisor_frame:
  assumes "exit_to_hypervisor x s = (Ok a, t)" and "r \<in> insert CSR_VSIE unrestored_csrs"
  shows "csrs t r = (case x of ExposeEnabledInterrupts v \<Rightarrow> if r = CSR_VSIE then enabled_vsie v else csrs s r | _ \<Rightarrow> csrs s r)"
proof -
  from assms(1) obtain u where u: "HardwareHart_apply x s = (Ok (), u)" "t = HardwareHart_load_volatile u"
    by (auto simp: exit_to_hypervisor_def res_simps modify_def)
  have "csrs t r = csrs u r" using assms(2) by (auto simp: u(2) HardwareHart_load_volatile_def unrestored_csrs_def)
  then show ?thesis using HardwareHart_apply_frame [OF u(1) assms(2)] by simp
qed

text \<open>C5: What the hypervisor sees when the monitor leaves the confidential flow, register by register. Two executions that
  start with the same state of the hypervisor and expose the same transformation, for whatever two confidential harts with
  whatever register contents, leave the same general purpose registers, dumped state and control and status registers that
  the hypervisor can read, except for the following, which carry what the VM left in them: \<open>hvip\<close>, \<open>hip\<close> and \<open>hgeip\<close>
  (which the code stores but does not load: \<open>hvip\<close> has the interrupts that the monitor injected into the guest), \<open>stimecmp\<close> (which the
  code never touches) and \<open>vsie\<close> (the interrupts enabled by the guest, which the code reports on purpose).\<close>

theorem hypervisor_sees_only_transformation:
  fixes s t s' t' :: "'z monitor_scheme"
  assumes "hypervisor_state s = hypervisor_state t"
    and "sbind into_non_confidential_flow (\<lambda>_. exit_to_hypervisor x) s = (Ok a, s')"
    and "sbind into_non_confidential_flow (\<lambda>_. exit_to_hypervisor x) t = (Ok b, t')"
  shows "hypervisor_state s' = hypervisor_state t'
    \<and> (\<forall>r. csr_number r AND 0x300 \<noteq> 0x300 \<and> r \<notin> {CSR_VSIE, CSR_HVIP, CSR_HIP, CSR_HGEIP, CSR_STIMECMP}
          \<longrightarrow> csrs s' r = csrs t' r)
    \<and> (\<forall>r \<in> {CSR_HVIP, CSR_HIP, CSR_HGEIP, CSR_STIMECMP}. csrs s' r = csrs s r)
    \<and> csrs s' CSR_VSIE = (case x of ExposeEnabledInterrupts v \<Rightarrow> enabled_vsie v | _ \<Rightarrow> csrs s CSR_VSIE)"
proof -
  from assms(2,3) obtain u v where u: "into_non_confidential_flow s = (Ok (), u)" "exit_to_hypervisor x u = (Ok a, s')"
    and v: "into_non_confidential_flow t = (Ok (), v)" "exit_to_hypervisor x v = (Ok b, t')"
    by (auto simp: res_simps)
  have "hypervisor_equal u v"
    using into_non_confidential_flow_Ok [OF u(1)] into_non_confidential_flow_Ok [OF v(1)] assms(1)
    by (simp add: hypervisor_equal_def csrs_left(1))
  then have "hypervisor_equal s' t'" using exit_to_hypervisor_equal u(2) v(2) by blast
  then have same: "hypervisor_state s' = hypervisor_state t'" "csrs s' r = csrs t' r"
    if "csr_number r AND 0x300 \<noteq> 0x300" "r \<notin> {CSR_VSIE, CSR_HVIP, CSR_HIP, CSR_HGEIP, CSR_STIMECMP}" for r
    using that by (auto simp: hypervisor_equal_def hypervisor_csrs_def hypervisor_readable_def unrestored_csrs_def)
  have left: "csrs u r = csrs s r" if "r \<in> insert CSR_VSIE unrestored_csrs" for r
    using into_non_confidential_flow_Ok(2) [OF u(1)] csrs_left(2) [OF that] by simp
  have "csrs s' r = csrs s r" if "r \<in> {CSR_HVIP, CSR_HIP, CSR_HGEIP, CSR_STIMECMP}" for r
    using exit_to_hypervisor_frame [OF u(2), of r] left [of r] that
    by (auto simp: unrestored_csrs_def split: expose_to_hypervisor.splits)
  moreover have "csrs s' CSR_VSIE = (case x of ExposeEnabledInterrupts v \<Rightarrow> enabled_vsie v | _ \<Rightarrow> csrs s CSR_VSIE)"
    using exit_to_hypervisor_frame [OF u(2), of CSR_VSIE] left [of CSR_VSIE] by (simp split: expose_to_hypervisor.splits)
  ultimately show ?thesis using same \<open>hypervisor_equal s' t'\<close> by (auto simp: hypervisor_equal_def)
qed

lemma expose_request_succeeds:
  assumes "\<not> are_bits_enabled (csrs s CSR_STVEC) STVEC_MODE_VECTORED"
  shows "\<exists>t. exit_to_hypervisor (ExposeSbiRequest r) s = (Ok ExitToHypervisor, t)"
  using assms
  by (simp add: exit_to_hypervisor_def sbind_def HardwareHart_apply_def apply_sbi_request_def apply_trap_def
      read_csr_def Let_def modify_def ret_def)

lemma example_leave:
  assumes "hart_inv l n others s" "running s" "dump (hypervisor_state s) CSR_STVEC = 0"
  shows "\<exists>t. sbind into_non_confidential_flow (\<lambda>_. exit_to_hypervisor (ExposeSbiRequest r)) s = (Ok ExitToHypervisor, t)"
proof -
  obtain u where u: "into_non_confidential_flow s = (Ok (), u)"
    using into_non_confidential_flow_total [OF assms(1,2)] by blast
  have "csrs u CSR_STVEC = 0"
    using into_non_confidential_flow_Ok(2) [OF u] assms(3) by (simp add: csrs_on_leave_def csr_after_load loaded_csrs_def)
  then have "\<not> are_bits_enabled (csrs u CSR_STVEC) STVEC_MODE_VECTORED"
    by (simp add: are_bits_enabled_def STVEC_MODE_VECTORED_def)
  with expose_request_succeeds [of u r] u show ?thesis by (simp add: sbind_def)
qed

definition example_running_state :: monitor where
  "example_running_state = view_of example_vm_machine 3"

definition example_secret_state :: monitor where
  "example_secret_state = vm_runs ((csrs example_running_state)(CSR_VSSCRATCH := 0x5EC8E7, CSR_HVIP := 4)) (\<lambda>_. 0x5EC8E7)
     (\<lambda>_. 1) example_running_state"

theorem hypervisor_sees_only_transformation_witness:
  "\<exists>s' t'. sbind into_non_confidential_flow (\<lambda>_. exit_to_hypervisor (ExposeSbiRequest kvm_hsm_hart_stop)) example_running_state
       = (Ok ExitToHypervisor, s')
     \<and> sbind into_non_confidential_flow (\<lambda>_. exit_to_hypervisor (ExposeSbiRequest kvm_hsm_hart_stop)) example_secret_state
       = (Ok ExitToHypervisor, t')
     \<and> csrs example_running_state CSR_VSSCRATCH \<noteq> csrs example_secret_state CSR_VSSCRATCH
     \<and> hypervisor_state t' = hypervisor_state s' \<and> csrs t' CSR_VSSCRATCH = csrs s' CSR_VSSCRATCH
     \<and> csrs s' CSR_HVIP = 0 \<and> csrs t' CSR_HVIP = 4"
proof -
  let ?s = example_running_state and ?t = example_secret_state
  note s_def = example_running_state_def and t_def = example_secret_state_def
  have run: "running ?s"
    by (simp add: s_def running_def example_vm_machine_def put_view_def example_running_hart_def is_dummy_def example_hart_ids)
  have hyp: "hypervisor_state ?t = hypervisor_state ?s" by (simp add: t_def vm_runs_def)
  have same: "same_hart ?s ?t"
    using run by (auto simp: t_def same_hart_def vm_runs_def similar_hart_def running_def update_hart_state_def
        confidential_hart_id_def protection_csrs_def)
  have inv: "hart_inv (layout example_environment) 3 (\<lambda>n. occupied (view_of example_vm_machine n)) ?s"
    unfolding s_def by (rule machine_inv_hart [OF example_vm_machine_inv])
  have inv_t: "hart_inv (layout example_environment) 3 (\<lambda>n. occupied (view_of example_vm_machine n)) ?t"
    using same_hart_maintains [OF same, of "layout example_environment" 3] inv by (simp add: maintains_def)
  have z: "dump (hypervisor_state ?s) CSR_STVEC = 0"
    by (simp add: s_def example_vm_machine_def put_view_def example_running_hart_def example_hardware_hart_def
        HartArchitecturalState_empty_def)
  obtain s' where s': "sbind into_non_confidential_flow (\<lambda>_. exit_to_hypervisor (ExposeSbiRequest kvm_hsm_hart_stop)) ?s
       = (Ok ExitToHypervisor, s')" using example_leave [OF inv run z] by blast
  obtain t' where t': "sbind into_non_confidential_flow (\<lambda>_. exit_to_hypervisor (ExposeSbiRequest kvm_hsm_hart_stop)) ?t
       = (Ok ExitToHypervisor, t')"
    using example_leave [OF inv_t] run same z hyp by (auto simp: same_hart_running)
  have regs: "csrs ?s CSR_VSSCRATCH = 0" "csrs ?s CSR_HVIP = 0" "csrs ?t CSR_VSSCRATCH = 0x5EC8E7" "csrs ?t CSR_HVIP = 4"
    by (simp_all add: s_def t_def vm_runs_def example_vm_machine_def put_view_def example_csrs_def)
  have "hypervisor_state t' = hypervisor_state s'" "csrs t' CSR_VSSCRATCH = csrs s' CSR_VSSCRATCH"
    "csrs s' CSR_HVIP = 0" "csrs t' CSR_HVIP = 4"
    using hypervisor_sees_only_transformation [OF hyp [symmetric] s' t']
      hypervisor_sees_only_transformation [OF hyp t' s'] regs by simp_all
  with regs s' t' show ?thesis by auto
qed

end
