(* ===== verification/VM_Isolation.thy ===== *)
theory VM_Isolation
  imports Memory_Ownership Flow_Properties
begin

text \<open>
  Isolation of the memory of confidential VMs on the whole machine.

  \<^item> \<open>guest_translation\<close> is what the hardware does with a guest physical address under the active \<open>hgatp\<close>.
  \<^item> A run of the machine is a list of states, each a \<open>machine_step_writing translated_writes\<close> after the one before: a confidential VM writes
    only where the hardware translates its addresses to.
  \<^item> \<open>base_page_shares\<close> says of a state that shared pages are mapped by leaf entries of the lowest level only. The code
    does not enforce it (a page that is shared on top of a huge page exposes its neighbourhood, see the theorem in \<^verbatim>\<open>Isolation\<close>), so the
    guarantee for the translation holds in a run up to the first state without it (\<open>confined_step\<close>); the other guarantees do not depend on it.
\<close>

section \<open>The pages that hold raw entries\<close>

fun entry_node_pages :: "page_table_entry \<Rightarrow> page list"
and node_pages :: "page_table \<Rightarrow> page list" where
  "entry_node_pages (Pointer pt _) = node_pages pt"
| "entry_node_pages (Leaf _ _ _) = []"
| "entry_node_pages (Shared _ _ _) = []"
| "entry_node_pages NotValid = []"
| "node_pages (PageTable _ mem es) = concat (map entry_node_pages es) @ memory_pages mem"

lemma owned_concat_add:
  "(\<And>e. e \<in> set es \<Longrightarrow> owned (f e) x = owned (g e) x + owned (h e) x)
     \<Longrightarrow> owned (concat (map f es)) x = owned (concat (map g es)) x + owned (concat (map h es)) x"
  by (induction es) auto

lemma node_and_leaf_pages:
  "owned (entry_pages e) x = owned (entry_node_pages e) x + owned (entry_leaf_pages e) x"
  "owned (table_pages pt) x = owned (node_pages pt) x + owned (leaf_pages pt) x"
proof (induction e and pt rule: entry_node_pages_node_pages.induct)
  case (5 level mem es)
  then show ?case using owned_concat_add [of es entry_pages x entry_node_pages entry_leaf_pages] by simp
qed simp_all

lemma synced_node_frame:
  "entry_ok l ps level e \<Longrightarrow> entry_synced m e \<Longrightarrow>
     (\<And>a. owned (entry_node_pages e) (unat a) \<noteq> 0 \<Longrightarrow> m' a = m a) \<Longrightarrow> entry_synced m' e"
  "table_ok l ps pt \<Longrightarrow> synced m pt \<Longrightarrow>
     (\<And>a. owned (node_pages pt) (unat a) \<noteq> 0 \<Longrightarrow> m' a = m a) \<Longrightarrow> synced m' pt"
proof (induction l ps level e and l ps pt rule: entry_ok_table_ok.induct)
  case (5 l ps level mem es)
  have mem: "memory_ok l ps level mem" and len: "length es = table_entries ps level"
    using 5(2) by simp_all
  have "m' (entry_word mem i) = m (entry_word mem i)" if "i < length es" for i
    by (rule 5(4)) (use entry_word_owned [OF mem, of i] that len in simp)
  moreover have "entry_synced m' e" if e: "e \<in> set es" for e
  proof (rule 5(1) [OF e])
    show "entry_ok l ps level e" "entry_synced m e" using 5(2,3) e by auto
    show "m' a = m a" if "owned (entry_node_pages e) (unat a) \<noteq> 0" for a
    proof (rule 5(4))
      from that obtain p where "p \<in> set (entry_node_pages e)" "unat a \<in> page_range p"
        using owned_pos_iff [of "entry_node_pages e" "unat a"] by auto
      then have "0 < owned (node_pages (PageTable level mem es)) (unat a)"
        using e unfolding owned_pos_iff by auto
      then show "owned (node_pages (PageTable level mem es)) (unat a) \<noteq> 0" by simp
    qed
  qed
  ultimately show ?case using 5(3) by simp
qed auto

section \<open>What the hardware translates\<close>

definition guest_translation :: "'z monitor_scheme \<Rightarrow> usize \<Rightarrow> usize option" where
  "guest_translation s gpa =
     mmu_walk (confidential_memory s) gpa Level5 (Hgatp_address (Hgatp_from (csrs s CSR_HGATP)))"

definition translated_writes :: "'z monitor_scheme \<Rightarrow> (usize \<Rightarrow> usize) \<Rightarrow> bool" where
  "translated_writes s mem \<longleftrightarrow>
     (\<forall>a. mem a \<noteq> confidential_memory s a \<longrightarrow> (\<exists>gpa. guest_translation s gpa = Some a))"

definition base_page_shares :: "(confidential_vm_id \<rightharpoonup> confidential_vm) \<Rightarrow> bool" where
  "base_page_shares vms \<longleftrightarrow> (\<forall>k vm gpa level sp c perm. vms k = Some vm
     \<longrightarrow> walk (hw_index gpa) (root_table (vm_root vm)) = Some (level, Shared sp c perm) \<longrightarrow> level = Level1)"

definition confined_step :: "environment \<Rightarrow> machine \<Rightarrow> machine \<Rightarrow> bool" where
  "confined_step env m m' \<longleftrightarrow> machine_step_writing translated_writes env m m'
     \<and> base_page_shares (vm_table (global m'))"

text \<open>A machine with a platform whose physical addresses fit the page table entries.\<close>

definition platform_ok :: "memory_layout \<Rightarrow> bool" where
  "platform_ok l \<longleftrightarrow> layout_wf l \<and> small_confidential_memory l \<and> unat (confidential_memory_end l) \<le> 2 ^ 56"

lemma layout_wf_aligned:
  assumes "layout_wf l"
  shows "unat (confidential_memory_start l) mod 4 = 0" and "unat (confidential_memory_end l) mod 4 = 0"
  using assms dvd_trans [of 4 4096]
  by (auto simp: layout_wf_def is_aligned_to_def smallest_def in_bytes_def mod_eq_0_iff_dvd)

lemma active_root:
  assumes "platform_ok l" and "memory_inv l True None s" and "vm_table s k = Some vm"
    and "csrs s CSR_HGATP = protector_hgatp (memory_protector vm)"
  shows "\<exists>base. PageTable_address (root_table (vm_root vm)) = Ok base
    \<and> Hgatp_address (Hgatp_from (csrs s CSR_HGATP)) = base"
proof -
  have ok: "tables_ok l s (roots None (vm_table s))" using assms(2) by (simp add: memory_inv_def holds_tables_def)
  have r: "roots None (vm_table s) (Some k) = Some (vm_root vm)" using assms(3) by simp
  obtain p where p: "PageTable_address (root_table (vm_root vm)) = Ok (page_address p)" "page_ok l p"
    using table_address [OF tables_okD(3) [OF ok r]] by metis
  have "unat (page_address p) < unat (confidential_memory_end l)"
    using page_ok_range [OF p(2), of "unat (page_address p)"] by (simp add: page_range_def)
  then have a: "unat (page_address p) mod 4096 = 0" "unat (page_address p) < 2 ^ 56"
    using page_ok_aligned [OF p(2)] assms(1) by (simp_all add: platform_ok_def)
  have "activates_root k (memory_protector vm)" using assms(2,3) by (simp add: memory_inv_def)
  then have "protector_hgatp (memory_protector vm) = hgatp_bits (Hgatp_new (page_address p)
      (hgatp_mode_of (root_paging_system (vm_root vm))) k)"
    using p(1) by (auto simp: activates_root_def RootPageTable_address_def vm_root_def)
  moreover have "Hgatp_address (Hgatp_from (hgatp_bits h)) = Hgatp_address h" for h
    by (simp add: Hgatp_from_def Hgatp_address_def)
  ultimately show ?thesis using p(1) Hgatp_address_new [OF a] assms(4) by simp
qed

lemma translation_reaches:
  assumes "platform_ok l" and "memory_inv l True None s" and "vm_table s k = Some vm"
    and "csrs s CSR_HGATP = protector_hgatp (memory_protector vm)" and "base_page_shares (vm_table s)"
    and "guest_translation s gpa = Some pa"
  shows "(\<exists>p \<in> set (leaf_pages (root_table (vm_root vm))). unat pa \<in> page_range p) \<or> \<not> in_confidential_range l pa"
proof -
  have ok: "tables_ok l s (roots None (vm_table s))" and sync: "synced (confidential_memory s) (root_table (vm_root vm))"
    using assms(2,3) by (auto simp: memory_inv_def holds_tables_def tables_synced_def dest!: spec [of _ "Some k"])
  have r: "roots None (vm_table s) (Some k) = Some (vm_root vm)" using assms(3) by simp
  note root = tables_okD(3,4) [OF ok r]
  obtain base where base: "PageTable_address (root_table (vm_root vm)) = Ok base"
    "Hgatp_address (Hgatp_from (csrs s CSR_HGATP)) = base" using active_root [OF assms(1-4)] by blast
  have walk: "mmu_walk (confidential_memory s) gpa (table_level (root_table (vm_root vm))) base = Some pa"
    using assms(6) base(2) root(2) by (simp add: guest_translation_def)
  have wf: "layout_wf l" "small_confidential_memory l" using assms(1) by (simp_all add: platform_ok_def)
  from mmu_walk_reaches [OF wf root(1) sync base(1) walk] show ?thesis
  proof (elim disjE conjE exE)
    fix level sp c perm
    assume w: "walk (hw_index gpa) (root_table (vm_root vm)) = Some (level, Shared sp c perm)"
      and t: "leaf_target level (hypervisor_address sp AND NOT (mask 12)) gpa = Some pa"
    have "level = Level1" using assms(3,5) w unfolding base_page_shares_def by blast
    moreover have "shared_ok l sp" using walk_entry [OF root(1) w] by simp
    ultimately have "unat pa < unat (non_confidential_memory_end l)" using shared_reached t by blast
    then have "\<not> in_confidential_range l pa"
      using wf(1) by (auto simp: in_confidential_range_def layout_wf_def word_le_nat_alt)
    then show ?thesis by blast
  qed blast
qed

section \<open>The machine\<close>

lemma view_memory [simp]:
  "confidential_memory (view_of m n) = confidential_memory (global m)"
  "global_allocator (view_of m n) = global_allocator (global m)"
  by (simp_all add: view_of_def Let_def)

lemma memory_inv_view: "memory_inv l b p (view_of m n) = memory_inv l b p (global m)"
  by (rule memory_inv_congr) (simp_all add: vm_table_def)

lemma idle_memory_inv:
  assumes "idle_machine env m" and "alloc_inv l (global m)" and "exclusive (free_in (global m))"
  shows "memory_inv l b None (global m)"
  using assms
  by (auto simp: memory_inv_def holds_tables_def tables_ok_def tables_synced_def idle_machine_def vm_table_def
      ControlData_new_def roots_def exclusive_def split: option.splits)

text \<open>Ownership is kept whatever a VM writes.\<close>

lemma vm_runs_ownership:
  assumes "memory_inv l False p s"
  shows "memory_inv l False p (vm_runs f g mem s)"
proof -
  have "vm_table (vm_runs f g mem s) = vm_table s" "global_allocator (vm_runs f g mem s) = global_allocator s"
    by (simp_all add: vm_runs_def vm_table_def)
  with assms show ?thesis
    by (simp add: memory_inv_def holds_tables_def tables_ok_def alloc_inv_def free_in_def)
qed

lemma hypervisor_runs_memory: "same_memory s (hypervisor_runs f g s)"
  by (simp add: same_memory_def hypervisor_runs_def)

lemma ownership_step:
  assumes "machine_step_writing may_write env m m'" and "memory_inv (layout env) False None (global m)"
  shows "memory_inv (layout env) False None (global m')"
  using assms
proof (induction rule: machine_step_writing.induct)
  case (hypervisor m n f g)
  then show ?case using same_memory_inv [OF hypervisor_runs_memory] by (simp add: memory_inv_view)
next
  case (confidential_vm m n mem f g)
  then show ?case by (simp add: vm_runs_ownership memory_inv_view)
next
  case (trap_of_hypervisor m n x t)
  from run_Ok [OF preserves_route_non_confidential_flow _ this(2)] this(3) show ?case by (simp add: memory_inv_view)
next
  case (trap_of_confidential_vm m n x t)
  from run_Ok [OF preserves_route_confidential_flow _ this(2)] this(3) show ?case by (simp add: memory_inv_view)
qed

lemma ownership_steps:
  assumes "(machine_step_writing may_write env)\<^sup>*\<^sup>* m m'" and "memory_inv (layout env) False None (global m)"
  shows "memory_inv (layout env) False None (global m')"
  using assms by (induction rule: rtranclp_induct) (auto intro: ownership_step)

text \<open>The raw entries stay synchronised when a VM writes through its own translation.\<close>

lemma vm_runs_synced:
  assumes "platform_ok l" and inv: "memory_inv l True None s" and vm: "vm_table s k = Some vm"
    and hgatp: "csrs s CSR_HGATP = protector_hgatp (memory_protector vm)" and shares: "base_page_shares (vm_table s)"
    and writes: "translated_writes s mem"
  shows "memory_inv l True None (vm_runs f g mem s)"
proof -
  let ?T = "roots None (vm_table s)" and ?m = "confidential_memory s"
  have ok: "tables_ok l s ?T" and sync: "tables_synced ?m ?T"
    using inv by (simp_all add: memory_inv_def holds_tables_def)
  have r: "?T (Some k) = Some (vm_root vm)" using vm by simp
  have "synced mem (root_table q)" if q: "?T i = Some q" for i q
  proof (rule synced_node_frame(2) [OF tables_okD(3) [OF ok q]])
    show "synced ?m (root_table q)" using sync q by (auto simp: tables_synced_def)
    fix a :: usize assume node: "owned (node_pages (root_table q)) (unat a) \<noteq> 0"
    then have own: "0 < owned (root_pages q) (unat a)" using node_and_leaf_pages(2) [of "root_table q" "unat a"] by simp
    show "mem a = ?m a"
    proof (rule ccontr)
      assume "mem a \<noteq> ?m a"
      then obtain gpa where "guest_translation s gpa = Some a" using writes by (auto simp: translated_writes_def)
      from translation_reaches [OF assms(1) inv vm hgatp shares this] show False
      proof
        assume "\<exists>p \<in> set (leaf_pages (root_table (vm_root vm))). unat a \<in> page_range p"
        then have leaf: "0 < owned (leaf_pages (root_table (vm_root vm))) (unat a)" unfolding owned_pos_iff by blast
        show False
          using leaf own node node_and_leaf_pages(2) [of "root_table (vm_root vm)" "unat a"]
            tables_okD(5) [OF ok r, of "unat a"] tables_okD(6) [OF ok q r, of "unat a"] q r
          by (cases "i = Some k") auto
      next
        assume out: "\<not> in_confidential_range l a"
        from own obtain p where p: "p \<in> set (root_pages q)" "unat a \<in> page_range p" unfolding owned_pos_iff by blast
        then have "page_ok l p" using entry_pages_ok(2) [OF tables_okD(3) [OF ok q]] by (simp add: list_all_iff)
        from page_ok_range [OF this p(2)] out show False
          by (simp add: in_confidential_range_def word_le_nat_alt word_less_nat_alt)
      qed
    qed
  qed
  moreover have "memory_inv l False None s" using inv by (simp add: memory_inv_def holds_tables_def)
  note vm_runs_ownership [OF this, of f g mem]
  moreover have "confidential_memory (vm_runs f g mem s) = mem" "vm_table (vm_runs f g mem s) = vm_table s"
    by (simp_all add: vm_runs_def vm_table_def)
  ultimately show ?thesis by (auto simp: memory_inv_def holds_tables_def tables_synced_def)
qed

lemma running_vm:
  assumes "machine_inv l m" and "hart_vm_id (assigned_hart (hardware (view_of m n))) = Some k"
  obtains vm where "vm_table (view_of m n) k = Some vm"
    and "csrs (view_of m n) CSR_HGATP = protector_hgatp (memory_protector vm)"
proof -
  have "control_ok (\<lambda>n. occupied (view_of m n)) (vm_table (global m))" using assms(1) by (simp add: machine_inv_def)
  from seated_slot [OF this occupied_Some [OF assms(2)]] that show thesis
    by (metis view_simps(3) vm_table_def)
qed

lemma vm_table_view_of [simp]: "vm_table (view_of m n) = vm_table (global m)"
  by (simp add: vm_table_def)

definition isolated_inv :: "memory_layout \<Rightarrow> machine \<Rightarrow> bool" where
  "isolated_inv l m \<longleftrightarrow> machine_inv l m \<and> memory_inv l True None (global m) \<and> base_page_shares (vm_table (global m))"

lemma confined_step_inv:
  assumes step: "confined_step env m m'" and platform: "platform_ok (layout env)"
    and opensbi: "opensbi_keeps_protection env" and inv: "isolated_inv (layout env) m"
  shows "isolated_inv (layout env) m'"
proof -
  have "memory_inv (layout env) True None (global m')"
    using step [unfolded confined_step_def, THEN conjunct1] inv
  proof (induction rule: machine_step_writing.induct)
    case (hypervisor m n f g)
    then show ?case
      using same_memory_inv [OF hypervisor_runs_memory] by (simp add: memory_inv_view isolated_inv_def)
  next
    case (confidential_vm m n mem f g)
    have inv: "machine_inv (layout env) m" "memory_inv (layout env) True None (view_of m n)"
      "base_page_shares (vm_table (view_of m n))"
      using confidential_vm(4) by (simp_all add: isolated_inv_def memory_inv_view)
    obtain k where "hart_vm_id (assigned_hart (hardware (view_of m n))) = Some k"
      using confidential_vm(1) by (auto simp: running_def is_dummy_def)
    then obtain vm where vm: "vm_table (view_of m n) k = Some vm"
      "csrs (view_of m n) CSR_HGATP = protector_hgatp (memory_protector vm)" by (rule running_vm [OF inv(1)])
    show ?case using vm_runs_synced [OF platform inv(2) vm inv(3) confidential_vm(2)] by simp
  next
    case (trap_of_hypervisor m n x t)
    from run_Ok [OF preserves_route_non_confidential_flow _ this(2)] this(3) show ?case
      by (simp add: memory_inv_view isolated_inv_def)
  next
    case (trap_of_confidential_vm m n x t)
    from run_Ok [OF preserves_route_confidential_flow _ this(2)] this(3) show ?case
      by (simp add: memory_inv_view isolated_inv_def)
  qed
  moreover have "machine_inv (layout env) m'"
    using machine_step_inv [OF _ opensbi] step inv by (auto simp: confined_step_def isolated_inv_def)
  ultimately show ?thesis using step by (simp add: isolated_inv_def confined_step_def)
qed

text \<open>Runs as lists of states.\<close>

lemma run_reaches:
  assumes "successively R ms" and "i \<le> j" and "j < length ms"
  shows "R\<^sup>*\<^sup>* (ms ! i) (ms ! j)"
  using assms(2,3)
proof (induction j rule: dec_induct)
  case (step j)
  then have "R (ms ! j) (ms ! Suc j)" using assms(1) by (simp add: successively_conv_nth)
  with step show ?case by (simp add: rtranclp.rtrancl_into_rtrancl)
qed simp

lemma run_isolated:
  assumes run: "successively (machine_step_writing translated_writes env) ms" and "platform_ok (layout env)"
    and "opensbi_keeps_protection env" and "isolated_inv (layout env) (ms ! 0)" and "j < length ms"
    and "\<And>i. i \<le> j \<Longrightarrow> base_page_shares (vm_table (global (ms ! i)))"
  shows "isolated_inv (layout env) (ms ! j)"
  using assms(5,6)
proof (induction j)
  case (Suc j)
  then have "confined_step env (ms ! j) (ms ! Suc j)"
    using run by (simp add: confined_step_def successively_conv_nth)
  from confined_step_inv [OF this assms(2,3)] Suc show ?case by simp
qed (use assms(4) in simp)

lemma idle_machine_isolated:
  assumes "idle_machine env m" and "alloc_inv (layout env) (global m)" and "exclusive (free_in (global m))"
  shows "isolated_inv (layout env) m"
  using idle_machine_inv [OF assms(1)] idle_memory_inv [OF assms, of True] assms(1)
  by (simp add: isolated_inv_def base_page_shares_def idle_machine_def vm_table_def ControlData_new_def)

lemma isolated_translation:
  assumes platform: "platform_ok l" and inv: "isolated_inv l m"
    and k: "hart_vm_id (assigned_hart (hardware (view_of m n))) = Some k"
    and pa: "guest_translation (view_of m n) gpa = Some pa" "in_confidential_range l pa"
  shows "\<exists>vm. vm_table (global m) k = Some vm
    \<and> (\<exists>p \<in> set (leaf_pages (root_table (vm_root vm))). unat pa \<in> page_range p)
    \<and> owned (root_pages (vm_root vm)) (unat pa) = 1"
    and "free_in (global m) (unat pa) = 0"
    and "k' \<noteq> k \<Longrightarrow> vm_table (global m) k' = Some vm' \<Longrightarrow> owned (root_pages (vm_root vm')) (unat pa) = 0"
proof -
  have m: "machine_inv l m" "memory_inv l True None (view_of m n)" "base_page_shares (vm_table (view_of m n))"
    using inv by (simp_all add: isolated_inv_def memory_inv_view)
  obtain vm where vm: "vm_table (view_of m n) k = Some vm"
    "csrs (view_of m n) CSR_HGATP = protector_hgatp (memory_protector vm)" by (rule running_vm [OF m(1) k])
  from translation_reaches [OF platform m(2) vm m(3) pa(1)] pa(2)
  obtain p where p: "p \<in> set (leaf_pages (root_table (vm_root vm)))" "unat pa \<in> page_range p" by blast
  then have own: "0 < owned (root_pages (vm_root vm)) (unat pa)"
    using leaf_pages_table_pages(2) unfolding owned_pos_iff by blast
  have ok: "tables_ok l (global m) (roots None (vm_table (global m)))"
    using inv by (simp add: isolated_inv_def memory_inv_def holds_tables_def)
  have r: "roots None (vm_table (global m)) (Some k) = Some (vm_root vm)" using vm(1) by simp
  note one = tables_okD(5) [OF ok r, of "unat pa"]
  show "\<exists>vm. vm_table (global m) k = Some vm
    \<and> (\<exists>p \<in> set (leaf_pages (root_table (vm_root vm))). unat pa \<in> page_range p)
    \<and> owned (root_pages (vm_root vm)) (unat pa) = 1"
    using vm(1) p own one by auto
  show "free_in (global m) (unat pa) = 0" using own one by linarith
  show "k' \<noteq> k \<Longrightarrow> vm_table (global m) k' = Some vm' \<Longrightarrow> owned (root_pages (vm_root vm')) (unat pa) = 0"
    using own tables_okD(6) [OF ok r, of "Some k'" "vm_root vm'" "unat pa"] by auto
qed

section \<open>Properties\<close>

lemma disjoint_ranges:
  assumes "\<And>x. owned ps x + owned qs x \<le> 1" and "p \<in> set ps" and "q \<in> set qs"
  shows "page_range p \<inter> page_range q = {}"
proof (rule ccontr)
  assume "page_range p \<inter> page_range q \<noteq> {}"
  then obtain x where "x \<in> page_range p" "x \<in> page_range q" by blast
  with assms(2,3) have "0 < owned ps x" "0 < owned qs x" unfolding owned_pos_iff by blast+
  with assms(1) [of x] show False by linarith
qed


text \<open>A machine on which hardware hart 3 executes a VM that has mapped one page, and whose free pages are elsewhere.\<close>

definition example_tree :: page_table where
  "example_tree =
     single_table Level5 [Page_init 0x10000 Size4KiB, Page_init 0x11000 Size4KiB, Page_init 0x12000 Size4KiB, Page_init 0x13000 Size4KiB] (Pointer
    (single_table Level4 [Page_init 0x14000 Size4KiB] (Pointer
    (single_table Level3 [Page_init 0x15000 Size4KiB] (Pointer
    (single_table Level2 [Page_init 0x16000 Size4KiB] (Pointer
    (single_table Level1 [Page_init 0x17000 Size4KiB]
       (Leaf (Page_init 0x18000 Size4KiB) shared_page_configuration shared_page_permission))
     shared_page_configuration)) shared_page_configuration)) shared_page_configuration)) shared_page_configuration)"

definition example_words :: "usize \<Rightarrow> usize \<Rightarrow> usize" where
  "example_words v = (\<lambda>_. 0)
     (0x10000 := pte 0x14000 shared_page_configuration no_permission,
      0x14000 := pte 0x15000 shared_page_configuration no_permission,
      0x15000 := pte 0x16000 shared_page_configuration no_permission,
      0x16000 := pte 0x17000 shared_page_configuration no_permission,
      0x17000 := pte 0x18000 shared_page_configuration shared_page_permission,
      0x18008 := v)"

definition example_hgatp :: usize where
  "example_hgatp = hgatp_bits (Hgatp_new 0x10000 Sv57x4_mode 7)"

definition example_mapped_vm :: confidential_vm where
  "example_mapped_vm = example_vm\<lparr>memory_protector := \<lparr>protector_root_page_table =
     \<lparr>root_paging_system = Sv57x4, root_table = example_tree\<rparr>, protector_hgatp = example_hgatp\<rparr>\<rparr>"

definition example_mapped_machine :: machine where
  "example_mapped_machine = put_view 3
     (example_monitor\<lparr>confidential_memory := example_words 0,
        CONTROL_DATA := Some \<lparr>confidential_vms = [(7, example_mapped_vm)]\<rparr>, hardware := example_running_hart,
        csrs := example_csrs(CSR_PMPCFG0 := 0xF00, CSR_HGATP := example_hgatp)\<rparr>) example_machine"

lemma example_tree_memory:
  "memory_ok example_layout Sv57x4 Level5 (new_memory Sv57x4 Level5 [Page_init 0x10000 Size4KiB, Page_init 0x11000 Size4KiB, Page_init 0x12000 Size4KiB, Page_init 0x13000 Size4KiB])"
  "a \<in> {0x14000, 0x15000, 0x16000, 0x17000} \<Longrightarrow> level \<noteq> Level5 \<Longrightarrow>
     memory_ok example_layout Sv57x4 level (new_memory Sv57x4 level [Page_init a Size4KiB])"
  by (auto simp: memory_ok_def new_memory_def table_geometry contiguous_def page_ok_def example_layout_def less_Suc_eq)

lemma example_tree_leaf: "page_ok example_layout (Page_init 0x18000 Size4KiB)"
  by (simp add: page_ok_def example_layout_def)

lemma example_tree_ok: "table_ok example_layout Sv57x4 example_tree"
  unfolding example_tree_def
  by (intro single_table_ok example_tree_memory)
     (auto intro!: single_table_ok example_tree_memory simp: example_tree_leaf level_page_size_def
       has_permission_def shared_page_permission_def)

lemma example_tree_synced: "synced (example_words v) example_tree"
  unfolding example_tree_def
  by (rule single_table_synced [OF example_tree_memory(1)])
     (auto intro!: single_table_synced [OF example_tree_memory(2)] simp: example_words_def represents_def PageTableEntry_encode_def
       pte_def start_address_def permission_encode_none table_geometry)

lemma example_tree_pages:
  "table_pages example_tree = map (\<lambda>a. Page_init a Size4KiB)
     [0x18000, 0x17000, 0x16000, 0x15000, 0x14000, 0x10000, 0x11000, 0x12000, 0x13000]"
  "leaf_pages example_tree = [Page_init 0x18000 Size4KiB]"
  "table_level example_tree = Level5" "PageTable_address example_tree = Ok 0x10000"
  by (simp_all add: example_tree_def)

lemma example_tree_unshared: "table_unshared example_tree"
  by (auto simp: example_tree_def single_table_def)

lemma example_tree_walk:
  "hw_index 8 level = 0"
  "walk (hw_index 8) example_tree = Some (Level1, Leaf (Page_init 0x18000 Size4KiB) shared_page_configuration shared_page_permission)"
proof -
  show index: "hw_index 8 level = 0" for level by (cases level) (simp_all add: hw_index_def)
  show "walk (hw_index 8) example_tree = Some (Level1, Leaf (Page_init 0x18000 Size4KiB) shared_page_configuration shared_page_permission)"
    by (simp add: example_tree_def walk_single_table index)
qed

lemma example_translation:
  assumes "confidential_memory s = example_words v" and "csrs s CSR_HGATP = example_hgatp"
  shows "guest_translation s 8 = Some 0x18008"
proof -
  have "Hgatp_address (Hgatp_from (csrs s CSR_HGATP)) = 0x10000"
    using Hgatp_address_new [of "0x10000" Sv57x4_mode 7] assms(2)
    by (simp add: example_hgatp_def Hgatp_from_def Hgatp_address_def)
  then show ?thesis
    using mmu_walk_tree [OF example_tree_ok example_tree_synced example_tree_pages(4), of v 8] example_tree_walk(2)
    by (simp add: guest_translation_def assms(1) example_tree_pages(3) entry_target_def leaf_target_def)
qed

lemma example_mapped_simps [simp]:
  "vm_root example_mapped_vm = \<lparr>root_paging_system = Sv57x4, root_table = example_tree\<rparr>"
  "protector_hgatp (memory_protector example_mapped_vm) = example_hgatp"
  "confidential_harts example_mapped_vm = confidential_harts example_vm" "vm_id example_mapped_vm = vm_id example_vm"
  "inter_hart_requests example_mapped_vm = inter_hart_requests example_vm"
  by (simp_all add: example_mapped_vm_def vm_root_def)

lemma example_mapped_memory: "confidential_memory (global example_mapped_machine) = example_words 0"
  by (simp add: example_mapped_machine_def)

lemma example_mapped_table: "vm_table (global example_mapped_machine) = [7 \<mapsto> example_mapped_vm]"
  by (simp add: vm_table_def example_mapped_machine_def)

lemma example_mapped_occupied:
  "occupied (view_of example_mapped_machine n) = (if n = 3 then Some (7, 1, example_hgatp) else None)"
  by (simp add: example_mapped_machine_def put_view_def occupied_def example_running_hart_def example_hart_ids
      example_machine_def example_hardware_hart_def)

lemma example_mapped_vm_ok: "vm_ok (\<lambda>n. if n = 3 then Some (7, 1, example_hgatp) else None) 7 example_mapped_vm"
  by (auto simp: vm_ok_def example_vm_def queues_ok_def slot_ok_def example_hart_ids MAX_NUMBER_OF_HARTS_PER_VM_def
      MAX_NUMBER_OF_REMOTE_HART_REQUESTS_def less_Suc_eq nth_Cons is_dummy_def split: if_splits)

lemma example_mapped_machine_inv: "machine_inv example_layout example_mapped_machine"
  unfolding machine_inv_def
proof (intro conjI allI)
  show "own_hart_ok example_layout n (view_of example_mapped_machine n)" for n
    using example_protection example_open_protection
    by (cases "n = 3")
       (simp_all add: own_hart_ok_def running_def example_mapped_machine_def put_view_def example_running_hart_def
          example_machine_def example_hardware_hart_def example_hart_ids Let_def is_dummy_def)
  show "control_ok (\<lambda>n. occupied (view_of example_mapped_machine n)) (vm_table (global example_mapped_machine))"
    unfolding example_mapped_occupied example_mapped_table
    by (rule control_okI)
       (use example_mapped_vm_ok in \<open>auto simp: seated_def example_vm_def example_hart_ids is_dummy_def split: if_splits\<close>)
qed

lemma example_mapped_shares: "vms = [7 \<mapsto> vm] \<Longrightarrow> vm_root vm = vm_root example_mapped_vm \<Longrightarrow> base_page_shares vms"
  using walk_entry [OF example_tree_ok] example_tree_unshared
  by (fastforce simp: base_page_shares_def split: if_splits)

lemma example_mapped_isolated: "isolated_inv example_layout example_mapped_machine"
proof -
  have free: "free_in (global example_mapped_machine) x = owned [Page_init 0x4000 Size4KiB, Page_init 0x5000 Size4KiB] x
      + owned [Page_init 0x200000 Size2MiB] x" for x
    by (simp add: free_in_def example_mapped_machine_def example_monitor_def free_owned_def example_tokens)
  have "tables_ok example_layout (global example_mapped_machine) (roots None (vm_table (global example_mapped_machine)))"
    unfolding example_mapped_table
  proof (rule tables_okI)
    show "alloc_inv example_layout (global example_mapped_machine)"
      using example_state_inv by (simp add: alloc_inv_def example_mapped_machine_def example_monitor_def example_state_def)
    show "free_in (global example_mapped_machine) x \<le> 1" for x
      by (auto simp: free page_range_def)
  qed (auto simp: roots_def example_tree_ok example_tree_pages free split: option.splits if_splits,
      auto simp: page_range_def)
  moreover have "tables_synced (confidential_memory (global example_mapped_machine))
      (roots None (vm_table (global example_mapped_machine)))"
    using example_tree_synced [of 0]
    by (auto simp: tables_synced_def example_mapped_table roots_def example_mapped_memory split: option.splits if_splits)
  moreover have "activates_root 7 (memory_protector example_mapped_vm)"
    by (simp add: activates_root_def example_mapped_vm_def RootPageTable_address_def example_tree_pages example_hgatp_def
        hgatp_mode_of_def)
  ultimately show ?thesis
    using example_mapped_machine_inv example_mapped_shares [OF example_mapped_table refl]
    by (auto simp: isolated_inv_def memory_inv_def holds_tables_def example_mapped_table split: if_splits)
qed

text \<open>The VM writes to its page and is interrupted.\<close>

definition example_written_machine :: machine where
  "example_written_machine = put_view 3
     (vm_runs ((csrs (view_of example_mapped_machine 3))(CSR_MCAUSE := push_bit CAUSE_INTERRUPT_BIT 1)) (\<lambda>_. 0)
        (example_words 42) (view_of example_mapped_machine 3)) example_mapped_machine"

lemma example_mapped_hart:
  "running (view_of example_mapped_machine 3)"
  "csrs (view_of example_mapped_machine 3) = example_csrs(CSR_PMPCFG0 := 0xF00, CSR_HGATP := example_hgatp)"
  by (simp_all add: example_mapped_machine_def put_view_def running_def example_running_hart_def is_dummy_def example_hart_ids)

lemma example_written_hart:
  "running (view_of example_written_machine 3)"
  "hart_vm_id (assigned_hart (hardware (view_of example_written_machine 3))) = Some 7"
  "csrs (view_of example_written_machine 3) CSR_HGATP = example_hgatp"
  "is_bit_enabled (csrs (view_of example_written_machine 3) CSR_MCAUSE) CAUSE_INTERRUPT_BIT"
  "csrs (view_of example_written_machine 3) CSR_MIP = 0"
  "dump (hypervisor_state (view_of example_written_machine 3)) CSR_MEPC = 0"
  "confidential_memory (view_of example_written_machine 3) = example_words 42"
  "vm_table (global example_written_machine) = [7 \<mapsto> example_mapped_vm]"
  by (simp_all add: example_written_machine_def put_view_def vm_runs_def update_hart_state_def running_def is_dummy_def
      example_mapped_machine_def example_running_hart_def example_csrs_def is_bit_enabled_def CAUSE_INTERRUPT_BIT_def
      example_hardware_hart_def HartArchitecturalState_empty_def vm_table_def)

lemma example_written_step:
  "machine_step_writing translated_writes example_environment example_mapped_machine example_written_machine"
  unfolding example_written_machine_def
proof (rule machine_step_writing.confidential_vm)
  have "guest_translation (view_of example_mapped_machine 3) 8 = Some 0x18008"
    using example_mapped_hart(2) by (intro example_translation [of _ 0]) (simp_all add: example_mapped_memory)
  moreover have "example_words 42 a = example_words 0 a" if "a \<noteq> 0x18008" for a
    using that by (simp add: example_words_def)
  ultimately show "translated_writes (view_of example_mapped_machine 3) (example_words 42)"
    unfolding translated_writes_def view_memory example_mapped_memory by metis
qed (auto simp: example_mapped_hart(1) protection_csrs_def)

lemma example_environment_platform: "platform_ok (layout example_environment)" "layout example_environment = example_layout"
  by (simp_all add: platform_ok_def example_environment_def layout_wf_def is_aligned_to_def smallest_def in_bytes_def
      small_confidential_memory_def example_layout_def)


text \<open>C2: The memory of confidential VMs never overlaps. The invariant \<open>memory_inv\<close>, which holds after boot
  (\<open>idle_memory_inv\<close>), holds after any run of the machine, on any number of harts, whatever the hypervisor requests and
  whatever the VMs do, even if a VM could write all of confidential memory. So every page that a VM owns (mapped
  pages and page tables) lies in confidential memory, no byte of it is in the pool of free pages, no VM owns a
  byte twice, and no two VMs own a common byte.\<close>

theorem vm_pages_never_overlap:
  assumes "memory_inv (layout env) False None (global m)" and "(machine_step env)\<^sup>*\<^sup>* m m'"
    and "vm_table (global m') k = Some vm" and "vm_table (global m') k' = Some vm'" and "k \<noteq> k'"
  shows "(\<forall>p \<in> set (root_pages (vm_root vm)). page_ok (layout env) p)
    \<and> (\<forall>x. free_in (global m') x + owned (root_pages (vm_root vm)) x \<le> 1)
    \<and> (\<forall>p \<in> set (root_pages (vm_root vm)). \<forall>q \<in> set (root_pages (vm_root vm')). page_range p \<inter> page_range q = {})"
proof -
  have ok: "tables_ok (layout env) (global m') (roots None (vm_table (global m')))"
    using ownership_steps [OF assms(2,1)] by (simp add: memory_inv_def holds_tables_def)
  have r: "roots None (vm_table (global m')) (Some k) = Some (vm_root vm)"
    "roots None (vm_table (global m')) (Some k') = Some (vm_root vm')" using assms(3,4) by simp_all
  have "list_all (page_ok (layout env)) (root_pages (vm_root vm))"
    by (rule entry_pages_ok(2) [OF tables_okD(3) [OF ok r(1)]])
  moreover have "page_range p \<inter> page_range q = {}"
    if "p \<in> set (root_pages (vm_root vm))" "q \<in> set (root_pages (vm_root vm'))" for p q
    using assms(5) by (intro disjoint_ranges [OF tables_okD(6) [OF ok r] that]) simp
  ultimately show ?thesis using tables_okD(5) [OF ok r(1)] by (auto simp: list_all_iff)
qed

text \<open>Two confidential VMs with a root page table each.\<close>

definition example_root :: "usize \<Rightarrow> root_page_table" where
  "example_root a = \<lparr>root_paging_system = Sv57x4, root_table = PageTable Level5
     \<lparr>memory_pages = map (\<lambda>i. Page_init (a + i) Size4KiB) [0, 0x1000, 0x2000, 0x3000],
      number_of_entries = entries Sv57x4 Level5, memory_entry_size = 8\<rparr> (replicate 2048 NotValid)\<rparr>"

definition example_owner :: "confidential_vm_id \<Rightarrow> usize \<Rightarrow> confidential_vm" where
  "example_owner k a = example_vm\<lparr>vm_id := k, confidential_harts := [], memory_protector :=
     \<lparr>protector_root_page_table = example_root a,
      protector_hgatp = hgatp_bits (Hgatp_new a (hgatp_mode_of Sv57x4) k)\<rparr>\<rparr>"

definition example_owners_machine :: machine where
  "example_owners_machine = example_machine\<lparr>global := example_monitor\<lparr>CONTROL_DATA := Some
     \<lparr>confidential_vms = [(7, example_owner 7 0x10000), (8, example_owner 8 0x20000)]\<rparr>\<rparr>\<rparr>"

lemma example_root_ok:
  assumes "a = 0x10000 \<or> a = 0x20000"
  shows "table_ok example_layout Sv57x4 (root_table (example_root a))"
  using assms
  by (auto simp: example_root_def memory_ok_def table_geometry page_ok_def example_layout_def contiguous_def less_Suc_eq)

lemma example_owners_table:
  "vm_table (global example_owners_machine) = [7 \<mapsto> example_owner 7 0x10000, 8 \<mapsto> example_owner 8 0x20000]"
  by (auto simp: example_owners_machine_def vm_table_def)

lemma example_owners_free: "free_in (global example_owners_machine) = free_in example_state"
  by (simp add: fun_eq_iff free_in_def example_owners_machine_def example_monitor_def example_state_def)

lemma example_owners_inv: "memory_inv (layout example_environment) b None (global example_owners_machine)" if "\<not> b"
proof -
  have root: "vm_root (example_owner k a) = example_root a" "root_paging_system (example_root a) = Sv57x4"
    "table_level (root_table (example_root a)) = Level5" for k a
    by (simp_all add: vm_root_def example_owner_def example_root_def)
  have free: "free_in example_state x = owned [Page_init 0x4000 Size4KiB, Page_init 0x5000 Size4KiB] x
      + owned [Page_init 0x200000 Size2MiB] x" for x
    by (simp add: free_in_def example_state_def free_owned_def example_tokens)
  have "tables_ok example_layout (global example_owners_machine) (roots None (vm_table (global example_owners_machine)))"
    unfolding example_owners_table
  proof (rule tables_okI)
    show "alloc_inv example_layout (global example_owners_machine)"
      using example_state_inv by (simp add: alloc_inv_def example_owners_machine_def example_monitor_def example_state_def)
    show "free_in (global example_owners_machine) x \<le> 1" for x
      using example_state_exclusive by (simp add: exclusive_def example_owners_free)
  qed (auto simp: roots_def root example_root_ok example_owners_free free split: option.splits if_splits,
      auto simp: example_root_def page_range_def)
  then show ?thesis
    using that by (auto simp: memory_inv_def holds_tables_def example_environment_def example_owners_table
        activates_root_def example_owner_def example_root_def RootPageTable_address_def
        PageTableMemory_start_address_def vec_index_def start_address_def split: if_splits)
qed

theorem vm_pages_never_overlap_witness:
  "vm_table (global example_owners_machine) 7 = Some (example_owner 7 0x10000)
   \<and> vm_table (global example_owners_machine) 8 = Some (example_owner 8 0x20000)
   \<and> page_range (Page_init 0x10000 Size4KiB) \<inter> page_range (Page_init 0x20000 Size4KiB) = {}"
proof -
  have vms: "vm_table (global example_owners_machine) 7 = Some (example_owner 7 0x10000)"
    "vm_table (global example_owners_machine) 8 = Some (example_owner 8 0x20000)"
    by (simp_all add: example_owners_table)
  have "Page_init 0x10000 Size4KiB \<in> set (root_pages (vm_root (example_owner 7 0x10000)))"
    "Page_init 0x20000 Size4KiB \<in> set (root_pages (vm_root (example_owner 8 0x20000)))"
    by (simp_all add: vm_root_def example_owner_def example_root_def)
  with vm_pages_never_overlap [OF example_owners_inv rtranclp.rtrancl_refl vms] vms show ?thesis by simp
qed

end
