(* ===== verification/Guest_Calls.thy ===== *)
theory Guest_Calls
  imports Machine
begin

text \<open>
  What a confidential VM can ask the monitor for: the calls that \<^verbatim>\<open>route_confidential_flow\<close> of
  confidential_flow/control_flow/mod.rs has no arm for.
\<close>

section \<open>Calls without a handler\<close>

text \<open>C39: A guest that calls one of the standard SBI extensions with a function number above those the
  extension defines stops the monitor: the call decodes to the extension with an unknown function, which
  the routing treats as a wrong configuration of the interrupt delegation.\<close>

theorem unknown_function_panics_monitor:
  assumes "running s" and "read_csr (csrs s) CSR_MCAUSE = 10"
    and "gpr (confidential_hart_state (assigned_hart (hardware s))) gpr_a7
      \<in> {BaseExtension_EXTID, IpiExtension_EXTID, RfenceExtension_EXTID, HsmExtension_EXTID, SrstExtension_EXTID}"
    and "6 < gpr (confidential_hart_state (assigned_hart (hardware s))) gpr_a6"
  shows "fst (route_confidential_flow env s) = Panic"
proof -
  let ?h = "assigned_hart (hardware s)"
  let ?g = "ConfidentialHart_store_volatile (csrs s) ?h"
  let ?a7 = "gpr (confidential_hart_state ?h) gpr_a7" and ?a6 = "gpr (confidential_hart_state ?h) gpr_a6"
  have same: "gpr (confidential_hart_state ?g) r = gpr (confidential_hart_state ?h) r" for r
    by (simp add: ConfidentialHart_store_volatile_def set_dump_def gpr_def)
  have high: "?a6 \<noteq> 0" "?a6 \<noteq> 1" "?a6 \<noteq> 2" "?a6 \<noteq> 3" "?a6 \<noteq> 4" "?a6 \<noteq> 5" "?a6 \<noteq> 6"
    using assms(4) by auto
  consider x y where "SbiExtension_decode ?a7 ?a6 = Base (BaseUnknown x y)"
    | x y where "SbiExtension_decode ?a7 ?a6 = Ipi (IpiUnknown x y)"
    | x y where "SbiExtension_decode ?a7 ?a6 = Rfence (RfenceUnknown x y)"
    | x y where "SbiExtension_decode ?a7 ?a6 = Hsm (HsmUnknown x y)"
    | x y where "SbiExtension_decode ?a7 ?a6 = Srst (SrstUnknown x y)"
    using assms(3) high by (auto simp: SbiExtension_decode_def fid_defs extid_defs)
  moreover have "ConfidentialHart_trap_reason (csrs s) ?g = VsEcall (SbiExtension_decode ?a7 ?a6)"
    by (simp add: ConfidentialHart_trap_reason_def assms(2) same TrapCause_from_def is_bit_enabled_def cause_defs
        CAUSE_INTERRUPT_BIT_def)
  moreover have "\<not> is_dummy ?g" using assms(1) by (simp add: running_def is_dummy_def ConfidentialHart_store_volatile_def)
  ultimately show ?thesis
    by cases
       (simp_all add: route_confidential_flow_def sbind_def on_assigned_hart_def ConfidentialFlow_create_def
          set_assigned_hart_def handle_confidential_trap_def lift_def Let_def)
qed

definition example_calling_hart :: confidential_hart where
  "example_calling_hart = update_hart_state
     (\<lambda>h. set_gpr gpr_a7 HsmExtension_EXTID (set_gpr gpr_a6 7 h)) example_confidential_hart"

definition example_calling_state :: monitor where
  "example_calling_state = set_assigned_hart example_calling_hart (example_monitor\<lparr>csrs := (\<lambda>_. 0)(CSR_MCAUSE := 10)\<rparr>)"

theorem unknown_function_panics_monitor_witness:
  "fst (route_confidential_flow example_environment example_calling_state) = Panic"
proof (rule unknown_function_panics_monitor)
  have hart: "assigned_hart (hardware example_calling_state) = example_calling_hart"
    by (simp add: example_calling_state_def set_assigned_hart_def)
  show "running example_calling_state"
    by (simp add: running_def hart example_calling_hart_def update_hart_state_def is_dummy_def example_hart_ids)
  show "read_csr (csrs example_calling_state) CSR_MCAUSE = 10"
    by (simp add: example_calling_state_def read_csr_def set_assigned_hart_def)
  have regs: "gpr (confidential_hart_state example_calling_hart) gpr_a7 = HsmExtension_EXTID"
    "gpr (confidential_hart_state example_calling_hart) gpr_a6 = 7"
    by (simp_all add: example_calling_hart_def update_hart_state_def gpr_def set_gpr_def
        GeneralPurposeRegisters_get_def GeneralPurposeRegisters_set_def)
  then show "6 < gpr (confidential_hart_state (assigned_hart (hardware example_calling_state))) gpr_a6"
    "gpr (confidential_hart_state (assigned_hart (hardware example_calling_state))) gpr_a7
      \<in> {BaseExtension_EXTID, IpiExtension_EXTID, RfenceExtension_EXTID, HsmExtension_EXTID, SrstExtension_EXTID}"
    by (simp_all add: hart)
qed

end
