(* ===== verification/Inter_Hart.thy ===== *)
theory Inter_Hart
  imports Machine
begin

text \<open>
  Requests between the harts of a confidential VM: what \<^verbatim>\<open>broadcast_inter_hart_request\<close> of
  core/control_data/confidential_vm.rs does to every hart of the VM, and how
  \<^verbatim>\<open>resume_confidential_hart_execution\<close> treats a request for a shutdown.
\<close>

section \<open>Broadcast\<close>

definition delivered :: "inter_hart_request \<Rightarrow> usize set \<Rightarrow> confidential_vm \<Rightarrow> confidential_vm \<Rightarrow> usize \<Rightarrow> bool" where
  "delivered r targets vm vm' i \<longleftrightarrow>
     (let h = confidential_harts vm ! unat i; h' = confidential_harts vm' ! unat i;
          q = inter_hart_requests vm i; q' = inter_hart_requests vm' i
      in if i \<notin> targets then h' = h \<and> q' = q
         else if is_dummy h
         then h' = h \<and> (\<exists>rs. q = Some rs \<and> length rs < MAX_NUMBER_OF_REMOTE_HART_REQUESTS \<and> q' = Some (rs @ [r]))
         else ConfidentialHart_apply (into_expose_to_confidential_vm r) h = Ok h' \<and> q' = q)"

definition interrupted :: "confidential_vm \<Rightarrow> usize list \<Rightarrow> (usize \<times> usize) list" where
  "interrupted vm is = map (\<lambda>i. (1, confidential_hart_id (confidential_harts vm ! unat i)))
     (filter (\<lambda>i. is_dummy (confidential_harts vm ! unat i)) is)"

lemma deliver_request_Ok:
  assumes "deliver_request env r i (vm, s) = (Ok (), (vm', s'))"
  shows "unat i < length (confidential_harts vm)"
    and "length (confidential_harts vm') = length (confidential_harts vm)"
    and "delivered r {i} vm vm' j"
    and "is_dummy (confidential_harts vm' ! unat j) = is_dummy (confidential_harts vm ! unat j)"
    and "confidential_hart_id (confidential_harts vm' ! unat j) = confidential_hart_id (confidential_harts vm ! unat j)"
    and "ipis s' = ipis s @ interrupted vm [i]"
proof -
  have i: "unat i < length (confidential_harts vm)"
    using assms by (auto simp: deliver_request_def nth_hart_def split: if_splits)
  have "length (confidential_harts vm') = length (confidential_harts vm) \<and> delivered r {i} vm vm' j
    \<and> is_dummy (confidential_harts vm' ! unat j) = is_dummy (confidential_harts vm ! unat j)
    \<and> confidential_hart_id (confidential_harts vm' ! unat j) = confidential_hart_id (confidential_harts vm ! unat j)
    \<and> ipis s' = ipis s @ interrupted vm [i]"
  proof (cases "is_dummy (confidential_harts vm ! unat i)")
    case True
    with i assms show ?thesis
      by (auto simp: deliver_request_def nth_hart_def try_inter_hart_requests_def push_request_def send_ipi_def Let_def
          delivered_def interrupted_def split: if_splits option.splits result.splits prod.splits)
  next
    case False
    with i assms obtain h where h: "ConfidentialHart_apply (into_expose_to_confidential_vm r) (confidential_harts vm ! unat i) = Ok h"
      and "vm' = set_hart i h vm" "ipis s' = ipis s"
      by (auto simp: deliver_request_def nth_hart_def Let_def split: if_splits option.splits result.splits)
    with False i apply_identity [OF h] show ?thesis
      by (auto simp: delivered_def interrupted_def is_dummy_def nth_list_update Let_def dest: unsigned_word_eqI)
  qed
  with i show "unat i < length (confidential_harts vm)"
    "length (confidential_harts vm') = length (confidential_harts vm)" "delivered r {i} vm vm' j"
    "is_dummy (confidential_harts vm' ! unat j) = is_dummy (confidential_harts vm ! unat j)"
    "confidential_hart_id (confidential_harts vm' ! unat j) = confidential_hart_id (confidential_harts vm ! unat j)"
    "ipis s' = ipis s @ interrupted vm [i]" by blast+
qed

lemma delivered_cong: "(i \<in> S \<longleftrightarrow> i \<in> T) \<Longrightarrow> delivered r S vm vm' i = delivered r T vm vm' i"
  by (simp add: delivered_def)

lemma delivered_trans:
  assumes "delivered r {i} vm vm1 j" and "delivered r T vm1 vm2 j" and "i \<notin> T"
  shows "delivered r (insert i T) vm vm2 j"
  using assms by (auto simp: delivered_def Let_def split: if_splits)

lemma deliver_requests_Ok:
  assumes "for_each (deliver_request env r) is (vm, s) = (Ok (), (vm', s'))" and "distinct is"
  shows "length (confidential_harts vm') = length (confidential_harts vm)
    \<and> (\<forall>j. delivered r (set is) vm vm' j) \<and> ipis s' = ipis s @ interrupted vm is"
  using assms
proof (induction "is" arbitrary: vm s)
  case Nil
  then show ?case by (simp add: ret_def delivered_def interrupted_def)
next
  case (Cons i "is")
  then obtain vm1 s1 where step: "deliver_request env r i (vm, s) = (Ok (), (vm1, s1))"
    and rest: "for_each (deliver_request env r) is (vm1, s1) = (Ok (), (vm', s'))"
    by (auto simp: res_simps)
  note first = deliver_request_Ok [OF step]
  have IH: "length (confidential_harts vm') = length (confidential_harts vm1)
    \<and> (\<forall>j. delivered r (set is) vm1 vm' j) \<and> ipis s' = ipis s1 @ interrupted vm1 is"
    using Cons.IH [OF rest] Cons.prems(2) by simp
  have "interrupted vm1 is = interrupted vm is"
    by (simp add: interrupted_def first(4,5))
  then have "ipis s' = ipis s @ interrupted vm (i # is)" using IH first(6) by (simp add: interrupted_def)
  moreover have "delivered r (set (i # is)) vm vm' j" for j
    using delivered_trans [OF first(3)] IH Cons.prems(2) by simp
  ultimately show ?case using IH first(2) by simp
qed

lemma selected_harts:
  assumes "length (confidential_harts vm) \<le> 2 ^ 64"
  shows "distinct (filter P (map of_nat [0..<length (confidential_harts vm)] :: usize list))"
    and "\<And>i :: usize. unat i < length (confidential_harts vm) \<Longrightarrow>
      i \<in> set (filter P (map of_nat [0..<length (confidential_harts vm)])) \<longleftrightarrow> P i"
proof -
  have "inj_on (of_nat :: nat \<Rightarrow> usize) {0..<length (confidential_harts vm)}"
    using assms by (intro inj_onI) (simp add: word_of_nat_eq_iff take_bit_nat_eq_self)
  then show "distinct (filter P (map of_nat [0..<length (confidential_harts vm)] :: usize list))"
    by (simp add: distinct_map)
  show "i \<in> set (filter P (map of_nat [0..<length (confidential_harts vm)])) \<longleftrightarrow> P i"
    if "unat i < length (confidential_harts vm)" for i :: usize
    using that by (auto simp: image_iff intro!: bexI [of _ "unat i"])
qed

text \<open>C21: A broadcast that succeeds reaches exactly the harts that the request selects: a selected hart that
  no hardware hart runs has the transformation applied to its saved state, a selected hart that is running
  gets the request appended to its queue, which was not full, and the hardware hart that runs it gets one
  interrupt, in the order of the harts. Every other hart and every other queue stays as it was.\<close>

theorem broadcast_reaches_selected_harts:
  assumes "ConfidentialVm_broadcast_inter_hart_request env r (vm, s) = (Ok (), (vm', s'))"
    and "length (confidential_harts vm) \<le> 2 ^ 64"
  shows "length (confidential_harts vm') = length (confidential_harts vm)
    \<and> (\<forall>i. unat i < length (confidential_harts vm) \<longrightarrow> delivered r {i. is_hart_selected r i} vm vm' i)
    \<and> ipis s' = ipis s @ interrupted vm
        (filter (is_hart_selected r) (map of_nat [0..<length (confidential_harts vm)]))"
proof -
  let ?is = "filter (is_hart_selected r) (map of_nat [0..<length (confidential_harts vm)]) :: usize list"
  have all: "length (confidential_harts vm') = length (confidential_harts vm)
    \<and> (\<forall>j. delivered r (set ?is) vm vm' j) \<and> ipis s' = ipis s @ interrupted vm ?is"
    using assms(1) selected_harts(1) [OF assms(2)]
    by (intro deliver_requests_Ok) (simp_all add: ConfidentialVm_broadcast_inter_hart_request_def)
  moreover have "delivered r {i. is_hart_selected r i} vm vm' i" if "unat i < length (confidential_harts vm)" for i
    using all selected_harts(2) [OF assms(2) that, of "is_hart_selected r"]
      delivered_cong [of i "set ?is" "{i. is_hart_selected r i}"] by blast
  ultimately show ?thesis by blast
qed

lemma example_vm_simps [simp]:
  "confidential_harts example_vm = [example_home_hart, dummy 0x8000 3]"
  "inter_hart_requests example_vm = [0 \<mapsto> [], 1 \<mapsto> []]"
  by (simp_all add: example_vm_def)

definition example_ipi :: inter_hart_request where
  "example_ipi = InterHartSbiIpi \<lparr>ipi_hart_mask = 0, ipi_hart_mask_base = - 1\<rparr>"

lemma example_selected: "is_hart_selected example_ipi i"
  by (simp add: example_ipi_def hart_selected_def)

lemma example_monitor_simps: "INTERRUPT_CONTROLLER example_monitor" "ipis example_monitor = []"
  by (simp_all add: example_monitor_def)

lemma example_broadcast:
  "\<exists>vm s. ConfidentialVm_broadcast_inter_hart_request example_environment example_ipi (example_vm, example_monitor)
     = (Ok (), (vm, s))"
proof -
  have harts: "filter (is_hart_selected example_ipi) (map of_nat [0..<length (confidential_harts example_vm)]) = [0, 1]"
    by (simp add: example_selected)
  have first: "\<exists>h. deliver_request example_environment example_ipi 0 (example_vm, example_monitor)
      = (Ok (), (set_hart 0 h example_vm, example_monitor))"
    by (simp add: deliver_request_def nth_hart_def is_dummy_def example_hart_ids example_ipi_def ConfidentialHart_apply_def
        transformation_fences_def) blast
  have second: "\<exists>vm s. deliver_request example_environment example_ipi 1 (set_hart 0 h example_vm, example_monitor)
      = (Ok (), (vm, s))" for h
    by (simp add: deliver_request_def nth_hart_def is_dummy_def example_hart_ids try_inter_hart_requests_def
        push_request_def MAX_NUMBER_OF_REMOTE_HART_REQUESTS_def send_ipi_def example_monitor_simps example_environment_def
        Let_def)
  obtain h where h: "deliver_request example_environment example_ipi 0 (example_vm, example_monitor)
      = (Ok (), (set_hart 0 h example_vm, example_monitor))" using first by blast
  obtain vm s where "deliver_request example_environment example_ipi 1 (set_hart 0 h example_vm, example_monitor)
      = (Ok (), (vm, s))" using second [of h] by blast
  with h show ?thesis
    unfolding ConfidentialVm_broadcast_inter_hart_request_def prod.case harts by (simp add: sbind_def ret_def)
qed

theorem broadcast_reaches_selected_harts_witness:
  "\<exists>vm' s'. ConfidentialVm_broadcast_inter_hart_request example_environment example_ipi (example_vm, example_monitor)
       = (Ok (), (vm', s'))
     \<and> inter_hart_requests vm' 1 = Some [example_ipi] \<and> ipis s' = [(1, 3)]"
proof -
  obtain vm s where call: "ConfidentialVm_broadcast_inter_hart_request example_environment example_ipi
      (example_vm, example_monitor) = (Ok (), (vm, s))" using example_broadcast by blast
  have "length (confidential_harts example_vm) \<le> 2 ^ 64" by simp
  note b = broadcast_reaches_selected_harts [OF call this]
  then have "delivered example_ipi {i. is_hart_selected example_ipi i} example_vm vm 1"
    by (auto dest: spec [where x = "1 :: usize"])
  then have "inter_hart_requests vm 1 = Some [example_ipi]"
    by (simp add: delivered_def example_selected is_dummy_def example_hart_ids)
  moreover have "ipis s = [(1, 3)]"
    using b by (simp add: example_monitor_simps interrupted_def example_selected is_dummy_def example_hart_ids)
  ultimately show ?thesis using call by blast
qed

section \<open>Processing\<close>

lemma process_shutdown_request:
  assumes "hart_vm_id (assigned_hart (hardware s)) = Some k" and "vm_table s k = Some vm"
    and "inter_hart_requests vm (flow_hart_id s) = Some [InterHartSbiSrstSystemReset r]"
  obtains t where "process_inter_hart_requests s = (Ok (), t)"
    and "assigned_hart (hardware t) = assigned_hart (hardware s)\<lparr>lifecycle_state := Shutdown\<rparr>"
proof -
  obtain cd where "CONTROL_DATA s = Some cd" "map_of (confidential_vms cd) k = Some vm"
    using assms(2) by (auto simp: vm_table_def split: option.splits)
  with assms that show ?thesis
    by (simp add: process_inter_hart_requests_def flow_vm_id_def sbind_def ret_def lift_def sunwrap_def try_confidential_vm_def
        ControlData_confidential_vm_def try_inter_hart_requests_def apply_to_assigned_hart_def on_assigned_hart_def
        ConfidentialHart_apply_def transition_to_shutdown_def is_dummy_def modify_def set_assigned_hart_def)
qed

text \<open>C38: A hart that is resumed while a request for a system reset waits in its queue processes the request,
  which moves it to the shutdown state, and is then executed: unlike the interrupt handler, the code that
  resumes a hart does not look at the lifecycle state after it processed the requests.\<close>

theorem resume_executes_shut_down_hart:
  assumes "hart_vm_id (assigned_hart (hardware s)) = Some k" and "vm_table s k = Some vm"
    and "inter_hart_requests vm (flow_hart_id s) = Some [InterHartSbiSrstSystemReset r]"
    and "hart_pending_request (assigned_hart (hardware s)) = None"
  shows "\<exists>t. resume_confidential_hart_execution env s = (Ok ExitToConfidentialHart, t)
    \<and> lifecycle_state (assigned_hart (hardware t)) = Shutdown"
proof -
  obtain t where t: "process_inter_hart_requests s = (Ok (), t)"
    "assigned_hart (hardware t) = assigned_hart (hardware s)\<lparr>lifecycle_state := Shutdown\<rparr>"
    using process_shutdown_request [OF assms(1-3)] by blast
  with assms show ?thesis
    by (simp add: resume_confidential_hart_execution_def sbind_def ConfidentialFlow_create_def is_dummy_def
        take_request_def handle_response_def exit_to_confidential_hart_def apply_to_assigned_hart_def
        on_assigned_hart_def ConfidentialHart_apply_def modify_def ret_def set_assigned_hart_def)
qed

definition example_reset_vm :: confidential_vm where
  "example_reset_vm = example_vm\<lparr>inter_hart_requests :=
     [0 \<mapsto> [], 1 \<mapsto> [InterHartSbiSrstSystemReset \<lparr>initiating_confidential_hart_id = 0\<rparr>]]\<rparr>"

definition example_reset_state :: monitor where
  "example_reset_state = view_of example_vm_machine 3\<lparr>CONTROL_DATA := Some \<lparr>confidential_vms = [(7, example_reset_vm)]\<rparr>\<rparr>"

theorem resume_executes_shut_down_hart_witness:
  "\<exists>t. resume_confidential_hart_execution example_environment example_reset_state = (Ok ExitToConfidentialHart, t)
     \<and> lifecycle_state (assigned_hart (hardware t)) = Shutdown"
proof (rule resume_executes_shut_down_hart [of _ 7 example_reset_vm "\<lparr>initiating_confidential_hart_id = 0\<rparr>"])
  have hart: "assigned_hart (hardware example_reset_state) = example_confidential_hart"
    by (simp add: example_reset_state_def example_vm_machine_def put_view_def example_running_hart_def)
  then show "hart_vm_id (assigned_hart (hardware example_reset_state)) = Some 7"
    "hart_pending_request (assigned_hart (hardware example_reset_state)) = None" by simp_all
  show "vm_table example_reset_state 7 = Some example_reset_vm"
    by (simp add: vm_table_def example_reset_state_def)
  show "inter_hart_requests example_reset_vm (flow_hart_id example_reset_state)
      = Some [InterHartSbiSrstSystemReset \<lparr>initiating_confidential_hart_id = 0\<rparr>]"
    by (simp add: example_reset_vm_def flow_hart_id_def hart)
qed

end
