(* ===== verification/Heap_Allocator.thy ===== *)
theory Heap_Allocator
  imports Pointers
begin

text \<open>
  \<^verbatim>\<open>core/heap_allocator\<close>: the linked-list allocator behind the monitor's heap.

  \<^item> A \<open>free_memory_region\<close> is a node of the free list; the node lives at the start of the region it
    describes, so its address is a field here. \<open>linked_list_allocator\<close> is the chain of nodes that starts at
    \<^verbatim>\<open>head.next\<close>; \<^verbatim>\<open>head\<close> itself has size 0 and is never allocated from. The size of the Rust
    structure is 16 bytes and its alignment is 8.
  \<^item> \<open>layout\<close> is \<^verbatim>\<open>core::alloc::Layout\<close> with the operations of the standard library that the allocator
    calls. A layout that exists has a power of two as its alignment and a padded size of at most
    \<^verbatim>\<open>isize::MAX\<close> (\<open>valid_layout\<close>); \<^verbatim>\<open>GlobalAlloc\<close> is only called with layouts of non-zero size.
  \<^item> Every operation runs under the lock of \<^verbatim>\<open>Locked\<close>. The allocator panics when it is out of memory.
\<close>

section \<open>Layouts\<close>

record alloc_layout =
  layout_size :: usize
  layout_align :: usize

definition isize_max :: nat where "isize_max = 2 ^ 63 - 1"

definition round_up :: "nat \<Rightarrow> nat \<Rightarrow> nat" where
  "round_up n a = (n + a - 1) div a * a"

definition Layout_from_size_align :: "usize \<Rightarrow> usize \<Rightarrow> alloc_layout option" where
  "Layout_from_size_align sz a =
     (if is_power_of_two a \<and> round_up (unat sz) (unat a) \<le> isize_max
      then Some \<lparr>layout_size = sz, layout_align = a\<rparr> else None)"

definition Layout_align_to :: "alloc_layout \<Rightarrow> usize \<Rightarrow> alloc_layout option" where
  "Layout_align_to layout a = Layout_from_size_align (layout_size layout) (max (layout_align layout) a)"

definition Layout_pad_to_align :: "alloc_layout \<Rightarrow> alloc_layout" where
  "Layout_pad_to_align layout =
     layout\<lparr>layout_size := of_nat (round_up (unat (layout_size layout)) (unat (layout_align layout)))\<rparr>"

section \<open>Regions of free memory\<close>

record free_memory_region =
  node_address :: usize
  node_size :: usize

definition size_of_FreeMemoryRegion :: usize where "size_of_FreeMemoryRegion = 16"
definition align_of_FreeMemoryRegion :: usize where "align_of_FreeMemoryRegion = 8"

definition start_address_ptr :: "free_memory_region \<Rightarrow> usize" where
  "start_address_ptr region = node_address region"

definition end_address_ptr :: "free_memory_region \<Rightarrow> ('e, usize) result" where
  "end_address_ptr region = add_usize (node_address region) (node_size region)"

definition try_allocation :: "free_memory_region \<Rightarrow> usize \<Rightarrow> usize \<Rightarrow> (usize \<times> usize \<times> usize) res" where
  "try_allocation region size_in_bytes align_in_bytes =
     and_then (end_address_ptr region) (\<lambda>end_address.
     and_then (map_err PointerError (ptr_align (start_address_ptr region) align_in_bytes end_address)) (\<lambda>alloc_start.
     and_then (map_err PointerError (ptr_byte_add_mut alloc_start size_in_bytes end_address)) (\<lambda>alloc_end.
     and_then (ptr_byte_offset end_address alloc_end) (\<lambda>free_space_left.
     and_then (assure (free_space_left = 0 \<or> free_space_left \<ge> uint size_of_FreeMemoryRegion) OutOfMemory) (\<lambda>_.
     Ok (alloc_start, alloc_end, word_of_int free_space_left))))))"

definition align_to :: "alloc_layout \<Rightarrow> ('e, usize \<times> usize) result" where
  "align_to layout =
     and_then (unwrap_option (Layout_align_to layout align_of_FreeMemoryRegion)) (\<lambda>layout.
     let layout = Layout_pad_to_align layout;
         sz = max (layout_size layout) size_of_FreeMemoryRegion
     in Ok (sz, layout_align layout))"

section \<open>The free list\<close>

type_synonym linked_list_allocator = "free_memory_region list"

definition LinkedListAllocator_empty :: linked_list_allocator where
  "LinkedListAllocator_empty = []"

definition add_free_memory_region ::
    "usize \<Rightarrow> usize \<Rightarrow> linked_list_allocator \<Rightarrow> linked_list_allocator res" where
  "add_free_memory_region base_address sz regions =
     and_then (assert_that (unat sz < isize_max)) (\<lambda>_.
     and_then (assert_that (is_aligned_to base_address align_of_FreeMemoryRegion)) (\<lambda>_.
     if 0 < sz \<and> sz < size_of_FreeMemoryRegion then Panic
     else Ok (\<lparr>node_address = base_address, node_size = sz\<rparr> # regions)))"

fun find_free_memory_region ::
    "usize \<Rightarrow> usize \<Rightarrow> linked_list_allocator \<Rightarrow> ((usize \<times> usize \<times> usize) option \<times> linked_list_allocator) res" where
  "find_free_memory_region sz a [] = Ok (None, [])"
| "find_free_memory_region sz a (region # regions) = (case try_allocation region sz a of
      Ok found \<Rightarrow> Ok (Some found, regions)
    | Err _ \<Rightarrow> and_then (find_free_memory_region sz a regions) (\<lambda>(found, regions). Ok (found, region # regions))
    | Panic \<Rightarrow> Panic)"

definition alloc_dynamic :: "alloc_layout \<Rightarrow> linked_list_allocator \<Rightarrow> (usize option \<times> linked_list_allocator) res" where
  "alloc_dynamic layout regions =
     and_then (align_to layout) (\<lambda>(sz, a).
     and_then (find_free_memory_region sz a regions) (\<lambda>(found, regions). case found of
       None \<Rightarrow> Ok (None, regions)
     | Some (alloc_start, alloc_end, free_space_left) \<Rightarrow>
         and_then (add_free_memory_region alloc_end free_space_left regions) (\<lambda>regions.
         Ok (Some alloc_start, regions))))"

definition try_alloc :: "alloc_layout \<Rightarrow> linked_list_allocator \<Rightarrow> (usize \<times> linked_list_allocator) res" where
  "try_alloc layout regions =
     and_then (alloc_dynamic layout regions) (\<lambda>(found, regions). case found of
       Some address \<Rightarrow> Ok (address, regions) | None \<Rightarrow> Panic)"

definition alloc :: "alloc_layout \<Rightarrow> linked_list_allocator \<Rightarrow> (usize \<times> linked_list_allocator) res" where
  "alloc layout regions =
     and_then (if layout_size layout < size_of_FreeMemoryRegion
               then unwrap_option (Layout_from_size_align size_of_FreeMemoryRegion (layout_align layout))
               else Ok layout) (\<lambda>layout.
     try_alloc layout regions)"

definition dealloc :: "usize \<Rightarrow> alloc_layout \<Rightarrow> linked_list_allocator \<Rightarrow> linked_list_allocator res" where
  "dealloc ptr layout regions =
     and_then (align_to layout) (\<lambda>(sz, _). add_free_memory_region ptr sz regions)"

definition init_heap :: "usize \<Rightarrow> usize \<Rightarrow> linked_list_allocator \<Rightarrow> linked_list_allocator res" where
  "init_heap start_address heap_size regions = add_free_memory_region start_address heap_size regions"

lemma and_then_eq_Err: "and_then m f = Err e \<longleftrightarrow> m = Err e \<or> (\<exists>a. m = Ok a \<and> f a = Err e)"
  by (cases m) auto

section \<open>Sizes of blocks\<close>

definition valid_layout :: "alloc_layout \<Rightarrow> bool" where
  "valid_layout layout \<longleftrightarrow> layout_align layout \<in> set (map (\<lambda>k. 2 ^ k) [0..<64])
     \<and> round_up (unat (layout_size layout)) (unat (layout_align layout)) \<le> isize_max"

lemma round_up_ge: "0 < a \<Longrightarrow> n \<le> round_up n a"
  using div_mult_mod_eq [of "n + a - 1" a] mod_less_divisor [of a "n + a - 1"]
  unfolding round_up_def by linarith

lemma round_up_mod [simp]: "round_up n a mod a = 0"
  by (simp add: round_up_def)

lemma round_up_least: "0 < a \<Longrightarrow> n \<le> k * a \<Longrightarrow> round_up n a \<le> k * a"
proof -
  assume a: "0 < a" and "n \<le> k * a"
  then have "n + a - 1 < (k + 1) * a" by simp
  then have "(n + a - 1) div a < k + 1" by (rule less_mult_imp_div_less)
  then show ?thesis by (simp add: round_up_def)
qed

lemma round_up_small: "0 < n \<Longrightarrow> n \<le> a \<Longrightarrow> round_up n a = a"
  using round_up_least [of a n 1] round_up_ge [of a n]
  by (cases "round_up n a div a") (auto simp: round_up_def)

lemma unat_power_of_two: "k < 64 \<Longrightarrow> unat ((2 :: usize) ^ k) = 2 ^ k"
  using unat_of_nat [of "2 ^ k", where 'a = 64] power_strict_increasing [of k 64 "2 :: nat"] by simp

lemma max_power_two: "max (2 ^ i) (2 ^ j) = (2 :: nat) ^ max i j"
  by (simp add: max_def)

text \<open>The block that \<open>alloc\<close> takes from the free list has exactly the size that \<open>dealloc\<close> gives back.\<close>

lemma block_size_agrees:
  assumes "0 < n" and "n < 16" and "3 \<le> k"
  shows "max (round_up n (2 ^ k)) 16 = max (round_up 16 (2 ^ k)) 16"
proof -
  consider "k = 3" | "k = 4" | "5 \<le> k" using assms(3) by linarith
  then show ?thesis
  proof cases
    case 1
    then show ?thesis using round_up_least [of 8 n 2] assms(2) by (simp add: round_up_def)
  next
    case 2
    then show ?thesis using round_up_small [of n 16] assms(1,2) by (simp add: round_up_small)
  next
    case 3
    then have "(2 :: nat) ^ 5 \<le> 2 ^ k" by (intro power_increasing) simp_all
    then show ?thesis using round_up_small [of n "2 ^ k"] round_up_small [of 16 "2 ^ k"] assms(1,2) by simp
  qed
qed

definition block_size :: "alloc_layout \<Rightarrow> nat" where
  "block_size layout = max (round_up (unat (layout_size layout)) (unat (max (layout_align layout) 8))) 16"

lemma align_to_Ok:
  assumes "align_to layout = Ok (sz, a)"
  shows "unat sz = block_size layout" and "a = max (layout_align layout) 8" and "is_power_of_two a"
proof -
  let ?a = "max (layout_align layout) 8" and ?n = "layout_size layout"
  from assms have c: "is_power_of_two ?a" "round_up (unat ?n) (unat ?a) \<le> isize_max" "a = ?a"
    "sz = max (of_nat (round_up (unat ?n) (unat ?a))) 16"
    by (auto simp: align_to_def Layout_align_to_def Layout_from_size_align_def Layout_pad_to_align_def res_simps Let_def
        align_of_FreeMemoryRegion_def size_of_FreeMemoryRegion_def split: if_splits)
  from c(2) have "unat (of_nat (round_up (unat ?n) (unat ?a)) :: usize) = round_up (unat ?n) (unat ?a)"
    by (simp add: unat_of_nat isize_max_def)
  with c show "unat sz = block_size layout" "a = ?a" "is_power_of_two a"
    by (auto simp: block_size_def max_def word_le_nat_alt)
qed

lemma valid_layout_align:
  assumes "valid_layout layout"
  obtains k where "3 \<le> k" and "k < 64" and "unat (max (layout_align layout) 8) = 2 ^ k"
    and "max (layout_align layout) 8 = 2 ^ k"
proof -
  obtain j where j: "j < 64" "layout_align layout = 2 ^ j" using assms by (auto simp: valid_layout_def)
  have "unat (max (layout_align layout) 8) = max (unat (layout_align layout)) 8"
    by (simp add: max_def word_le_nat_alt)
  also have "\<dots> = max (2 ^ j) (2 ^ 3)" using j unat_power_of_two by simp
  also have "\<dots> = 2 ^ max j 3" by (rule max_power_two)
  finally have u: "unat (max (layout_align layout) 8) = 2 ^ max j 3" .
  moreover have "unat ((2 :: usize) ^ max j 3) = 2 ^ max j 3" using j(1) by (intro unat_power_of_two) simp
  ultimately have "max (layout_align layout) 8 = 2 ^ max j 3" by (intro unsigned_word_eqI [where 'a = nat]) simp
  with u that [of "max j 3"] j(1) show thesis by simp
qed

lemma bumped_block_size:
  assumes "valid_layout layout" and "0 < layout_size layout" and "layout_size layout < 16"
  shows "block_size (\<lparr>layout_size = 16, layout_align = layout_align layout\<rparr>) = block_size layout"
proof -
  obtain k where k: "3 \<le> k" "unat (max (layout_align layout) 8) = 2 ^ k"
    using valid_layout_align [OF assms(1)] by blast
  have "0 < unat (layout_size layout)" "unat (layout_size layout) < 16"
    using assms(2,3) by (simp_all add: word_less_nat_alt)
  from block_size_agrees [OF this k(1)] k(2) show ?thesis by (simp add: block_size_def)
qed

section \<open>What an allocation takes\<close>

lemma ptr_byte_offset_eq_Ok [res_simps]:
  "ptr_byte_offset x y = Ok d \<longleftrightarrow> d = sint x - sint y \<and> - (2 ^ 63) \<le> d \<and> d < 2 ^ 63"
  by (auto simp: ptr_byte_offset_def Let_def)

lemma try_allocation_eq_Ok:
  "try_allocation r sz a = Ok (p, q, left) \<longleftrightarrow> (\<exists>e d. end_address_ptr r = (Ok e :: usize res)
     \<and> ptr_align (node_address r) a e = Ok p \<and> ptr_byte_add_mut p sz e = Ok q \<and> ptr_byte_offset e q = (Ok d :: int res)
     \<and> (d = 0 \<or> 16 \<le> d) \<and> left = word_of_int d)"
  unfolding try_allocation_def start_address_ptr_def size_of_FreeMemoryRegion_def
  by (simp add: and_then_eq_Ok map_err_eq_Ok assure_eq_Ok) blast

lemma try_allocation_Ok:
  assumes "try_allocation r sz a = Ok (p, q, left)"
  shows "unat (node_address r) \<le> unat p" and "unat p mod unat a = 0" and "unat q = unat p + unat sz"
    and "unat q + unat left = unat (node_address r) + unat (node_size r)" and "16 \<le> unat left"
proof -
  from assms obtain e d where end_r: "end_address_ptr r = (Ok e :: usize res)"
    and p: "ptr_align (node_address r) a e = Ok p" and q: "ptr_byte_add_mut p sz e = Ok q"
    and d: "ptr_byte_offset e q = (Ok d :: int res)" "d = 0 \<or> 16 \<le> d" and left: "left = word_of_int d"
    unfolding try_allocation_eq_Ok by blast
  from end_r have e: "unat (node_address r) + unat (node_size r) < 2 ^ 64" "e = node_address r + node_size r"
    unfolding end_address_ptr_def add_usize_eq_Ok by simp_all
  from d(1) have d': "d = sint e - sint q" "d < 2 ^ 63" unfolding ptr_byte_offset_eq_Ok by simp_all
  have ue: "unat e = unat (node_address r) + unat (node_size r)" using e unat_add_usize by simp
  show "unat (node_address r) \<le> unat p" "unat p mod unat a = 0"
    using ptr_align_Ok [OF p] by (simp_all add: word_le_nat_alt)
  have below: "unat p + unat sz < unat e" "q = p + sz" using q by (simp_all add: ptr_byte_add_mut_iff)
  then show uq: "unat q = unat p + unat sz"
    using unat_lt_usize [of e] by (simp add: unat_add_usize del: unat_lt_usize)
  have "left = e - q" using left d'(1) by (simp add: of_int_diff)
  then have ul: "unat left = unat e - unat q"
    using below uq by (simp add: unat_sub word_le_nat_alt)
  then show "unat q + unat left = unat (node_address r) + unat (node_size r)" using ue uq below(1) by simp
  have "d \<noteq> 0" using ul left uq below(1) by auto
  with d(2) d'(2) have "uint left = d" "16 \<le> d" by (simp_all add: left uint_word_of_int)
  then show "16 \<le> unat left" by (simp add: unat_eq_nat_uint)
qed

lemma find_free_memory_region_Some:
  "find_free_memory_region sz a rs = Ok (Some x, rs') \<Longrightarrow>
     \<exists>pre r post. rs = pre @ r # post \<and> rs' = pre @ post \<and> try_allocation r sz a = Ok x"
proof (induction rs arbitrary: rs')
  case (Cons r rs)
  show ?case
  proof (cases "try_allocation r sz a")
    case (Ok y)
    with Cons.prems show ?thesis by (intro exI [of _ "[]"]) auto
  next
    case (Err e)
    with Cons.prems obtain rs1 where rs1: "find_free_memory_region sz a rs = Ok (Some x, rs1)" "rs' = r # rs1"
      by (auto simp: res_simps)
    with Cons.IH obtain pre s post where "rs = pre @ s # post" "rs1 = pre @ post" "try_allocation s sz a = Ok x" by blast
    with rs1 show ?thesis by (intro exI [of _ "r # pre"]) auto
  qed (use Cons.prems in simp)
qed simp

lemma alloc_Ok:
  assumes "alloc layout rs = Ok (p, rs')" and "valid_layout layout" and "0 < layout_size layout"
  obtains pre r post q left where "rs = pre @ r # post"
    and "rs' = \<lparr>node_address = q, node_size = left\<rparr> # pre @ post"
    and "unat (node_address r) \<le> unat p" and "unat p mod unat (max (layout_align layout) 8) = 0"
    and "unat q = unat p + block_size layout"
    and "unat q + unat left = unat (node_address r) + unat (node_size r)" and "16 \<le> unat left"
proof -
  define bumped where "bumped = (if layout_size layout < 16
    then \<lparr>layout_size = 16, layout_align = layout_align layout\<rparr> else layout)"
  have "try_alloc bumped rs = Ok (p, rs')"
    using assms(1) by (auto simp: alloc_def bumped_def size_of_FreeMemoryRegion_def Layout_from_size_align_def res_simps
        split: if_splits)
  then have "alloc_dynamic bumped rs = Ok (Some p, rs')"
    by (auto simp: try_alloc_def res_simps split: option.splits)
  then obtain sz a found rs1 where al: "align_to bumped = (Ok (sz, a) :: (usize \<times> usize) res)"
    and f: "find_free_memory_region sz a rs = Ok (found, rs1)"
    and rest: "(case found of None \<Rightarrow> Ok (None, rs1) | Some (alloc_start, alloc_end, free_space_left) \<Rightarrow>
         and_then (add_free_memory_region alloc_end free_space_left rs1) (\<lambda>regions.
         Ok (Some alloc_start, regions))) = Ok (Some p, rs')"
    by (auto simp: alloc_dynamic_def and_then_eq_Ok)
  then obtain q left where found: "found = Some (p, q, left)"
    and rs': "rs' = \<lparr>node_address = q, node_size = left\<rparr> # rs1"
    by (cases found) (auto simp: add_free_memory_region_def res_simps split: if_splits)
  note f = f [unfolded found]
  obtain pre r post where "rs = pre @ r # post" "rs1 = pre @ post" and t: "try_allocation r sz a = Ok (p, q, left)"
    using find_free_memory_region_Some [OF f] by blast
  moreover have "block_size bumped = block_size layout" "layout_align bumped = layout_align layout"
    using bumped_block_size [OF assms(2,3)] by (auto simp: bumped_def)
  ultimately show thesis using that rs' try_allocation_Ok [OF t] align_to_Ok [OF al] by auto
qed

section \<open>Ownership of the heap\<close>

text \<open>\<open>covers spans x\<close> counts the spans that contain the byte \<open>x\<close>. A history of the heap is a sequence of
  calls of \<open>alloc\<close> and \<open>dealloc\<close> that respects the contract of \<^verbatim>\<open>GlobalAlloc\<close>: the layouts are valid and
  not empty, and only a live block is released, with the layout it was allocated with. \<open>live\<close> lists the
  live blocks.\<close>

definition covers :: "(nat \<times> nat) list \<Rightarrow> nat \<Rightarrow> nat" where
  "covers spans x = length (filter (\<lambda>(a, n). a \<le> x \<and> x < a + n) spans)"

lemma covers_simps [simp]:
  "covers [] x = 0"
  "covers ((a, n) # spans) x = (if a \<le> x \<and> x < a + n then 1 else 0) + covers spans x"
  "covers (xs @ ys) x = covers xs x + covers ys x"
  by (simp_all add: covers_def)

definition region_span :: "free_memory_region \<Rightarrow> nat \<times> nat" where
  "region_span r = (unat (node_address r), unat (node_size r))"

definition block_span :: "usize \<times> alloc_layout \<Rightarrow> nat \<times> nat" where
  "block_span = (\<lambda>(p, layout). (unat p, block_size layout))"

inductive heap_step ::
    "linked_list_allocator \<times> (usize \<times> alloc_layout) list \<Rightarrow> linked_list_allocator \<times> (usize \<times> alloc_layout) list \<Rightarrow> bool" where
  allocate: "valid_layout layout \<Longrightarrow> 0 < layout_size layout \<Longrightarrow> alloc layout regions = Ok (p, regions')
    \<Longrightarrow> heap_step (regions, live) (regions', (p, layout) # live)"
| release: "dealloc p layout regions = Ok regions'
    \<Longrightarrow> heap_step (regions, before @ (p, layout) # after) (regions', before @ after)"

definition heap_owned :: "linked_list_allocator \<times> (usize \<times> alloc_layout) list \<Rightarrow> nat \<Rightarrow> nat" where
  "heap_owned = (\<lambda>(regions, live). covers (map region_span regions @ map block_span live))"

lemma alloc_covers:
  assumes "alloc layout rs = Ok (p, rs')" and "valid_layout layout" and "0 < layout_size layout"
  shows "covers (map region_span rs') x + covers [block_span (p, layout)] x \<le> covers (map region_span rs) x"
  using assms by (rule alloc_Ok) (auto simp: region_span_def block_span_def)

lemma alloc_aligned:
  assumes "alloc layout rs = Ok (p, rs')" and "valid_layout layout" and "0 < layout_size layout"
  shows "unat p mod unat (layout_align layout) = 0" and "unat (layout_size layout) \<le> block_size layout"
proof -
  obtain j where "layout_align layout = 2 ^ j" "j < 64" using assms(2) by (auto simp: valid_layout_def)
  moreover obtain k where "3 \<le> k" "k < 64" "max (layout_align layout) 8 = 2 ^ k"
      and uk: "unat (max (layout_align layout) 8) = 2 ^ k"
    using valid_layout_align [OF assms(2)] by blast
  ultimately have "unat (layout_align layout) dvd 2 ^ k"
    using unat_power_of_two [of j] max.cobounded1 [of "layout_align layout" 8]
    by (simp add: word_le_nat_alt unat_power_of_two le_imp_power_dvd)
  moreover have "2 ^ k dvd unat p" using assms by (rule alloc_Ok) (simp add: uk mod_eq_0_iff_dvd)
  ultimately show "unat p mod unat (layout_align layout) = 0" by (simp add: mod_eq_0_iff_dvd dvd_trans)
  show "unat (layout_size layout) \<le> block_size layout"
    using round_up_ge [of "2 ^ k" "unat (layout_size layout)"] by (simp add: block_size_def uk)
qed

lemma dealloc_Ok:
  assumes "dealloc p layout rs = Ok rs'"
  shows "map region_span rs' = block_span (p, layout) # map region_span rs"
proof -
  from assms obtain sz a where "align_to layout = (Ok (sz, a) :: (usize \<times> usize) res)"
    and "rs' = \<lparr>node_address = p, node_size = sz\<rparr> # rs"
    by (auto simp: dealloc_def add_free_memory_region_def res_simps split: if_splits)
  with align_to_Ok [of layout sz a] show ?thesis by (simp add: region_span_def block_span_def)
qed

lemma heap_step_owned: "heap_step h k \<Longrightarrow> heap_owned k x \<le> heap_owned h x"
proof (induction rule: heap_step.induct)
  case (allocate layout regions p regions' live)
  with alloc_covers [of layout regions p regions' x] show ?case by (simp add: heap_owned_def block_span_def)
next
  case (release p layout regions regions' before after)
  with dealloc_Ok [of p layout regions regions'] show ?case by (simp add: heap_owned_def block_span_def)
qed

lemma heap_steps_owned: "heap_step\<^sup>*\<^sup>* h k \<Longrightarrow> heap_owned k x \<le> heap_owned h x"
  by (induction rule: rtranclp_induct) (auto dest: heap_step_owned intro: le_trans)

lemma heap_steps_aligned:
  assumes "heap_step\<^sup>*\<^sup>* h k" and "\<forall>(p, layout) \<in> set (snd h). unat p mod unat (layout_align layout) = 0"
  shows "\<forall>(p, layout) \<in> set (snd k). unat p mod unat (layout_align layout) = 0"
  using assms
proof (induction rule: rtranclp_induct)
  case (step k l)
  from step(2) step(3) [OF step(4)] show ?case
    by cases (auto simp: alloc_aligned(1))
qed

text \<open>C23: However often memory is allocated and released in whatever order, every byte belongs to at most one
  live block or free region, no byte outside the heap belongs to any, and every live block is aligned as
  its layout demands.\<close>

theorem heap_ownership_exclusive:
  assumes "init_heap start heap_size LinkedListAllocator_empty = Ok regions"
    and "heap_step\<^sup>*\<^sup>* (regions, []) (regions', live)"
  shows "(\<forall>x. heap_owned (regions', live) x \<le> (if unat start \<le> x \<and> x < unat start + unat heap_size then 1 else 0))
    \<and> (\<forall>(p, layout) \<in> set live. unat p mod unat (layout_align layout) = 0)"
proof -
  from assms(1) have "regions = [\<lparr>node_address = start, node_size = heap_size\<rparr>]"
    by (auto simp: init_heap_def LinkedListAllocator_empty_def add_free_memory_region_def res_simps split: if_splits)
  then have init: "heap_owned (regions, []) x = (if unat start \<le> x \<and> x < unat start + unat heap_size then 1 else 0)" for x
    by (simp add: heap_owned_def region_span_def)
  have "\<forall>(p, layout) \<in> set live. unat p mod unat (layout_align layout) = 0"
    using heap_steps_aligned [OF assms(2)] by simp
  with heap_steps_owned [OF assms(2), unfolded init] show ?thesis by blast
qed

lemmas heap_eval = valid_layout_def round_up_def isize_max_def Layout_from_size_align_def Layout_align_to_def
  Layout_pad_to_align_def is_power_of_two_def align_to_def align_of_FreeMemoryRegion_def size_of_FreeMemoryRegion_def
  is_aligned_to_def add_free_memory_region_def max_def Let_def image_iff

theorem heap_ownership_exclusive_witness:
  "heap_owned ([\<lparr>node_address = 0x1018, node_size = 0xfe8\<rparr>], [(0x1000, \<lparr>layout_size = 20, layout_align = 4\<rparr>)]) 0x1010 \<le> 1"
proof -
  let ?l = "\<lparr>layout_size = 20, layout_align = 4\<rparr>" and ?rs = "[\<lparr>node_address = 0x1000, node_size = 0x1000\<rparr>]"
  have init: "init_heap 0x1000 0x1000 LinkedListAllocator_empty = Ok ?rs"
    by (simp add: init_heap_def LinkedListAllocator_empty_def heap_eval)
  have "valid_layout ?l" by (simp add: heap_eval bexI [of _ 2])
  moreover have "alloc ?l ?rs = Ok (0x1000, [\<lparr>node_address = 0x1018, node_size = 0xfe8\<rparr>])"
    by (simp add: heap_eval alloc_def try_alloc_def alloc_dynamic_def try_allocation_def end_address_ptr_def
        start_address_ptr_def add_usize_def ptr_align_def align_offset_def mul_usize_def size_of_usize_def ptr_byte_add_mut_def
        ptr_byte_offset_def)
  ultimately have "heap_step (?rs, []) ([\<lparr>node_address = 0x1018, node_size = 0xfe8\<rparr>], [(0x1000, ?l)])"
    by (intro heap_step.allocate) simp_all
  from conjunct1 [OF heap_ownership_exclusive [OF init r_into_rtranclp [of heap_step, OF this]]]
  show ?thesis by (auto dest: spec [of _ "0x1010"])
qed

section \<open>When an allocation succeeds\<close>

lemma is_power_of_two_exp: "k < 64 \<Longrightarrow> is_power_of_two (2 ^ k)"
proof -
  assume k: "k < 64"
  then have "unat ((2 :: usize) ^ k) = 2 ^ k" by (rule unat_power_of_two)
  then have "(2 :: usize) ^ k \<noteq> 0" by force
  moreover have "(2 :: usize) ^ k AND (2 ^ k - 1) = 0"
    unfolding mask_eq_exp_minus_1 [symmetric] by (rule bit_eqI) (auto simp: bit_simps)
  ultimately show ?thesis by (simp add: is_power_of_two_def)
qed

lemma round_up_gap: "0 < a \<Longrightarrow> n + (a - n mod a) mod a = round_up n a"
proof -
  assume a: "0 < a"
  then have "(n + (a - n mod a) mod a) mod a = 0" by (rule gap_to_alignment)
  then obtain k where k: "n + (a - n mod a) mod a = k * a" by (metis dvd_def mod_eq_0_iff_dvd mult.commute)
  have "round_up n a \<le> k * a" using a k by (intro round_up_least) simp_all
  moreover have "k * a < n + a" using a k by (metis add_less_cancel_left mod_less_divisor)
  moreover obtain j where j: "round_up n a = j * a" unfolding round_up_def by blast
  moreover have "n \<le> j * a" using round_up_ge [OF a, of n] j by simp
  ultimately have "j \<le> k" "k * a < (j + 1) * a" using a by simp_all
  then have "j = k" using mult_less_cancel2 [of k a "j + 1"] by simp
  with j k show ?thesis by simp
qed

lemma ptr_align_cases:
  assumes k: "3 \<le> k" "k < 64" and p: "unat p mod 8 = 0"
  shows "ptr_align p (2 ^ k) e
    = (if round_up (unat p) (2 ^ k) < unat e then Ok (of_nat (round_up (unat p) (2 ^ k))) else Err Overflow)"
proof -
  define a :: nat where "a = 2 ^ k"
  define gap where "gap = (a - unat p mod a) mod a"
  have ua: "unat ((2 :: usize) ^ k) = a" unfolding a_def using k(2) by (rule unat_power_of_two)
  have sum: "unat p + gap = round_up (unat p) a" unfolding gap_def by (rule round_up_gap) (simp add: a_def)
  have "8 dvd a" using le_imp_power_dvd [of 3 k "2 :: nat"] k(1) by (simp add: a_def)
  moreover have "8 dvd unat p" using p by (simp add: dvd_eq_mod_eq_0)
  ultimately have "8 dvd gap" unfolding gap_def by (intro dvd_mod dvd_diff_nat)
  then obtain n where n: "gap = 8 * n" by blast
  have "gap < a" by (simp add: gap_def a_def)
  then have gap: "gap < 2 ^ 64" using k(2) power_strict_increasing [of k 64 "2 :: nat"] by (simp add: a_def)
  then have small: "n < 2 ^ 64" "unat (of_nat n :: usize) = n" using n by (simp_all add: unat_of_nat)
  have off: "align_offset p (2 ^ k) = (Ok (of_nat n) :: (pointer_error, usize) result)"
    using is_power_of_two_exp [OF k(2)] n unfolding align_offset_def ua gap_def [symmetric] Let_def by simp
  have mul: "mul_usize (of_nat n) size_of_usize = (Ok (of_nat n * 8) :: (pointer_error, usize) result)"
    using small(2) n gap by (simp add: mul_usize_def size_of_usize_def)
  have "unat (of_nat n * 8 :: usize) = gap" using small(2) n gap unat_mul_usize [of "of_nat n" 8] by simp
  moreover have "p + of_nat n * 8 = of_nat (round_up (unat p) a)" using sum n by (simp flip: sum)
  ultimately show ?thesis unfolding ptr_align_def off mul and_then.simps ptr_byte_add_mut_cases
    using sum by (simp add: a_def)
qed

definition region_ok :: "free_memory_region \<Rightarrow> bool" where
  "region_ok r \<longleftrightarrow> unat (node_address r) mod 8 = 0 \<and> unat (node_address r) + unat (node_size r) < 2 ^ 63"

definition has_room :: "alloc_layout \<Rightarrow> free_memory_region \<Rightarrow> bool" where
  "has_room layout r \<longleftrightarrow> round_up (unat (node_address r)) (unat (max (layout_align layout) 8)) + block_size layout + 16
     \<le> unat (node_address r) + unat (node_size r)"

lemma sint_low: "unat (x :: usize) < 2 ^ 63 \<Longrightarrow> sint x = int (unat x)"
proof -
  assume "unat x < 2 ^ 63"
  then have "uint x < 2 ^ 63" by (metis of_nat_less_iff of_nat_numeral of_nat_power of_nat_unat)
  then have "signed_take_bit 63 (uint x) = uint x"
    by (intro signed_take_bit_int_eq_self order.trans [OF _ unsigned_greater_eq]) simp_all
  then show ?thesis by (simp add: sint_uint)
qed

lemma try_allocation_total:
  assumes k: "3 \<le> k" "k < 64" and r: "region_ok r"
  shows "try_allocation r sz (2 ^ k) \<noteq> Panic
    \<and> (round_up (unat (node_address r)) (2 ^ k) + unat sz + 16 \<le> unat (node_address r) + unat (node_size r)
        \<longrightarrow> (\<exists>x. try_allocation r sz (2 ^ k) = Ok x))"
proof -
  define e where "e = node_address r + node_size r"
  define p :: usize where "p = of_nat (round_up (unat (node_address r)) (2 ^ k))"
  have ue: "unat e = unat (node_address r) + unat (node_size r)" "unat e < 2 ^ 63"
    using r unat_add_usize [of "node_address r" "node_size r"] by (simp_all add: region_ok_def e_def)
  have ie: "int (unat e) < 2 ^ 63" using ue(2) by (metis of_nat_less_iff of_nat_numeral of_nat_power)
  have end_r: "end_address_ptr r = (Ok e :: usize res)"
    using r by (simp add: end_address_ptr_def add_usize_def region_ok_def e_def)
  have align: "ptr_align (node_address r) (2 ^ k) e
      = (if round_up (unat (node_address r)) (2 ^ k) < unat e then Ok p else Err Overflow)"
    unfolding p_def by (rule ptr_align_cases [OF k]) (use r in \<open>simp add: region_ok_def\<close>)
  show ?thesis
  proof (cases "round_up (unat (node_address r)) (2 ^ k) < unat e \<and> unat p + unat sz < unat e")
    case True
    then have up: "unat p = round_up (unat (node_address r)) (2 ^ k)"
      using ue(2) by (simp add: p_def unat_of_nat)
    have uq: "unat (p + sz) = unat p + unat sz" using True ue(2) by (intro unat_add_usize) simp
    then have "sint e - sint (p + sz) = int (unat e) - int (unat p + unat sz)"
      using sint_low [OF ue(2)] sint_low [of "p + sz", unfolded uq] True ue(2) by linarith
    then have "ptr_byte_offset e (p + sz) = (Ok (int (unat e) - int (unat p + unat sz)) :: int res)"
      unfolding ptr_byte_offset_eq_Ok using True ie by (intro conjI) linarith+
    then obtain d where off: "ptr_byte_offset e (p + sz) = (Ok d :: int res)"
      and d: "d = int (unat e) - int (unat p + unat sz)" by blast
    have "16 \<le> d" if "round_up (unat (node_address r)) (2 ^ k) + unat sz + 16 \<le> unat (node_address r) + unat (node_size r)"
      using that d up ue(1) by linarith
    then show ?thesis
      using True off align end_r
      by (auto simp: try_allocation_def start_address_ptr_def ptr_byte_add_mut_cases size_of_FreeMemoryRegion_def assure_def)
  next
    case False
    then have "round_up (unat (node_address r)) (2 ^ k) < unat e \<longrightarrow> unat p = round_up (unat (node_address r)) (2 ^ k)"
      using ue(2) by (simp add: p_def unat_of_nat)
    with False ue(1) align end_r show ?thesis
      by (auto simp: try_allocation_def start_address_ptr_def ptr_byte_add_mut_cases)
  qed
qed

lemma find_free_memory_region_succeeds:
  assumes k: "3 \<le> k" "k < 64" and "list_all region_ok rs" and "r \<in> set rs"
    and "round_up (unat (node_address r)) (2 ^ k) + unat sz + 16 \<le> unat (node_address r) + unat (node_size r)"
  shows "\<exists>x rs'. find_free_memory_region sz (2 ^ k) rs = Ok (Some x, rs')"
  using assms(3,4)
proof (induction rs)
  case (Cons s rs)
  with try_allocation_total [OF k, of s sz] assms(5) show ?case
    by (cases "try_allocation s sz (2 ^ k)") auto
qed simp

lemma block_size_multiple: "valid_layout layout \<Longrightarrow> 8 dvd block_size layout"
proof -
  assume "valid_layout layout"
  then obtain k where k: "3 \<le> k" "unat (max (layout_align layout) 8) = 2 ^ k" by (rule valid_layout_align)
  have "8 dvd (2 :: nat) ^ k" using le_imp_power_dvd [of 3 k "2 :: nat"] k(1) by simp
  then have "8 dvd round_up (unat (layout_size layout)) (2 ^ k)" by (simp add: round_up_def)
  with k(2) show ?thesis by (simp add: block_size_def max_def)
qed

lemma add_free_memory_region_succeeds:
  assumes "unat q mod 8 = 0" and "16 \<le> unat left" and "unat left < isize_max"
  shows "\<exists>rs'. add_free_memory_region q left rs = Ok rs'"
  using assms by (simp add: add_free_memory_region_def is_aligned_to_def align_of_FreeMemoryRegion_def
      size_of_FreeMemoryRegion_def word_less_nat_alt)

lemma align_to_succeeds:
  assumes "valid_layout layout" and "block_size layout \<le> isize_max"
  shows "\<exists>sz. align_to layout = (Ok (sz, max (layout_align layout) 8) :: (usize \<times> usize) res)"
proof -
  obtain k where "k < 64" "max (layout_align layout) 8 = 2 ^ k" using valid_layout_align [OF assms(1)] by blast
  then have "is_power_of_two (max (layout_align layout) 8)" using is_power_of_two_exp by simp
  moreover have "round_up (unat (layout_size layout)) (unat (max (layout_align layout) 8)) \<le> isize_max"
    using assms(2) by (simp add: block_size_def)
  ultimately show ?thesis
    by (simp add: align_to_def Layout_align_to_def Layout_from_size_align_def Layout_pad_to_align_def Let_def
        align_of_FreeMemoryRegion_def)
qed

lemma try_alloc_succeeds:
  assumes layout: "valid_layout layout" and ok: "list_all region_ok rs" and r: "r \<in> set rs" "has_room layout r"
  shows "\<exists>p rs'. try_alloc layout rs = Ok (p, rs')"
proof -
  obtain k where k: "3 \<le> k" "k < 64" "unat (max (layout_align layout) 8) = 2 ^ k" "max (layout_align layout) 8 = 2 ^ k"
    using valid_layout_align [OF layout] by blast
  have room: "round_up (unat (node_address r)) (2 ^ k) + block_size layout + 16
      \<le> unat (node_address r) + unat (node_size r)" using r(2) k(3) by (simp add: has_room_def)
  moreover have "unat (node_address r) + unat (node_size r) < 2 ^ 63"
    using ok r(1) by (auto simp: list_all_iff region_ok_def)
  ultimately have small: "block_size layout \<le> isize_max" by (simp add: isize_max_def)
  obtain sz where sz: "align_to layout = (Ok (sz, 2 ^ k) :: (usize \<times> usize) res)"
    using align_to_succeeds [OF layout small] k(4) by auto
  have usz: "unat sz = block_size layout" by (rule align_to_Ok(1) [OF sz])
  obtain p q left rs1 where f: "find_free_memory_region sz (2 ^ k) rs = Ok (Some (p, q, left), rs1)"
    using find_free_memory_region_succeeds [OF k(1,2) ok r(1)] room usz by fastforce
  obtain s where s: "s \<in> set rs" "try_allocation s sz (2 ^ k) = Ok (p, q, left)"
    using find_free_memory_region_Some [OF f] by (metis in_set_conv_decomp)
  note a = try_allocation_Ok [OF s(2)]
  have "8 dvd (2 :: nat) ^ k" using le_imp_power_dvd [of 3 k "2 :: nat"] k(1) by simp
  then have "8 dvd unat p" using a(2) k unat_power_of_two [OF k(2)] by (metis dvd_trans mod_eq_0_iff_dvd)
  then have "unat q mod 8 = 0" using a(3) usz block_size_multiple [OF layout] by (simp add: mod_eq_0_iff_dvd)
  moreover have "unat left < isize_max"
    using a ok s(1) usz by (auto simp: list_all_iff region_ok_def isize_max_def block_size_def)
  ultimately obtain rs' where "add_free_memory_region q left rs1 = Ok rs'"
    using add_free_memory_region_succeeds [of q left rs1] a(5) by auto
  then show ?thesis using sz f by (simp add: try_alloc_def alloc_dynamic_def)
qed

lemma bumped_valid:
  assumes "valid_layout layout" and "0 < layout_size layout" and "layout_size layout < 16"
  shows "valid_layout \<lparr>layout_size = 16, layout_align = layout_align layout\<rparr>"
    and "Layout_from_size_align 16 (layout_align layout) = Some \<lparr>layout_size = 16, layout_align = layout_align layout\<rparr>"
proof -
  obtain j where j: "j < 64" "layout_align layout = 2 ^ j" using assms(1) by (auto simp: valid_layout_def)
  have n: "0 < unat (layout_size layout)" "unat (layout_size layout) < 16"
    using assms(2,3) by (simp_all add: word_less_nat_alt)
  have "round_up 16 (2 ^ j) \<le> isize_max"
  proof (cases "16 \<le> (2 :: nat) ^ j")
    case True
    then have "round_up 16 (2 ^ j) = round_up (unat (layout_size layout)) (2 ^ j)"
      using n round_up_small [of 16 "2 ^ j"] round_up_small [of "unat (layout_size layout)" "2 ^ j"] by simp
    with assms(1) j show ?thesis by (simp add: valid_layout_def unat_power_of_two)
  next
    case False
    then have "round_up 16 (2 ^ j) \<le> 16 * 2 ^ j" "(2 :: nat) ^ j < 16" using round_up_least [of "2 ^ j" 16 16] by simp_all
    then show ?thesis by (simp add: isize_max_def)
  qed
  with j show "valid_layout \<lparr>layout_size = 16, layout_align = layout_align layout\<rparr>"
    "Layout_from_size_align 16 (layout_align layout) = Some \<lparr>layout_size = 16, layout_align = layout_align layout\<rparr>"
    by (auto simp: valid_layout_def Layout_from_size_align_def unat_power_of_two is_power_of_two_exp)
qed

text \<open>C40: An allocation succeeds whenever some free region has room for the block, its alignment and the node
  that describes the rest, wherever in the free list that region is.\<close>

theorem heap_alloc_succeeds:
  assumes "valid_layout layout" and "0 < layout_size layout" and "list_all region_ok regions"
    and "r \<in> set regions" and "has_room layout r"
  shows "\<exists>p regions'. alloc layout regions = Ok (p, regions')"
proof (cases "layout_size layout < 16")
  case True
  let ?b = "\<lparr>layout_size = 16, layout_align = layout_align layout\<rparr>"
  have "has_room ?b r" using assms(5) bumped_block_size [OF assms(1,2) True] by (simp add: has_room_def)
  then show ?thesis
    using try_alloc_succeeds [OF bumped_valid(1) [OF assms(1,2) True] assms(3,4)] True
      bumped_valid(2) [OF assms(1,2) True] by (simp add: alloc_def size_of_FreeMemoryRegion_def)
next
  case False
  then show ?thesis using try_alloc_succeeds [OF assms(1,3-5)] by (simp add: alloc_def size_of_FreeMemoryRegion_def)
qed

theorem heap_alloc_succeeds_witness:
  "\<exists>p regions'. alloc \<lparr>layout_size = 5, layout_align = 1\<rparr>
     [\<lparr>node_address = 0x2000, node_size = 16\<rparr>, \<lparr>node_address = 0x1000, node_size = 64\<rparr>] = Ok (p, regions')"
  by (rule heap_alloc_succeeds [where r = "\<lparr>node_address = 0x1000, node_size = 64\<rparr>"])
     (simp_all add: valid_layout_def round_up_def isize_max_def region_ok_def has_room_def block_size_def image_iff bexI [of _ 0])

lemma find_free_memory_region_not_Err: "find_free_memory_region sz a rs \<noteq> Err e"
proof (induction rs)
  case (Cons r rs)
  then show ?case
    by (cases "find_free_memory_region sz a rs") (auto split: result.splits prod.splits)
qed simp

lemma alloc_not_Err: "alloc layout rs \<noteq> Err e"
proof -
  have "align_to b \<noteq> (Err e :: (usize \<times> usize) res)" for b
    by (simp add: align_to_def unwrap_option_def Let_def split: option.splits)
  moreover have "add_free_memory_region q left ss \<noteq> Err e" for q left ss
    by (simp add: add_free_memory_region_def assert_that_def)
  ultimately have "alloc_dynamic b rs \<noteq> Err e" for b
    using find_free_memory_region_not_Err
    by (auto simp: alloc_dynamic_def and_then_eq_Err split: option.splits)
  then have "try_alloc b rs \<noteq> Err e" for b
    by (auto simp: try_alloc_def and_then_eq_Err split: option.splits)
  then show ?thesis by (auto simp: alloc_def and_then_eq_Err unwrap_option_def split: option.splits if_splits)
qed

text \<open>A block that was released is too small for an allocation with the same layout: the code means to accept
  an exact fit, but the bound of \<open>ptr_byte_add_mut\<close> is strict. With no other free region the allocation
  panics.\<close>

lemma released_block_not_reused:
  assumes "valid_layout layout" and "0 < layout_size layout" and "dealloc p layout [] = Ok regions"
  shows "alloc layout regions = Panic"
proof -
  have span: "map region_span regions = [(unat p, block_size layout)]"
    using dealloc_Ok [OF assms(3)] by (simp add: block_span_def)
  then obtain r where r: "regions = [r]" "unat (node_address r) = unat p" "unat (node_size r) = block_size layout"
    by (auto simp: region_span_def)
  have "alloc layout regions \<noteq> Ok (q, regions')" for q regions'
  proof
    assume "alloc layout regions = Ok (q, regions')"
    then show False using assms(1,2)
      by (rule alloc_Ok) (use r in \<open>auto simp: Cons_eq_append_conv\<close>)
  qed
  then show ?thesis using alloc_not_Err by (cases "alloc layout regions") (simp_all, metis surj_pair)
qed

lemma released_block_not_reused_example:
  "dealloc 0x1000 \<lparr>layout_size = 24, layout_align = 8\<rparr> [] = Ok [\<lparr>node_address = 0x1000, node_size = 24\<rparr>]
   \<and> alloc \<lparr>layout_size = 24, layout_align = 8\<rparr> [\<lparr>node_address = 0x1000, node_size = 24\<rparr>] = Panic"
proof -
  have "dealloc 0x1000 \<lparr>layout_size = 24, layout_align = 8\<rparr> [] = Ok [\<lparr>node_address = 0x1000, node_size = 24\<rparr>]"
    by (simp add: dealloc_def heap_eval)
  moreover have "valid_layout \<lparr>layout_size = 24, layout_align = 8\<rparr>" by (simp add: heap_eval bexI [of _ 3])
  ultimately show ?thesis
    using released_block_not_reused [of "\<lparr>layout_size = 24, layout_align = 8\<rparr>" "0x1000"
        "[\<lparr>node_address = 0x1000, node_size = 24\<rparr>]"] by simp
qed

end
