(* ===== verification/Initialization.thy ===== *)
theory Initialization
  imports Machine Heap_Allocator
begin

text \<open>
  \<^verbatim>\<open>core/initialization/mod.rs\<close>: the boot hart initializes the memory layout, the heap, the page allocator,
  the interrupt controller, the control data and the states of the hardware harts; every hart then sets up
  its own control registers.

  \<^item> \<open>boot\<close> extends the monitor by the remaining static variables: \<^verbatim>\<open>MEMORY_LAYOUT\<close>, \<^verbatim>\<open>HEAP_ALLOCATOR\<close>
    and \<^verbatim>\<open>HARTS_STATES\<close>. A \<^verbatim>\<open>Once\<close> cell is an option that \<open>call_once\<close> fills.
  \<^item> The parser of the device tree (the crate \<^verbatim>\<open>fdt_rs\<close>) and the size of a page token in
    memory (\<^verbatim>\<open>size_of::<Page<UnAllocated>>()\<close>, chosen by the compiler) are the arguments \<open>parse\<close> and
    \<open>size_of_a_page_token\<close>.
  \<^item> Text in the device tree is a list of characters; slicing it short of its length panics.
  \<^item> \<open>ace_setup_this_hart\<close> returns \<open>None\<close> as long as the hart spins on \<^verbatim>\<open>HARTS_STATES.is_completed()\<close>.
\<close>

record boot = monitor +
  MEMORY_LAYOUT :: "memory_layout option"
  HEAP_ALLOCATOR :: linked_list_allocator
  HARTS_STATES :: "hardware_hart list option"

definition MemoryLayout_read :: "('z boot_scheme, error, memory_layout) st" where
  "MemoryLayout_read s = (unwrap_option (MEMORY_LAYOUT s), s)"

section \<open>Verification of the harts\<close>

definition verify_hart :: "dev_node \<Rightarrow> unit res" where
  "verify_hart hart =
     (let isa = (case property_str hart ''riscv,isa'' of None \<Rightarrow> [] | Some v \<Rightarrow> v);
          first = takeWhile (\<lambda>c. c \<noteq> CHR ''_'') isa
      in and_then (if length first < 4 then Panic else Ok (drop 4 first)) (\<lambda>extensions.
         and_then (assure (take 4 isa = ''rv64'') (NotSupportedHardware InvalidCpuArch)) (\<lambda>_.
         and_then (assure (CHR ''a'' \<in> set extensions) (NotSupportedHardware (NoCpuExtension CHR ''a''))) (\<lambda>_.
         assure (CHR ''h'' \<in> set extensions) (NotSupportedHardware (NoCpuExtension CHR ''h''))))))"

definition verify_harts :: "dev_tree \<Rightarrow> nat res" where
  "verify_harts fdt = and_then (try_map verify_hart (harts fdt)) (\<lambda>_. Ok (length (harts fdt)))"

section \<open>The memory of the monitor\<close>

definition boot_init_layout ::
    "usize \<Rightarrow> usize \<Rightarrow> usize \<Rightarrow> usize \<Rightarrow> ('z boot_scheme, error, usize \<times> usize) st" where
  "boot_init_layout nc_start nc_end c_start c_end s =
     (case MemoryLayout_init nc_start nc_end c_start c_end (MEMORY_LAYOUT s) of
        (r, cell) \<Rightarrow> (r, s\<lparr>MEMORY_LAYOUT := cell\<rparr>))"

definition initialize_memory_layout :: "dev_tree \<Rightarrow> ('z boot_scheme, error, usize \<times> usize) st" where
  "initialize_memory_layout fdt =
     sbind (lift (map_err DeviceTreeError (memory fdt))) (\<lambda>fdt_memory_region.
     let memory_start = region_base fdt_memory_region;
         non_confidential_memory_size = region_size fdt_memory_region;
         confidential_memory_size = non_confidential_memory_size
     in
     sbind (lift (add_usize non_confidential_memory_size confidential_memory_size)) (\<lambda>memory_size.
     let memory_end = memory_start + memory_size in
     sbind (lift (map_err (\<lambda>_. Init MemoryBoundary)
              (ptr_byte_add_mut memory_start non_confidential_memory_size memory_end)))
       (\<lambda>nc_end. boot_init_layout memory_start nc_end nc_end memory_end)))"

definition NUMBER_OF_HEAP_PAGES :: usize where "NUMBER_OF_HEAP_PAGES = 40 * 1024"

definition boot_init_heap :: "usize \<Rightarrow> usize \<Rightarrow> ('z boot_scheme, error, unit) st" where
  "boot_init_heap heap_start heap_size s =
     (case init_heap heap_start heap_size (HEAP_ALLOCATOR s) of
        Ok regions \<Rightarrow> (Ok (), s\<lparr>HEAP_ALLOCATOR := regions\<rparr>)
      | Err e \<Rightarrow> (Err e, s)
      | Panic \<Rightarrow> (Panic, s))"

text \<open>The split of the confidential memory into heap and pages: the size of the heap in bytes.\<close>

definition heap_size_in_bytes :: "usize \<Rightarrow> usize \<Rightarrow> usize \<Rightarrow> usize res" where
  "heap_size_in_bytes size_of_a_page_token c_start c_end =
     and_then (ConfidentialMemoryAddress_offset_from c_start c_end)
       (\<lambda>confidential_memory_size.
     and_then (ok_or (usize_try_from confidential_memory_size) SbiArgument) (\<lambda>confidential_memory_size.
     let number_of_pages = confidential_memory_size div in_bytes smallest in
     and_then (mul_usize number_of_pages size_of_a_page_token) (\<lambda>bytes_required_to_store_page_tokens.
     and_then (add_usize NUMBER_OF_HEAP_PAGES (bytes_required_to_store_page_tokens div in_bytes smallest)) (\<lambda>heap_pages.
     and_then (assure (number_of_pages > heap_pages) (Init NotEnoughMemory)) (\<lambda>_.
     mul_usize heap_pages (in_bytes smallest))))))"

definition initalize_security_monitor_state :: "usize \<Rightarrow> usize \<Rightarrow> usize \<Rightarrow> ('z boot_scheme, error, unit) st" where
  "initalize_security_monitor_state size_of_a_page_token c_start c_end =
     sbind (lift (heap_size_in_bytes size_of_a_page_token c_start c_end)) (\<lambda>heap_size.
     sbind MemoryLayout_read (\<lambda>l.
     sbind (lift (confidential_address_at_offset l c_start heap_size)) (\<lambda>heap_end_address.
     sbind (boot_init_heap c_start heap_size) (\<lambda>_.
     sbind (lift (assert_that (is_aligned_to heap_end_address (in_bytes smallest)))) (\<lambda>_.
     sbind (initialize l heap_end_address c_end) (\<lambda>_.
     sbind InterruptController_initialize (\<lambda>_ s.
     (Ok (), s\<lparr>CONTROL_DATA := call_once (CONTROL_DATA s) ControlData_new\<rparr>))))))))"

section \<open>The hardware harts\<close>

definition prepare_hart :: "environment \<Rightarrow> nat \<Rightarrow> ('z boot_scheme, error, hardware_hart) st" where
  "prepare_hart env i =
     sbind MemoryLayout_read (\<lambda>l.
     sbind (acquire_continous_pages l 1 Size2MiB) (\<lambda>pages.
     sbind (lift (vec_remove 0 pages)) (\<lambda>(stack_page, _).
     HardwareHart_init (enter_from_confidential_hart_asm env) (of_nat i) stack_page)))"

definition prepare_harts :: "environment \<Rightarrow> nat \<Rightarrow> ('z boot_scheme, error, unit) st" where
  "prepare_harts env number_of_harts =
     sbind (traverse (prepare_hart env) [0..<number_of_harts]) (\<lambda>harts_states s.
     (Ok (), execute_fence FENCE_WO (s\<lparr>HARTS_STATES := call_once (HARTS_STATES s) harts_states\<rparr>)))"

definition init_security_monitor ::
    "(usize \<Rightarrow> dev_tree option) \<Rightarrow> usize \<Rightarrow> environment \<Rightarrow> usize \<Rightarrow> ('z boot_scheme, error, unit) st" where
  "init_security_monitor parse size_of_a_page_token env flattened_device_tree_address =
     sbind (lift (map_err DeviceTreeError (from_raw_pointer parse flattened_device_tree_address))) (\<lambda>fdt.
     sbind (initialize_memory_layout fdt) (\<lambda>(confidential_memory_start, confidential_memory_end).
     sbind (initalize_security_monitor_state size_of_a_page_token confidential_memory_start confidential_memory_end) (\<lambda>_.
     sbind (lift (verify_harts fdt)) (\<lambda>number_of_harts.
     prepare_harts env number_of_harts))))"

definition init_security_monitor_asm ::
    "(usize \<Rightarrow> dev_tree option) \<Rightarrow> usize \<Rightarrow> environment \<Rightarrow> bool \<Rightarrow> usize \<Rightarrow> ('z boot_scheme, error, unit) st" where
  "init_security_monitor_asm parse size_of_a_page_token env cold_boot flattened_device_tree_address s =
     (if cold_boot
      then (case init_security_monitor parse size_of_a_page_token env flattened_device_tree_address s of
              (Panic, s) \<Rightarrow> (Panic, s) | (_, s) \<Rightarrow> (Ok (), s))
      else (Ok (), s))"

definition enable_entry_points :: "environment \<Rightarrow> 'z physical_hart_scheme \<Rightarrow> 'z physical_hart_scheme" where
  "enable_entry_points env s =
     (let f = snd (read_and_clear_bit (csrs s) CSR_MEDELEG (unat CAUSE_SUPERVISOR_ECALL));
          f = snd (read_and_clear_bit f CSR_MEDELEG (unat CAUSE_VIRTUAL_SUPERVISOR_ECALL));
          trap_vector_address = enter_from_hypervisor_or_vm_asm env
      in write_csr CSR_MTVEC (push_bit MTVEC_BASE_SHIFT (drop_bit MTVEC_BASE_SHIFT trap_vector_address)) (s\<lparr>csrs := f\<rparr>))"

definition ace_setup_this_hart :: "environment \<Rightarrow> 'z boot_scheme \<Rightarrow> (unit res \<times> 'z boot_scheme) option" where
  "ace_setup_this_hart env s = (case HARTS_STATES s of
      None \<Rightarrow> None
    | Some hs \<Rightarrow>
        let hart_id = read_csr (csrs s) CSR_MHARTID in
        Some (if \<not> unat hart_id < length hs then (Panic, s)
          else
            let s = swap_mscratch (s\<lparr>hardware := hs ! unat hart_id\<rparr>);
                s = write_csr CSR_MSCRATCH (hardware_hart_address env hart_id) s;
                s = s\<lparr>HARTS_STATES := Some (hs[unat hart_id := hardware s])\<rparr>
            in case sbind MemoryLayout_read HypervisorMemoryProtector_setup s of
                 (Ok _, s) \<Rightarrow> (Ok (), enable_entry_points env s)
               | (Err e, s) \<Rightarrow> (Ok (), s)
               | (Panic, s) \<Rightarrow> (Panic, s)))"

section \<open>The memory layout and the heap\<close>

lemma initialize_memory_layout_Ok:
  assumes "initialize_memory_layout fdt s = (Ok (a, b), t)" and "MEMORY_LAYOUT s = None"
  shows "\<exists>l. t = s\<lparr>MEMORY_LAYOUT := Some l\<rparr> \<and> layout_wf l \<and> a = confidential_memory_start l \<and> b = confidential_memory_end l"
proof -
  from assms obtain ns ne cs ce where "boot_init_layout ns ne cs ce s = (Ok (a, b), t)"
    by (auto simp: initialize_memory_layout_def Let_def res_simps)
  with assms(2) obtain cell where i: "MemoryLayout_init ns ne cs ce None = (Ok (a, b), cell)"
    and t: "t = s\<lparr>MEMORY_LAYOUT := cell\<rparr>" by (auto simp: boot_init_layout_def split: prod.splits)
  note I = MemoryLayout_init_Ok [OF i]
  have "cell = Some \<lparr>non_confidential_memory_start = ns, non_confidential_memory_end = ne,
      confidential_memory_start = a, confidential_memory_end = b\<rparr>" using I(10) by (simp add: call_once_def)
  with t I(1-7) show ?thesis by (auto simp: layout_wf_def is_aligned_to_def smallest_def in_bytes_def)
qed

lemma heap_size_Ok:
  assumes "heap_size_in_bytes n a b = Ok sz"
  shows "unat sz mod 4096 = 0"
proof -
  from assms obtain pages where "mul_usize pages (in_bytes smallest) = (Ok sz :: usize res)"
    by (auto simp: heap_size_in_bytes_def Let_def res_simps)
  then show ?thesis
    using unat_mul_usize [of pages "in_bytes smallest"] by (auto simp: mul_usize_eq_Ok smallest_def in_bytes_def)
qed

lemma boot_init_heap_Ok:
  assumes "boot_init_heap a n s = (Ok (), t)"
  shows "t = s\<lparr>HEAP_ALLOCATOR := \<lparr>node_address = a, node_size = n\<rparr> # HEAP_ALLOCATOR s\<rparr>"
  using assms by (auto simp: boot_init_heap_def init_heap_def add_free_memory_region_def assert_that_def
      split: result.splits if_splits)

definition tiles :: "memory_layout \<Rightarrow> usize \<Rightarrow> 'z alloc_state_scheme \<Rightarrow> bool" where
  "tiles l start t \<longleftrightarrow> alloc_inv l t \<and> (\<exists>x. x \<le> unat (confidential_memory_end l)
     \<and> (\<forall>y. free_in t y = (if unat start \<le> y \<and> y < x then 1 else 0)))"

lemma initialize_Ok:
  assumes "initialize l start (confidential_memory_end l) s = (Ok (), t)" and "layout_wf l"
    and "start < confidential_memory_end l" and "confidential_memory_start l \<le> start" and "unat start mod 4096 = 0"
  shows "tiles l start t \<and> (\<exists>pa. t = s\<lparr>global_allocator := Some pa\<rparr>)"
proof -
  have ends: "unat (confidential_memory_end l) mod 4096 = 0" "unat start mod bytes smallest = 0"
    "is_aligned_to (confidential_memory_end l) (in_bytes smallest)" "is_aligned_to start (in_bytes smallest)"
    using assms(2,5) by (simp_all add: layout_wf_def is_aligned_to_def unat_in_bytes smallest_def)
  obtain x pa where x: "add_tokens l (confidential_memory_end l) start smallest empty = Ok pa"
    "tiled l (unat start) x empty pa"
    using add_tokens_tiles [OF empty_wf(1) order_refl assms(4,3) ends(2,1)] by blast
  have "t = s\<lparr>global_allocator := Some pa\<rparr>"
    using assms(1,3) x(1) ends by (auto simp: initialize_def add_memory_region_def sbind_def lift_def assure_not_def split: if_splits)
  with x(2) show ?thesis by (auto simp: tiles_def tiled_def alloc_inv_def free_in_def empty_wf(2))
qed

lemma monitor_state_Ok:
  assumes run: "initalize_security_monitor_state n (confidential_memory_start l) (confidential_memory_end l) s = (Ok (), t)"
    and s: "MEMORY_LAYOUT s = Some l" "layout_wf l" "HEAP_ALLOCATOR s = []" "CONTROL_DATA s = None"
  shows "\<exists>sz. HEAP_ALLOCATOR t = [\<lparr>node_address = confidential_memory_start l, node_size = sz\<rparr>]
    \<and> unat (confidential_memory_start l) + unat sz < unat (confidential_memory_end l)
    \<and> tiles l (confidential_memory_start l + sz) t \<and> MEMORY_LAYOUT t = Some l \<and> HARTS_STATES t = HARTS_STATES s
    \<and> CONTROL_DATA t = Some ControlData_new"
proof -
  let ?a = "confidential_memory_start l" and ?b = "confidential_memory_end l"
  from run s(1) obtain sz e s1 s2 s3 where sz: "heap_size_in_bytes n ?a ?b = Ok sz"
    and e: "confidential_address_at_offset l ?a sz = Ok e" and heap: "boot_init_heap ?a sz s = (Ok (), s1)"
    and init: "initialize l e ?b s1 = (Ok (), s2)" and ic: "InterruptController_initialize s2 = (Ok (), s3)"
    and t: "t = s3\<lparr>CONTROL_DATA := call_once (CONTROL_DATA s3) ControlData_new\<rparr>"
    by (auto simp: initalize_security_monitor_state_def MemoryLayout_read_def sbind_def lift_def split: prod.splits result.splits)
  have room: "unat ?a + unat sz < unat ?b" "e = ?a + sz"
    using e by (auto simp: confidential_address_at_offset_cases split: if_splits)
  then have ue: "unat e = unat ?a + unat sz" using unat_add_below by simp
  have "unat ?a mod 4096 = 0" using s(2) by (simp add: layout_wf_def is_aligned_to_def smallest_def in_bytes_def)
  then have "unat e mod 4096 = 0" using ue heap_size_Ok [OF sz] by (simp add: mod_add_eq [symmetric])
  then obtain pa where tiles: "tiles l e s2" and s2: "s2 = s1\<lparr>global_allocator := Some pa\<rparr>"
    using initialize_Ok [OF init s(2)] ue room(1) by (auto simp: word_less_nat_alt word_le_nat_alt)
  have "s3 = s2\<lparr>INTERRUPT_CONTROLLER := True\<rparr>" using ic by (auto simp: InterruptController_initialize_def split: if_splits)
  with t tiles s2 boot_init_heap_Ok [OF heap] room s show ?thesis
    by (auto simp: tiles_def alloc_inv_def free_in_def call_once_def)
qed

section \<open>The states of the hardware harts\<close>

definition same_statics :: "'z boot_scheme \<Rightarrow> 'z boot_scheme \<Rightarrow> bool" where
  "same_statics s t \<longleftrightarrow> MEMORY_LAYOUT t = MEMORY_LAYOUT s \<and> HEAP_ALLOCATOR t = HEAP_ALLOCATOR s
     \<and> CONTROL_DATA t = CONTROL_DATA s \<and> HARTS_STATES t = HARTS_STATES s"

definition fresh_hart :: "environment \<Rightarrow> nat \<Rightarrow> hardware_hart \<Rightarrow> bool" where
  "fresh_hart env i h \<longleftrightarrow> assigned_hart h = dummy (enter_from_confidential_hart_asm env) (of_nat i)
     \<and> non_confidential_hart_state h = HartArchitecturalState_empty (of_nat i)
     \<and> previous_mscratch h = 0 \<and> page_size (stack h) = Size2MiB"

lemma prepare_hart_Ok:
  assumes run: "prepare_hart env i s = (Ok h, t)" and s: "MEMORY_LAYOUT s = Some l" "alloc_inv l s"
  shows "fresh_hart env i h \<and> alloc_inv l t \<and> same_statics s t \<and> (\<forall>x. free_in s x = owned [stack h] x + free_in t x)"
proof -
  from run s(1) obtain pages u p rest where acq: "acquire_continous_pages l 1 Size2MiB s = (Ok pages, u)"
    and p: "vec_remove 0 pages = Ok (p, rest)"
    and init: "HardwareHart_init (enter_from_confidential_hart_asm env) (of_nat i) p u = (Ok h, t)"
    by (auto simp: prepare_hart_def MemoryLayout_read_def sbind_def lift_def split: prod.splits result.splits)
  have ok: "alloc_inv l u" "u\<lparr>global_allocator := None\<rparr> = s\<lparr>global_allocator := None\<rparr>"
    using allocator.acq_inv [OF s(2) _ acq] by simp_all
  have pages: "length pages = 1" "list_all (\<lambda>p. page_size p = Size2MiB \<and> page_ok l p) pages"
    "\<forall>x. free_in s x = owned pages x + free_in u x"
    using allocator.acq_ok [OF s(2) _ acq] by simp_all
  then have "pages = [p]" using p by (cases pages) (auto simp: vec_remove_def)
  with pages have page: "page_size p = Size2MiB" "page_ok l p" "\<forall>x. free_in s x = owned [p] x + free_in u x" by simp_all
  from init page(2) have t: "stack h = p" "t = u\<lparr>confidential_memory := confidential_memory t\<rparr>"
    "fresh_hart env i h"
    using page(1) by (auto simp: HardwareHart_init_def sbind_def lift_def zeroize_eq ret_def fresh_hart_def
        split: result.splits)
  have "same_statics s u"
    using arg_cong [OF ok(2), of MEMORY_LAYOUT] arg_cong [OF ok(2), of HEAP_ALLOCATOR]
      arg_cong [OF ok(2), of CONTROL_DATA] arg_cong [OF ok(2), of HARTS_STATES] by (simp add: same_statics_def)
  moreover have "alloc_inv l t = alloc_inv l u" "free_in t x = free_in u x" "same_statics s t = same_statics s u" for x
    by (subst t(2); simp add: alloc_inv_def free_in_def same_statics_def)+
  ultimately show ?thesis using t ok(1) page(3) by simp
qed

lemma prepare_hart_list:
  assumes "traverse (prepare_hart env) is s = (Ok hs, t)" and "MEMORY_LAYOUT s = Some l" and "alloc_inv l s"
  shows "list_all2 (fresh_hart env) is hs \<and> alloc_inv l t \<and> same_statics s t
    \<and> (\<forall>x. free_in s x = owned (map stack hs) x + free_in t x)"
  using assms
proof (induction "is" arbitrary: s hs)
  case Nil
  then show ?case by (simp add: ret_def same_statics_def)
next
  case (Cons i "is")
  then obtain h gs u where h: "prepare_hart env i s = (Ok h, u)"
    and gs: "traverse (prepare_hart env) is u = (Ok gs, t)" and hs: "hs = h # gs"
    by (auto simp: res_simps ret_def)
  note first = prepare_hart_Ok [OF h Cons.prems(2,3)]
  then have "MEMORY_LAYOUT u = Some l" using Cons.prems(2) by (simp add: same_statics_def)
  with first Cons.IH [OF gs] show ?case by (simp add: hs same_statics_def)
qed

lemma boot_Ok:
  assumes "init_security_monitor parse size_of_a_page_token env address s = (Ok (), t)"
    and "MEMORY_LAYOUT s = None" and "HEAP_ALLOCATOR s = LinkedListAllocator_empty"
    and "CONTROL_DATA s = None" and "HARTS_STATES s = None"
  shows "\<exists>l fdt hs. MEMORY_LAYOUT t = Some l \<and> layout_wf l \<and> alloc_inv l t \<and> CONTROL_DATA t = Some ControlData_new
    \<and> parse address = Some fdt \<and> HARTS_STATES t = Some hs \<and> list_all2 (fresh_hart env) [0..<length (harts fdt)] hs
    \<and> (\<forall>x. heap_owned (HEAP_ALLOCATOR t, []) x + free_in t x + owned (map stack hs) x
        \<le> (if unat (confidential_memory_start l) \<le> x \<and> x < unat (confidential_memory_end l) then 1 else 0))"
proof -
  from assms(1) obtain fdt a b n u v where "from_raw_pointer parse address = Ok fdt"
    and layout: "initialize_memory_layout fdt s = (Ok (a, b), u)"
    and state: "initalize_security_monitor_state size_of_a_page_token a b u = (Ok (), v)"
    and "verify_harts fdt = Ok n" and harts: "prepare_harts env n v = (Ok (), t)"
    by (auto simp: init_security_monitor_def res_simps)
  then have fdt: "parse address = Some fdt" and n: "n = length (harts fdt)"
    by (auto simp: from_raw_pointer_def verify_harts_def res_simps split: if_splits)
  obtain l where l: "u = s\<lparr>MEMORY_LAYOUT := Some l\<rparr>" "layout_wf l" "a = confidential_memory_start l" "b = confidential_memory_end l"
    using initialize_memory_layout_Ok [OF layout assms(2)] by blast
  obtain sz where v: "HEAP_ALLOCATOR v = [\<lparr>node_address = confidential_memory_start l, node_size = sz\<rparr>]"
    "unat (confidential_memory_start l) + unat sz < unat (confidential_memory_end l)"
    "tiles l (confidential_memory_start l + sz) v" "MEMORY_LAYOUT v = Some l" "HARTS_STATES v = None"
    "CONTROL_DATA v = Some ControlData_new"
    using monitor_state_Ok [of size_of_a_page_token l u v] state l assms by (auto simp: LinkedListAllocator_empty_def)
  obtain hs w where hs: "traverse (prepare_hart env) [0..<n] v = (Ok hs, w)"
    and t: "t = execute_fence FENCE_WO (w\<lparr>HARTS_STATES := call_once (HARTS_STATES w) hs\<rparr>)"
    using harts by (auto simp: prepare_harts_def res_simps)
  have inv: "alloc_inv l v" using v(3) by (simp add: tiles_def)
  note p = prepare_hart_list [OF hs v(4) inv]
  have "heap_owned (HEAP_ALLOCATOR v, []) x + free_in v x
      \<le> (if unat (confidential_memory_start l) \<le> x \<and> x < unat (confidential_memory_end l) then 1 else 0)" for x
    using v(2,3) unat_add_below [OF v(2)] by (auto simp: heap_owned_def region_span_def v(1) tiles_def)
  then have "heap_owned (HEAP_ALLOCATOR w, []) x + free_in w x + owned (map stack hs) x
      \<le> (if unat (confidential_memory_start l) \<le> x \<and> x < unat (confidential_memory_end l) then 1 else 0)" for x
    using p by (simp add: same_statics_def add.commute add.left_commute)
  moreover have "HEAP_ALLOCATOR t = HEAP_ALLOCATOR w" "free_in t = free_in w" "alloc_inv l t = alloc_inv l w" "MEMORY_LAYOUT t = MEMORY_LAYOUT w"
    "CONTROL_DATA t = CONTROL_DATA w" "HARTS_STATES t = call_once (HARTS_STATES w) hs"
    by (simp_all add: t execute_fence_def free_in_def alloc_inv_def fun_eq_iff)
  ultimately show ?thesis
    using p v(4-6) l(2) fdt n by (intro exI [of _ l] exI [of _ fdt] exI [of _ hs]) (simp add: same_statics_def call_once_def)
qed

text \<open>C9: When the monitor has been initialized, the confidential memory is divided without overlap: every byte
  of it belongs to the heap, to one free page token or to the stack of one hardware hart, or to none of them,
  and no byte outside belongs to any. The table of confidential VMs is empty, and there is one
  state for every hart of the device tree, with its own dummy hart.\<close>

theorem boot_partitions_memory:
  assumes "init_security_monitor parse size_of_a_page_token env address s = (Ok (), t)"
    and "MEMORY_LAYOUT s = None" and "HEAP_ALLOCATOR s = LinkedListAllocator_empty"
    and "CONTROL_DATA s = None" and "HARTS_STATES s = None"
  shows "\<exists>l fdt hs. MEMORY_LAYOUT t = Some l \<and> layout_wf l \<and> CONTROL_DATA t = Some ControlData_new
    \<and> parse address = Some fdt \<and> HARTS_STATES t = Some hs \<and> list_all2 (fresh_hart env) [0..<length (harts fdt)] hs
    \<and> (\<forall>x. heap_owned (HEAP_ALLOCATOR t, []) x + free_in t x + owned (map stack hs) x
        \<le> (if unat (confidential_memory_start l) \<le> x \<and> x < unat (confidential_memory_end l) then 1 else 0))"
  using boot_Ok [OF assms] by blast

text \<open>A machine with one hart. The memory is chosen such that three pages of 2 MiB remain after the heap.\<close>

definition example_device_tree :: dev_tree where
  "example_device_tree = [
    [\<lparr>prop_name = Some ''device_type'', prop_str = Some ''memory'', prop_u64 = (\<lambda>_. None), prop_utf8 = None\<rparr>,
     \<lparr>prop_name = Some ''reg'', prop_str = None,
       prop_u64 = [0 \<mapsto> 0x800B4000, 1 \<mapsto> 0xA6A6000], prop_utf8 = None\<rparr>],
    [\<lparr>prop_name = Some ''device_type'', prop_str = Some ''cpu'', prop_u64 = (\<lambda>_. None), prop_utf8 = None\<rparr>,
     \<lparr>prop_name = Some ''riscv,isa'', prop_str = None, prop_u64 = (\<lambda>_. None),
       prop_utf8 = Some (''rv64imafdch'' @ [CHR 0x00])\<rparr>]]"

definition example_boot :: boot where
  "example_boot = monitor.extend (example_monitor\<lparr>global_allocator := None, CONTROL_DATA := None, INTERRUPT_CONTROLLER := False\<rparr>)
     (boot.fields None LinkedListAllocator_empty None)"

definition example_boot_layout :: memory_layout where
  "example_boot_layout = \<lparr>non_confidential_memory_start = 0x800B4000, non_confidential_memory_end = 0x8A75A000,
     confidential_memory_start = 0x8A75A000, confidential_memory_end = 0x94E00000\<rparr>"

definition example_stack_pages :: "page list" where
  "example_stack_pages = map (\<lambda>a. \<lparr>page_address = a, page_size = Size2MiB\<rparr>) [0x94800000, 0x94A00000, 0x94C00000]"

definition example_boot_allocator :: page_allocator where
  "example_boot_allocator = empty\<lparr>allocator_map := (allocator_map empty)(Size2MiB \<mapsto> example_stack_pages)\<rparr>"

lemma example_boot_simps [simp]:
  "MEMORY_LAYOUT example_boot = None" "HEAP_ALLOCATOR example_boot = LinkedListAllocator_empty"
  "CONTROL_DATA example_boot = None" "HARTS_STATES example_boot = None" "global_allocator example_boot = None"
  "INTERRUPT_CONTROLLER example_boot = False"
  by (simp_all add: example_boot_def boot.defs monitor.defs)

lemma example_memory_layout:
  "initialize_memory_layout example_device_tree example_boot
     = (Ok (0x8A75A000, 0x94E00000), example_boot\<lparr>MEMORY_LAYOUT := Some example_boot_layout\<rparr>)"
  by (simp add: initialize_memory_layout_def example_device_tree_def memory_def has_device_type_def Let_def
      boot_init_layout_def sbind_def lift_def add_usize_def ptr_byte_add_mut_def MemoryLayout_init_def ptr_align_def
      align_offset_def is_power_of_two_def smallest_def in_bytes_def mul_usize_def size_of_usize_def ptr_byte_offset_def
      usize_try_from_def call_once_def example_boot_layout_def)

lemma example_heap_size: "heap_size_in_bytes 16 0x8A75A000 0x94E00000 = Ok 0xA0A6000"
  by (simp add: heap_size_in_bytes_def ConfidentialMemoryAddress_offset_from_def ptr_byte_offset_def usize_try_from_def
      mul_usize_def add_usize_def smallest_def in_bytes_def NUMBER_OF_HEAP_PAGES_def Let_def)

lemma example_token_size:
  "token_size example_boot_layout 0x94E00000 0x94800000 Size4KiB = Size2MiB"
  "token_size example_boot_layout 0x94E00000 0x94A00000 Size2MiB = Size2MiB"
  "token_size example_boot_layout 0x94E00000 0x94C00000 Size2MiB = Size2MiB"
  by (simp_all add: token_size_def grow.simps shrink.simps is_aligned_to_def in_bytes_def can_create_page_def
      confidential_address_at_offset_bounded_cases example_boot_layout_def)

lemma example_next_address:
  "next_address example_boot_layout 0x94E00000 0x94800000 Size2MiB = Some 0x94A00000"
  "next_address example_boot_layout 0x94E00000 0x94A00000 Size2MiB = Some 0x94C00000"
  "next_address example_boot_layout 0x94E00000 0x94C00000 Size2MiB = None"
  "can_create_page example_boot_layout 0x94E00000 0x94C00000 Size2MiB"
  by (simp_all add: next_address_def in_bytes_def can_create_page_def
      confidential_address_at_offset_bounded_cases example_boot_layout_def)

lemma example_boot_tokens:
  "add_tokens example_boot_layout 0x94E00000 0x94800000 smallest empty = Ok example_boot_allocator"
  by (simp add: add_tokens.simps example_token_size example_next_address smallest_def push_token_def Page_init_def
      empty_def all_from_largest_to_smallest_def example_boot_allocator_def example_stack_pages_def fun_upd_twist Let_def)

lemma example_initialize:
  "global_allocator s = None \<Longrightarrow> initialize example_boot_layout 0x94800000 0x94E00000 s =
     (Ok (), s\<lparr>global_allocator := Some example_boot_allocator\<rparr>)"
  using example_boot_tokens
  by (simp add: initialize_def add_memory_region_def sbind_def lift_def is_aligned_to_def smallest_def in_bytes_def)

lemma example_boot_acquire:
  assumes "global_allocator s = Some example_boot_allocator"
  shows "\<exists>pa. acquire_continous_pages example_boot_layout 1 Size2MiB s =
    (Ok [\<lparr>page_address = 0x94800000, page_size = Size2MiB\<rparr>], s\<lparr>global_allocator := Some pa\<rparr>)"
  using assms
  by (simp add: acquire_continous_pages_def try_write_def acquire_def acquire_continous_pages_of_given_size_def
      example_boot_allocator_def example_stack_pages_def is_memory_region_continous_def vec_remove_def
      sbind_def lift_def ret_def Let_def numeral_2_eq_2) blast

lemma example_prepare_hart:
  assumes "MEMORY_LAYOUT s = Some example_boot_layout" and "global_allocator s = Some example_boot_allocator"
  shows "\<exists>h t. prepare_hart env i s = (Ok h, t) \<and> same_statics s t"
proof -
  let ?p = "\<lparr>page_address = 0x94800000, page_size = Size2MiB\<rparr>"
  have p: "page_ok example_boot_layout ?p" by (simp add: page_ok_def example_boot_layout_def)
  obtain pa where "acquire_continous_pages example_boot_layout 1 Size2MiB s =
      (Ok [?p], s\<lparr>global_allocator := Some pa\<rparr>)" using example_boot_acquire [OF assms(2)] by blast
  with assms(1) show ?thesis
    by (simp add: prepare_hart_def MemoryLayout_read_def HardwareHart_init_def sbind_def lift_def ret_def vec_remove_def
        zeroize_eq [OF p] page_ok_end(1) [OF p] same_statics_def)
qed

lemma example_harts: "harts example_device_tree = [example_device_tree ! 1]" "verify_harts example_device_tree = Ok 1"
proof -
  show harts: "harts example_device_tree = [example_device_tree ! 1]"
    by (simp add: harts_def example_device_tree_def has_device_type_def)
  show "verify_harts example_device_tree = Ok 1"
    unfolding verify_harts_def harts
    by (simp add: example_device_tree_def verify_hart_def property_str_def strip_nul_def)
qed

lemma example_boot_run:
  "\<exists>t h. init_security_monitor (\<lambda>_. Some example_device_tree) 16 env 0x1000 example_boot = (Ok (), t)
     \<and> MEMORY_LAYOUT t = Some example_boot_layout \<and> HARTS_STATES t = Some [h]"
proof -
  let ?s = "example_boot\<lparr>MEMORY_LAYOUT := Some example_boot_layout,
      HEAP_ALLOCATOR := [\<lparr>node_address = 0x8A75A000, node_size = 0xA0A6000\<rparr>]\<rparr>"
  let ?t = "?s\<lparr>global_allocator := Some example_boot_allocator, INTERRUPT_CONTROLLER := True,
      CONTROL_DATA := Some ControlData_new\<rparr>"
  have heap: "boot_init_heap 0x8A75A000 0xA0A6000 (example_boot\<lparr>MEMORY_LAYOUT := Some example_boot_layout\<rparr>) = (Ok (), ?s)"
    by (simp add: boot_init_heap_def init_heap_def LinkedListAllocator_empty_def heap_eval)
  have at: "confidential_address_at_offset example_boot_layout 0x8A75A000 0xA0A6000 = Ok 0x94800000"
    by (simp add: confidential_address_at_offset_cases example_boot_layout_def)
  have state: "initalize_security_monitor_state 16 0x8A75A000 0x94E00000
      (example_boot\<lparr>MEMORY_LAYOUT := Some example_boot_layout\<rparr>) = (Ok (), ?t)"
    by (simp add: initalize_security_monitor_state_def example_heap_size MemoryLayout_read_def heap at example_initialize
        InterruptController_initialize_def is_aligned_to_def smallest_def in_bytes_def call_once_def sbind_def lift_def)
  obtain h u where h: "prepare_hart env 0 ?t = (Ok h, u)" "same_statics ?t u"
    using example_prepare_hart [of ?t env 0] by auto
  have "from_raw_pointer (\<lambda>_. Some example_device_tree) 0x1000 = Ok example_device_tree"
    by (simp add: from_raw_pointer_def align_offset_def is_power_of_two_def)
  then have "init_security_monitor (\<lambda>_. Some example_device_tree) 16 env 0x1000 example_boot =
      (Ok (), execute_fence FENCE_WO (u\<lparr>HARTS_STATES := Some [h]\<rparr>))"
    using h by (simp add: init_security_monitor_def example_memory_layout state example_harts prepare_harts_def
        sbind_def lift_def ret_def same_statics_def call_once_def)
  with h(2) show ?thesis by (simp add: execute_fence_def same_statics_def)
qed

theorem boot_partitions_memory_witness:
  "\<exists>t l. init_security_monitor (\<lambda>_. Some example_device_tree) 16 example_environment 0x1000 example_boot = (Ok (), t)
     \<and> MEMORY_LAYOUT t = Some l \<and> (\<forall>x. heap_owned (HEAP_ALLOCATOR t, []) x + free_in t x \<le> 1)"
proof -
  obtain t where t: "init_security_monitor (\<lambda>_. Some example_device_tree) 16 example_environment 0x1000 example_boot = (Ok (), t)"
    using example_boot_run by blast
  obtain l and hs :: "hardware_hart list" where l: "MEMORY_LAYOUT t = Some l" and own: "\<forall>x. heap_owned (HEAP_ALLOCATOR t, []) x + free_in t x + owned (map stack hs) x
      \<le> (if unat (confidential_memory_start l) \<le> x \<and> x < unat (confidential_memory_end l) then 1 else 0)"
    using boot_partitions_memory [OF t example_boot_simps(1-4)] by blast
  have "heap_owned (HEAP_ALLOCATOR t, []) x + free_in t x \<le> 1" for x
    using own [rule_format, of x] by (simp split: if_splits)
  with t l show ?thesis by blast
qed

section \<open>Setting up a hart\<close>

lemma setup_frame:
  assumes "HypervisorMemoryProtector_setup l s = (r, t)"
  shows "\<exists>f g. t = s\<lparr>csrs := f, fences := g\<rparr>"
  using assms
  by (auto simp: HypervisorMemoryProtector_setup_def confidential_memory_boundary_def sbind_def ret_def
      split_memory_into_confidential_and_non_confidential_def Let_def protect_confidential_memory_from_io_devices_def
      tlb_shutdown_def close_access_to_confidential_memory_def clear_caches_def write_csr_def execute_fence_def
      read_and_clear_bits_def split: prod.splits)

lemma setup_protection:
  assumes "HypervisorMemoryProtector_setup l s = (r, t)"
  shows "r = Ok ()" and "pmp_available (csrs s) \<Longrightarrow> protection_ok l False (csrs t)"
    and "pmp_in_use (csrs t) = pmp_in_use (csrs s)"
    and "\<And>c. c \<notin> protection_csrs \<Longrightarrow> csrs t c = csrs s c"
proof -
  obtain u where "HypervisorMemoryProtector_setup l s = (Ok (), u)"
    and "pmp_region (csrs u) (confidential_memory_start l) (confidential_memory_end l)" "pmp_closed (csrs u)"
    and "pmp_available (csrs u) = pmp_available (csrs s)" "pmp_in_use (csrs u) = pmp_in_use (csrs s)"
    and "\<And>c. c \<notin> protection_csrs \<Longrightarrow> csrs u c = csrs s c"
    unfolding protection_csrs_def by (rule HypervisorMemoryProtector_setup_csrs [of l s]) blast
  with assms show "r = Ok ()" "pmp_available (csrs s) \<Longrightarrow> protection_ok l False (csrs t)"
    "pmp_in_use (csrs t) = pmp_in_use (csrs s)" "\<And>c. c \<notin> protection_csrs \<Longrightarrow> csrs t c = csrs s c"
    by (simp_all add: protection_ok_def)
qed

lemma entry_points:
  "csrs (enable_entry_points env s) = (csrs s)(CSR_MEDELEG := csrs s CSR_MEDELEG AND NOT (push_bit 9 1) AND NOT (push_bit 10 1),
     CSR_MTVEC := push_bit 2 (drop_bit 2 (enter_from_hypervisor_or_vm_asm env)))"
  by (simp add: enable_entry_points_def read_and_clear_bit_def read_and_clear_bits_def Let_def MTVEC_BASE_SHIFT_def
      CAUSE_SUPERVISOR_ECALL_def CAUSE_VIRTUAL_SUPERVISOR_ECALL_def read_csr_def set_csr_def write_csr_def and.assoc del: push_bit_of_1)

lemma setup_Ok:
  assumes "HARTS_STATES s = Some hs" and "MEMORY_LAYOUT s = Some l" and "read_csr (csrs s) CSR_MHARTID = n"
    and "unat n < length hs" and "fresh_hart env (unat n) (hs ! unat n)"
  shows "\<exists>t. ace_setup_this_hart env s = Some (Ok (), t)
      \<and> (pmp_available (csrs s) \<longrightarrow> protection_ok l False (csrs t)) \<and> pmp_in_use (csrs t) = pmp_in_use (csrs s)
      \<and> \<not> running t \<and> assigned_hart (hardware t) = dummy (enter_from_confidential_hart_asm env) n
      \<and> hypervisor_state t = HartArchitecturalState_empty n
      \<and> HARTS_STATES t = Some (hs[unat n := hardware t])
      \<and> csrs t CSR_MSCRATCH = hardware_hart_address env n \<and> previous_mscratch (hardware t) = csrs s CSR_MSCRATCH
      \<and> csrs t CSR_MEDELEG = csrs s CSR_MEDELEG AND NOT (push_bit 9 1) AND NOT (push_bit 10 1)
      \<and> csrs t CSR_MTVEC = push_bit 2 (drop_bit 2 (enter_from_hypervisor_or_vm_asm env))"
proof -
  define u where "u = write_csr CSR_MSCRATCH (hardware_hart_address env n) (swap_mscratch (s\<lparr>hardware := hs ! unat n\<rparr>))"
  define v where "v = u\<lparr>HARTS_STATES := Some (hs[unat n := hardware u])\<rparr>"
  obtain r w where w: "HypervisorMemoryProtector_setup l v = (r, w)" by fastforce
  have v: "csrs v CSR_PMPCFG0 = csrs s CSR_PMPCFG0" "csrs v CSR_MEDELEG = csrs s CSR_MEDELEG"
    "csrs v CSR_MSCRATCH = hardware_hart_address env n" "MEMORY_LAYOUT v = Some l"
    "hardware v = (hs ! unat n)\<lparr>previous_mscratch := csrs s CSR_MSCRATCH\<rparr>" "HARTS_STATES v = Some (hs[unat n := hardware v])"
    using assms(2) by (simp_all add: v_def u_def swap_mscratch_def Let_def write_csr_def set_csr_def read_csr_def)
  note prot = setup_protection [OF w]
  obtain f g where frame: "w = v\<lparr>csrs := f, fences := g\<rparr>" using setup_frame [OF w] by blast
  let ?t = "enable_entry_points env w"
  have run: "ace_setup_this_hart env s = Some (Ok (), ?t)"
    using assms(1,3,4) w prot(1) v(4)
    by (simp add: ace_setup_this_hart_def Let_def MemoryLayout_read_def sbind_def v_def u_def)
  have "hardware ?t = hardware w" "HARTS_STATES ?t = HARTS_STATES w"
    by (simp_all add: enable_entry_points_def Let_def write_csr_def)
  moreover have "hardware w = hardware v" "HARTS_STATES w = HARTS_STATES v" by (simp_all add: frame)
  ultimately have t: "hardware ?t = (hs ! unat n)\<lparr>previous_mscratch := csrs s CSR_MSCRATCH\<rparr>"
    "HARTS_STATES ?t = Some (hs[unat n := hardware ?t])" using v(5,6) by simp_all
  have idle: "is_dummy (assigned_hart (hardware ?t))" "confidential_hart_id (assigned_hart (hardware ?t)) = n"
    "lifecycle_state (assigned_hart (hardware ?t)) = Started"
    using assms(5) by (simp_all add: t(1) fresh_hart_def is_dummy_def example_hart_ids)
  moreover have "assigned_hart (hardware ?t) = dummy (enter_from_confidential_hart_asm env) n"
    using assms(5) by (simp add: t(1) fresh_hart_def)
  moreover have "hypervisor_state ?t = HartArchitecturalState_empty n"
    using assms(5) by (simp add: t(1) fresh_hart_def)
  moreover have "protection_ok l False (csrs ?t)" if "pmp_available (csrs s)"
    using that prot(2) pmp_cong(1) [of "csrs v" "csrs s"] v(1)
    by (subst protection_ok_congr [of "csrs ?t" "csrs w"]) (auto simp: entry_points protection_csrs_def)
  moreover have "pmp_in_use (csrs ?t) = pmp_in_use (csrs s)"
    using prot(3) pmp_cong(2) [of "csrs v" "csrs s"] v(1) pmp_cong(2) [of "csrs ?t" "csrs w"] by (simp add: entry_points)
  moreover have "\<not> running ?t" using idle by (simp add: running_def)
  moreover have "csrs ?t CSR_MEDELEG = csrs s CSR_MEDELEG AND NOT (push_bit 9 1) AND NOT (push_bit 10 1)"
    "csrs ?t CSR_MSCRATCH = hardware_hart_address env n"
    using prot(4) [of CSR_MEDELEG] prot(4) [of CSR_MSCRATCH] v(2,3)
    by (simp_all add: entry_points protection_csrs_def del: push_bit_of_1)
  moreover have "csrs ?t CSR_MTVEC = push_bit 2 (drop_bit 2 (enter_from_hypervisor_or_vm_asm env))"
    by (simp add: entry_points)
  ultimately show ?thesis unfolding run using t by (auto simp del: push_bit_of_1)
qed

text \<open>What the setup of a hart leaves for the machine. The modes of the two PMP entries stay as the firmware left
  them: from reset the entries are off, and \<^verbatim>\<open>open_access_to_confidential_memory\<close> switches entry 1 on when the hart
  executes its first confidential hart.\<close>

definition hart_set_up :: "environment \<Rightarrow> usize \<Rightarrow> csr_file \<Rightarrow> csr_file \<Rightarrow> hardware_hart \<Rightarrow> bool" where
  "hart_set_up env n f g h \<longleftrightarrow>
     assigned_hart h = dummy (enter_from_confidential_hart_asm env) n
     \<and> pmp_region g (confidential_memory_start (layout env)) (confidential_memory_end (layout env)) \<and> pmp_closed g
     \<and> pmp_in_use g = pmp_in_use f
     \<and> g CSR_MSCRATCH = hardware_hart_address env n \<and> previous_mscratch h = f CSR_MSCRATCH
     \<and> (\<forall>k. bit (g CSR_MEDELEG) k \<longleftrightarrow> bit (f CSR_MEDELEG) k \<and> k \<noteq> 9 \<and> k \<noteq> 10)
     \<and> g CSR_MTVEC = push_bit 2 (drop_bit 2 (enter_from_hypervisor_or_vm_asm env))"

lemma setup_sets_hart_up:
  assumes "HARTS_STATES s = Some hs" and "MEMORY_LAYOUT s = Some (layout env)" and "read_csr (csrs s) CSR_MHARTID = n"
    and "unat n < length hs" and "fresh_hart env (unat n) (hs ! unat n)" and "pmp_available (csrs s)"
  shows "\<exists>t. ace_setup_this_hart env s = Some (Ok (), t) \<and> hart_set_up env n (csrs s) (csrs t) (hardware t)"
proof -
  have cleared: "bit (w AND NOT (push_bit 9 1) AND NOT (push_bit 10 1)) k \<longleftrightarrow> bit w k \<and> k \<noteq> 9 \<and> k \<noteq> 10" for w :: usize and k
    by (auto simp: bit_simps dest: bit_imp_le_length simp del: push_bit_of_1)
  from setup_Ok [OF assms(1-5)] assms(6) show ?thesis
    by (auto simp: hart_set_up_def protection_ok_def cleared simp del: push_bit_of_1)
qed

section \<open>Harts that are not described\<close>

text \<open>A hart without the property \<^verbatim>\<open>riscv,isa\<close>, or with a value shorter than the name of the architecture, does not make
  the verification fail: the slice of the value panics before the architecture is compared.\<close>

lemma undescribed_hart_panics:
  assumes "hart \<in> set (harts fdt)" and "property_str hart ''riscv,isa'' = None"
    and "\<And>g. g \<in> set (harts fdt) \<Longrightarrow> g = hart \<or> verify_hart g = Ok ()"
  shows "verify_harts fdt = Panic"
proof -
  have panic: "verify_hart hart = Panic" using assms(2) by (simp add: verify_hart_def)
  have "try_map verify_hart xs = Panic"
    if "hart \<in> set xs" and "\<And>g. g \<in> set xs \<Longrightarrow> g = hart \<or> verify_hart g = Ok ()" for xs
    using that
  proof (induction xs)
    case (Cons a xs)
    then show ?case using Cons.prems(2) [of a] panic by (cases "a = hart") auto
  qed simp
  then show ?thesis using assms by (simp add: verify_harts_def)
qed

end
