(* ===== verification/Allocator_Loops.thy ===== *)
theory Allocator_Loops
  imports Page_Allocator
begin

text \<open>
  The \<^verbatim>\<open>while\<close> loops of \<^verbatim>\<open>core/page_allocator/page_allocator.rs\<close> as the source writes them: a loop is a
  \<^verbatim>\<open>partial_function (option)\<close> over the variables it updates, whose value is \<open>None\<close> when it does not
  return.

  \<^item> \<open>grow_loop\<close>, \<open>shrink_loop\<close> and \<open>add_memory_region_loop\<close> are the three nested loops of
    \<^verbatim>\<open>add_memory_region\<close>, \<open>divide_pages_loop\<close> is the loop of \<^verbatim>\<open>divide_pages\<close>.
  \<^item> The lemmas show that each of them returns for every argument, and that what it returns is the value
    of the total function of \<open>Page_Allocator\<close> on which the rest of the development is built.
\<close>

partial_function (option) grow_loop :: "usize \<Rightarrow> page_size \<Rightarrow> page_size option" where
  "grow_loop address sz =
     (case larger sz of
        Some larger_size \<Rightarrow>
          if is_aligned_to address (in_bytes larger_size) then grow_loop address larger_size
          else Some sz
      | None \<Rightarrow> Some sz)"

partial_function (option) shrink_loop ::
    "memory_layout \<Rightarrow> usize \<Rightarrow> usize \<Rightarrow> page_size \<Rightarrow> page_size option" where
  "shrink_loop l memory_region_end address sz =
     (case smaller sz of
        Some smaller_size \<Rightarrow>
          if \<not> can_create_page l memory_region_end address smaller_size
          then shrink_loop l memory_region_end address smaller_size
          else Some sz
      | None \<Rightarrow> Some sz)"

partial_function (option) add_memory_region_loop ::
    "memory_layout \<Rightarrow> usize \<Rightarrow> usize option \<Rightarrow> page_size \<Rightarrow> page_allocator \<Rightarrow> page_allocator res option" where
  "add_memory_region_loop l memory_region_end memory_address sz pa =
     (case memory_address of
        None \<Rightarrow> Some (Ok pa)
      | Some address \<Rightarrow>
          Option.bind (grow_loop address sz) (\<lambda>sz.
          Option.bind (shrink_loop l memory_region_end address sz) (\<lambda>sz.
          let memory_address = next_address l memory_region_end address sz
          in case (if memory_address \<noteq> None \<or> can_create_page l memory_region_end address sz
                   then push_token pa sz (Page_init address sz) else Ok pa) of
               Ok pa \<Rightarrow> add_memory_region_loop l memory_region_end memory_address sz pa
             | Err e \<Rightarrow> Some (Err e)
             | Panic \<Rightarrow> Some Panic)))"

partial_function (option) divide_pages_loop ::
    "memory_layout \<Rightarrow> page_size \<Rightarrow> page_size option \<Rightarrow> page_allocator \<Rightarrow> page_allocator res option" where
  "divide_pages_loop l sz page_size_to_divide_next pa =
     (case page_size_to_divide_next of
        None \<Rightarrow> Some (Ok pa)
      | Some page_size_to_divide_now \<Rightarrow>
          if page_size_to_divide_now = sz then Some (Ok pa)
          else (case divide_page l page_size_to_divide_now pa of
                  Ok (divided, pa) \<Rightarrow>
                    if divided then divide_pages_loop l sz (smaller page_size_to_divide_now) pa
                    else divide_pages_loop l sz (larger page_size_to_divide_now) pa
                | Err e \<Rightarrow> Some (Err e)
                | Panic \<Rightarrow> Some Panic))"

lemma grow_loop_returns: "grow_loop address sz = Some (grow address sz)"
  by (induction address sz rule: grow.induct)
     (subst grow_loop.simps, subst grow.simps, simp split: option.split)

lemma shrink_loop_returns:
  "shrink_loop l memory_region_end address sz = Some (shrink l memory_region_end address sz)"
  by (induction l memory_region_end address sz rule: shrink.induct)
     (subst shrink_loop.simps, subst shrink.simps, simp split: option.split)

lemma add_memory_region_loop_returns:
  "add_memory_region_loop l memory_region_end (Some address) sz pa =
     Some (add_tokens l memory_region_end address sz pa)"
proof (induction l memory_region_end address sz pa rule: add_tokens.induct)
  case (1 l e address sz pa)
  let ?sz = "token_size l e address sz"
  let ?step = "if next_address l e address ?sz \<noteq> None \<or> can_create_page l e address ?sz
    then push_token pa ?sz (Page_init address ?sz) else Ok pa"
  have unfolded: "add_memory_region_loop l e (Some address) sz pa =
      (case ?step of Ok pa \<Rightarrow> add_memory_region_loop l e (next_address l e address ?sz) ?sz pa
       | Err e \<Rightarrow> Some (Err e) | Panic \<Rightarrow> Some Panic)"
    by (subst add_memory_region_loop.simps)
       (simp add: grow_loop_returns shrink_loop_returns token_size_def Let_def cong: result.case_cong)
  have finished: "add_memory_region_loop l e None sz' pa' = Some (Ok pa')" for sz' pa'
    by (subst add_memory_region_loop.simps) simp
  show ?case
    unfolding unfolded add_tokens.simps [of l e address sz pa] Let_def
    using 1 [OF refl refl]
    by (cases ?step; cases "next_address l e address ?sz") (simp_all add: finished)
qed

lemma divide_pages_loop_returns: "divide_pages_loop l sz n pa = Some (divide_loop l sz n pa)"
proof (induction l sz n pa rule: divide_loop.induct)
  case (1 l sz n pa)
  then show ?case
    by (subst divide_pages_loop.simps, subst divide_loop.simps)
       (auto split: option.split result.split)
qed

text \<open>C28: Every loop of the page allocator returns, whatever the memory layout, the region, the alignment of
  its start and the tokens already in the allocator: the two loops that look for the size of the next page, the
  loop of \<^verbatim>\<open>add_memory_region\<close> that walks over the region, and the loop of \<^verbatim>\<open>divide_pages\<close> that climbs
  to larger pages and back. A region that passes the checks of \<^verbatim>\<open>add_memory_region\<close> is added by that loop,
  and \<^verbatim>\<open>divide_pages\<close> computes what its loop computes.\<close>

theorem page_allocator_loops_terminate:
  "(\<exists>sz'. grow_loop address sz = Some sz') \<and> (\<exists>sz'. shrink_loop l region_end address sz = Some sz')
   \<and> (\<exists>r. add_memory_region_loop l region_end memory_address sz pa = Some r)
   \<and> (if is_aligned_to address (in_bytes smallest) \<and> is_aligned_to region_end (in_bytes smallest)
         \<and> address < region_end
      then add_memory_region_loop l region_end (Some address) smallest pa =
             Some (add_memory_region l address region_end pa)
      else add_memory_region l address region_end pa = Panic)
   \<and> divide_pages_loop l sz (larger sz) pa = Some (divide_pages l sz pa)
   \<and> (\<exists>r. divide_pages_loop l sz page_size_to_divide_next pa = Some r)"
proof -
  have "\<exists>r. add_memory_region_loop l region_end memory_address sz pa = Some r"
  proof (cases memory_address)
    case None
    then show ?thesis by (subst add_memory_region_loop.simps) simp
  next
    case (Some a)
    then show ?thesis by (simp add: add_memory_region_loop_returns)
  qed
  then show ?thesis
    by (simp add: grow_loop_returns shrink_loop_returns divide_pages_loop_returns divide_pages_def
        add_memory_region_loop_returns add_memory_region_def assert_that_def)
qed

end
