(* ===== verification/Context_Switch.thy ===== *)
theory Context_Switch
  imports Machine
begin

text \<open>
  The context switches: the assembly routines that \<^verbatim>\<open>confidential_flow/context_switch/mod.rs\<close> and
  \<^verbatim>\<open>non_confidential_flow/context_switch/mod.rs\<close> include, between the code that runs on a hart (the hypervisor,
  a confidential VM) and the Rust code of the monitor.

  \<^item> \<open>asm_instruction\<close> has the instructions the four routines use and \<open>execute\<close> their meaning on a \<open>cpu\<close>: the
    general purpose registers, the CSRs and the memory by 8-byte words. \<open>run_routine\<close> executes a routine up to
    its jump to Rust code or to its \<^verbatim>\<open>mret\<close>.
  \<^item> \<open>hart_gpr_offset\<close> is the function of the same name; every \<^verbatim>\<open>HART_<register>_OFFSET\<close> is its value at that
    register. \<open>HART_STACK_ADDRESS_OFFSET\<close> and the place of \<^verbatim>\<open>confidential_hart\<close> in \<^verbatim>\<open>HardwareHart\<close> depend on
    sizes the compiler chooses: they are the fields of \<open>hardware_hart_layout\<close>, of which \<open>repr_C\<close> says what
    \<^verbatim>\<open>#[repr(C)]\<close> guarantees, that the fields lie one after the other in the order of the declaration.
  \<^item> The dump area of a hart starts with the array of its general purpose registers; \<open>dump_at\<close> reads it as the
    \<open>gprs\<close> field that the Rust code (and its model) works on.
\<close>

section \<open>The layout of the dump area\<close>

definition hart_gpr_offset :: "general_purpose_register \<Rightarrow> usize" where
  "hart_gpr_offset r = 0 + index r * size_of_usize"

record hardware_hart_layout =
  HART_STACK_ADDRESS_OFFSET :: usize
  confidential_hart_offset :: usize

definition repr_C :: "hardware_hart_layout \<Rightarrow> bool" where
  "repr_C y \<longleftrightarrow> 256 \<le> unat (HART_STACK_ADDRESS_OFFSET y)
     \<and> unat (HART_STACK_ADDRESS_OFFSET y) + 8 \<le> unat (confidential_hart_offset y)"

text \<open>The operands \<^verbatim>\<open>{HART_<register>_OFFSET}\<close> and \<^verbatim>\<open>{HART_STACK_ADDRESS_OFFSET}\<close> of the assembly, as the two
  \<^verbatim>\<open>global_asm!\<close> bind them.\<close>

record asm_operands =
  HART_OFFSET :: "general_purpose_register \<Rightarrow> usize"
  STACK_ADDRESS_OFFSET :: usize

definition confidential_operands :: "hardware_hart_layout \<Rightarrow> asm_operands" where
  "confidential_operands y =
     \<lparr>HART_OFFSET = hart_gpr_offset, STACK_ADDRESS_OFFSET = HART_STACK_ADDRESS_OFFSET y\<rparr>"

definition non_confidential_operands :: "hardware_hart_layout \<Rightarrow> asm_operands" where
  "non_confidential_operands y =
     \<lparr>HART_OFFSET = hart_gpr_offset, STACK_ADDRESS_OFFSET = HART_STACK_ADDRESS_OFFSET y\<rparr>"

section \<open>Instructions\<close>

datatype asm_instruction =
    CSRRW general_purpose_register csr general_purpose_register
  | CSRR general_purpose_register csr
  | SD general_purpose_register usize general_purpose_register
  | LD general_purpose_register usize general_purpose_register

datatype target = Route_non_confidential_flow | Route_confidential_flow | Mret

record cpu =
  registers :: general_purpose_registers
  csr_registers :: csr_file
  words :: "usize \<Rightarrow> usize"

definition set_register :: "general_purpose_register \<Rightarrow> usize \<Rightarrow> cpu \<Rightarrow> cpu" where
  "set_register rd v c = (if rd = gpr_zero then c else c\<lparr>registers := (registers c)(rd := v)\<rparr>)"

primrec execute :: "asm_instruction \<Rightarrow> cpu \<Rightarrow> cpu" where
  "execute (CSRRW rd r rs) c =
     set_register rd (csr_registers c r) (c\<lparr>csr_registers := (csr_registers c)(r := registers c rs)\<rparr>)"
| "execute (CSRR rd r) c = set_register rd (csr_registers c r) c"
| "execute (SD rs offset base) c =
     c\<lparr>words := (words c)(registers c base + offset := registers c rs)\<rparr>"
| "execute (LD rd offset base) c = set_register rd (words c (registers c base + offset)) c"

definition run_routine :: "asm_instruction list \<times> target \<Rightarrow> cpu \<Rightarrow> cpu \<times> target" where
  "run_routine routine c = (fold execute (fst routine) c, snd routine)"

section \<open>The four routines\<close>

text \<open>The registers in the order in which the routines store and load them.\<close>

definition saved_before_a0 :: "general_purpose_register list" where
  "saved_before_a0 = [gpr_ra, gpr_sp, gpr_gp, gpr_tp, gpr_t0, gpr_t1, gpr_t2, gpr_s0, gpr_s1]"

definition saved_after_a0 :: "general_purpose_register list" where
  "saved_after_a0 = [gpr_a1, gpr_a2, gpr_a3, gpr_a4, gpr_a5, gpr_a6, gpr_a7, gpr_s2, gpr_s3, gpr_s4, gpr_s5,
     gpr_s6, gpr_s7, gpr_s8, gpr_s9, gpr_s10, gpr_s11, gpr_t3, gpr_t4, gpr_t5, gpr_t6]"

definition store_gprs ::
    "asm_operands \<Rightarrow> general_purpose_register list \<Rightarrow> general_purpose_register \<Rightarrow> asm_instruction list" where
  "store_gprs op rs base = map (\<lambda>r. SD r (HART_OFFSET op r) base) rs"

definition load_gprs ::
    "asm_operands \<Rightarrow> general_purpose_register list \<Rightarrow> general_purpose_register \<Rightarrow> asm_instruction list" where
  "load_gprs op rs base = map (\<lambda>r. LD r (HART_OFFSET op r) base) rs"

definition enter_from_confidential_hart_routine :: "hardware_hart_layout \<Rightarrow> asm_instruction list \<times> target" where
  "enter_from_confidential_hart_routine y =
     (let op = confidential_operands y in
      ([CSRRW gpr_a0 CSR_SSCRATCH gpr_a0]
       @ store_gprs op (saved_before_a0 @ saved_after_a0) gpr_a0
       @ [CSRRW gpr_t0 CSR_SSCRATCH gpr_a0,
          SD gpr_t0 (HART_OFFSET op gpr_a0) gpr_a0,
          CSRR gpr_a0 CSR_MSCRATCH,
          LD gpr_sp (STACK_ADDRESS_OFFSET op) gpr_a0],
       Route_confidential_flow))"

definition exit_to_confidential_hart_routine :: "hardware_hart_layout \<Rightarrow> asm_instruction list \<times> target" where
  "exit_to_confidential_hart_routine y =
     ([CSRR gpr_t6 CSR_SSCRATCH]
      @ load_gprs (confidential_operands y) (saved_before_a0 @ [gpr_a0] @ saved_after_a0) gpr_t6, Mret)"

definition enter_from_hypervisor_or_vm_routine :: "hardware_hart_layout \<Rightarrow> asm_instruction list \<times> target" where
  "enter_from_hypervisor_or_vm_routine y =
     (let op = non_confidential_operands y in
      ([CSRRW gpr_a0 CSR_MSCRATCH gpr_a0]
       @ store_gprs op (saved_before_a0 @ saved_after_a0) gpr_a0
       @ [CSRRW gpr_t0 CSR_MSCRATCH gpr_a0,
          SD gpr_t0 (HART_OFFSET op gpr_a0) gpr_a0,
          LD gpr_sp (STACK_ADDRESS_OFFSET op) gpr_a0],
       Route_non_confidential_flow))"

definition exit_to_hypervisor_routine :: "hardware_hart_layout \<Rightarrow> asm_instruction list \<times> target" where
  "exit_to_hypervisor_routine y =
     ([CSRR gpr_t6 CSR_MSCRATCH]
      @ load_gprs (non_confidential_operands y) (saved_before_a0 @ [gpr_a0] @ saved_after_a0) gpr_t6, Mret)"

section \<open>Storing and loading the registers\<close>

definition dump_at :: "usize \<Rightarrow> (usize \<Rightarrow> usize) \<Rightarrow> general_purpose_registers" where
  "dump_at base mem = (\<lambda>r. mem (base + hart_gpr_offset r))"

definition dump_slots :: "usize \<Rightarrow> usize set" where
  "dump_slots base = (\<lambda>r. base + hart_gpr_offset r) ` {r. r \<noteq> gpr_zero}"

lemma unat_index: "unat (index r) < 32"
  by (cases r) simp_all

lemma unat_hart_gpr_offset: "unat (hart_gpr_offset r) = 8 * unat (index r)"
  using unat_index [of r] by (simp add: hart_gpr_offset_def size_of_usize_def unat_word_ariths)

lemma hart_gpr_offset_inject [simp]: "hart_gpr_offset r = hart_gpr_offset q \<longleftrightarrow> r = q"
proof
  assume "hart_gpr_offset r = hart_gpr_offset q"
  then have "unat (index r) = unat (index q)"
    using unat_hart_gpr_offset [of r] unat_hart_gpr_offset [of q] by simp
  then show "r = q" by (metis gpr_table_index)
qed simp

definition store_all ::
    "usize \<Rightarrow> general_purpose_registers \<Rightarrow> general_purpose_register list \<Rightarrow> (usize \<Rightarrow> usize) \<Rightarrow> (usize \<Rightarrow> usize)" where
  "store_all base g rs mem = fold (\<lambda>r m. m(base + hart_gpr_offset r := g r)) rs mem"

lemma store_all_slot:
  "store_all base g rs mem (base + hart_gpr_offset r) = (if r \<in> set rs then g r else mem (base + hart_gpr_offset r))"
  by (induction rs arbitrary: mem) (simp_all add: store_all_def)

lemma store_all_other:
  "(\<And>r. r \<in> set rs \<Longrightarrow> a \<noteq> base + hart_gpr_offset r) \<Longrightarrow> store_all base g rs mem a = mem a"
  by (induction rs arbitrary: mem) (simp_all add: store_all_def)

lemma execute_store_gprs:
  assumes "HART_OFFSET op = hart_gpr_offset"
  shows "fold execute (store_gprs op rs base) c = c\<lparr>words := store_all (registers c base) (registers c) rs (words c)\<rparr>"
  using assms by (induction rs arbitrary: c) (simp_all add: store_gprs_def store_all_def)

lemma execute_load_gprs:
  assumes "HART_OFFSET op = hart_gpr_offset" and "base \<notin> set rs" and "gpr_zero \<notin> set rs"
  shows "fold execute (load_gprs op rs base) c = c\<lparr>registers :=
    (\<lambda>r. if r \<in> set rs then dump_at (registers c base) (words c) r else registers c r)\<rparr>"
  using assms
proof (induction rs arbitrary: c)
  case Nil
  then show ?case by (simp add: load_gprs_def)
next
  case (Cons a rs)
  then show ?case
    by (cases c) (auto simp: load_gprs_def set_register_def dump_at_def fun_eq_iff)
qed

lemma saved_all: "set (saved_before_a0 @ saved_after_a0 @ [gpr_a0]) = {r. r \<noteq> gpr_zero}"
proof -
  have "r \<in> set (saved_before_a0 @ saved_after_a0 @ [gpr_a0]) \<longleftrightarrow> r \<noteq> gpr_zero" for r
    by (cases r) (simp_all add: saved_before_a0_def saved_after_a0_def)
  then show ?thesis by blast
qed

lemma saved_not_a0: "gpr_a0 \<notin> set (saved_before_a0 @ saved_after_a0)"
  by (simp add: saved_before_a0_def saved_after_a0_def)

definition saved_memory :: "usize \<Rightarrow> general_purpose_registers \<Rightarrow> (usize \<Rightarrow> usize) \<Rightarrow> (usize \<Rightarrow> usize)" where
  "saved_memory base g mem = store_all base g (saved_before_a0 @ saved_after_a0 @ [gpr_a0]) mem"

lemma dump_at_saved_memory [simp]:
  "dump_at base (saved_memory base g mem) = g(gpr_zero := dump_at base mem gpr_zero)"
  by (rule ext) (simp only: dump_at_def saved_memory_def store_all_slot saved_all, simp add: dump_at_def)

lemma saved_memory_other [simp]: "a \<notin> dump_slots base \<Longrightarrow> saved_memory base g mem a = mem a"
  unfolding saved_memory_def
  by (rule store_all_other) (simp only: saved_all, auto simp: dump_slots_def)

lemma store_all_cong: "(\<And>r. r \<in> set rs \<Longrightarrow> g r = h r) \<Longrightarrow> store_all base g rs = store_all base h rs"
  unfolding store_all_def by (intro ext fold_cong) auto

text \<open>The common part of the two ways into the monitor: the scratch register \<open>r\<close> holds the address of the dump
  area, \<^verbatim>\<open>a0\<close> is stored last through \<^verbatim>\<open>t0\<close>, and the scratch register has its value back.\<close>

lemma execute_save:
  assumes "HART_OFFSET op = hart_gpr_offset"
  shows "fold execute ([CSRRW gpr_a0 r gpr_a0] @ store_gprs op (saved_before_a0 @ saved_after_a0) gpr_a0
      @ [CSRRW gpr_t0 r gpr_a0, SD gpr_t0 (HART_OFFSET op gpr_a0) gpr_a0]) c =
   c\<lparr>registers := (registers c)(gpr_a0 := csr_registers c r, gpr_t0 := registers c gpr_a0),
     words := saved_memory (csr_registers c r) (registers c) (words c)\<rparr>"
proof -
  let ?g = "(registers c)(gpr_a0 := csr_registers c r)"
  have "store_all base ?g (saved_before_a0 @ saved_after_a0) = store_all base (registers c) (saved_before_a0 @ saved_after_a0)"
    for base using saved_not_a0 by (intro store_all_cong) auto
  then show ?thesis
    by (cases c) (simp add: assms execute_store_gprs set_register_def saved_memory_def store_all_def)
qed

lemma execute_restore:
  assumes "HART_OFFSET op = hart_gpr_offset"
  shows "fold execute ([CSRR gpr_t6 r] @ load_gprs op (saved_before_a0 @ [gpr_a0] @ saved_after_a0) gpr_t6) c =
   c\<lparr>registers := (dump_at (csr_registers c r) (words c))(gpr_zero := registers c gpr_zero)\<rparr>"
proof -
  let ?rs = "saved_before_a0 @ [gpr_a0] @ butlast saved_after_a0"
  have rs: "r \<in> set ?rs \<longleftrightarrow> r \<noteq> gpr_zero \<and> r \<noteq> gpr_t6" for r
    by (cases r) (simp_all add: saved_before_a0_def saved_after_a0_def)
  have "load_gprs op (saved_before_a0 @ [gpr_a0] @ saved_after_a0) gpr_t6 =
      load_gprs op ?rs gpr_t6 @ [LD gpr_t6 (hart_gpr_offset gpr_t6) gpr_t6]"
    by (simp add: assms load_gprs_def saved_after_a0_def)
  then show ?thesis
    using rs by (cases c) (auto simp: assms execute_load_gprs set_register_def dump_at_def fun_eq_iff simp del: set_append)
qed

section \<open>The routines implement the steps of the machine\<close>

text \<open>The memory \<open>mem\<close> holds the \<^verbatim>\<open>HardwareHart\<close> \<open>h\<close> at address \<open>base\<close>.\<close>

definition confidential_area :: "hardware_hart_layout \<Rightarrow> usize \<Rightarrow> usize" where
  "confidential_area y base = base + confidential_hart_offset y"

definition fits :: "hardware_hart_layout \<Rightarrow> usize \<Rightarrow> bool" where
  "fits y base \<longleftrightarrow> unat base + unat (confidential_hart_offset y) + 256 \<le> 2 ^ 64"

definition holds_hart :: "hardware_hart_layout \<Rightarrow> usize \<Rightarrow> hardware_hart \<Rightarrow> (usize \<Rightarrow> usize) \<Rightarrow> bool" where
  "holds_hart y base h mem \<longleftrightarrow>
     dump_at base mem = gprs (non_confidential_hart_state h)
   \<and> dump_at (confidential_area y base) mem = gprs (confidential_hart_state (assigned_hart h))
   \<and> mem (base + HART_STACK_ADDRESS_OFFSET y) = stack_address h"

lemma slot_addresses:
  assumes "repr_C y" and "fits y base"
  shows "unat (base + hart_gpr_offset r) = unat base + 8 * unat (index r)"
    and "unat (confidential_area y base + hart_gpr_offset r) =
      unat base + unat (confidential_hart_offset y) + 8 * unat (index r)"
    and "unat (base + HART_STACK_ADDRESS_OFFSET y) = unat base + unat (HART_STACK_ADDRESS_OFFSET y)"
  using assms unat_index [of r] unat_hart_gpr_offset [of r]
  by (simp_all add: repr_C_def fits_def confidential_area_def unat_word_ariths)

lemma unat_apart: "unat a \<noteq> unat b \<Longrightarrow> a \<noteq> b"
  by auto

lemma slots_neq:
  assumes "repr_C y" and "fits y base"
  shows "confidential_area y base + hart_gpr_offset r \<noteq> base + hart_gpr_offset q"
    and "base + HART_STACK_ADDRESS_OFFSET y \<noteq> base + hart_gpr_offset q"
    and "base + HART_STACK_ADDRESS_OFFSET y \<noteq> confidential_area y base + hart_gpr_offset q"
proof -
  note at = slot_addresses [OF assms] and le = unat_index
    and y = assms(1) [unfolded repr_C_def, THEN conjunct1] assms(1) [unfolded repr_C_def, THEN conjunct2]
  show "confidential_area y base + hart_gpr_offset r \<noteq> base + hart_gpr_offset q"
    using at(1) [of q] at(2) [of r] le [of q] y by - (rule unat_apart, linarith)
  show "base + HART_STACK_ADDRESS_OFFSET y \<noteq> base + hart_gpr_offset q"
    "base + HART_STACK_ADDRESS_OFFSET y \<noteq> confidential_area y base + hart_gpr_offset q"
    using at(1,2) [of q] at(3) le [of q] y by - (rule unat_apart, linarith)+
qed

lemma slots_apart:
  assumes "repr_C y" and "fits y base"
  shows "confidential_area y base + hart_gpr_offset r \<notin> dump_slots base"
    and "base + hart_gpr_offset r \<notin> dump_slots (confidential_area y base)"
    and "base + HART_STACK_ADDRESS_OFFSET y \<notin> dump_slots base"
    and "base + HART_STACK_ADDRESS_OFFSET y \<notin> dump_slots (confidential_area y base)"
  unfolding dump_slots_def using slots_neq [OF assms] by (blast, metis imageE, blast, blast)

text \<open>A \<^verbatim>\<open>HardwareHart\<close> with cleared registers in cleared memory.\<close>

lemma holds_cleared_hart:
  assumes "repr_C y" and "fits y base" and "gprs (non_confidential_hart_state h) = GeneralPurposeRegisters_empty"
    and "gprs (confidential_hart_state (assigned_hart h)) = GeneralPurposeRegisters_empty"
  shows "holds_hart y base h ((\<lambda>_. 0)(base + HART_STACK_ADDRESS_OFFSET y := stack_address h))"
  using slots_neq(2,3) [OF assms(1,2), THEN not_sym] assms(3,4)
  by (simp add: holds_hart_def dump_at_def GeneralPurposeRegisters_empty_def)

lemma holds_hart_saved:
  assumes "repr_C y" and "fits y base" and "holds_hart y base h mem"
  shows "holds_hart y base (h\<lparr>non_confidential_hart_state := (non_confidential_hart_state h)
      \<lparr>gprs := g(gpr_zero := gprs (non_confidential_hart_state h) gpr_zero)\<rparr>\<rparr>) (saved_memory base g mem)"
    and "holds_hart y base (h\<lparr>assigned_hart := update_hart_state (\<lambda>d. d
      \<lparr>gprs := g(gpr_zero := gprs d gpr_zero)\<rparr>) (assigned_hart h)\<rparr>) (saved_memory (confidential_area y base) g mem)"
proof -
  have "dump_at (confidential_area y base) (saved_memory base g mem) = dump_at (confidential_area y base) mem"
    "dump_at base (saved_memory (confidential_area y base) g mem) = dump_at base mem"
    using slots_apart(1,2) [OF assms(1,2)] by (simp_all add: dump_at_def fun_eq_iff)
  then show "holds_hart y base (h\<lparr>non_confidential_hart_state := (non_confidential_hart_state h)
      \<lparr>gprs := g(gpr_zero := gprs (non_confidential_hart_state h) gpr_zero)\<rparr>\<rparr>) (saved_memory base g mem)"
    and "holds_hart y base (h\<lparr>assigned_hart := update_hart_state (\<lambda>d. d
      \<lparr>gprs := g(gpr_zero := gprs d gpr_zero)\<rparr>) (assigned_hart h)\<rparr>) (saved_memory (confidential_area y base) g mem)"
    using assms(3) slots_apart(3,4) [OF assms(1,2)]
    by (simp_all add: holds_hart_def update_hart_state_def)
qed

lemma operands_simps [simp]:
  "HART_OFFSET (confidential_operands y) = hart_gpr_offset"
  "STACK_ADDRESS_OFFSET (confidential_operands y) = HART_STACK_ADDRESS_OFFSET y"
  "HART_OFFSET (non_confidential_operands y) = hart_gpr_offset"
  "STACK_ADDRESS_OFFSET (non_confidential_operands y) = HART_STACK_ADDRESS_OFFSET y"
  by (simp_all add: confidential_operands_def non_confidential_operands_def)

lemma run_enter_from_hypervisor:
  "run_routine (enter_from_hypervisor_or_vm_routine y) c =
    (let base = csr_registers c CSR_MSCRATCH; mem = saved_memory base (registers c) (words c) in
     (c\<lparr>registers := (registers c)(gpr_a0 := base, gpr_t0 := registers c gpr_a0,
          gpr_sp := mem (base + HART_STACK_ADDRESS_OFFSET y)), words := mem\<rparr>, Route_non_confidential_flow))"
  using execute_save [of "non_confidential_operands y" CSR_MSCRATCH c]
  by (simp add: run_routine_def enter_from_hypervisor_or_vm_routine_def set_register_def Let_def)

lemma run_enter_from_confidential_hart:
  "run_routine (enter_from_confidential_hart_routine y) c =
    (let base = csr_registers c CSR_MSCRATCH;
         mem = saved_memory (csr_registers c CSR_SSCRATCH) (registers c) (words c) in
     (c\<lparr>registers := (registers c)(gpr_a0 := base, gpr_t0 := registers c gpr_a0,
          gpr_sp := mem (base + HART_STACK_ADDRESS_OFFSET y)), words := mem\<rparr>, Route_confidential_flow))"
  using execute_save [of "confidential_operands y" CSR_SSCRATCH c]
  by (simp add: run_routine_def enter_from_confidential_hart_routine_def set_register_def Let_def fun_upd_twist)

lemma run_exit:
  "run_routine (exit_to_hypervisor_routine y) c = (c\<lparr>registers :=
     (dump_at (csr_registers c CSR_MSCRATCH) (words c))(gpr_zero := registers c gpr_zero)\<rparr>, Mret)"
  "run_routine (exit_to_confidential_hart_routine y) c = (c\<lparr>registers :=
     (dump_at (csr_registers c CSR_SSCRATCH) (words c))(gpr_zero := registers c gpr_zero)\<rparr>, Mret)"
  using execute_restore [of "non_confidential_operands y" CSR_MSCRATCH c] execute_restore [of "confidential_operands y" CSR_SSCRATCH c]
  by (simp_all add: run_routine_def exit_to_hypervisor_routine_def exit_to_confidential_hart_routine_def)

section \<open>Examples\<close>

definition example_hart_layout :: hardware_hart_layout where
  "example_hart_layout = \<lparr>HART_STACK_ADDRESS_OFFSET = 0x600, confidential_hart_offset = 0x700\<rparr>"

section \<open>Properties\<close>

lemma dump_slots_I: "{a. saved_memory base g mem a \<noteq> mem a} \<subseteq> dump_slots base"
  using saved_memory_other by blast

text \<open>A trap of the hypervisor reaches the Rust code with the state the model starts from, and the way back
  loads the state the model ends with. If \<^verbatim>\<open>mscratch\<close> points to the \<^verbatim>\<open>HardwareHart\<close> in memory, the entry
  routine stores every register of the hypervisor in its dump area (the slot of \<^verbatim>\<open>x0\<close> apart, which nobody
  loads), which is the step \<open>hypervisor_runs\<close> of the machine; it changes nothing else in memory, no CSR keeps
  another value, \<^verbatim>\<open>a0\<close> is the pointer to the \<^verbatim>\<open>HardwareHart\<close>, \<^verbatim>\<open>sp\<close> the monitor's stack, and control goes to
  \<^verbatim>\<open>route_non_confidential_flow\<close>. The exit routine leaves the registers of the dump area in the hart.\<close>

definition hypervisor_switch_refines :: "hardware_hart_layout \<Rightarrow> cpu \<Rightarrow> monitor \<Rightarrow> bool" where
  "hypervisor_switch_refines y c s \<longleftrightarrow>
     (\<exists>c'. run_routine (enter_from_hypervisor_or_vm_routine y) c = (c', Route_non_confidential_flow)
       \<and> holds_hart y (csr_registers c CSR_MSCRATCH) (hardware (hypervisor_runs (csr_registers c)
           ((registers c)(gpr_zero := gprs (hypervisor_state s) gpr_zero)) s)) (words c')
       \<and> {a. words c' a \<noteq> words c a} \<subseteq> dump_slots (csr_registers c CSR_MSCRATCH)
       \<and> csr_registers c' = csr_registers c \<and> registers c' gpr_a0 = csr_registers c CSR_MSCRATCH
       \<and> registers c' gpr_sp = stack_address (hardware s))
    \<and> run_routine (exit_to_hypervisor_routine y) c =
        (c\<lparr>registers := (gprs (hypervisor_state s))(gpr_zero := registers c gpr_zero)\<rparr>, Mret)"

text \<open>The same for a confidential VM. Its registers are stored in the dump area of the confidential hart,
  inside the \<^verbatim>\<open>HardwareHart\<close>, to which \<^verbatim>\<open>sscratch\<close> points; the stack pointer comes from the \<^verbatim>\<open>HardwareHart\<close>
  itself. The registers of the hypervisor in its own dump area stay, and nothing of the confidential hart is
  left in another place of memory. The exit routine loads exactly the registers of the confidential hart.\<close>

definition confidential_switch_refines :: "hardware_hart_layout \<Rightarrow> cpu \<Rightarrow> monitor \<Rightarrow> bool" where
  "confidential_switch_refines y c s \<longleftrightarrow>
     (\<exists>c'. run_routine (enter_from_confidential_hart_routine y) c = (c', Route_confidential_flow)
       \<and> holds_hart y (csr_registers c CSR_MSCRATCH) (hardware (vm_runs (csr_registers c)
           ((registers c)(gpr_zero := gprs (confidential_hart_state (assigned_hart (hardware s))) gpr_zero))
           (confidential_memory s) s)) (words c')
       \<and> {a. words c' a \<noteq> words c a} \<subseteq> dump_slots (csr_registers c CSR_SSCRATCH)
       \<and> csr_registers c' = csr_registers c \<and> registers c' gpr_a0 = csr_registers c CSR_MSCRATCH
       \<and> registers c' gpr_sp = stack_address (hardware s))
    \<and> run_routine (exit_to_confidential_hart_routine y) c = (c\<lparr>registers :=
        (gprs (confidential_hart_state (assigned_hart (hardware s))))(gpr_zero := registers c gpr_zero)\<rparr>, Mret)"

lemma hypervisor_switch:
  assumes "repr_C y" and "fits y (csr_registers c CSR_MSCRATCH)"
    and "holds_hart y (csr_registers c CSR_MSCRATCH) (hardware s) (words c)"
  shows "hypervisor_switch_refines y c s"
  unfolding hypervisor_switch_refines_def
  using assms slots_apart(3) [OF assms(1,2)] holds_hart_saved(1) [OF assms, of "registers c"] dump_slots_I
  by (auto simp: run_enter_from_hypervisor run_exit Let_def hypervisor_runs_def update_hypervisor_state_def
      holds_hart_def)

lemma confidential_switch:
  assumes "repr_C y" and "fits y (csr_registers c CSR_MSCRATCH)"
    and "csr_registers c CSR_SSCRATCH = confidential_area y (csr_registers c CSR_MSCRATCH)"
    and "holds_hart y (csr_registers c CSR_MSCRATCH) (hardware s) (words c)"
  shows "confidential_switch_refines y c s"
  unfolding confidential_switch_refines_def
  using assms slots_apart(4) [OF assms(1,2)] holds_hart_saved(2) [OF assms(1,2,4), of "registers c"] dump_slots_I
  by (auto simp: run_enter_from_confidential_hart run_exit Let_def vm_runs_def set_assigned_hart_def
      holds_hart_def update_hart_state_def)

text \<open>C29: A context switch into the monitor and back is invisible: whatever the Rust code leaves in the general
  purpose registers, as long as it changes neither the dump area nor the scratch register, after the exit
  routine every register, every CSR and all memory outside the dump area are what they were at the trap. Both
  for the hypervisor and for a confidential VM, with no assumption on the state.\<close>

theorem context_switch_roundtrip:
  "(let c' = (fst (run_routine (enter_from_hypervisor_or_vm_routine y) c))
          \<lparr>registers := g(gpr_zero := registers c gpr_zero)\<rparr> in
      run_routine (exit_to_hypervisor_routine y) c' = (c\<lparr>words := words c'\<rparr>, Mret)
      \<and> {a. words c' a \<noteq> words c a} \<subseteq> dump_slots (csr_registers c CSR_MSCRATCH))
   \<and> (let c' = (fst (run_routine (enter_from_confidential_hart_routine y) c))
          \<lparr>registers := g(gpr_zero := registers c gpr_zero)\<rparr> in
      run_routine (exit_to_confidential_hart_routine y) c' = (c\<lparr>words := words c'\<rparr>, Mret)
      \<and> {a. words c' a \<noteq> words c a} \<subseteq> dump_slots (csr_registers c CSR_SSCRATCH))"
  using dump_slots_I
  by (cases c) (auto simp: run_enter_from_hypervisor run_enter_from_confidential_hart run_exit Let_def)

end
