(* ===== verification/Scratch_Registers.thy ===== *)
theory Scratch_Registers
  imports Context_Switch
begin

text \<open>
  The scratch registers on which the context switches rely, on the whole machine.

  \<^item> \<open>same_scratch\<close>: what no handler changes for good: \<^verbatim>\<open>mscratch\<close>, the value of OpenSBI that
    \<^verbatim>\<open>swap_mscratch\<close> exchanges with it, the stack of the monitor and the id of the hart. The handlers that call
    OpenSBI exchange the two values and exchange them back.
  \<^item> \<open>scratch_ready\<close>: a handler that ends at \<^verbatim>\<open>exit_to_confidential_hart\<close> has set \<^verbatim>\<open>sscratch\<close>.
  \<^item> \<open>scratch_ok\<close>: the resulting invariant of a hart, kept by every step of the machine. The assumption
    \<open>opensbi_keeps_mscratch\<close>: the trap handler of OpenSBI returns with the \<^verbatim>\<open>mscratch\<close> it was called with.
\<close>

definition same_scratch :: "'z monitor_scheme \<Rightarrow> 'z monitor_scheme \<Rightarrow> bool" where
  "same_scratch s t \<longleftrightarrow> csrs t CSR_MSCRATCH = csrs s CSR_MSCRATCH
     \<and> previous_mscratch (hardware t) = previous_mscratch (hardware s)
     \<and> stack_address (hardware t) = stack_address (hardware s)
     \<and> hart_id (hypervisor_state t) = hart_id (hypervisor_state s)"

interpretation same_scratch: transition same_scratch
  by unfold_locales (auto simp: same_scratch_def)

abbreviation keeps_scratch :: "('z monitor_scheme, 'e, 'a) st \<Rightarrow> bool" where
  "keeps_scratch m \<equiv> run same_scratch (\<lambda>_. True) m (\<lambda>_ _. True) (\<lambda>_. True)"

definition same_vm_scratch ::
    "confidential_vm \<times> 'z monitor_scheme \<Rightarrow> confidential_vm \<times> 'z monitor_scheme \<Rightarrow> bool" where
  "same_vm_scratch vs vt \<longleftrightarrow> same_scratch (snd vs) (snd vt)"

interpretation same_vm_scratch: transition same_vm_scratch
  by unfold_locales (auto simp: same_vm_scratch_def intro: same_scratch.refl same_scratch.trans)

abbreviation keeps_vm_scratch :: "(confidential_vm \<times> 'z monitor_scheme, 'e, 'a) st \<Rightarrow> bool" where
  "keeps_vm_scratch m \<equiv> run same_vm_scratch (\<lambda>_. True) m (\<lambda>_ _. True) (\<lambda>_. True)"

definition scratch_ready :: "environment \<Rightarrow> exit \<Rightarrow> 'z monitor_scheme \<Rightarrow> bool" where
  "scratch_ready env x t \<longleftrightarrow> (x = ExitToConfidentialHart
     \<longrightarrow> csrs t CSR_SSCRATCH = confidential_hart_address env (hart_id (hypervisor_state t)))"

abbreviation readies :: "environment \<Rightarrow> ('z monitor_scheme, error, exit) st \<Rightarrow> bool" where
  "readies env m \<equiv> run same_scratch (\<lambda>_. True) m (scratch_ready env) (\<lambda>_. True)"

section \<open>Operations on the hart\<close>

lemma hart_id_simps [simp]:
  "hart_id (set_dump r v h) = hart_id h" "hart_id (set_gpr q v h) = hart_id h"
  "hart_id (store_control_status_registers f h) = hart_id h"
  by (simp_all add: set_dump_def set_gpr_def store_control_status_registers_def)

lemma same_scratch_simps [simp]:
  "same_scratch s (set_assigned_hart h s)" "same_scratch s (tlb_shutdown s)"
  "same_scratch s (s\<lparr>fences := g\<rparr>)" "same_scratch s (s\<lparr>CONTROL_DATA := c\<rparr>)"
  "r \<noteq> CSR_MSCRATCH \<Longrightarrow> same_scratch s (write_csr r v s)"
  "same_scratch s (HardwareHart_load_volatile s)" "same_scratch s (HardwareHart_store_volatile s)"
  "same_scratch s (restore_original_gprs s)"
  by (simp_all add: same_scratch_def set_assigned_hart_def tlb_shutdown_def execute_fence_def write_csr_def set_csr_def
      HardwareHart_load_volatile_def HardwareHart_store_volatile_def restore_original_gprs_def Let_def)

lemma swap_back: "same_scratch (swap_mscratch s) t \<Longrightarrow> same_scratch s (swap_mscratch t)"
  by (simp add: same_scratch_def swap_mscratch_def Let_def write_csr_def set_csr_def read_csr_def)

lemma same_frame_scratch: "same_frame s t \<Longrightarrow> same_scratch s (t :: 'z monitor_scheme)"
  by (cases s; cases t) (simp add: same_frame_def same_scratch_def)

lemma keeps_frame_scratch: "keeps_frame m \<Longrightarrow> keeps_scratch m"
  by (rule runI) (auto dest: run_Ok run_Err intro!: same_frame_scratch)

lemma scratch_modify: "(\<And>s. same_scratch s (f s)) \<Longrightarrow> keeps_scratch (modify f)"
  by (rule runI) (auto simp: modify_def)

lemma scratch_on_assigned_hart: "keeps_scratch (on_assigned_hart f)"
  by (rule runI) (auto simp: on_assigned_hart_def same_scratch.refl split: result.splits)

lemma scratch_apply: "keeps_scratch (apply_to_assigned_hart t)"
  unfolding apply_to_assigned_hart_def by (intro same_scratch.keep scratch_on_assigned_hart scratch_modify) simp

lemma scratch_HardwareHart_apply: "keeps_scratch (HardwareHart_apply t)"
  by (cases t)
     (auto simp: HardwareHart_apply_def apply_sbi_request_def apply_sbi_vm_request_def apply_mmio_load_request_def
       apply_mmio_store_request_def apply_interrupt_request_def Let_def same_scratch_def run_def set_request_gprs_def
       HardwareHart_apply_sbi_result_def apply_opensbi_result_def apply_enabled_interrupts_def add_usize_def
       apply_trap_def split: if_splits)

lemma scratch_flow:
  "keeps_scratch flow_vm_id" "keeps_scratch NonConfidentialFlow_create" "keeps_scratch ConfidentialFlow_create"
  by (rule runI; auto simp: flow_vm_id_def NonConfidentialFlow_create_def ConfidentialFlow_create_def same_scratch.refl)+

lemma ConfidentialHart_load_volatile_scratch:
  "ConfidentialHart_load_volatile a h f CSR_SSCRATCH = a"
  "ConfidentialHart_load_volatile a h f CSR_MSCRATCH = f CSR_MSCRATCH"
  by (simp_all add: ConfidentialHart_load_volatile_def Let_def set_csr_def)

text \<open>The two ways out of the monitor.\<close>

lemma readies_exit_to_confidential_hart: "readies env (exit_to_confidential_hart env t)"
  unfolding exit_to_confidential_hart_def
  by (rule same_scratch.bind [OF scratch_apply], rule runI)
     (auto simp: modify_def sbind_def ret_def scratch_ready_def same_scratch_def ConfidentialHart_load_volatile_scratch)

lemma readies_exit_to_hypervisor: "readies env (exit_to_hypervisor t)"
  unfolding exit_to_hypervisor_def
  by (rule same_scratch.bind [OF scratch_HardwareHart_apply], rule same_scratch.bind [OF scratch_modify])
     (simp_all add: scratch_ready_def same_scratch.ret)

lemmas readies_exit = readies_exit_to_confidential_hart readies_exit_to_hypervisor

lemma readies_bind: "keeps_scratch m \<Longrightarrow> (\<And>a. readies env (f a)) \<Longrightarrow> readies env (sbind m f)"
  by (rule same_scratch.bind)

lemma readies_lift: "readies env (lift Panic)"
  by (rule same_scratch.lift) simp_all

lemma readies_case:
  assumes "keeps_scratch m" and "\<And>a. readies env (f a)" and "\<And>e. readies env (g e)"
  shows "readies env (\<lambda>s. case m s of (Ok a, s) \<Rightarrow> f a s | (Err e, s) \<Rightarrow> g e s | (Panic, s) \<Rightarrow> (Panic, s))"
  using assms by (rule same_scratch.both)

section \<open>Closures on a confidential VM\<close>

lemma keeps_vm_closure:
  assumes "keeps_vm_scratch op"
  shows "keeps_scratch (try_confidential_vm k op)"
  by (rule runI)
     (auto simp: try_confidential_vm_def same_scratch.refl split: option.splits result.splits prod.splits
       dest!: run_Ok [OF assms TrueI] run_Err [OF assms TrueI] simp: same_vm_scratch_def same_scratch_def)

lemma load_scratch: "load_control_status_registers h f CSR_MSCRATCH = f CSR_MSCRATCH"
  by (simp add: load_control_status_registers_def loaded_csrs_def set_csr_def)

lemma protection_scratch [simp]:
  "csrs (open_access_to_confidential_memory s) CSR_MSCRATCH = csrs s CSR_MSCRATCH"
  "csrs (close_access_to_confidential_memory s) CSR_MSCRATCH = csrs s CSR_MSCRATCH"
  "csrs (enable_address_translation v s) CSR_MSCRATCH = csrs s CSR_MSCRATCH"
  by (simp_all add: open_access_to_confidential_memory_def close_access_to_confidential_memory_def clear_caches_def
      enable_address_translation_def write_csr_def set_csr_def execute_fence_def Let_def read_and_set_bits_def
      read_and_clear_bits_def)

lemma scratch_steal: "keeps_vm_scratch (steal_confidential_hart i)"
  by (rule runI)
     (auto simp: steal_confidential_hart_def same_vm_scratch_def same_scratch_def
       HardwareHart_store_control_status_registers_def
       ConfidentialHart_load_control_status_registers_def protector_enable_def Let_def load_scratch set_assigned_hart_def
       split: prod.splits option.splits if_splits)

lemma scratch_return: "keeps_vm_scratch return_confidential_hart"
  by (rule runI)
     (auto simp: return_confidential_hart_def same_vm_scratch_def same_scratch_def Let_def load_scratch
       HardwareHart_load_control_status_registers_def HardwareHart_apply_def apply_enabled_interrupts_def
       enable_hypervisor_memory_protector_def HypervisorMemoryProtector_enable_def set_assigned_hart_def
       write_csr_def set_csr_def split: prod.splits if_splits)

lemma scratch_transit: "keeps_vm_scratch (transit_confidential_hart_to_start_pending r)"
  by (rule runI)
     (auto simp: transit_confidential_hart_to_start_pending_def same_vm_scratch_def same_scratch.refl
       split: prod.splits option.splits result.splits)

lemma scratch_deliver: "keeps_vm_scratch (deliver_request env r i)"
  by (rule runI)
     (auto simp: deliver_request_def same_vm_scratch_def same_scratch_def try_inter_hart_requests_def send_ipi_def Let_def
       split: prod.splits option.splits result.splits if_splits)

lemma scratch_deliver_all: "keeps_vm_scratch (for_each (deliver_request env r) is)"
  by (intro same_vm_scratch.loop scratch_deliver)

lemma scratch_broadcast: "keeps_vm_scratch (ConfidentialVm_broadcast_inter_hart_request env r)"
  by (rule runI)
     (auto simp: ConfidentialVm_broadcast_inter_hart_request_def dest: run_Ok [OF scratch_deliver_all TrueI]
       run_Err [OF scratch_deliver_all TrueI])

lemma keeps_broadcast_inter_hart_request: "keeps_scratch (broadcast_inter_hart_request env r)"
proof -
  have "keeps_vm_scratch (\<lambda>(vm, s). case ConfidentialVm_broadcast_inter_hart_request env r (vm, swap_mscratch s) of
       (Panic, vs) \<Rightarrow> (Panic, vs) | (x, (vm, s)) \<Rightarrow> (x, (vm, swap_mscratch s)))"
    by (rule runI)
       (auto split: prod.splits result.splits simp: same_vm_scratch_def intro: swap_back
         dest!: run_Ok [OF scratch_broadcast TrueI] run_Err [OF scratch_broadcast TrueI])
  then show ?thesis
    unfolding broadcast_inter_hart_request_def by (intro same_scratch.keep scratch_flow keeps_vm_closure)
qed

lemma keeps_process: "keeps_scratch process_inter_hart_requests"
proof -
  have loop: "keeps_scratch (for_each (\<lambda>r. apply_to_assigned_hart (into_expose_to_confidential_vm r)) q)" for q
    by (intro same_scratch.loop scratch_apply)
  have "keeps_vm_scratch (\<lambda>(vm, s).
       case try_inter_hart_requests (flow_hart_id s) (\<lambda>q. (Ok q, [])) (vm, s) of
         (Ok q, (vm, s)) \<Rightarrow>
           (case for_each (\<lambda>r. apply_to_assigned_hart (into_expose_to_confidential_vm r)) q s of
              (r, s) \<Rightarrow> (r, (vm, s)))
       | (Err e, vs) \<Rightarrow> (Err e, vs)
       | (Panic, vs) \<Rightarrow> (Panic, vs))"
    by (rule runI)
       (auto split: prod.splits result.splits option.splits simp: try_inter_hart_requests_def same_vm_scratch_def
         same_scratch.refl dest!: run_Ok [OF loop TrueI] run_Err [OF loop TrueI])
  then show ?thesis
    unfolding process_inter_hart_requests_def by (intro same_scratch.keep scratch_flow keeps_vm_closure)
qed

lemma keeps_leave: "keeps_scratch into_non_confidential_flow"
proof -
  have "keeps_vm_scratch (sbind return_confidential_hart (\<lambda>_. (\<lambda>(vm, s). case NonConfidentialFlow_create s of (r, s) \<Rightarrow> (r, (vm, s)))))"
    by (intro same_vm_scratch.keep scratch_return)
       (rule runI, auto simp: NonConfidentialFlow_create_def same_vm_scratch.refl)
  then show ?thesis
    unfolding into_non_confidential_flow_def by (intro same_scratch.keep scratch_flow keeps_vm_closure)
qed

lemma keeps_map_shared_page: "keeps_scratch (protector_map_shared_page l sp p)"
  unfolding protector_map_shared_page_def
  by (intro same_scratch.keep keeps_frame_scratch [OF keeps_frame_root_map_shared_page])
     (rule runI, auto)

lemma keeps_unmap_shared_page: "keeps_scratch (protector_unmap_shared_page a p)"
  by (rule runI)
     (auto simp: protector_unmap_shared_page_def RootPageTable_unmap_shared_page_def
       PageTable_unmap_shared_page_def lift_def same_scratch.refl split: prod.splits result.splits)

lemma keeps_update_protector:
  assumes "\<And>p. keeps_scratch (m p)"
  shows "keeps_vm_scratch (\<lambda>(vm, s). case m (memory_protector vm) s of
         (Ok p, s) \<Rightarrow> (Ok (), (vm\<lparr>memory_protector := p\<rparr>, s))
       | (Err e, s) \<Rightarrow> (Err e, (vm, s))
       | (Panic, s) \<Rightarrow> (Panic, (vm, s)))"
  by (rule runI)
     (auto split: prod.splits result.splits simp: same_vm_scratch_def
       dest!: run_Ok [OF assms TrueI] run_Err [OF assms TrueI])

section \<open>Handlers\<close>

lemma keeps_drop_vm: "keeps_scratch (drop_vm vm)"
  unfolding drop_vm_def by (intro keeps_frame_scratch keeps_frame_drop)

lemma keeps_control_data: "keeps_scratch (control_data_try_write op)"
  by (rule runI) (auto simp: control_data_try_write_def split: option.splits prod.splits)

lemma keeps_remove: "keeps_scratch (remove_confidential_vm k)"
  unfolding remove_confidential_vm_def by (rule keeps_control_data)

lemma keeps_drop_removed_vm:
  "keeps_scratch (\<lambda>s. case remove_confidential_vm k s of
     (Ok vm, s) \<Rightarrow> drop_vm vm s | (Err e, s) \<Rightarrow> (Ok (), s) | (Panic, s) \<Rightarrow> (Panic, s))"
proof -
  have "keeps_scratch (\<lambda>s. case remove_confidential_vm k s of
      (Ok vm, s) \<Rightarrow> drop_vm vm s | (Err e, s) \<Rightarrow> ret () s | (Panic, s) \<Rightarrow> (Panic, s))"
    by (rule same_scratch.both [OF keeps_remove keeps_drop_vm same_scratch.keep_ret])
  then show ?thesis by (simp only: ret_def)
qed

lemma keeps_create: "keeps_scratch (create_confidential_vm env q)"
proof (cases "PromoteToConfidentialVm_into q")
  case (Pair a h)
  have register: "keeps_scratch (\<lambda>s. register_confidential_vm (create_confidential_harts env (csrs s) n h) mp s)" for n mp
    unfolding register_confidential_vm_def by (rule run_with_state) (rule keeps_control_data)
  have tree: "keeps_scratch (read_device_tree env x)" for x
    by (rule runI) (auto simp: read_device_tree_def same_scratch.refl)
  show ?thesis
    unfolding create_confidential_vm_def Pair prod.case
    by (intro same_scratch.keep register tree keeps_frame_scratch [OF keeps_frame_from_vm_state]
        keeps_frame_scratch [OF keeps_frame_drop(1)])
qed

lemmas keeps_rules = same_scratch.keep scratch_flow keeps_leave keeps_vm_closure scratch_on_assigned_hart
  keeps_broadcast_inter_hart_request keeps_process keeps_drop_removed_vm

lemma readies_state: "(\<And>s. readies env (m s)) \<Longrightarrow> readies env (\<lambda>s. m s s)"
  by (rule run_with_state)

lemma readies_after:
  assumes "\<And>s. same_scratch s (g s)" and "\<And>s. readies env (m s)"
  shows "readies env (\<lambda>s. m s (g s))"
  by (rule runI) (use assms(1) run_Ok [OF assms(2)] run_Err [OF assms(2)] in \<open>blast intro: same_scratch.trans\<close>)+

lemma readies_exit_with: "keeps_scratch m \<Longrightarrow> readies env (exit_with env m t)"
  unfolding exit_with_def by (intro readies_case readies_exit)

lemma readies_set_pending: "readies env m \<Longrightarrow> readies env (flow_set_pending_request env p m)"
  unfolding flow_set_pending_request_def by (intro readies_case scratch_on_assigned_hart readies_exit)

lemma readies_leave: "readies env (sbind into_non_confidential_flow (\<lambda>_. exit_to_hypervisor t))"
  by (intro readies_bind keeps_leave readies_exit)

lemmas readies_rules = readies_exit readies_leave readies_lift readies_set_pending readies_exit_with

lemma readies_shutdown: "readies env shutdown_confidential_hart"
  unfolding shutdown_confidential_hart_def by (intro readies_bind keeps_rules readies_exit)

lemma readies_exit_on_interrupt: "readies env (exit_on_interrupt mip)"
  unfolding exit_on_interrupt_def by (simp add: readies_leave)

lemma readies_shutdown_or_exit:
  "readies env (\<lambda>s. if is_confidential_hart_shutdown s then shutdown_confidential_hart s else exit_on_interrupt mip s)"
  by (rule readies_state [where m = "\<lambda>s. if is_confidential_hart_shutdown s then shutdown_confidential_hart
        else exit_on_interrupt mip", simplified if_distribR])
     (simp add: readies_shutdown readies_exit_on_interrupt)

lemma readies_interrupt: "readies env (interrupt env)"
  unfolding interrupt_def Let_def
  by (rule readies_state [where m = "\<lambda>s. if read_csr (csrs s) CSR_MIP AND MIE_SSIP_MASK > 0
        then sbind process_inter_hart_requests (\<lambda>_ u. if is_confidential_hart_shutdown u
          then shutdown_confidential_hart u else exit_on_interrupt (read_csr (csrs s) CSR_MIP) u)
        else exit_on_interrupt (read_csr (csrs s) CSR_MIP)"])
     (simp add: readies_exit_on_interrupt readies_bind keeps_process readies_shutdown_or_exit)

lemma readies_invalid_call: "readies env (invalid_call env)"
  unfolding invalid_call_def
  by (rule readies_state [where m = "\<lambda>s. exit_to_confidential_hart env
        (into_confidential_transformation (InvalidCall (read_csr (csrs s) CSR_MCAUSE)))"])
     (rule readies_exit)

lemma readies_srst: "readies env (sbi_srst env)"
  unfolding sbi_srst_def Let_def
  by (rule readies_state [where m = "\<lambda>s s'. case broadcast_inter_hart_request env
        (InterHartSbiSrstSystemReset \<lparr>initiating_confidential_hart_id = flow_hart_id s\<rparr>) s' of
      (Ok _, s) \<Rightarrow> shutdown_confidential_hart s
    | (Err e, s) \<Rightarrow> exit_to_confidential_hart env (into_confidential_transformation e) s
    | (Panic, s) \<Rightarrow> (Panic, s)"])
     (intro readies_case keeps_rules readies_shutdown readies_exit)

lemma readies_sharing:
  "readies env (share_page env q)" "readies env (unshare_page env u)" "readies env (share_page_result_handler env r p)"
  unfolding share_page_def unshare_page_def share_page_result_handler_def
  by (auto split: result.splits intro!: readies_rules readies_bind scratch_flow same_scratch.keep_bind keeps_vm_closure
      keeps_update_protector keeps_map_shared_page keeps_unmap_shared_page)

lemma readies_page_faults:
  "readies env (guest_load_page_fault env q)" "readies env (guest_store_page_fault env u)"
  unfolding guest_load_page_fault_def guest_store_page_fault_def
  by (auto split: result.splits intro!: readies_rules)

lemma readies_calls:
  "readies env (hypercall env r)" "readies env (sbi_probe_extension env r)" "readies env (sbi_rfence_nop env)"
  "readies env (virtual_instruction_handler env v)" "readies env (sbi_ipi_handler env q)"
  unfolding hypercall_def sbi_probe_extension_def sbi_rfence_nop_def virtual_instruction_handler_def
    sbi_ipi_handler_def Let_def
  by (auto intro!: readies_rules keeps_broadcast_inter_hart_request)

lemma readies_hsm:
  "readies env (sbi_hsm_hart_start_handler env start)" "readies env (sbi_hsm_hart_stop_handler env)"
  "readies env (sbi_hsm_hart_suspend_handler env suspend)" "readies env (sbi_hsm_hart_status_handler env status)"
proof -
  show "readies env (sbi_hsm_hart_start_handler env start)" "readies env (sbi_hsm_hart_stop_handler env)"
    "readies env (sbi_hsm_hart_suspend_handler env suspend)"
    unfolding sbi_hsm_hart_start_handler_def sbi_hsm_hart_stop_handler_def sbi_hsm_hart_suspend_handler_def
    by (intro readies_case readies_rules keeps_rules scratch_transit)+
  show "readies env (sbi_hsm_hart_status_handler env status)"
    unfolding sbi_hsm_hart_status_handler_def
    by (intro readies_exit_with keeps_rules) (rule runI, auto simp: same_vm_scratch.refl)
qed

lemma readies_confidential_trap: "readies env (handle_confidential_trap env trap h f)"
  unfolding handle_confidential_trap_def
  by (cases trap)
     (auto intro: readies_shutdown readies_interrupt readies_invalid_call readies_srst readies_sharing
       readies_page_faults readies_calls readies_hsm readies_lift
       split: sbi_extension.splits ace_extension.splits base_extension.splits
       ipi_extension.splits rfence_extension.splits hsm_extension.splits srst_extension.splits)

lemma readies_route_confidential_flow: "readies env (route_confidential_flow env)"
proof -
  have store: "keeps_scratch (\<lambda>s. on_assigned_hart (\<lambda>h. Ok (ConfidentialHart_store_volatile (csrs s) h)) s)"
    by (rule run_with_state) (rule scratch_on_assigned_hart)
  show ?thesis
    unfolding route_confidential_flow_def Let_def
    by (intro readies_bind store scratch_flow(3) readies_state [OF readies_confidential_trap])
qed

section \<open>The response of the hypervisor and the non-confidential flow\<close>

lemma readies_response: "readies env (handle_response env p)"
  unfolding handle_response_def
  by (rule readies_state)
     (auto intro: readies_exit readies_sharing split: option.splits pending_request.splits)

lemma readies_resume_execution: "readies env (resume_confidential_hart_execution env)"
proof -
  have "readies env (\<lambda>s. case take_request (assigned_hart (hardware s)) of
      (p, h) \<Rightarrow> handle_response env p (set_assigned_hart h s))"
    unfolding split_beta
    by (rule readies_after [where g = "\<lambda>s. set_assigned_hart (snd (take_request (assigned_hart (hardware s)))) s"])
       (simp, rule readies_response)
  then show ?thesis
    unfolding resume_confidential_hart_execution_def by (intro readies_bind scratch_flow keeps_process)
qed

definition opensbi_keeps_mscratch :: "environment \<Rightarrow> bool" where
  "opensbi_keeps_mscratch env \<longleftrightarrow>
     (\<forall>regs f. snd (sbi_trap_handler env regs f) CSR_MSCRATCH = f CSR_MSCRATCH)"

lemma readies_delegate:
  assumes "opensbi_keeps_mscratch env"
  shows "readies env (delegate_to_opensbi env r)"
  unfolding delegate_to_opensbi_def Let_def split_beta
proof (rule readies_after [where g = "\<lambda>s. swap_mscratch ((swap_mscratch s)\<lparr>csrs :=
    snd (sbi_trap_handler env (opensbi_regs r) (csrs (swap_mscratch s)))\<rparr>)"])
  show "same_scratch s (swap_mscratch ((swap_mscratch s)\<lparr>csrs :=
      snd (sbi_trap_handler env (opensbi_regs r) (csrs (swap_mscratch s)))\<rparr>))" for s
    by (rule swap_back) (use assms in \<open>simp add: same_scratch_def opensbi_keeps_mscratch_def\<close>)
qed (rule readies_exit)

lemma readies_services:
  "readies env (resume_confidential_hart env q)" "readies env (terminate_confidential_vm u)"
  "readies env (promote_to_confidential_vm_handler env v)" "readies env (delegate_hypercall w)"
  unfolding resume_confidential_hart_def terminate_confidential_vm_def promote_to_confidential_vm_handler_def
    delegate_hypercall_def
  by (intro readies_case keeps_vm_closure scratch_steal readies_resume_execution readies_exit same_scratch.keep
      keeps_remove keeps_drop_vm keeps_create)+

lemma readies_non_confidential_trap:
  assumes "opensbi_keeps_mscratch env"
  shows "readies env (handle_non_confidential_trap env trap)"
proof -
  note delegate = readies_delegate [OF assms]
  show ?thesis
    by (rule runI)
       (auto simp: handle_non_confidential_trap_def
         split: trap_cause.splits sbi_extension.splits ace_extension.splits
         dest: run_Ok [OF delegate TrueI] run_Err [OF delegate TrueI]
           run_Ok [OF readies_services(1) TrueI] run_Err [OF readies_services(1) TrueI]
           run_Ok [OF readies_services(2) TrueI] run_Err [OF readies_services(2) TrueI]
           run_Ok [OF readies_services(3) TrueI] run_Err [OF readies_services(3) TrueI]
           run_Ok [OF readies_services(4) TrueI] run_Err [OF readies_services(4) TrueI])
qed

lemma readies_route_non_confidential_flow:
  assumes "opensbi_keeps_mscratch env"
  shows "readies env (route_non_confidential_flow env)"
proof -
  have reason: "same_scratch s (snd (HardwareHart_trap_reason s))" for s
    by (auto simp: HardwareHart_trap_reason_def Let_def same_scratch.refl split: trap_cause.splits sbi_extension.splits)
  have trap: "readies env (\<lambda>s. case HardwareHart_trap_reason s of
      (trap, s) \<Rightarrow> handle_non_confidential_trap env trap s)"
    unfolding split_beta
    by (rule readies_after [where g = "\<lambda>s. snd (HardwareHart_trap_reason s)"])
       (rule reason, rule readies_non_confidential_trap [OF assms])
  show ?thesis
    unfolding route_non_confidential_flow_def
    by (intro readies_bind scratch_flow scratch_modify trap) simp
qed

section \<open>The invariant of a hart\<close>

definition scratch_ok :: "environment \<Rightarrow> usize \<Rightarrow> 'z monitor_scheme \<Rightarrow> bool" where
  "scratch_ok env n s \<longleftrightarrow> csrs s CSR_MSCRATCH = hardware_hart_address env n \<and> hart_id (hypervisor_state s) = n
     \<and> (running s \<longrightarrow> csrs s CSR_SSCRATCH = confidential_hart_address env n)"

lemma scratch_ok_after:
  assumes "scratch_ok env n s" and "same_scratch s t" and "scratch_ready env x t" and "exit_ok x t"
  shows "scratch_ok env n t"
  using assms by (auto simp: scratch_ok_def same_scratch_def scratch_ready_def exit_ok_def)

lemma scratch_ok_step:
  "scratch_ok env k (view_of m k) \<Longrightarrow> (scratch_ok env n (view_of m n) \<Longrightarrow> scratch_ok env n t)
     \<Longrightarrow> scratch_ok env k (view_of (put_view n t m) k)"
  by (cases "k = n") (auto simp: scratch_ok_def running_def put_view_def)

lemma machine_step_scratch:
  assumes "machine_step_writing may_write env m m'" and "opensbi_keeps_protection env" and "opensbi_keeps_mscratch env"
    and "scratch_ok env k (view_of m k)"
  shows "scratch_ok env k (view_of m' k)"
  using assms
proof (induction rule: machine_step_writing.induct)
  case (hypervisor m n f g)
  show ?case
    by (rule scratch_ok_step [OF hypervisor(5)])
       (use hypervisor(1,2) in \<open>auto simp: scratch_ok_def hypervisor_runs_def running_def\<close>)
next
  case (confidential_vm m n mem f g)
  show ?case
    by (rule scratch_ok_step [OF confidential_vm(6)])
       (use confidential_vm(1,3) in \<open>auto simp: scratch_ok_def vm_runs_def set_assigned_hart_def\<close>)
next
  case (trap_of_hypervisor m n x t)
  have "exit_ok x t"
    using run_Ok [OF serves_route_non_confidential_flow [OF trap_of_hypervisor(3)] trap_of_hypervisor(1,2)] by blast
  moreover have "same_scratch (view_of m n) t \<and> scratch_ready env x t"
    using run_Ok [OF readies_route_non_confidential_flow [OF trap_of_hypervisor(4)] TrueI trap_of_hypervisor(2)] .
  ultimately show ?case
    by (intro scratch_ok_step [OF trap_of_hypervisor(5)]) (blast intro: scratch_ok_after)
next
  case (trap_of_confidential_vm m n x t)
  have "exit_ok x t"
    using run_Ok [OF handles_route_confidential_flow trap_of_confidential_vm(1,2)] by blast
  moreover have "same_scratch (view_of m n) t \<and> scratch_ready env x t"
    using run_Ok [OF readies_route_confidential_flow TrueI trap_of_confidential_vm(2)] .
  ultimately show ?case
    by (intro scratch_ok_step [OF trap_of_confidential_vm(5)]) (blast intro: scratch_ok_after)
qed

lemma machine_steps_scratch:
  assumes "(machine_step_writing may_write env)\<^sup>*\<^sup>* m m'" and "opensbi_keeps_protection env" and "opensbi_keeps_mscratch env"
    and "scratch_ok env k (view_of m k)"
  shows "scratch_ok env k (view_of m' k)"
  using assms by (induction rule: rtranclp_induct) (auto intro: machine_step_scratch)

end
