(* ===== verification/Panic_Handler.thy ===== *)
theory Panic_Handler
  imports Isolation Memory_Protector
begin

text \<open>
  \<^verbatim>\<open>core/panic.rs\<close>, where every \<open>Panic\<close> of the model ends, and the console of \<^verbatim>\<open>debug.rs\<close>.

  \<^item> \<open>panic_handler\<close> clears the confidential memory and puts the hart to sleep again and again;
    \<open>panic_handler cell n\<close> is the state after \<open>n\<close> rounds of that endless loop. \<open>cell\<close> is the content of
    \<^verbatim>\<open>MEMORY_LAYOUT\<close>: a panic before \<^verbatim>\<open>MemoryLayout::init\<close> panics again at \<^verbatim>\<open>expect\<close>. Waiting for an interrupt
    changes no memory and no register of the model, so \<open>put_hart_to_sleep\<close> is the identity.
  \<^item> The stacks and the heap of the monitor lie in the confidential memory that the handler clears. The model keeps the local
    variables of the loop (the current and the last address) outside the memory, which amounts to assuming that the
    compiled loop holds them in registers.
  \<^item> \<open>console\<close> is the sequence of characters handed to OpenSBI's \<^verbatim>\<open>sbi_putc\<close>.
\<close>

section \<open>Panic handler\<close>

definition put_hart_to_sleep :: "'z mem_state_scheme \<Rightarrow> 'z mem_state_scheme" where
  "put_hart_to_sleep s = s"

definition panic_handler :: "memory_layout option \<Rightarrow> nat \<Rightarrow> ('z mem_state_scheme, error, unit) st" where
  "panic_handler cell n =
     sbind (lift (unwrap_option cell)) (\<lambda>l.
     sbind (clear_confidential_memory l) (\<lambda>_ s.
     (Ok (), (put_hart_to_sleep ^^ n) s)))"

section \<open>Console\<close>

type_synonym console = "8 word list"

definition Console_put :: "8 word \<Rightarrow> console \<Rightarrow> console" where
  "Console_put c out =
     (let ci8 = (if c < 0x80 then Some c else None)
      in case ci8 of Some v \<Rightarrow> out @ [v] | None \<Rightarrow> out)"

primrec put_bytes :: "8 word list \<Rightarrow> console \<Rightarrow> console" where
  "put_bytes [] out = out"
| "put_bytes (i # is) out = put_bytes is (Console_put i out)"

definition Console_write_str :: "8 word list \<Rightarrow> (console, error, unit) st" where
  "Console_write_str s out = (Ok (), put_bytes s out)"

text \<open>The values \<^verbatim>\<open>__print_pmp_configuration\<close> prints: address register, shifted address and configuration of
  the two entries.\<close>

definition print_pmp_configuration :: "csr_file \<Rightarrow> (usize \<times> usize \<times> usize) list" where
  "print_pmp_configuration f =
     (let pmpcfg0 = read_csr f CSR_PMPCFG0;
          pmp0 = read_csr f CSR_PMPADDR0;
          pmp0cfg = pmpcfg0 AND 0xff;
          pmp1 = read_csr f CSR_PMPADDR1;
          pmp1cfg = pmpcfg0 AND 0xff00
      in [(pmp0, push_bit PMP_ADDRESS_SHIFT pmp0, pmp0cfg), (pmp1, push_bit PMP_ADDRESS_SHIFT pmp1, pmp1cfg)])"

text \<open>Writing never fails and never changes what was printed; it drops exactly the bytes outside ASCII.\<close>

lemma Console_write_str_eq: "Console_write_str s out = (Ok (), out @ filter (\<lambda>c. c < 0x80) s)"
  by (induction s arbitrary: out) (simp_all add: Console_write_str_def Console_put_def)

section \<open>What the panic handler erases\<close>

lemma sint_usize: "sint (x :: usize) = (if uint x < 2 ^ 63 then uint x else uint x - 2 ^ 64)"
proof -
  have u: "0 \<le> uint x" "uint x < 2 ^ 64" using uint_lt2p [of x] by simp_all
  have s: "sint x = (uint x + 2 ^ 63) mod 2 ^ 64 - 2 ^ 63"
    by (simp add: sint_uint signed_take_bit_eq_take_bit_shift take_bit_eq_mod)
  show ?thesis
  proof (cases "uint x < 2 ^ 63")
    case True
    with u have "(uint x + 2 ^ 63) mod 2 ^ 64 = uint x + 2 ^ 63" by (intro mod_pos_pos_trivial) simp_all
    with True s show ?thesis by simp
  next
    case False
    with u have "(uint x + 2 ^ 63 - 2 ^ 64) mod 2 ^ 64 = uint x + 2 ^ 63 - 2 ^ 64"
      by (intro mod_pos_pos_trivial) simp_all
    then have "(uint x + 2 ^ 63) mod 2 ^ 64 = uint x + 2 ^ 63 - 2 ^ 64"
      by (simp only: minus_mod_self2)
    with False s show ?thesis by simp
  qed
qed

text \<open>A layout that \<^verbatim>\<open>MemoryLayout::init\<close> accepted does not cross the sign boundary of \<^verbatim>\<open>isize\<close>, so the
  panic handler computes its size without an overflow.\<close>

lemma same_half:
  fixes a b c :: int
  assumes "(if a < 2 ^ 63 then a else a - 2 ^ 64) \<le> (if c < 2 ^ 63 then c else c - 2 ^ 64)"
    and "a \<le> b" "b \<le> c" "0 \<le> a" "c < 2 ^ 64"
  shows "(if b < 2 ^ 63 then b else b - 2 ^ 64) - (if a < 2 ^ 63 then a else a - 2 ^ 64) = b - a" "b - a < 2 ^ 63"
  using assms by (auto split: if_splits)

lemma MemoryLayout_init_size:
  assumes "MemoryLayout_init ns ne cs ce cell = (Ok (s, e), cell')"
  shows "(ptr_byte_offset e s :: int res) = Ok (uint e - uint s)"
proof -
  have I: "uint s \<le> uint e" "uint e \<le> uint ce" "0 \<le> uint s" "uint ce < 2 ^ 64"
    using MemoryLayout_init_Ok(4,5) [OF assms] uint_lt2p [of ce] by (simp_all add: word_le_def)
  from assms obtain d m where d: "ptr_byte_offset ce s = (Ok d :: int res)" "usize_try_from d = Some m"
    unfolding MemoryLayout_init_def Let_def by (auto simp: res_simps)
  then have "sint s \<le> sint ce"
    by (auto simp: ptr_byte_offset_def usize_try_from_def Let_def split: if_splits)
  then have "sint e - sint s = uint e - uint s" "uint e - uint s < 2 ^ 63"
    unfolding sint_usize using I by (rule same_half)+
  then show ?thesis using I by (simp add: ptr_byte_offset_def)
qed

definition zeroed :: "usize \<Rightarrow> nat \<Rightarrow> (usize \<Rightarrow> usize) \<Rightarrow> (usize \<Rightarrow> usize)" where
  "zeroed start n mem = (\<lambda>a. if unat start \<le> unat a \<and> unat a < unat start + 8 * n
      \<and> (unat a - unat start) mod 8 = 0 then 0 else mem a)"

lemma zeroed_0 [simp]: "zeroed start 0 mem = mem"
  by (rule ext) (auto simp: zeroed_def)

lemma zeroed_Suc:
  assumes "unat (start + of_nat (8 * n)) = unat start + 8 * n"
  shows "(zeroed start n mem)(start + of_nat (8 * n) := 0) = zeroed start (Suc n) mem"
proof
  fix a :: usize
  have "unat start \<le> unat a \<and> unat a < unat start + 8 * Suc n \<and> (unat a - unat start) mod 8 = 0 \<longleftrightarrow>
    unat start \<le> unat a \<and> unat a < unat start + 8 * n \<and> (unat a - unat start) mod 8 = 0
    \<or> unat a = unat start + 8 * n"
    by presburger
  moreover have "unat a = unat start + 8 * n \<longleftrightarrow> a = start + of_nat (8 * n)"
    using assms by (metis word_unat_eq_iff)
  ultimately show "((zeroed start n mem)(start + of_nat (8 * n) := 0)) a = zeroed start (Suc n) mem a"
    by (auto simp: zeroed_def simp del: of_nat_mult)
qed

lemma clear_words:
  assumes "unat s + 8 * n \<le> unat e"
  shows "for_each (\<lambda>offset_in_bytes t.
      (case ptr_byte_add_mut s offset_in_bytes e of
         Ok ptr \<Rightarrow> write_volatile ptr 0 t | Err _ \<Rightarrow> (Ok (), t) | Panic \<Rightarrow> (Panic, t)))
      (map (\<lambda>i. of_nat (8 * i)) [0..<n]) t = (Ok (), t\<lparr>confidential_memory := zeroed s n (confidential_memory t)\<rparr>)"
  using assms
proof (induction n)
  case 0
  then show ?case by (simp add: ret_def)
next
  case (Suc n)
  have "unat s + 8 * n < 2 ^ 64" using Suc.prems unat_lt_usize [of e] by (simp del: unat_lt_usize)
  then have "unat (of_nat (8 * n) :: usize) = 8 * n" "unat (s + of_nat (8 * n)) = unat s + 8 * n"
    by (simp_all add: unat_of_nat unat_word_ariths)
  with Suc zeroed_Suc [of s n "confidential_memory t"] show ?case
    by (simp add: for_each_append sbind_def ret_def ptr_byte_add_mut_cases write_volatile_def del: of_nat_mult)
qed

lemma clear_confidential_memory_eq:
  assumes "MemoryLayout_init ns ne cs ce cell = (Ok (s, e), cell')"
    and "confidential_memory_start l = s" and "confidential_memory_end l = e"
  shows "clear_confidential_memory l t =
    (Ok (), t\<lparr>confidential_memory := zeroed s ((unat e - unat s) div 8) (confidential_memory t)\<rparr>)"
proof -
  note I = MemoryLayout_init_Ok(4,6,7) [OF assms(1)]
  have "8 dvd unat e - unat s"
    using dvd_diff_nat [of 4096 "unat e" "unat s"] I(2,3) dvd_trans [of 8 4096 "unat e - unat s"]
    by (simp add: mod_eq_0_iff_dvd)
  then obtain n where n: "unat e - unat s = 8 * n" by (elim dvdE)
  then have n8: "unat s + 8 * n \<le> unat e" using I(1) by (simp add: word_le_nat_alt)
  have "unat (word_of_int (uint e - uint s) :: usize) = 8 * n"
    using unat_sub [OF I(1)] n by (simp only: word_sub_wi [symmetric])
  then have size: "(unat (word_of_int (uint e - uint s) :: usize) + 7) div 8 = n" "(unat e - unat s) div 8 = n"
    using n by simp_all
  show ?thesis
    unfolding clear_confidential_memory_def assms(2,3) MemoryLayout_init_size [OF assms(1)] sbind_lift
      result.case Let_def size
    by (rule clear_words [OF n8])
qed

text \<open>A table of raw entries in cleared memory translates nothing.\<close>

lemma zeroed_walk:
  assumes "unat s mod 8 = 0" "unat base mod 8 = 0" "unat s \<le> unat base"
    and "unat base + 8 * hw_index gpa level < unat s + 8 * n" "unat s + 8 * n < 2 ^ 64"
  shows "mmu_walk (zeroed s n mem) gpa level base = None"
proof -
  have a: "unat (base + of_nat (8 * hw_index gpa level)) = unat base + 8 * hw_index gpa level"
    using assms(4,5) by (simp add: unat_of_nat unat_word_ariths)
  have "(unat base + 8 * hw_index gpa level - unat s) mod 8 = 0" using assms(1-3) by presburger
  with a assms(3,4) have "zeroed s n mem (base + of_nat (8 * hw_index gpa level)) = 0"
    by (simp add: zeroed_def del: of_nat_mult)
  then show ?thesis by (subst mmu_walk.simps) (simp add: is_valid_def is_set_def del: of_nat_mult)
qed

lemma sleep_forever [simp]: "(put_hart_to_sleep ^^ n) s = s"
  by (induction n) (simp_all add: put_hart_to_sleep_def)

section \<open>Properties\<close>

text \<open>C11: When the monitor panics, every word of the confidential memory that \<^verbatim>\<open>MemoryLayout::init\<close> delimited is
  zero afterwards and stays so in the sleeping loop, which writes nothing; no word outside and nothing else of the state changes, and
  clearing does not panic in turn. Page tables in that memory then translate no address: a hart that still runs a
  confidential VM faults at its next translation. A panic before the initialization of the layout clears
  nothing: reading the layout panics again.\<close>

theorem panic_erases_confidential_memory:
  assumes "MemoryLayout_init ns ne cs ce None = (Ok (s, e), cell)"
  shows "(\<exists>t. panic_handler cell n st = (Ok (), t)
      \<and> (\<forall>a. s \<le> a \<and> a < e \<and> unat a mod 8 = 0 \<longrightarrow> confidential_memory t a = 0)
      \<and> (\<forall>a. \<not> (s \<le> a \<and> a < e) \<longrightarrow> confidential_memory t a = confidential_memory st a)
      \<and> t = st\<lparr>confidential_memory := confidential_memory t\<rparr>
      \<and> (\<forall>gpa level base. s \<le> base \<and> unat base + 16384 \<le> unat e \<and> unat base mod 8 = 0
           \<longrightarrow> mmu_walk (confidential_memory t) gpa level base = None))
    \<and> panic_handler None n st = (Panic, st)"
proof -
  note I = MemoryLayout_init_Ok(4,6,7,10) [OF assms]
  let ?n = "(unat e - unat s) div 8" and ?mem = "zeroed s ((unat e - unat s) div 8) (confidential_memory st)"
  have s8: "unat s mod 8 = 0" "unat e mod 8 = 0"
    using I(2,3) mod_mod_cancel [of 8 4096 "unat s"] mod_mod_cancel [of 8 4096 "unat e"] by simp_all
  then have n: "unat s + 8 * ?n = unat e" using I(1) by (simp add: word_le_nat_alt) presburger
  have run: "panic_handler cell n st = (Ok (), st\<lparr>confidential_memory := ?mem\<rparr>)"
    using clear_confidential_memory_eq [OF assms, of _ st] I(4)
    by (simp add: panic_handler_def call_once_def sbind_lift sbind_Ok)
  have erased: "?mem a = 0" if "s \<le> a" "a < e" "unat a mod 8 = 0" for a
  proof -
    have "(unat a - unat s) mod 8 = 0" using that(3) s8(1) by presburger
    then show ?thesis using that(1,2) n by (simp add: zeroed_def word_le_nat_alt word_less_nat_alt)
  qed
  have kept: "?mem a = confidential_memory st a" if "\<not> (s \<le> a \<and> a < e)" for a
    using that n by (auto simp: zeroed_def word_le_nat_alt word_less_nat_alt)
  have walk: "mmu_walk ?mem gpa level base = None"
    if "s \<le> base" "unat base + 16384 \<le> unat e" "unat base mod 8 = 0" for gpa level base
  proof (rule zeroed_walk [OF s8(1) that(3)])
    have "hw_index gpa level < 2048" by (auto simp: hw_index_def intro: less_trans [OF mod_less_divisor])
    then show "unat base + 8 * hw_index gpa level < unat s + 8 * ?n" using that(2) unfolding n by linarith
    show "unat s \<le> unat base" using that(1) by (simp add: word_le_nat_alt)
    show "unat s + 8 * ?n < 2 ^ 64" unfolding n by simp
  qed
  show ?thesis
    using run erased kept walk by (auto simp: panic_handler_def sbind_lift)
qed

theorem panic_erases_confidential_memory_witness:
  "\<exists>t. panic_handler (Some \<lparr>non_confidential_memory_start = 0x1000, non_confidential_memory_end = 0x2000,
        confidential_memory_start = 0x3000, confidential_memory_end = 0x5000\<rparr>) 7
      \<lparr>confidential_memory = (\<lambda>_. 42), non_confidential_memory = (\<lambda>_ _. 0), now = 0\<rparr> = (Ok (), t)
     \<and> confidential_memory t 0x4ff8 = 0 \<and> confidential_memory t 0x5000 = 42"
  using panic_erases_confidential_memory [OF MemoryLayout_init_example, of 7
      "\<lparr>confidential_memory = (\<lambda>_. 42), non_confidential_memory = (\<lambda>_ _. 0), now = 0\<rparr>"]
  by auto

end
