(* ===== verification/Guest_Program.thy ===== *)
theory Guest_Program
  imports Guest_Calls
begin

text \<open>
  The bare-metal guest under \<^verbatim>\<open>src/confidential-vms/baremetal/src\<close>: the program that asks the monitor to turn
  its VM into a confidential one and then shares pages with the hypervisor for its block device.

  \<^item> \<open>guest\<close> holds its static variables, its memory byte by byte, and the \<^verbatim>\<open>ecall\<close>s it made.
  \<^item> What a call returns is up to the monitor and the hypervisor: \<open>sbi\<close> gives the values of \<^verbatim>\<open>a0\<close> and \<^verbatim>\<open>a1\<close>
    after a call from the calls made so far. The lemmas below connect the registers of a call with the
    handlers of the monitor.
  \<^item> The guest is built without \<^verbatim>\<open>--release\<close> (\<^verbatim>\<open>RELEASE=""\<close> in the Makefile), so \<open>+\<close> and \<open>*\<close> panic on overflow;
    \<^verbatim>\<open>AtomicUsize::fetch_add\<close> wraps around.
  \<^item> The crates \<^verbatim>\<open>virtio_drivers\<close> and \<^verbatim>\<open>fdt\<close> are third-party code: the size of a page, the nodes of the device tree,
    the creation of a transport and the two operations on a block are arguments. The linker script's symbols are
    arguments as well. The messages on the console and the heap (the crate \<^verbatim>\<open>buddy_system_allocator\<close>) are not modelled.
\<close>

section \<open>Calls\<close>

datatype guest_error = VirtioError | EsmError | SharePageError | LoadAllPagesFailed

record ecall_arguments =
  ecall_extid :: usize
  ecall_fid :: usize
  ecall_a0 :: usize
  ecall_a1 :: usize
  ecall_a2 :: usize
  ecall_a3 :: usize
  ecall_a4 :: usize

record buffer_translation =
  translation_vaddr :: usize
  translation_paddr :: usize
  translation_position :: usize
  translation_len :: usize

record scratch_page =
  base_paddr :: usize
  scratch_position :: usize
  buffer_translations :: "buffer_translation list"

record guest =
  DMA_PADDR :: usize
  SCRATCH_PAGE :: "scratch_page option"
  guest_memory :: "usize \<Rightarrow> 8 word"
  ecalls :: "ecall_arguments list"

type_synonym sbi_results = "ecall_arguments list \<Rightarrow> usize \<times> usize"

definition ecall ::
    "sbi_results \<Rightarrow> usize \<Rightarrow> usize \<Rightarrow> usize \<Rightarrow> usize \<Rightarrow> usize \<Rightarrow> usize \<Rightarrow> usize \<Rightarrow> (guest, usize, usize) st" where
  "ecall sbi extid fid a0 a1 a2 a3 a4 g =
     (let g = g\<lparr>ecalls := ecalls g @ [\<lparr>ecall_extid = extid, ecall_fid = fid, ecall_a0 = a0, ecall_a1 = a1,
                ecall_a2 = a2, ecall_a3 = a3, ecall_a4 = a4\<rparr>]\<rparr>;
          (error, value) = sbi (ecalls g)
      in if error > 0 then (Err error, g) else (Ok value, g))"

text \<open>The registers of the hart at the instruction \<^verbatim>\<open>ecall\<close>; \<open>g\<close> are the ones before the arguments are loaded.\<close>

definition ecall_registers :: "ecall_arguments \<Rightarrow> general_purpose_registers \<Rightarrow> general_purpose_registers" where
  "ecall_registers c g = g(gpr_a0 := ecall_a0 c, gpr_a1 := ecall_a1 c, gpr_a2 := ecall_a2 c, gpr_a3 := ecall_a3 c,
     gpr_a4 := ecall_a4 c, gpr_a6 := ecall_fid c, gpr_a7 := ecall_extid c)"

definition GUEST_KVM_ACE_EXTID :: usize where "GUEST_KVM_ACE_EXTID = 0x509999"
definition ACE_EXTID :: usize where "ACE_EXTID = 0x510000"
definition ACE_ESM_FID :: usize where "ACE_ESM_FID = 1000"
definition ACE_SHARE_PAGE_FID :: usize where "ACE_SHARE_PAGE_FID = 2000"

definition load_all_pages :: "sbi_results \<Rightarrow> (guest, guest_error, usize) st" where
  "load_all_pages sbi = smap_err (\<lambda>_. LoadAllPagesFailed) (ecall sbi GUEST_KVM_ACE_EXTID 0 0 0 0 0 0)"

definition esm :: "sbi_results \<Rightarrow> (guest, guest_error, usize) st" where
  "esm sbi = smap_err (\<lambda>_. EsmError) (ecall sbi ACE_EXTID ACE_ESM_FID 0 0 0 0 0)"

definition guest_share_page :: "sbi_results \<Rightarrow> usize \<Rightarrow> usize \<Rightarrow> (guest, guest_error, usize) st" where
  "guest_share_page sbi paddr number_of_pages =
     smap_err (\<lambda>_. SharePageError) (ecall sbi ACE_EXTID ACE_SHARE_PAGE_FID paddr number_of_pages 0 0 0)"

section \<open>Memory for the block device\<close>

definition fetch_add_DMA_PADDR :: "usize \<Rightarrow> (guest, guest_error, usize) st" where
  "fetch_add_DMA_PADDR n g = (Ok (DMA_PADDR g), g\<lparr>DMA_PADDR := DMA_PADDR g + n\<rparr>)"

definition share_nth_page :: "sbi_results \<Rightarrow> usize \<Rightarrow> nat \<Rightarrow> (guest, guest_error, unit) st" where
  "share_nth_page sbi paddr i =
     sbind (lift (mul_usize (of_nat i) 4096)) (\<lambda>offset.
     sbind (lift (add_usize paddr offset)) (\<lambda>page.
     sbind (guest_share_page sbi page 1) (\<lambda>_. ret ())))"

definition NonNull_new :: "usize \<Rightarrow> usize option" where
  "NonNull_new a = (if a = 0 then None else Some a)"

definition dma_alloc :: "usize \<Rightarrow> sbi_results \<Rightarrow> usize \<Rightarrow> (guest, guest_error, usize \<times> usize) st" where
  "dma_alloc PAGE_SIZE sbi pages =
     sbind (lift (mul_usize PAGE_SIZE pages)) (\<lambda>n.
     sbind (fetch_add_DMA_PADDR n) (\<lambda>paddr.
     sbind (for_each (\<lambda>i. sunwrap (share_nth_page sbi paddr i)) [0..<unat pages]) (\<lambda>_.
     sbind (lift (unwrap_option (NonNull_new paddr))) (\<lambda>vaddr. ret (paddr, vaddr)))))"

definition dma_dealloc :: "usize \<Rightarrow> usize \<Rightarrow> usize \<Rightarrow> (guest, guest_error, 32 word) st" where
  "dma_dealloc paddr vaddr pages = ret 0"

definition mmio_phys_to_virt :: "usize \<Rightarrow> usize \<Rightarrow> (guest, guest_error, usize) st" where
  "mmio_phys_to_virt paddr sz = lift (unwrap_option (NonNull_new paddr))"

definition put_scratch_page :: "scratch_page \<Rightarrow> guest \<Rightarrow> guest" where
  "put_scratch_page sp g = g\<lparr>SCRATCH_PAGE := Some sp\<rparr>"

definition copy_byte :: "usize \<Rightarrow> usize \<Rightarrow> guest \<Rightarrow> guest" where
  "copy_byte input_ptr output_ptr g = g\<lparr>guest_memory := (guest_memory g)(output_ptr := guest_memory g input_ptr)\<rparr>"

text \<open>The body of the loop of \<^verbatim>\<open>share\<close>; \<open>sp\<close> is the scratch page, which the closure borrows mutably.\<close>

primrec share_bytes ::
    "usize \<Rightarrow> nat list \<Rightarrow> scratch_page \<Rightarrow> (guest, guest_error, scratch_page) st" where
  "share_bytes vaddr [] sp = ret sp"
| "share_bytes vaddr (i # is) sp =
     sbind (lift (add_usize vaddr (of_nat i))) (\<lambda>input_ptr.
     sbind (lift (add_usize (base_paddr sp) (scratch_position sp))) (\<lambda>output_ptr g.
     sbind (lift (add_usize (scratch_position sp) 1)) (\<lambda>next.
       share_bytes vaddr is (sp\<lparr>scratch_position := next\<rparr>)) (copy_byte input_ptr output_ptr g)))"

definition hal_share ::
    "usize \<Rightarrow> usize \<Rightarrow> usize \<Rightarrow> usize \<Rightarrow> (guest, guest_error, usize) st" where
  "hal_share dma_start dma_end vaddr len g =
     (if dma_start \<le> vaddr \<and> vaddr < dma_end then (Ok vaddr, g)
      else sbind (lift (unwrap_option (SCRATCH_PAGE g))) (\<lambda>sp.
           sbind (lift (add_usize (base_paddr sp) (scratch_position sp))) (\<lambda>paddr.
           let sp = sp\<lparr>buffer_translations := buffer_translations sp @ [\<lparr>translation_vaddr = vaddr, translation_paddr = paddr,
                       translation_position = scratch_position sp, translation_len = len\<rparr>]\<rparr>
           in sbind (share_bytes vaddr [0..<unat len] sp) (\<lambda>sp g. (Ok paddr, put_scratch_page sp g)))) g)"

text \<open>The loops of \<^verbatim>\<open>unshare\<close>: the outer one over the recorded translations with their index, the inner one over
  the length of the buffer, whose body does not use its own index.\<close>

definition write_back :: "usize \<Rightarrow> nat \<Rightarrow> buffer_translation \<Rightarrow> (guest, guest_error, unit) st" where
  "write_back paddr i x =
     sbind (lift (add_usize paddr (of_nat i))) (\<lambda>input_ptr.
     sbind (lift (add_usize (translation_vaddr x) (of_nat i))) (\<lambda>output_ptr g.
       (Ok (), copy_byte input_ptr output_ptr g)))"

primrec unshare_translations ::
    "usize \<Rightarrow> nat \<Rightarrow> buffer_translation list \<Rightarrow> nat option \<Rightarrow> (guest, guest_error, nat option) st" where
  "unshare_translations paddr i [] index_to_remove = ret index_to_remove"
| "unshare_translations paddr i (x # xs) index_to_remove =
     (if translation_paddr x = paddr
      then sbind (for_each (\<lambda>_. write_back paddr i x) [0..<unat (translation_len x)]) (\<lambda>_.
           unshare_translations paddr (Suc i) xs (Some i))
      else unshare_translations paddr (Suc i) xs index_to_remove)"

definition hal_unshare :: "usize \<Rightarrow> (guest, guest_error, unit) st" where
  "hal_unshare paddr g = (case SCRATCH_PAGE g of
      None \<Rightarrow> (Ok (), g)
    | Some sp \<Rightarrow> sbind (unshare_translations paddr 0 (buffer_translations sp) None) (\<lambda>index_to_remove g.
        (Ok (), case index_to_remove of
           None \<Rightarrow> g
         | Some i \<Rightarrow> put_scratch_page
             (sp\<lparr>buffer_translations := take i (buffer_translations sp) @ drop (Suc i) (buffer_translations sp)\<rparr>) g)) g)"

definition init_memory :: "usize \<Rightarrow> sbi_results \<Rightarrow> (guest, guest_error, unit) st" where
  "init_memory dma_start sbi =
     sbind (lift (add_usize dma_start 4096)) (\<lambda>a.
     sbind (lift (sub_usize a 1)) (\<lambda>a.
     sbind (\<lambda>g. (Ok (), g\<lparr>DMA_PADDR := a AND NOT (4096 - 1)\<rparr>)) (\<lambda>_.
     sbind (sunwrap (load_all_pages sbi)) (\<lambda>_. ret ()))))"

definition prepare_shared_memory :: "usize \<Rightarrow> sbi_results \<Rightarrow> (guest, guest_error, usize \<times> usize) st" where
  "prepare_shared_memory PAGE_SIZE sbi =
     sbind (lift (mul_usize PAGE_SIZE 3)) (\<lambda>n.
     sbind (fetch_add_DMA_PADDR n) (\<lambda>paddr.
     sbind (for_each (share_nth_page sbi paddr) [0..<3]) (\<lambda>_.
     let input_paddr = paddr in
     sbind (lift (add_usize paddr 4096)) (\<lambda>output_paddr.
     sbind (lift (add_usize paddr (2 * 4096))) (\<lambda>scratch_paddr g.
       (Ok (input_paddr, output_paddr),
        put_scratch_page \<lparr>base_paddr = scratch_paddr, scratch_position = 0, translations = []\<rparr> g))))))"

section \<open>The block device\<close>

record fdt_node =
  fdt_compatible :: "string list option"
  fdt_reg :: "(usize \<times> usize option) list option"

datatype device_type = BlockDevice | OtherDevice

text \<open>\<open>MmioTransport_new\<close> gives the type of the device behind a header, if there is one.\<close>

definition virtio_probe ::
    "(usize \<Rightarrow> device_type option) \<Rightarrow> fdt_node \<Rightarrow> (guest_error, usize option) result" where
  "virtio_probe MmioTransport_new node = (case Option.bind (fdt_reg node) (\<lambda>r. case r of [] \<Rightarrow> None | x # _ \<Rightarrow> Some x) of
      None \<Rightarrow> Ok None
    | Some (paddr, sz) \<Rightarrow>
        and_then (unwrap_option sz) (\<lambda>_.
        case NonNull_new paddr of
          None \<Rightarrow> Ok None
        | Some header \<Rightarrow> (case MmioTransport_new header of
              Some BlockDevice \<Rightarrow> Ok (Some header)
            | _ \<Rightarrow> Ok None)))"

primrec get_transport ::
    "(usize \<Rightarrow> device_type option) \<Rightarrow> fdt_node list \<Rightarrow> (guest_error, usize option) result" where
  "get_transport MmioTransport_new [] = Ok None"
| "get_transport MmioTransport_new (node # nodes) = (case fdt_compatible node of
      Some compatible \<Rightarrow>
        if list_ex (\<lambda>s. s = ''virtio,mmio'') compatible then virtio_probe MmioTransport_new node
        else get_transport MmioTransport_new nodes
    | None \<Rightarrow> get_transport MmioTransport_new nodes)"

definition fill_slice :: "usize \<Rightarrow> nat \<Rightarrow> 8 word \<Rightarrow> guest \<Rightarrow> guest" where
  "fill_slice p n v g = g\<lparr>guest_memory := fold (\<lambda>i mem. mem(p + of_nat i := v)) [0..<n] (guest_memory g)\<rparr>"

text \<open>\<open>new_block\<close> creates the driver (\<^verbatim>\<open>VirtIOBlk::new\<close>), \<open>write_block\<close> and \<open>read_block\<close> are its operations on the buffer
  at an address of the guest. What they change is up to the driver and the device; \<open>None\<close> is an error.\<close>

definition expect_block :: "(guest \<Rightarrow> guest option) \<Rightarrow> (guest, guest_error, unit) st" where
  "expect_block operation g = (case operation g of None \<Rightarrow> (Panic, g) | Some g \<Rightarrow> (Ok (), g))"

definition get_block_device ::
    "(usize \<Rightarrow> device_type option) \<Rightarrow> fdt_node list \<Rightarrow> (usize \<Rightarrow> guest \<Rightarrow> guest option) \<Rightarrow>
     (guest, guest_error, unit) st" where
  "get_block_device MmioTransport_new nodes new_block =
     sbind (lift (get_transport MmioTransport_new nodes)) (\<lambda>transport.
     sbind (lift (unwrap_option transport)) (\<lambda>header.
       expect_block (new_block header)))"

definition same_bytes :: "usize \<Rightarrow> usize \<Rightarrow> guest \<Rightarrow> bool" where
  "same_bytes input output g \<longleftrightarrow>
     list_all (\<lambda>i. guest_memory g (input + of_nat i) = guest_memory g (output + of_nat i)) [0..<512]"

definition test_virtio ::
    "usize \<Rightarrow> sbi_results \<Rightarrow> (usize \<Rightarrow> device_type option) \<Rightarrow> fdt_node list \<Rightarrow> (usize \<Rightarrow> guest \<Rightarrow> guest option) \<Rightarrow>
     (usize \<Rightarrow> usize \<Rightarrow> guest \<Rightarrow> guest option) \<Rightarrow> (usize \<Rightarrow> usize \<Rightarrow> guest \<Rightarrow> guest option) \<Rightarrow>
     (guest, guest_error, unit) st" where
  "test_virtio PAGE_SIZE sbi MmioTransport_new nodes new_block write_block read_block =
     sbind (get_block_device MmioTransport_new nodes new_block) (\<lambda>_.
     sbind (prepare_shared_memory PAGE_SIZE sbi) (\<lambda>(input, output).
     sbind (\<lambda>g. (Ok (), fill_slice output 512 0x30 (fill_slice input 512 0x49 g))) (\<lambda>_.
     sbind (expect_block (write_block 0 input)) (\<lambda>_.
     sbind (expect_block (read_block 0 output)) (\<lambda>_ g.
       (if same_bytes input output g then Ok () else Err VirtioError, g))))))"

section \<open>Traps\<close>

definition trap_handler :: "usize \<Rightarrow> usize \<Rightarrow> usize \<Rightarrow> (guest_error, usize) result" where
  "trap_handler sepc stval scause =
     (let is_async = drop_bit 63 scause AND 1 = 1
      in if is_async then Ok sepc else add_usize sepc 4)"

section \<open>The guest and the monitor\<close>

lemma confidential_call:
  assumes "running s" and "f CSR_MCAUSE = 10"
  shows "route_confidential_flow env (vm_runs f g mem s) =
    (let s = vm_runs f g mem s; h = ConfidentialHart_store_volatile f (assigned_hart (hardware s)) in
     handle_confidential_trap env (VsEcall (SbiExtension_decode (g gpr_a7) (g gpr_a6))) h f (set_assigned_hart h s))"
  using assms
  by (simp add: route_confidential_flow_def sbind_def on_assigned_hart_def ConfidentialFlow_create_def lift_def
      set_assigned_hart_def Let_def vm_runs_def running_def is_dummy_def ConfidentialHart_store_volatile_def
      update_hart_state_def ConfidentialHart_trap_reason_def read_csr_def TrapCause_from_def is_bit_enabled_def
      cause_defs CAUSE_INTERRUPT_BIT_def gpr_def GeneralPurposeRegisters_get_def set_dump_def)

lemma non_confidential_call:
  assumes "\<not> running s" and "f CSR_MCAUSE = 10"
  shows "route_non_confidential_flow env (hypervisor_runs f g s) =
    handle_non_confidential_trap env (VsEcall (SbiExtension_decode (g gpr_a7) (g gpr_a6)))
      (HardwareHart_store_volatile (hypervisor_runs f g s))"
  using assms
  by (simp add: route_non_confidential_flow_def sbind_def NonConfidentialFlow_create_def modify_def
      Let_def hypervisor_runs_def running_def HardwareHart_store_volatile_def HardwareHart_trap_reason_def
      update_hypervisor_state_def
      read_csr_def TrapCause_from_def is_bit_enabled_def
      cause_defs CAUSE_INTERRUPT_BIT_def gpr_def GeneralPurposeRegisters_get_def set_dump_def)

definition share_call :: "usize \<Rightarrow> ecall_arguments" where
  "share_call paddr = \<lparr>ecall_extid = ACE_EXTID, ecall_fid = ACE_SHARE_PAGE_FID, ecall_a0 = paddr, ecall_a1 = 1,
     ecall_a2 = 0, ecall_a3 = 0, ecall_a4 = 0\<rparr>"

lemma share_nth_page_Ok:
  assumes "share_nth_page sbi paddr i g = (Ok u, g')" and "i < 2 ^ 64"
  shows "g' = g\<lparr>ecalls := ecalls g @ [share_call (paddr + of_nat i * 4096)]\<rparr> \<and> unat paddr + i * 4096 < 2 ^ 64"
proof -
  have i: "unat (of_nat i :: usize) = i" using assms(2) by (simp add: unat_of_nat)
  show ?thesis
    using assms(1)
    by (auto simp: share_nth_page_def guest_share_page_def ecall_def share_call_def sbind_eq_Ok smap_err_def lift_def
        ret_def Let_def add_usize_eq_Ok mul_usize_eq_Ok i unat_mul_usize map_err_eq_Ok
        split: if_splits prod.splits)
qed

lemma share_pages_Ok:
  assumes "for_each (\<lambda>i. m i) [0..<n] g = (Ok u, g')" and "n \<le> 2 ^ 64"
    and "\<And>i h v h'. m i h = (Ok v, h') \<Longrightarrow> share_nth_page sbi paddr i h = (Ok v, h')"
  shows "g' = g\<lparr>ecalls := ecalls g @ map (\<lambda>i. share_call (paddr + of_nat i * 4096)) [0..<n]\<rparr>
    \<and> (\<forall>i<n. unat paddr + i * 4096 < 2 ^ 64)"
  using assms(1,2)
proof (induction n arbitrary: g' u)
  case (Suc n)
  then obtain v h w where h: "for_each m [0..<n] g = (Ok v, h)" "m n h = (Ok w, g')"
    by (auto simp: for_each_append sbind_eq_Ok ret_def)
  then show ?case
    using Suc.IH [OF h(1)] share_nth_page_Ok [OF assms(3) [OF h(2)]] Suc.prems(2) less_Suc_eq by auto
qed (simp add: ret_def)

lemma sunwrap_Ok_iff: "sunwrap m s = (Ok a, t) \<longleftrightarrow> m s = (Ok a, t)"
  by (auto simp: sunwrap_def unwrap_eq_Ok split: prod.splits)

lemma dma_alloc_Ok:
  assumes "dma_alloc 4096 sbi pages g = (Ok (paddr, vaddr), g')"
  shows "vaddr = paddr" "paddr = DMA_PADDR g" "\<forall>i < unat pages. unat paddr + i * 4096 < 2 ^ 64"
    "g' = g\<lparr>DMA_PADDR := paddr + 4096 * pages,
            ecalls := ecalls g @ map (\<lambda>i. share_call (paddr + of_nat i * 4096)) [0..<unat pages]\<rparr>"
proof -
  have usize_bound: "unat pages < 2 ^ 64" using unsigned_less [of pages] by simp
  let ?g = "g\<lparr>DMA_PADDR := DMA_PADDR g + 4096 * pages\<rparr>"
  obtain n where n: "mul_usize 4096 pages = (Ok n :: (guest_error, usize) result)" "n = 4096 * pages"
    using assms by (cases "mul_usize 4096 pages :: (guest_error, usize) result")
      (simp_all add: dma_alloc_def sbind_lift lift_def mul_usize_eq_Ok)
  let ?loop = "for_each (\<lambda>i. sunwrap (share_nth_page sbi (DMA_PADDR g) i)) [0..<unat pages] :: (guest, guest_error, unit) st"
  have "sbind ?loop (\<lambda>_. sbind (lift (unwrap_option (NonNull_new (DMA_PADDR g)))) (\<lambda>vaddr. ret (DMA_PADDR g, vaddr))) ?g =
      (Ok (paddr, vaddr), g')"
    using assms by (simp add: dma_alloc_def sbind_lift n sbind_def [of "fetch_add_DMA_PADDR _"] fetch_add_DMA_PADDR_def)
  then obtain u h where run: "?loop ?g = (Ok u, h)" and out: "vaddr = paddr" "paddr = DMA_PADDR g" "g' = h"
    by (auto simp only: sbind_eq_Ok lift_def ret_def prod.inject result.inject unwrap_option_eq_Ok NonNull_new_def
        split: if_split_asm)
  have "h = ?g\<lparr>ecalls := ecalls ?g @ map (\<lambda>i. share_call (DMA_PADDR g + of_nat i * 4096)) [0..<unat pages]\<rparr>
      \<and> (\<forall>i < unat pages. unat (DMA_PADDR g) + i * 4096 < 2 ^ 64)"
    by (rule share_pages_Ok [OF run order_less_imp_le [OF usize_bound]]) (simp only: sunwrap_Ok_iff)
  then show "vaddr = paddr" "paddr = DMA_PADDR g" "\<forall>i < unat pages. unat paddr + i * 4096 < 2 ^ 64"
    "g' = g\<lparr>DMA_PADDR := paddr + 4096 * pages,
            ecalls := ecalls g @ map (\<lambda>i. share_call (paddr + of_nat i * 4096)) [0..<unat pages]\<rparr>"
    using out by simp_all
qed

lemma prepare_shared_memory_Ok:
  assumes "prepare_shared_memory 4096 sbi g = (Ok (input, output), g')"
  shows "input = DMA_PADDR g \<and> output = input + 4096
    \<and> SCRATCH_PAGE g' = Some \<lparr>base_paddr = input + 8192, scratch_position = 0, buffer_translations = []\<rparr>
    \<and> ecalls g' = ecalls g @ map (\<lambda>i. share_call (input + of_nat i * 4096)) [0..<3]"
proof -
  let ?g = "g\<lparr>DMA_PADDR := DMA_PADDR g + 12288\<rparr>"
  have "sbind (for_each (share_nth_page sbi (DMA_PADDR g)) [0..<3]) (\<lambda>_.
      sbind (lift (add_usize (DMA_PADDR g) 4096)) (\<lambda>output.
      sbind (lift (add_usize (DMA_PADDR g) 8192)) (\<lambda>scratch_paddr h.
       (Ok (DMA_PADDR g, output),
        put_scratch_page \<lparr>base_paddr = scratch_paddr, scratch_position = 0, buffer_translations = []\<rparr> h)))) ?g =
      (Ok (input, output), g')"
    using assms by (simp add: prepare_shared_memory_def mul_usize_def sbind_lift Let_def
        sbind_def [of "fetch_add_DMA_PADDR _"] fetch_add_DMA_PADDR_def)
  then obtain u h where run: "for_each (share_nth_page sbi (DMA_PADDR g)) [0..<3] ?g = (Ok u, h)"
    and out: "input = DMA_PADDR g" "output = input + 4096"
      "g' = put_scratch_page \<lparr>base_paddr = input + 8192, scratch_position = 0, buffer_translations = []\<rparr> h"
    by (auto simp only: sbind_eq_Ok lift_def prod.inject result.inject add_usize_eq_Ok)
  have "h = ?g\<lparr>ecalls := ecalls ?g @ map (\<lambda>i. share_call (DMA_PADDR g + of_nat i * 4096)) [0..<3]\<rparr>"
    by (rule share_pages_Ok [OF run, THEN conjunct1]) simp_all
  with out show ?thesis by (simp add: put_scratch_page_def)
qed

lemma page_mask: "unat (a AND NOT (4096 - 1) :: usize) = unat a - unat a mod 4096"
proof -
  have "a AND NOT (mask 12) = push_bit 12 (drop_bit 12 a)"
    by (rule bit_eqI) (auto simp: bit_simps)
  moreover have "unat (push_bit 12 (drop_bit 12 a)) = unat a div 4096 * 4096"
    using unat_lt_usize [of a] div_times_less_eq_dividend [of "unat a" 4096]
    by (simp add: drop_bit_eq_div push_bit_eq_mult unat_mul_usize unat_div del: unat_lt_usize)
  ultimately show ?thesis by (simp add: mask_eq_exp_minus_1 minus_mod_eq_div_mult)
qed

lemma init_memory_Ok:
  assumes "init_memory dma_start sbi g = (Ok u, g')"
  shows "unat (DMA_PADDR g') mod 4096 = 0 \<and> dma_start \<le> DMA_PADDR g' \<and> unat (DMA_PADDR g') < unat dma_start + 4096"
proof -
  have sum: "unat dma_start + 4096 < 2 ^ 64" and g': "DMA_PADDR g' = (4095 + dma_start) AND NOT (4096 - 1)"
    using assms by (auto simp: init_memory_def sbind_eq_Ok lift_def ret_def add_usize_eq_Ok sub_usize_def sunwrap_Ok_iff
        load_all_pages_def smap_err_def ecall_def Let_def split: if_splits prod.splits)
  have n: "unat (4095 + dma_start) = unat dma_start + 4095" using sum unat_add_usize [of 4095 dma_start] by simp
  have "(unat dma_start + 4095) mod 4096 < 4096" by simp
  then show ?thesis
    unfolding g' page_mask word_le_nat_alt n by (simp add: minus_mod_eq_mult_div) linarith
qed

text \<open>\<^verbatim>\<open>get_transport\<close> returns what the first node with the compatible string gives: a block device behind another
  device of the same kind is not found.\<close>

lemma block_device_missed:
  assumes "fdt_compatible node = Some [''virtio,mmio'']" and "fdt_reg node = Some [(paddr, Some sz)]"
    and "MmioTransport_new paddr = Some OtherDevice"
  shows "get_transport MmioTransport_new (node # nodes) = Ok None"
  using assms by (simp add: virtio_probe_def unwrap_option_def NonNull_new_def)

lemma share_call_handled:
  assumes "running s" and "f CSR_MCAUSE = 10"
  shows "route_confidential_flow env (vm_runs f (ecall_registers (share_call paddr) g) mem s) =
    (let s = vm_runs f (ecall_registers (share_call paddr) g) mem s in
     share_page env (Ok (\<lparr>request_virtual_address = paddr, request_page_size = Size4KiB\<rparr>, kvm_ace_page_in paddr))
       (set_assigned_hart (ConfidentialHart_store_volatile f (assigned_hart (hardware s))) s))"
  unfolding confidential_call [of s f, OF assms]
  by (simp add: ecall_registers_def share_call_def ACE_EXTID_def ACE_SHARE_PAGE_FID_def
      SbiExtension_decode_def AceExtension_EXTID_def AceExtension_from_function_id_def Let_def
      handle_confidential_trap_def ConfidentialHart_share_page_request_def SharePageRequest_new_def
      ConfidentialHart_store_volatile_def vm_runs_def update_hart_state_def set_assigned_hart_def set_dump_def gpr_def
      GeneralPurposeRegisters_get_def)

lemma last_ecall:
  "last (ecalls (snd (smap_err e (ecall sbi extid fid a0 a1 a2 a3 a4) g))) =
    \<lparr>ecall_extid = extid, ecall_fid = fid, ecall_a0 = a0, ecall_a1 = a1, ecall_a2 = a2, ecall_a3 = a3, ecall_a4 = a4\<rparr>"
  by (simp add: smap_err_def ecall_def Let_def split: prod.split)

text \<open>The call of \<^verbatim>\<open>esm\<close> reaches the promotion of the VM, the one of \<^verbatim>\<open>load_all_pages\<close>, which the guest makes before,
  reaches the hypervisor with its registers unchanged.\<close>

lemma esm_reaches_promotion:
  assumes "\<not> running s" and "f CSR_MCAUSE = 10"
  shows "route_non_confidential_flow env
      (hypervisor_runs f (ecall_registers (last (ecalls (snd (esm sbi guest)))) g) s) =
    (let t = HardwareHart_store_volatile
               (hypervisor_runs f (ecall_registers (last (ecalls (snd (esm sbi guest)))) g) s)
     in promote_to_confidential_vm_handler env (promote_to_confidential_vm_request t) t)"
  unfolding non_confidential_call [of s f, OF assms]
  by (simp add: esm_def last_ecall ecall_registers_def Let_def
      ACE_EXTID_def ACE_ESM_FID_def SbiExtension_decode_def AceExtension_EXTID_def AceExtension_from_function_id_def
      handle_non_confidential_trap_def)

lemma load_all_pages_reaches_hypervisor:
  assumes "\<not> running s" and "f CSR_MCAUSE = 10" and c: "c = last (ecalls (snd (load_all_pages sbi guest)))"
  shows "route_non_confidential_flow env (hypervisor_runs f (ecall_registers c g) s) =
    delegate_hypercall \<lparr>vm_sbi_request = SbiRequest_new KVM_ACE_EXTID 0 0 0 0 0 0 (g gpr_a5)\<rparr>
      (HardwareHart_store_volatile (hypervisor_runs f (ecall_registers c g) s))"
  unfolding non_confidential_call [of s f, OF assms(1,2)]
  by (simp add: c load_all_pages_def last_ecall ecall_registers_def
      Let_def GUEST_KVM_ACE_EXTID_def KVM_ACE_EXTID_def SbiExtension_decode_def extid_defs
      handle_non_confidential_trap_def HardwareHart_sbi_vm_request_def SbiVmRequest_from_hart_state_def
      HardwareHart_store_volatile_def hypervisor_runs_def update_hypervisor_state_def set_dump_def gpr_def
      GeneralPurposeRegisters_get_def)

section \<open>Buffers\<close>

text \<open>The memory after \<open>n\<close> bytes were copied one after the other from \<open>vaddr\<close> to \<open>paddr\<close>.\<close>

definition copied_bytes :: "usize \<Rightarrow> usize \<Rightarrow> nat \<Rightarrow> (usize \<Rightarrow> 8 word) \<Rightarrow> (usize \<Rightarrow> 8 word)" where
  "copied_bytes vaddr paddr n mem = fold (\<lambda>i mem. mem(paddr + of_nat i := mem (vaddr + of_nat i))) [0..<n] mem"

definition apart :: "usize \<Rightarrow> usize \<Rightarrow> nat \<Rightarrow> bool" where
  "apart a b n \<longleftrightarrow> unat a + n < 2 ^ 64 \<and> unat b + n < 2 ^ 64 \<and> (unat a + n \<le> unat b \<or> unat b + n \<le> unat a)"

lemma unat_byte: "unat (a :: usize) + n < 2 ^ 64 \<Longrightarrow> i \<le> n \<Longrightarrow> unat (a + of_nat i) = unat a + i"
  using unat_add_usize [of a "of_nat i"] by (simp add: unat_of_nat)

lemma copied_Suc: "copied_bytes vaddr paddr (Suc n) mem =
    (copied_bytes vaddr paddr n mem)(paddr + of_nat n := copied_bytes vaddr paddr n mem (vaddr + of_nat n))"
  by (simp add: copied_bytes_def)

lemma copied_other: "(\<And>i. i < n \<Longrightarrow> a \<noteq> paddr + of_nat i) \<Longrightarrow> copied_bytes vaddr paddr n mem a = mem a"
  by (induction n) (simp_all add: copied_bytes_def)

lemma copied_byte:
  assumes "apart vaddr paddr n" and "i < n"
  shows "copied_bytes vaddr paddr n mem (paddr + of_nat i) = mem (vaddr + of_nat i)"
  using assms
proof (induction n)
  case (Suc n)
  have bytes: "unat (vaddr + of_nat j) = unat vaddr + j" "unat (paddr + of_nat j) = unat paddr + j" if "j \<le> n" for j
    using Suc.prems(1) that by (simp_all add: apart_def unat_byte [of _ "Suc n"])
  have kept: "copied_bytes vaddr paddr n mem (vaddr + of_nat n) = mem (vaddr + of_nat n)"
  proof (rule copied_other)
    fix j assume "j < n"
    then have "unat (vaddr + of_nat n) \<noteq> unat (paddr + of_nat j)"
      using Suc.prems(1) bytes by (auto simp: apart_def)
    then show "vaddr + of_nat n \<noteq> paddr + of_nat j" by metis
  qed
  show ?case
  proof (cases "i = n")
    case False
    then have "unat (paddr + of_nat i) \<noteq> unat (paddr + of_nat n)" using Suc.prems(2) by (simp add: bytes)
    then have "paddr + of_nat i \<noteq> paddr + (of_nat n :: usize)" by metis
    moreover have "apart vaddr paddr n" using Suc.prems(1) by (auto simp: apart_def)
    ultimately show ?thesis using Suc False by (simp add: copied_bytes_def)
  qed (use kept in \<open>simp add: copied_bytes_def\<close>)
qed simp

lemma share_bytes_append: "share_bytes vaddr (xs @ ys) sp g =
    (case share_bytes vaddr xs sp g of (Ok sp, h) \<Rightarrow> share_bytes vaddr ys sp h | r \<Rightarrow> r)"
  by (induction xs arbitrary: sp g) (simp_all add: ret_def sbind_lift split: result.split)

lemma share_bytes_run:
  assumes "unat vaddr + n < 2 ^ 64" and "unat (base_paddr sp) + unat (scratch_position sp) + n < 2 ^ 64"
  shows "share_bytes vaddr [0..<n] sp g = (Ok (sp\<lparr>scratch_position := scratch_position sp + of_nat n\<rparr>),
    g\<lparr>guest_memory := copied_bytes vaddr (base_paddr sp + scratch_position sp) n (guest_memory g)\<rparr>)"
  using assms
proof (induction n)
  case (Suc n)
  have n: "unat (of_nat n :: usize) = n" using Suc.prems(1) by (simp add: unat_of_nat)
  have p: "unat (scratch_position sp + of_nat n) = unat (scratch_position sp) + n"
    using Suc.prems(2) by (simp add: unat_byte [of _ "Suc n"])
  show ?case
    using Suc by (simp add: share_bytes_append sbind_lift add_usize_def n p copy_byte_def copied_Suc ret_def add.assoc, simp add: fun_upd_def)
qed (simp add: ret_def copied_bytes_def)

lemma write_back_run:
  assumes "unat paddr + i < 2 ^ 64" and "unat (translation_vaddr x) + i < 2 ^ 64"
  shows "write_back paddr i x g = (Ok (), copy_byte (paddr + of_nat i) (translation_vaddr x + of_nat i) g)"
  using assms by (simp add: write_back_def sbind_lift add_usize_def unat_of_nat)

lemma copy_byte_again: "copy_byte a b (copy_byte a b g) = copy_byte a b g"
  by (simp add: copy_byte_def)

text \<open>Writing the same byte back once or as often as the buffer is long makes no difference.\<close>

lemma write_back_repeated:
  assumes "unat paddr + i < 2 ^ 64" and "unat (translation_vaddr x) + i < 2 ^ 64" and "0 < n"
  shows "for_each (\<lambda>_. write_back paddr i x) [0..<n] g =
    (Ok (), copy_byte (paddr + of_nat i) (translation_vaddr x + of_nat i) g)"
proof -
  have "for_each (\<lambda>_. write_back paddr i x) is (copy_byte (paddr + of_nat i) (translation_vaddr x + of_nat i) g)
      = (Ok (), copy_byte (paddr + of_nat i) (translation_vaddr x + of_nat i) g)" for "is" :: "nat list"
    by (induction "is") (simp_all add: ret_def sbind_def write_back_run [OF assms(1,2)] copy_byte_again)
  then show ?thesis
    using assms by (simp add: upt_conv_Cons sbind_def write_back_run)
qed

lemma unshare_skips:
  assumes "paddr \<notin> translation_paddr ` set xs"
  shows "unshare_translations paddr i (xs @ ys) r = unshare_translations paddr (i + length xs) ys r"
  using assms by (induction xs arbitrary: i) auto

lemma unshare_last:
  assumes "SCRATCH_PAGE g = Some sp" and "buffer_translations sp = xs @ [x]"
    and "paddr \<notin> translation_paddr ` set xs" and "translation_paddr x = paddr" and "0 < translation_len x"
    and "unat paddr + length xs < 2 ^ 64" and "unat (translation_vaddr x) + length xs < 2 ^ 64"
  shows "hal_unshare paddr g = (Ok (), put_scratch_page (sp\<lparr>buffer_translations := xs\<rparr>)
    (copy_byte (paddr + of_nat (length xs)) (translation_vaddr x + of_nat (length xs)) g))"
  using assms write_back_repeated [of paddr "length xs" x "unat (translation_len x)" g]
  by (simp add: hal_unshare_def unshare_skips sbind_def ret_def word_less_nat_alt)

lemma hal_share_run:
  assumes "SCRATCH_PAGE g = Some sp" and "\<not> (dma_start \<le> vaddr \<and> vaddr < dma_end)"
    and "unat vaddr + unat len < 2 ^ 64"
    and "unat (base_paddr sp) + unat (scratch_position sp) + unat len < 2 ^ 64"
  shows "hal_share dma_start dma_end vaddr len g = (Ok (base_paddr sp + scratch_position sp),
    put_scratch_page (sp\<lparr>buffer_translations := buffer_translations sp @ [\<lparr>translation_vaddr = vaddr,
          translation_paddr = base_paddr sp + scratch_position sp, translation_position = scratch_position sp,
          translation_len = len\<rparr>], scratch_position := scratch_position sp + len\<rparr>)
      (g\<lparr>guest_memory := copied_bytes vaddr (base_paddr sp + scratch_position sp) (unat len) (guest_memory g)\<rparr>))"
  using assms
  by (auto simp add: hal_share_def sbind_lift unwrap_option_def add_usize_def Let_def sbind_def share_bytes_run)

section \<open>Properties\<close>

text \<open>C32: Allocating memory for the block device shares every page of it: a successful \<^verbatim>\<open>dma_alloc\<close> returns the next
  free address, advances \<^verbatim>\<open>DMA_PADDR\<close> past the pages, and makes one call per page, in order. When such a call
  traps from the confidential VM, the monitor decodes it as a request to share exactly that page, remembers the
  request in the hart and asks the hypervisor for the page at that address.\<close>

theorem guest_dma_pages_reach_monitor:
  assumes "dma_alloc 4096 sbi pages gu = (Ok (paddr, vaddr), gu')"
  shows "vaddr = DMA_PADDR gu \<and> paddr = DMA_PADDR gu \<and> DMA_PADDR gu' = paddr + 4096 * pages
    \<and> length (ecalls gu') = length (ecalls gu) + unat pages
    \<and> (\<forall>i < unat pages. \<forall>page. page = paddr + of_nat i * 4096 \<longrightarrow> unat page = unat paddr + i * 4096
        \<and> (\<forall>s t f g mem. running s \<and> f CSR_MCAUSE = 10
            \<and> t = vm_runs f (ecall_registers (ecalls gu' ! (length (ecalls gu) + i)) g) mem s \<longrightarrow>
           route_confidential_flow env t =
             share_page env (Ok (\<lparr>request_virtual_address = page, request_page_size = Size4KiB\<rparr>, kvm_ace_page_in page))
               (set_assigned_hart (ConfidentialHart_store_volatile f (assigned_hart (hardware t))) t)))"
proof -
  note D = dma_alloc_Ok [OF assms]
  have page: "unat (paddr + of_nat i * 4096) = unat paddr + i * 4096" if "i < unat pages" for i
    using D(3) that unat_byte [of paddr "i * 4096" "i * 4096"] by (simp add: less_imp_le)
  have "ecalls gu' ! (length (ecalls gu) + i) = share_call (paddr + of_nat i * 4096)" if "i < unat pages" for i
    using D(4) that by (simp add: nth_append)
  then show ?thesis
    using D(1,2,4) page share_call_handled by (simp add: Let_def)
qed

definition example_guest :: guest where
  "example_guest = \<lparr>DMA_PADDR = 0x80200000, SCRATCH_PAGE = Some \<lparr>base_paddr = 0x80203000, scratch_position = 0,
     buffer_translations = []\<rparr>, guest_memory = (\<lambda>a. ucast a), ecalls = []\<rparr>"

theorem guest_dma_pages_reach_monitor_witness:
  "\<exists>gu' t. dma_alloc 4096 (\<lambda>_. (0, 0)) 2 example_guest = (Ok (0x80200000, 0x80200000), gu')
    \<and> DMA_PADDR gu' = 0x80202000 \<and> length (ecalls gu') = 2
    \<and> t = vm_runs (csrs example_calling_state) (ecall_registers (ecalls gu' ! 1) (\<lambda>_. 0)) (\<lambda>_. 0) example_calling_state
    \<and> route_confidential_flow example_environment t = share_page example_environment
        (Ok (\<lparr>request_virtual_address = 0x80201000, request_page_size = Size4KiB\<rparr>, kvm_ace_page_in 0x80201000))
        (set_assigned_hart (ConfidentialHart_store_volatile (csrs example_calling_state) (assigned_hart (hardware t))) t)"
proof -
  have two: "[0..<2] = [0, 1 :: nat]" by (simp add: upt_conv_Cons)
  obtain gu' where run: "dma_alloc 4096 (\<lambda>_. (0, 0)) 2 example_guest = (Ok (0x80200000, 0x80200000), gu')"
    by (simp add: dma_alloc_def sbind_def lift_def mul_usize_def fetch_add_DMA_PADDR_def example_guest_def
        sunwrap_def share_nth_page_def add_usize_def guest_share_page_def smap_err_def ecall_def ret_def
        NonNull_new_def unwrap_option_def two)
  have calling: "running example_calling_state" "csrs example_calling_state CSR_MCAUSE = 10"
    by (simp_all add: example_calling_state_def example_calling_hart_def running_def set_assigned_hart_def
        update_hart_state_def is_dummy_def example_hart_ids)
  note shared = guest_dma_pages_reach_monitor [OF run, of example_environment]
  have pages: "DMA_PADDR gu' = 0x80202000" "length (ecalls gu') = 2" "length (ecalls example_guest) = 0"
    using shared by (simp_all add: example_guest_def)
  let ?t = "vm_runs (csrs example_calling_state) (ecall_registers (ecalls gu' ! 1) (\<lambda>_. 0)) (\<lambda>_. 0) example_calling_state"
  have "route_confidential_flow example_environment ?t = share_page example_environment
      (Ok (\<lparr>request_virtual_address = 0x80201000, request_page_size = Size4KiB\<rparr>, kvm_ace_page_in 0x80201000))
      (set_assigned_hart (ConfidentialHart_store_volatile (csrs example_calling_state) (assigned_hart (hardware ?t))) ?t)"
    by (rule shared [THEN conjunct2, THEN conjunct2, THEN conjunct2, THEN conjunct2, rule_format, of 1 "0x80201000",
          THEN conjunct2, rule_format, of example_calling_state]) (simp_all add: calling pages(3))
  then show ?thesis using run pages by blast
qed

text \<open>C36: Sharing a buffer with the device copies all of it to the scratch page and nothing else; taking it back
  returns a single byte, whatever the device wrote. The inner loop of \<^verbatim>\<open>unshare\<close> indexes with the position of the
  translation in the table instead of the position in the buffer: it copies the same byte again and again,
  and when more buffers are shared than this one is long, the byte lands outside of the buffer.\<close>

theorem guest_buffer_returns_one_byte:
  assumes "SCRATCH_PAGE g = Some sp" and "\<not> (dma_start \<le> vaddr \<and> vaddr < dma_end)" and "0 < len"
    and paddr: "paddr = base_paddr sp + scratch_position sp" and "apart vaddr paddr (unat len)"
    and "unat (base_paddr sp) + unat (scratch_position sp) + unat len < 2 ^ 64"
    and "paddr \<notin> translation_paddr ` set (buffer_translations sp)"
    and k: "k = length (buffer_translations sp)" and "unat vaddr + k < 2 ^ 64" and "unat paddr + k < 2 ^ 64"
  shows "\<exists>g'. hal_share dma_start dma_end vaddr len g = (Ok paddr, g')
    \<and> (\<forall>i < unat len. guest_memory g' (paddr + of_nat i) = guest_memory g (vaddr + of_nat i))
    \<and> (\<forall>a. (\<forall>i < unat len. a \<noteq> paddr + of_nat i) \<longrightarrow> guest_memory g' a = guest_memory g a)
    \<and> (\<forall>mem. \<exists>g''. hal_unshare paddr (g'\<lparr>guest_memory := mem\<rparr>) = (Ok (), g'')
        \<and> guest_memory g'' = mem(vaddr + of_nat k := mem (paddr + of_nat k))
        \<and> SCRATCH_PAGE g'' = Some (sp\<lparr>scratch_position := scratch_position sp + len\<rparr>))"
proof -
  let ?x = "\<lparr>translation_vaddr = vaddr, translation_paddr = paddr, translation_position = scratch_position sp,
     translation_len = len\<rparr>"
  let ?sp = "sp\<lparr>buffer_translations := buffer_translations sp @ [?x], scratch_position := scratch_position sp + len\<rparr>"
  let ?g = "put_scratch_page ?sp (g\<lparr>guest_memory := copied_bytes vaddr paddr (unat len) (guest_memory g)\<rparr>)"
  have "hal_share dma_start dma_end vaddr len g = (Ok paddr, ?g)"
    using hal_share_run [OF assms(1,2) _ assms(6)] assms(5) unfolding paddr by (simp add: apart_def)
  moreover have "guest_memory ?g (paddr + of_nat i) = guest_memory g (vaddr + of_nat i)" if "i < unat len" for i
    using copied_byte [OF assms(5) that] by (simp add: put_scratch_page_def)
  moreover have "guest_memory ?g a = guest_memory g a" if "\<forall>i < unat len. a \<noteq> paddr + of_nat i" for a
    using copied_other [of "unat len" a paddr] that by (simp add: put_scratch_page_def)
  moreover have "hal_unshare paddr (?g\<lparr>guest_memory := mem\<rparr>) = (Ok (), put_scratch_page
      (?sp\<lparr>buffer_translations := buffer_translations sp\<rparr>)
      (copy_byte (paddr + of_nat k) (vaddr + of_nat k) (?g\<lparr>guest_memory := mem\<rparr>)))" for mem
    using unshare_last [of "?g\<lparr>guest_memory := mem\<rparr>" ?sp "buffer_translations sp" ?x paddr] assms(3,7,9,10) k
    by (simp add: put_scratch_page_def)
  ultimately show ?thesis
    by (intro exI [of _ ?g]) (simp add: put_scratch_page_def copy_byte_def)
qed

theorem guest_buffer_returns_one_byte_witness:
  "\<exists>g' g''. hal_share 0x80100000 0x80200000 0x80000100 4 example_guest = (Ok 0x80203000, g')
    \<and> guest_memory g' 0x80203003 = 3
    \<and> hal_unshare 0x80203000 (g'\<lparr>guest_memory := \<lambda>a. if a < 0x80203000 then 1 else 9\<rparr>) = (Ok (), g'')
    \<and> guest_memory g'' 0x80000100 = 9 \<and> guest_memory g'' 0x80000101 = 1"
proof -
  let ?sp = "\<lparr>base_paddr = 0x80203000, scratch_position = 0, buffer_translations = []\<rparr>"
  obtain g' where g': "hal_share 0x80100000 0x80200000 0x80000100 4 example_guest = (Ok 0x80203000, g')"
      "\<forall>i < unat (4 :: usize). guest_memory g' (0x80203000 + of_nat i) = guest_memory example_guest (0x80000100 + of_nat i)"
    and returned: "\<forall>mem. \<exists>g''. hal_unshare 0x80203000 (g'\<lparr>guest_memory := mem\<rparr>) = (Ok (), g'')
        \<and> guest_memory g'' = mem(0x80000100 := mem 0x80203000) \<and> SCRATCH_PAGE g'' = Some (?sp\<lparr>scratch_position := 4\<rparr>)"
    using guest_buffer_returns_one_byte [of example_guest ?sp "0x80100000" "0x80000100" "0x80200000" 4 "0x80203000" 0]
    by (auto simp: example_guest_def apart_def)
  from returned [rule_format, of "\<lambda>a. if a < 0x80203000 then 1 else 9"] obtain g'' where "hal_unshare 0x80203000 (g'\<lparr>guest_memory := \<lambda>a. if a < 0x80203000 then 1 else 9\<rparr>) = (Ok (), g'')"
      "guest_memory g'' = (\<lambda>a. if a < 0x80203000 then 1 else 9)(0x80000100 := 9)"
    by fastforce
  then show ?thesis
    using g' g'(2) [rule_format, of 3] by (simp add: example_guest_def)
qed

end
