(* ===== verification/Spec2Isabelle.thy ===== *)
theory Spec2Isabelle
  imports VM_Isolation Flow_Properties Guest_Calls Inter_Hart Promotion Initialization Allocator_Loops
    Scratch_Registers Panic_Handler Guest_Program
begin

text \<open>
  A model of the ACE security monitor for RISC-V (\<^verbatim>\<open>src/security-monitor\<close>) and of its correctness.

  \<^bold>\<open>The program.\<close> The monitor runs in machine mode below an untrusted hypervisor. At boot it splits physical
  memory into a non-confidential and a confidential part and keeps the second for itself. A virtual machine
  asks to be promoted to a confidential VM; the monitor copies its page tables and pages into confidential
  memory. The hypervisor then only schedules the harts of the confidential VM: it asks the monitor to resume a
  hart, the monitor loads the hart's state and opens the confidential memory; every trap of the VM comes back to the
  monitor, which either serves it or hands a part of the VM's state that the VM declassifies (a \<^emph>\<open>transformation\<close>)
  to the hypervisor after it restored the hypervisor's state and closed the confidential memory. The code is
  a finite state machine with two halves, the confidential and the non-confidential flow.

  \<^bold>\<open>Theories and sources\<close> (paths under \<^verbatim>\<open>security-monitor\<close>):
  \<^item> \<^verbatim>\<open>Ace_Prelude\<close>, \<^verbatim>\<open>Errors\<close>: results with errors and panics, stateful computations, checked arithmetic; \<^verbatim>\<open>src/error.rs\<close>.
  \<^item> \<^verbatim>\<open>Pointers\<close>: \<^verbatim>\<open>rust-crates/pointers_utility\<close>. \<^verbatim>\<open>Device_Tree\<close>: \<^verbatim>\<open>rust-crates/flattened_device_tree\<close>.
  \<^item> \<^verbatim>\<open>Page_Sizes\<close>, \<^verbatim>\<open>Memory_Layout\<close>: \<^verbatim>\<open>core/memory_layout\<close> and the page sizes of the MMU.
  \<^item> \<^verbatim>\<open>Pages\<close>, \<^verbatim>\<open>Page_Allocator\<close>, \<^verbatim>\<open>Allocator_Loops\<close>, \<^verbatim>\<open>Page_Ownership\<close>: \<^verbatim>\<open>core/page_allocator\<close>; page tokens, the
    allocator, its loops as the source writes them and the ownership argument (locale \<open>page_provider\<close>).
  \<^item> \<^verbatim>\<open>Heap_Allocator\<close>: \<^verbatim>\<open>core/heap_allocator\<close>.
  \<^item> \<^verbatim>\<open>Paging\<close>, \<^verbatim>\<open>Page_Table\<close>, \<^verbatim>\<open>Page_Table_Inv\<close>, \<^verbatim>\<open>Page_Table_Copy\<close>, \<^verbatim>\<open>Page_Table_Share\<close>, \<^verbatim>\<open>Isolation\<close>:
    \<^verbatim>\<open>core/memory_protector/mmu\<close>; geometry and entries, tables in memory and as a tree, the copy of the
    hypervisor's tables, sharing of pages, and the hardware walk as the reference.
  \<^item> \<^verbatim>\<open>Registers\<close>, \<^verbatim>\<open>Sbi\<close>: \<^verbatim>\<open>core/architecture\<close>; registers, saved state, SBI calls, trap causes, decoding.
  \<^item> \<^verbatim>\<open>Transformations\<close>: \<^verbatim>\<open>core/transformations\<close>. \<^verbatim>\<open>Memory_Protector\<close>: \<^verbatim>\<open>core/memory_protector\<close> (PMP, hgatp, fences).
  \<^item> \<^verbatim>\<open>Confidential_Hart\<close>, \<^verbatim>\<open>Hardware_Hart\<close>, \<^verbatim>\<open>Control_Data\<close>: \<^verbatim>\<open>core/control_data\<close> and \<^verbatim>\<open>core/interrupt_controller\<close>.
  \<^item> \<^verbatim>\<open>Flows\<close>: \<^verbatim>\<open>confidential_flow\<close> and \<^verbatim>\<open>non_confidential_flow\<close>; routing of traps and every handler.
  \<^item> \<^verbatim>\<open>Context_Switch\<close>: the assembly of \<^verbatim>\<open>confidential_flow/context_switch\<close> and \<^verbatim>\<open>non_confidential_flow/context_switch\<close>
    as lists of instructions with their semantics. \<^verbatim>\<open>Scratch_Registers\<close>: the scratch registers it relies on, for every handler.
  \<^item> \<^verbatim>\<open>Panic_Handler\<close>: \<^verbatim>\<open>core/panic.rs\<close> and the console of \<^verbatim>\<open>debug.rs\<close>.
  \<^item> \<^verbatim>\<open>Initialization\<close>: \<^verbatim>\<open>core/initialization\<close>.
  \<^item> \<^verbatim>\<open>Frames\<close>, \<^verbatim>\<open>Assignment\<close>, \<^verbatim>\<open>Flow_Invariants\<close>, \<^verbatim>\<open>Machine\<close>, \<^verbatim>\<open>Flow_Properties\<close>, \<^verbatim>\<open>Inter_Hart\<close>, \<^verbatim>\<open>Promotion\<close>,
    \<^verbatim>\<open>Guest_Calls\<close>, \<^verbatim>\<open>Memory_Ownership\<close>, \<^verbatim>\<open>VM_Isolation\<close>: proofs about the composition. \<^verbatim>\<open>Frames\<close> is a small logic of partial correctness
    (locale \<open>transition\<close>, interpreted for each relation that a step keeps); \<^verbatim>\<open>Assignment\<close> has the invariant of the
    control data; \<^verbatim>\<open>Flow_Invariants\<close> shows it for every handler; \<^verbatim>\<open>Machine\<close> for all harts together.
    \<^verbatim>\<open>Memory_Ownership\<close> does the same for the page tables of all VMs, \<^verbatim>\<open>VM_Isolation\<close> adds the hardware walk.
  \<^item> \<^verbatim>\<open>Guest_Program\<close>: the bare-metal guest, \<^verbatim>\<open>src/confidential-vms/baremetal/src\<close>; the calls it makes, how they reach the
    handlers of the monitor, and the buffers it shares with its block device.
  \<^item> This theory joins the initialization with the machine.

  \<^bold>\<open>State and effects.\<close> Records extend each other from the memory (\<open>mem_state\<close>) over the allocator, the CSRs of
  the physical hart, the hart's \<^verbatim>\<open>HardwareHart\<close> and the global variables (\<open>monitor\<close>) to the state at boot
  (\<open>boot\<close>). Every operation maps a state to a result and a state; the result is a value, an error or a panic, and
  the state is kept on an error. The monitor is built with overflow checks, so arithmetic on \<^verbatim>\<open>usize\<close>
  panics on overflow unless the code says otherwise. All loops are total functions with termination proofs; no
  fuel is used. The \<^verbatim>\<open>while\<close> loops of the page allocator are modelled a second time as partial functions, where \<open>None\<close>
  means that the loop does not return, and shown to return what the total functions compute. The one loop that
  waits for another hart (\<^verbatim>\<open>ace_setup_this_hart\<close>) returns \<open>None\<close> while it waits; the endless loop of the panic handler is
  taken after any number of rounds.

  \<^bold>\<open>What the theorems show.\<close>
  \<^item> Isolation. In every state of every run of a machine with any number of harts, the PMP entry of the monitor denies a hart that executes
    the hypervisor the confidential memory, once the entry is in use on that hart: from the first time it executes a confidential hart, since the
    setup does not switch the entry on (\<^verbatim>\<open>Memory_Protector\<close> has the theorem). A hart that executes a confidential VM translates
    through that VM's page table (\<^verbatim>\<open>Machine\<close>). The pages of different VMs never overlap, and every confidential
    address the hardware reaches for a VM belongs to this VM alone, up to the first share over a huge page (\<^verbatim>\<open>VM_Isolation\<close>; \<^verbatim>\<open>Isolation\<close> for the moment
    of promotion and for what such a share exposes). Initialization leads to a machine these theorems start from (below).
  \<^item> Information flow. What the hypervisor sees after an exit depends on the VM only through the transformation, except for
    five control registers that are listed (\<^verbatim>\<open>Flow_Properties\<close>); a transformation changes only the registers it declares (\<^verbatim>\<open>Confidential_Hart\<close>).
  \<^item> Ownership. Pages and heap blocks have one owner at most under any sequence of calls, boot divides the
    confidential memory between heap, page allocator and stacks without overlap, and copying a hostile page table
    conserves ownership.
  \<^item> Context switches. From boot on, \<^verbatim>\<open>mscratch\<close> and \<^verbatim>\<open>sscratch\<close> point to the dump areas of the hart whenever the assembly
    uses them, and the assembly then stores and loads exactly the registers with which the model starts and ends an
    invocation of the monitor (below; \<^verbatim>\<open>Context_Switch\<close> has the round trip).
  \<^item> Panics. The panic handler erases the confidential memory and nothing else (\<^verbatim>\<open>Panic_Handler\<close>).
  \<^item> Functional behaviour of the components, termination of the allocator's loops, round trips of encodings, comparison of software and hardware
    translation, success of allocation and of context switches, the lifecycle of harts, delivery of requests
    between harts, and what promotion registers.
  \<^item> Theorems of kind error describe behaviour that the code does not mean: each comes with a concrete run.

  \<^bold>\<open>Assumptions.\<close> OpenSBI's trap handler leaves the PMP registers of the monitor alone and returns with the
  \<^verbatim>\<open>mscratch\<close> it was called with (\<open>opensbi_keeps_protection\<close>, \<open>opensbi_keeps_mscratch\<close>); the hypervisor cannot write
  machine-mode CSRs, and a VM cannot write \<^verbatim>\<open>hgatp\<close> and \<^verbatim>\<open>sscratch\<close> (privileged architecture); \<^verbatim>\<open>#[repr(C)]\<close> lays out the
  fields of \<^verbatim>\<open>HardwareHart\<close> in their order (\<open>repr_C\<close>); firmware uses neither of the first two PMP entries before the monitor starts, so they are off as after
  reset or as the monitor left them (\<open>pmp_available\<close>; the comment of \<^verbatim>\<open>pmp/mod.rs\<close> and the patch of OpenSBI under \<^verbatim>\<open>platform\<close> say so); \<open>booted\<close>, where
  \<^verbatim>\<open>Machine\<close> starts, has them in use on all harts; one invocation of the monitor runs to
  its end before another hart's invocation touches the shared data; for the translation theorem also that VMs access
  memory through the page tables in memory (no stale TLB entry), and up to the first state in which a page is shared on top of a huge page (the
  code does not prevent it, see the theorem on sharing over a huge-page leaf). The code takes locks per operation and an
  invocation takes several, so this is coarser than the hardware; a panic stops the machine.

  \<^bold>\<open>Not modelled.\<close> The text that \<^verbatim>\<open>debug!\<close> formats (of the output only the console is modelled), the
  generated OpenSBI bindings, the floating-point registers of the processor (the code never saves or restores them), the vector registers (a placeholder without uses), and of the bare-metal guest the
  order of its tests, its UART, its lock and its second hart, which call the crates \<^verbatim>\<open>sbi\<close>, \<^verbatim>\<open>riscv\<close> and assembly. What other harts do
  while one hart panics is not modelled either: the handler does not stop them. Third-party
  crates (\<^verbatim>\<open>fdt_rs\<close>, \<^verbatim>\<open>riscv_decode\<close>) and OpenSBI are parameters, fields of \<open>environment\<close> or arguments.
\<close>

section \<open>From initialization to the machine\<close>

text \<open>The machine after boot: the boot hart has run \<^verbatim>\<open>init_security_monitor\<close> to the state \<open>t\<close>, and each hart of the
  device tree has run \<^verbatim>\<open>ace_setup_this_hart\<close> from the control registers \<open>firmware n\<close> that its firmware left.
  Numbers without a hart have the idle placeholder \<open>absent n\<close>.\<close>

definition hart_after_setup :: "environment \<Rightarrow> csr_file \<Rightarrow> boot \<Rightarrow> local_hart \<Rightarrow> local_hart" where
  "hart_after_setup env f t absent = (case ace_setup_this_hart env (t\<lparr>csrs := f\<rparr>) of
      Some (Ok _, u) \<Rightarrow> \<lparr>local_csrs = csrs u, local_fences = fences u, local_hardware = hardware u\<rparr>
    | _ \<Rightarrow> absent)"

definition machine_after_boot :: "environment \<Rightarrow> (usize \<Rightarrow> csr_file) \<Rightarrow> (usize \<Rightarrow> local_hart) \<Rightarrow> boot \<Rightarrow> machine" where
  "machine_after_boot env firmware absent t =
     \<lparr>local_harts = (\<lambda>n. hart_after_setup env (firmware n) t (absent n)), global = monitor.truncate t\<rparr>"

definition idle_hart :: "environment \<Rightarrow> usize \<Rightarrow> local_hart \<Rightarrow> bool" where
  "idle_hart env n h \<longleftrightarrow> assigned_hart (local_hardware h) = dummy (enter_from_confidential_hart_asm env) n
     \<and> protection_ok (layout env) False (local_csrs h)"

lemma truncate_simps:
  "CONTROL_DATA (monitor.truncate t) = CONTROL_DATA t" "free_in (monitor.truncate t) = free_in t"
  "alloc_inv l (monitor.truncate t) = alloc_inv l t"
  by (simp_all add: monitor.defs free_in_def alloc_inv_def fun_eq_iff)

lemma hart_after_setup_idle:
  assumes "HARTS_STATES t = Some hs" "MEMORY_LAYOUT t = Some (layout env)" "list_all2 (fresh_hart env) [0..<length hs] hs"
    and "read_csr f CSR_MHARTID = n" "pmp_available f" and "unat n < length hs"
  shows "idle_hart env n (hart_after_setup env f t absent)"
    and "hart_set_up env n f (local_csrs (hart_after_setup env f t absent)) (local_hardware (hart_after_setup env f t absent))"
proof -
  let ?s = "t\<lparr>csrs := f\<rparr>"
  have "fresh_hart env (unat n) (hs ! unat n)" using list_all2_nthD [OF assms(3), of "unat n"] assms(6) by simp
  moreover have "HARTS_STATES ?s = Some hs" "MEMORY_LAYOUT ?s = Some (layout env)"
    "read_csr (csrs ?s) CSR_MHARTID = n" "pmp_available (csrs ?s)" using assms by simp_all
  ultimately obtain u where u: "ace_setup_this_hart env ?s = Some (Ok (), u)" "protection_ok (layout env) False (csrs u)"
    "assigned_hart (hardware u) = dummy (enter_from_confidential_hart_asm env) n" "hart_set_up env n f (csrs u) (hardware u)"
    using setup_Ok [of ?s hs "layout env" n env] setup_sets_hart_up [of ?s hs env n] assms(6) by fastforce
  then show "idle_hart env n (hart_after_setup env f t absent)"
    "hart_set_up env n f (local_csrs (hart_after_setup env f t absent)) (local_hardware (hart_after_setup env f t absent))"
    by (simp_all add: hart_after_setup_def idle_hart_def)
qed

lemma initialization_boots:
  assumes init: "init_security_monitor parse size_of_a_page_token env address s = (Ok (), t)"
    and fresh: "MEMORY_LAYOUT s = None" "HEAP_ALLOCATOR s = LinkedListAllocator_empty"
      "CONTROL_DATA s = None" "HARTS_STATES s = None"
    and l: "MEMORY_LAYOUT t = Some (layout env)"
    and firmware: "\<And>n. read_csr (firmware n) CSR_MHARTID = n \<and> pmp_available (firmware n)"
    and absent: "\<And>n. idle_hart env n (absent n)"
  defines "m \<equiv> machine_after_boot env firmware absent t"
  shows "layout_wf (layout env)" "idle_machine env m" "alloc_inv (layout env) (global m)" "exclusive (free_in (global m))"
    and "HARTS_STATES t = Some hs' \<Longrightarrow> unat n < length hs' \<Longrightarrow>
      hart_set_up env n (firmware n) (csrs (view_of m n)) (hardware (view_of m n))"
proof -
  obtain fdt hs where t: "layout_wf (layout env)" "alloc_inv (layout env) t" "CONTROL_DATA t = Some ControlData_new"
    "HARTS_STATES t = Some hs" "list_all2 (fresh_hart env) [0..<length (harts fdt)] hs"
    and free: "\<forall>x. heap_owned (HEAP_ALLOCATOR t, []) x + free_in t x + owned (map stack hs) x
        \<le> (if unat (confidential_memory_start (layout env)) \<le> x \<and> x < unat (confidential_memory_end (layout env)) then 1 else 0)"
    using boot_Ok [OF init fresh] l by auto
  then show "layout_wf (layout env)" by simp
  have hs: "list_all2 (fresh_hart env) [0..<length hs] hs" using t(5) list_all2_lengthD [OF t(5)] by simp
  have "idle_hart env n (hart_after_setup env (firmware n) t (absent n))" for n
  proof (cases "unat n < length hs")
    case True
    then show ?thesis using hart_after_setup_idle(1) [OF t(4) l hs] firmware by blast
  next
    case False
    then have "hart_after_setup env (firmware n) t (absent n) = absent n"
      using firmware [of n] t(4) by (simp add: hart_after_setup_def ace_setup_this_hart_def Let_def)
    then show ?thesis using absent by simp
  qed
  then show "idle_machine env m"
    using t(3) by (simp add: idle_machine_def m_def machine_after_boot_def idle_hart_def truncate_simps)
  show "alloc_inv (layout env) (global m)" using t(2) by (simp add: m_def machine_after_boot_def truncate_simps)
  have "free_in t x \<le> 1" for x using free [rule_format, of x] by (simp split: if_splits)
  then show "exclusive (free_in (global m))" by (simp add: exclusive_def m_def machine_after_boot_def truncate_simps)
  show "hart_set_up env n (firmware n) (csrs (view_of m n)) (hardware (view_of m n))"
    if "HARTS_STATES t = Some hs'" "unat n < length hs'"
    using hart_after_setup_idle(2) [OF t(4) l hs, of "firmware n" n] firmware [of n] that t(4)
    by (simp add: m_def machine_after_boot_def)
qed

text \<open>C10: From initialization to isolation. Suppose the monitor initializes itself and every hart of the device
  tree sets itself up, from control registers in which the firmware left the first two PMP entries alone (off, as after reset,
  or as the monitor uses them). Then the machine meets the invariant from which its runs isolate the confidential VMs,
  the layout is well-formed, and each hart has its entry point, undelegated calls, the \<^verbatim>\<open>mscratch\<close> of the monitor (OpenSBI's is saved), and
  the PMP range of the confidential memory without permissions. The modes of the PMP entries are those of the firmware, so accesses
  of the hypervisor to the confidential memory are denied at this point only where entry 1 was on already; from reset
  no entry matches until the hart executes its first confidential hart.\<close>

theorem initialization_establishes_isolation:
  assumes "init_security_monitor parse size_of_a_page_token env address s = (Ok (), t)"
    and "MEMORY_LAYOUT s = None" and "HEAP_ALLOCATOR s = LinkedListAllocator_empty"
    and "CONTROL_DATA s = None" and "HARTS_STATES s = None" and "MEMORY_LAYOUT t = Some (layout env)"
    and "\<And>n. read_csr (firmware n) CSR_MHARTID = n \<and> pmp_available (firmware n)"
    and "\<And>n. idle_hart env n (absent n)" and "m = machine_after_boot env firmware absent t"
  shows "layout_wf (layout env) \<and> isolated_inv (layout env) m
    \<and> (\<forall>n hs. HARTS_STATES t = Some hs \<and> unat n < length hs
        \<longrightarrow> hart_set_up env n (firmware n) (csrs (view_of m n)) (hardware (view_of m n))
          \<and> (\<forall>a. pmp_decision (csrs (view_of m n)) a =
               (if pmp_in_use (firmware n) \<and> in_confidential_range (layout env) a then Some (False, False, False) else None)))"
proof -
  note boot = initialization_boots [OF assms(1-8), folded assms(9)]
  have inv: "isolated_inv (layout env) m" by (rule idle_machine_isolated [OF boot(2-4)])
  have "pmp_decision (csrs (view_of m n)) a =
      (if pmp_in_use (firmware n) \<and> in_confidential_range (layout env) a then Some (False, False, False) else None)"
    if "HARTS_STATES t = Some hs" "unat n < length hs" for n hs a
  proof -
    have "hart_set_up env n (firmware n) (csrs (view_of m n)) (hardware (view_of m n))" using boot(5) that .
    then have "pmp_in_use (csrs (view_of m n)) = pmp_in_use (firmware n)" "\<not> running (view_of m n)"
      by (simp_all add: hart_set_up_def running_def is_dummy_def example_hart_ids)
    then show ?thesis
      using closed_memory [OF _ _ layout_wf_aligned [OF boot(1)], of m n a] inv
      by (simp add: isolated_inv_def in_confidential_range_def)
  qed
  then show ?thesis using boot(1,5) inv by blast
qed

text \<open>The state of a hart that was set up, and with it the scratch register the context switches need.\<close>

lemma hart_after_setup_state:
  assumes "init_security_monitor parse size_of_a_page_token env address s = (Ok (), t)"
    and "MEMORY_LAYOUT s = None" "HEAP_ALLOCATOR s = LinkedListAllocator_empty" "CONTROL_DATA s = None" "HARTS_STATES s = None"
    and l: "MEMORY_LAYOUT t = Some (layout env)" and hs: "HARTS_STATES t = Some hs" and n: "unat n < length hs"
    and firmware: "read_csr (firmware n) CSR_MHARTID = n"
    and v: "v = view_of (machine_after_boot env firmware absent t) n"
  shows "\<not> running v" "csrs v CSR_MSCRATCH = hardware_hart_address env n"
    "hypervisor_state v = HartArchitecturalState_empty n"
    "assigned_hart (hardware v) = dummy (enter_from_confidential_hart_asm env) n"
proof -
  obtain fdt where "list_all2 (fresh_hart env) [0..<length (harts fdt)] hs"
    using boot_Ok [OF assms(1-5)] hs by auto
  then have "fresh_hart env (unat n) (hs ! unat n)"
    using list_all2_nthD2 [of _ _ hs "unat n"] list_all2_lengthD n by fastforce
  then obtain u where "ace_setup_this_hart env (t\<lparr>csrs := firmware n\<rparr>) = Some (Ok (), u)" "\<not> running u"
    "csrs u CSR_MSCRATCH = hardware_hart_address env n" "hypervisor_state u = HartArchitecturalState_empty n"
    "assigned_hart (hardware u) = dummy (enter_from_confidential_hart_asm env) n"
    using setup_Ok [of "t\<lparr>csrs := firmware n\<rparr>" hs "layout env" n env] l hs n firmware by auto
  then show "\<not> running v" "csrs v CSR_MSCRATCH = hardware_hart_address env n"
    "hypervisor_state v = HartArchitecturalState_empty n"
    "assigned_hart (hardware v) = dummy (enter_from_confidential_hart_asm env) n"
    by (simp_all add: v machine_after_boot_def hart_after_setup_def running_def)
qed

text \<open>C6: From initialization to the context switches. In every state the machine can reach after boot, on every
  hart of the device tree, the assembly does what the model of the machine takes for granted: if
  the hart executes a confidential VM, the entry routine stores its registers in the dump area of the confidential
  hart (to which \<^verbatim>\<open>sscratch\<close> points) and starts the confidential flow on the stack of the monitor, and the exit routine
  loads them from there; if it executes the hypervisor, the same holds with \<^verbatim>\<open>mscratch\<close> and the hypervisor's dump area.
  The assumptions on the processor \<open>c\<close>: its CSRs are those of the hart, and its memory holds the \<^verbatim>\<open>HardwareHart\<close>.\<close>

theorem context_switches_work_from_boot_on:
  assumes "init_security_monitor parse size_of_a_page_token env address s = (Ok (), t)"
    and "MEMORY_LAYOUT s = None" and "HEAP_ALLOCATOR s = LinkedListAllocator_empty"
    and "CONTROL_DATA s = None" and "HARTS_STATES s = None" and "MEMORY_LAYOUT t = Some (layout env)"
    and "HARTS_STATES t = Some hs" and "unat n < length hs"
    and "read_csr (firmware n) CSR_MHARTID = n"
    and "opensbi_keeps_protection env" and "opensbi_keeps_mscratch env"
    and "(machine_step env)\<^sup>*\<^sup>* (machine_after_boot env firmware absent t) m'"
    and "repr_C y" and "fits y (hardware_hart_address env n)"
    and "confidential_hart_address env n = confidential_area y (hardware_hart_address env n)"
    and "csr_registers c = csrs (view_of m' n)"
    and "holds_hart y (hardware_hart_address env n) (hardware (view_of m' n)) (words c)"
  shows "csr_registers c CSR_MSCRATCH = hardware_hart_address env n
    \<and> (if running (view_of m' n) then confidential_switch_refines y c (view_of m' n)
       else hypervisor_switch_refines y c (view_of m' n))"
proof -
  have "scratch_ok env n (view_of (machine_after_boot env firmware absent t) n)"
    using hart_after_setup_state(1-3) [where firmware = firmware, OF assms(1-9) refl]
    by (simp add: scratch_ok_def HartArchitecturalState_empty_def)
  then have ok: "scratch_ok env n (view_of m' n)" by (rule machine_steps_scratch [OF assms(12,10,11)])
  then have base: "csr_registers c CSR_MSCRATCH = hardware_hart_address env n"
    using assms(16) by (simp add: scratch_ok_def)
  have "csr_registers c CSR_SSCRATCH = confidential_area y (csr_registers c CSR_MSCRATCH)" if "running (view_of m' n)"
    using ok that base assms(15,16) by (simp add: scratch_ok_def)
  with base hypervisor_switch [of y c "view_of m' n"] confidential_switch [of y c "view_of m' n"] assms(13,14,17)
  show ?thesis by simp
qed

definition example_boot_environment :: environment where
  "example_boot_environment = example_environment\<lparr>layout := example_boot_layout\<rparr>"

definition example_firmware :: "usize \<Rightarrow> csr_file" where
  "example_firmware n = (\<lambda>_. 0)(CSR_MHARTID := n)"

definition example_absent :: "usize \<Rightarrow> local_hart" where
  "example_absent n = \<lparr>local_csrs = (\<lambda>_. 0)(
       CSR_PMPADDR0 := drop_bit 2 (confidential_memory_start example_boot_layout),
       CSR_PMPADDR1 := drop_bit 2 (confidential_memory_end example_boot_layout)),
     local_fences = [], local_hardware = example_hardware_hart n\<rparr>"

text \<open>The PMP entries are in their reset state.\<close>

lemma example_firmware_ok: "read_csr (example_firmware n) CSR_MHARTID = n \<and> pmp_available (example_firmware n)"
  using pmp_available_reset [of "example_firmware n"] by (simp add: example_firmware_def read_csr_def)

lemma example_absent_ok: "idle_hart example_boot_environment n (example_absent n)"
  using pmp_available_reset [of "local_csrs (example_absent n)"]
  by (simp add: idle_hart_def example_absent_def example_hardware_hart_def example_boot_environment_def
      example_environment_def protection_ok_def pmp_region_def pmp_closed_def)

theorem initialization_establishes_isolation_witness:
  "\<exists>t m. init_security_monitor (\<lambda>_. Some example_device_tree) 16 example_boot_environment 0x1000 example_boot = (Ok (), t)
     \<and> m = machine_after_boot example_boot_environment example_firmware example_absent t
     \<and> example_firmware 0 CSR_PMPCFG0 = 0 \<and> isolated_inv example_boot_layout m
     \<and> csrs (view_of m 0) CSR_MSCRATCH = hardware_hart_address example_boot_environment 0
     \<and> pmp_region (csrs (view_of m 0)) (confidential_memory_start example_boot_layout) (confidential_memory_end example_boot_layout)
     \<and> pmp_decision (csrs (view_of m 0)) 0x90001000 = None"
proof -
  let ?env = "example_boot_environment"
  obtain t h where t: "init_security_monitor (\<lambda>_. Some example_device_tree) 16 ?env 0x1000 example_boot = (Ok (), t)"
    "MEMORY_LAYOUT t = Some (layout ?env)" and hs: "HARTS_STATES t = Some [h]"
    using example_boot_run [of ?env] by (auto simp: example_boot_environment_def)
  let ?m = "machine_after_boot ?env example_firmware example_absent t"
  have layout: "layout ?env = example_boot_layout" by (simp add: example_boot_environment_def)
  have reset: "example_firmware 0 CSR_PMPCFG0 = 0" by (simp add: example_firmware_def)
  note result = initialization_establishes_isolation [OF t(1) example_boot_simps(1-4) t(2) example_firmware_ok example_absent_ok refl]
  then have "isolated_inv example_boot_layout ?m" by (simp add: layout)
  moreover from result hs have "hart_set_up ?env 0 (example_firmware 0) (csrs (view_of ?m 0)) (hardware (view_of ?m 0))
      \<and> pmp_decision (csrs (view_of ?m 0)) 0x90001000 = None"
    using pmp_available_reset [of "example_firmware 0"] reset by (auto dest!: spec [of _ "0 :: usize"])
  ultimately show ?thesis using t(1) reset layout by (auto simp: hart_set_up_def)
qed

lemma example_hart_gprs:
  "gprs (HartArchitecturalState_empty n) = GeneralPurposeRegisters_empty"
  "gprs (confidential_hart_state (dummy entry n)) = GeneralPurposeRegisters_empty"
  by (simp_all add: HartArchitecturalState_empty_def dummy_def ConfidentialHart_new_def set_dump_def Let_def)

definition example_switch_environment :: environment where
  "example_switch_environment = example_boot_environment
     \<lparr>hardware_hart_address := (\<lambda>n. 0x8A760000 + 0x1000 * n), confidential_hart_address := (\<lambda>n. 0x8A760700 + 0x1000 * n)\<rparr>"

theorem context_switches_work_from_boot_on_witness:
  "\<exists>t h m. init_security_monitor (\<lambda>_. Some example_device_tree) 16 example_switch_environment 0x1000 example_boot = (Ok (), t)
     \<and> HARTS_STATES t = Some [h]
     \<and> m = machine_after_boot example_switch_environment example_firmware example_absent t
     \<and> \<not> running (view_of m 0)
     \<and> hypervisor_switch_refines example_hart_layout \<lparr>registers = index, csr_registers = csrs (view_of m 0),
         words = (\<lambda>_. 0)(0x8A760600 := stack_address (hardware (view_of m 0)))\<rparr> (view_of m 0)"
proof -
  let ?env = "example_switch_environment"
  obtain t h where t: "init_security_monitor (\<lambda>_. Some example_device_tree) 16 ?env 0x1000 example_boot = (Ok (), t)"
    "MEMORY_LAYOUT t = Some (layout ?env)" and hs: "HARTS_STATES t = Some [h]"
    using example_boot_run [of ?env] by (auto simp: example_switch_environment_def example_boot_environment_def)
  let ?m = "machine_after_boot ?env example_firmware example_absent t"
  let ?c = "\<lparr>registers = index, csr_registers = csrs (view_of ?m 0),
         words = (\<lambda>_. 0)(0x8A760600 := stack_address (hardware (view_of ?m 0)))\<rparr>"
  have env: "opensbi_keeps_protection ?env" "opensbi_keeps_mscratch ?env" "repr_C example_hart_layout"
    "fits example_hart_layout (hardware_hart_address ?env 0)"
    "confidential_hart_address ?env 0 = confidential_area example_hart_layout (hardware_hart_address ?env 0)"
    by (simp_all add: opensbi_keeps_protection_def opensbi_keeps_mscratch_def example_switch_environment_def
        example_boot_environment_def example_environment_def repr_C_def fits_def confidential_area_def
        example_hart_layout_def)
  note state = hart_after_setup_state [where firmware = example_firmware and absent = example_absent and n = 0,
      OF t(1) example_boot_simps(1-4) t(2) hs _ example_firmware_ok [THEN conjunct1] refl, simplified]
  have stack: "hardware_hart_address ?env 0 + HART_STACK_ADDRESS_OFFSET example_hart_layout = 0x8A760600"
    by (simp add: example_switch_environment_def example_hart_layout_def)
  have holds: "holds_hart example_hart_layout (hardware_hart_address ?env 0) (hardware (view_of ?m 0)) (words ?c)"
    using holds_cleared_hart [OF env(3,4), of "hardware (view_of ?m 0)"] state(3,4)
    by (simp add: stack example_hart_gprs)
  from context_switches_work_from_boot_on [OF t(1) example_boot_simps(1-4) t(2) hs _ example_firmware_ok [THEN conjunct1] env(1,2)
      rtranclp.rtrancl_refl env(3-5) _ holds] state(1) t hs
  show ?thesis by auto
qed

end
